(* ===== verification/Prelude.thy ===== *)
theory Prelude
  imports Main "HOL-Library.Sublist" "HOL-Library.Multiset" "HOL-Library.AList"
begin

text \<open>
  What the component theories share: the JavaScript library operations the sources use (array
  operations by index, string splitting, trimming and prefix tests, decimal numerals), stable
  sorting by a preference relation, and two interfaces: \<open>action_machine\<close> (a reducer with an
  invariant its admissible actions keep, and the theorem about runs) and \<open>preference\<close> (a
  comparison a sort may rely on). Objects used as dictionaries are in \<open>JsObject\<close>.

  Strings are char lists: a character stands for a UTF-16 code unit below 256, so the source's
  \<open>length\<close>, \<open>slice\<close> and \<open>startsWith\<close> are those of the list.
\<close>

named_theorems js_defs \<comment> \<open>definitions of library operations, unfolded in component proofs\<close>

section \<open>Arrays\<close>

text \<open>\<open>findIndex\<close>; the source's -1 is \<open>None\<close>.\<close>

fun find_index :: "('a \<Rightarrow> bool) \<Rightarrow> 'a list \<Rightarrow> nat option" where
  "find_index P [] = None"
| "find_index P (x # xs) = (if P x then Some 0 else map_option Suc (find_index P xs))"

text \<open>\<open>a.splice(i, 0, x)\<close> for \<open>i <= a.length\<close>, and removal of one element by index.\<close>

definition insert_at :: "nat \<Rightarrow> 'a \<Rightarrow> 'a list \<Rightarrow> 'a list" where
  "insert_at i x xs = take i xs @ x # drop i xs"

definition remove_at :: "nat \<Rightarrow> 'a list \<Rightarrow> 'a list" where
  "remove_at i xs = take i xs @ drop (Suc i) xs"

lemma find_index_None [simp]: "find_index P xs = None \<longleftrightarrow> (\<forall>x \<in> set xs. \<not> P x)"
  by (induction xs) auto

lemma find_index_Some:
  "find_index P xs = Some i \<Longrightarrow> i < length xs \<and> P (xs ! i) \<and> (\<forall>j < i. \<not> P (xs ! j))"
proof (induction xs arbitrary: i)
  case Nil
  then show ?case by simp
next
  case (Cons x xs)
  show ?case
  proof (cases "P x")
    case True
    with Cons.prems show ?thesis by simp
  next
    case False
    with Cons.prems obtain k where "find_index P xs = Some k" and "i = Suc k" by auto
    with Cons.IH [of k] False show ?thesis by (auto simp: nth_Cons split: nat.splits)
  qed
qed

lemma find_index_exists: "\<exists>x \<in> set xs. P x \<Longrightarrow> \<exists>i. find_index P xs = Some i"
  by (induction xs) auto

lemma find_Some_mem: "find P xs = Some x \<Longrightarrow> x \<in> set xs \<and> P x"
  by (auto simp: find_Some_iff)

lemma find_append: "find P (xs @ ys) = (case find P xs of Some x \<Rightarrow> Some x | None \<Rightarrow> find P ys)"
  by (induction xs) auto

lemma find_None_iff_all: "find P xs = None \<longleftrightarrow> (\<forall>x \<in> set xs. \<not> P x)"
  by (auto simp: find_None_iff)

lemma find_index_find: "find_index P xs = Some i \<Longrightarrow> find P xs = Some (xs ! i)"
  by (induction xs arbitrary: i) auto

lemma option_eqI: "(\<And>x. a = Some x \<longleftrightarrow> b = Some x) \<Longrightarrow> a = b"
  by (cases a; cases b) (simp_all, blast+)

lemma kept_by_ids:
  assumes "distinct (map f (xs @ ys))"
  shows "set xs = {t \<in> set (xs @ ys). f t \<notin> set (map f ys)}"
    "set ys = {t \<in> set (xs @ ys). f t \<notin> set (map f xs)}"
  using assms by auto

lemma find_index_split:
  "find_index (\<lambda>t. f t = i) ts = Some n \<Longrightarrow>
     takeWhile (\<lambda>j. j \<noteq> i) (map f ts) = map f (take n ts) \<and>
     tl (dropWhile (\<lambda>j. j \<noteq> i) (map f ts)) = map f (drop (Suc n) ts)"
  by (induction ts arbitrary: n) (auto split: if_splits)

lemma find_list_update:
  "find_index P xs = Some n \<Longrightarrow> P y \<Longrightarrow> find P (xs[n := y]) = Some y"
  by (induction xs arbitrary: n) (auto split: if_splits)

lemma find_list_update_other:
  "n < length xs \<Longrightarrow> \<not> P (xs ! n) \<Longrightarrow> \<not> P y \<Longrightarrow> find P (xs[n := y]) = find P xs"
  by (induction xs arbitrary: n) (auto simp: nth_Cons split: nat.splits)

lemma length_insert_at [simp]: "length (insert_at i x xs) = Suc (length xs)"
  by (simp add: insert_at_def)

lemma set_insert_at [simp]: "set (insert_at i x xs) = insert x (set xs)"
  by (simp add: insert_at_def) (metis append_take_drop_id set_append)

lemma insert_at_Nil [simp]: "insert_at i x [] = [x]"
  by (simp add: insert_at_def)

lemma map_insert_at: "map f (insert_at i x xs) = insert_at i (f x) (map f xs)"
  by (simp add: insert_at_def take_map drop_map)

lemma distinct_insert_at [simp]:
  "distinct (insert_at i x xs) \<longleftrightarrow> x \<notin> set xs \<and> distinct xs"
proof -
  have "mset (insert_at i x xs) = mset (x # xs)"
    by (simp add: insert_at_def) (metis append_take_drop_id mset_append)
  then have "distinct (insert_at i x xs) = distinct (x # xs)"
    by (metis mset_eq_imp_distinct_iff)
  then show ?thesis by simp
qed

lemma mset_remove_insert_at:
  "i < length xs \<Longrightarrow> mset (insert_at j (xs ! i) (remove_at i xs)) = mset xs"
proof -
  assume i: "i < length xs"
  have "mset (insert_at j (xs ! i) ys) = add_mset (xs ! i) (mset ys)" for ys
    by (simp add: insert_at_def) (metis append_take_drop_id mset_append union_mset_add_mset_right)
  moreover have "mset xs = add_mset (xs ! i) (mset (remove_at i xs))"
    using id_take_nth_drop [OF i] unfolding remove_at_def
    by (metis mset.simps(2) mset_append union_mset_add_mset_right)
  ultimately show ?thesis by simp
qed


section \<open>Strings\<close>

abbreviation starts_with :: "string \<Rightarrow> string \<Rightarrow> bool" where
  "starts_with s p \<equiv> prefix p s"

abbreviation ends_with :: "string \<Rightarrow> string \<Rightarrow> bool" where
  "ends_with s p \<equiv> suffix p s"

text \<open>\<open>s.split(c)\<close> for a one-character separator, and \<open>ws.join(sep)\<close>.\<close>

fun js_split :: "char \<Rightarrow> string \<Rightarrow> string list" where
  "js_split c [] = [[]]"
| "js_split c (x # xs) =
     (if x = c then [] # js_split c xs
      else (case js_split c xs of [] \<Rightarrow> [[x]] | w # ws \<Rightarrow> (x # w) # ws))"

fun js_join :: "string \<Rightarrow> string list \<Rightarrow> string" where
  "js_join sep [] = []"
| "js_join sep [w] = w"
| "js_join sep (w # v # ws) = w @ sep @ js_join sep (v # ws)"

text \<open>White space that \<open>trim\<close> removes (the code units below 256), lower case on code units
  below 256.\<close>

definition is_space :: "char \<Rightarrow> bool" where
  "is_space c = (of_char c \<in> {9, 10, 11, 12, 13, 32, 160 :: nat})"

definition js_trim :: "string \<Rightarrow> string" where
  "js_trim s = rev (dropWhile is_space (rev (dropWhile is_space s)))"

definition char_lower :: "char \<Rightarrow> char" where
  "char_lower c = (let n = of_char c :: nat in
     if (65 \<le> n \<and> n \<le> 90) \<or> (192 \<le> n \<and> n \<le> 222 \<and> n \<noteq> 215) then char_of (n + 32) else c)"

text \<open>Both on the bits of a character, for evaluation.\<close>

lemma char_lower_code [code]:
  "char_lower (Char b0 b1 b2 b3 b4 b5 b6 b7) =
    (if b6 \<and> \<not> b5 \<and> (if b7 then \<not> (b0 \<and> b1 \<and> b2 \<and> b3 \<and> b4) \<and> \<not> (b0 \<and> b1 \<and> b2 \<and> \<not> b3 \<and> b4)
       else (b0 \<or> b1 \<or> b2 \<or> b3 \<or> b4) \<and> \<not> (b4 \<and> b3 \<and> (b2 \<or> b1 \<and> b0)))
     then Char b0 b1 b2 b3 b4 True b6 b7 else Char b0 b1 b2 b3 b4 b5 b6 b7)"
  by (cases b0; cases b1; cases b2; cases b3; cases b4; cases b5; cases b6; cases b7)
    (simp_all add: char_lower_def of_char_def char_of_def bit_0)

lemma is_space_code [code]:
  "is_space (Char b0 b1 b2 b3 b4 b5 b6 b7) =
    (\<not> b4 \<and> \<not> b6 \<and> (if b7 then b5 \<and> \<not> b0 \<and> \<not> b1 \<and> \<not> b2 \<and> \<not> b3
      else if b5 then \<not> b0 \<and> \<not> b1 \<and> \<not> b2 \<and> \<not> b3 else b3 \<and> (if b2 then \<not> b1 else b0 \<or> b1)))"
  by (cases b0; cases b1; cases b2; cases b3; cases b4; cases b5; cases b6; cases b7)
    (simp_all add: is_space_def of_char_def)

definition js_lower :: "string \<Rightarrow> string" where
  "js_lower s = map char_lower s"

text \<open>\<open>parts.filter(Boolean)\<close> on strings, and the truthiness of an optional string.\<close>

definition filter_truthy :: "string list \<Rightarrow> string list" where
  "filter_truthy ws = filter (\<lambda>w. w \<noteq> []) ws"

definition or_null :: "string option \<Rightarrow> string option" where
  "or_null v = (case v of Some s \<Rightarrow> if s = [] then None else Some s | None \<Rightarrow> None)"

lemma js_split_ne [simp]: "js_split c s \<noteq> []"
  by (cases s) (auto split: list.splits)

lemma js_join_split [simp]: "js_join [c] (js_split c s) = s"
proof (induction s)
  case Nil
  then show ?case by simp
next
  case (Cons x s)
  obtain v vs where "js_split c s = v # vs" by (cases "js_split c s") auto
  with Cons show ?case by (cases vs) auto
qed

lemma js_split_no_sep: "w \<in> set (js_split c s) \<Longrightarrow> c \<notin> set w"
proof (induction s arbitrary: w)
  case Nil
  then show ?case by simp
next
  case (Cons x s)
  obtain v vs where s: "js_split c s = v # vs" by (cases "js_split c s") auto
  show ?case
  proof (cases "x = c")
    case True
    with Cons show ?thesis by auto
  next
    case False
    with Cons.prems s have "w = x # v \<or> w \<in> set vs" by auto
    with Cons.IH [of v] Cons.IH [of w] s False show ?thesis by auto
  qed
qed

lemma js_split_no_sep_single: "c \<notin> set w \<Longrightarrow> js_split c w = [w]"
  by (induction w) auto

lemma js_split_append: "c \<notin> set w \<Longrightarrow> js_split c (w @ c # s) = w # js_split c s"
  by (induction w) auto

lemma js_split_append2:
  "js_split c (a @ c # b) = js_split c a @ js_split c b"
proof (induction a)
  case Nil
  then show ?case by simp
next
  case (Cons x a)
  then show ?case by (cases "js_split c a") auto
qed

lemma join_snoc: "ws \<noteq> [] \<Longrightarrow> js_join sep (ws @ [w]) = js_join sep ws @ sep @ w"
  by (induction sep ws rule: js_join.induct) auto

lemma js_split_join:
  "ws \<noteq> [] \<Longrightarrow> \<forall>w \<in> set ws. c \<notin> set w \<Longrightarrow> js_split c (js_join [c] ws) = ws"
  by (induction "[c]" ws rule: js_join.induct) (auto simp: js_split_append js_split_no_sep_single)

lemma filter_truthy_id: "\<forall>w \<in> set ws. w \<noteq> [] \<Longrightarrow> filter_truthy ws = ws"
  by (simp add: filter_truthy_def)

lemma filter_truthy_idem [simp]: "filter_truthy (filter_truthy ws) = filter_truthy ws"
  by (simp add: filter_truthy_def)

lemma filter_truthy_append [simp]:
  "filter_truthy (xs @ ys) = filter_truthy xs @ filter_truthy ys"
  by (simp add: filter_truthy_def)

text \<open>\<open>String(n)\<close> for a natural number, and its inverse on digit strings.\<close>

fun string_of_nat :: "nat \<Rightarrow> string" where
  "string_of_nat n =
     (if n < 10 then [char_of (48 + n)]
      else string_of_nat (n div 10) @ [char_of (48 + n mod 10)])"

declare string_of_nat.simps [simp del]

definition nat_of_digits :: "string \<Rightarrow> nat" where
  "nat_of_digits s = foldl (\<lambda>a c. 10 * a + (of_char c - 48)) 0 s"

lemma of_char_digit: "d < 10 \<Longrightarrow> of_char (char_of (48 + d) :: char) = (48 + d :: nat)"
  by (simp add: of_char_of)

lemma nat_of_string_of_nat [simp]: "nat_of_digits (string_of_nat n) = n"
proof (induction n rule: string_of_nat.induct)
  case (1 n)
  show ?case
  proof (cases "n < 10")
    case True
    then show ?thesis by (simp add: string_of_nat.simps [of n] nat_of_digits_def of_char_digit)
  next
    case False
    with "1.IH" have "nat_of_digits (string_of_nat (n div 10)) = n div 10" by simp
    with False show ?thesis
      by (simp add: string_of_nat.simps [of n] nat_of_digits_def of_char_digit)
  qed
qed

lemma string_of_nat_inject [simp]: "string_of_nat m = string_of_nat n \<longleftrightarrow> m = n"
  by (metis nat_of_string_of_nat)

lemma string_of_nat_ne [simp]: "string_of_nat n \<noteq> []"
  by (subst string_of_nat.simps) simp

lemma string_of_nat_digits:
  "c \<in> set (string_of_nat n) \<Longrightarrow> 48 \<le> (of_char c :: nat) \<and> (of_char c :: nat) \<le> 57"
proof (induction n rule: string_of_nat.induct)
  case (1 n)
  have d: "48 \<le> (of_char (char_of (48 + m)) :: nat) \<and> (of_char (char_of (48 + m)) :: nat) \<le> 57"
    if "m < 10" for m :: nat
    using of_char_digit [OF that] that by simp
  show ?case
  proof (cases "n < 10")
    case True
    with "1.prems" d [of n] show ?thesis by (simp add: string_of_nat.simps [of n])
  next
    case False
    have "n mod 10 < 10" by simp
    from d [OF this] "1.IH" "1.prems" False show ?thesis
      by (subst (asm) string_of_nat.simps) (auto simp del: of_char_of)
  qed
qed

lemma string_of_nat_no_sep: "CHR ''-'' \<notin> set (string_of_nat n)"
  using string_of_nat_digits [of "CHR ''-''" n] by auto

declare filter_truthy_def [js_defs] js_trim_def [js_defs] js_lower_def [js_defs]
  insert_at_def [js_defs] remove_at_def [js_defs] or_null_def [js_defs]

section \<open>Reducers: runs of actions\<close>

text \<open>
  A reducer is a function of a state and an action. \<open>run_actions\<close> dispatches a list of actions;
  \<open>ok_run\<close> says that each action is admissible in the state it meets.
\<close>

definition run_actions :: "('s \<Rightarrow> 'a \<Rightarrow> 's) \<Rightarrow> 's \<Rightarrow> 'a list \<Rightarrow> 's" where
  "run_actions step s as = foldl step s as"

fun ok_run :: "('s \<Rightarrow> 'a \<Rightarrow> 's) \<Rightarrow> ('s \<Rightarrow> 'a \<Rightarrow> bool) \<Rightarrow> 's \<Rightarrow> 'a list \<Rightarrow> bool" where
  "ok_run step ok s [] = True"
| "ok_run step ok s (a # as) = (ok s a \<and> ok_run step ok (step s a) as)"

lemma run_actions_simps [simp]:
  "run_actions step s [] = s"
  "run_actions step s (a # as) = run_actions step (step s a) as"
  "run_actions step s (as @ bs) = run_actions step (run_actions step s as) bs"
  by (simp_all add: run_actions_def)

locale action_machine =
  fixes step :: "'s \<Rightarrow> 'a \<Rightarrow> 's"
    and inv :: "'s \<Rightarrow> bool"
    and ok :: "'s \<Rightarrow> 'a \<Rightarrow> bool"
  assumes step_inv: "inv s \<Longrightarrow> ok s a \<Longrightarrow> inv (step s a)"
begin

lemma run_inv: "inv s \<Longrightarrow> ok_run step ok s as \<Longrightarrow> inv (run_actions step s as)"
  by (induction as arbitrary: s) (auto intro: step_inv)

lemma run_inv_prefix:
  "inv s \<Longrightarrow> ok_run step ok s (as @ bs) \<Longrightarrow> inv (run_actions step s as)"
  by (induction as arbitrary: s) (auto intro: step_inv)

end

section \<open>Stable sorting\<close>

text \<open>
  \<open>Array.prototype.sort\<close> is stable; with a comparator that is a total preorder its result is
  determined: the stable sort. \<open>le x y\<close> stands for \<open>compare(x, y) <= 0\<close>.
\<close>

fun insert_by :: "('a \<Rightarrow> 'a \<Rightarrow> bool) \<Rightarrow> 'a \<Rightarrow> 'a list \<Rightarrow> 'a list" where
  "insert_by le x [] = [x]"
| "insert_by le x (y # ys) = (if le x y then x # y # ys else y # insert_by le x ys)"

definition sort_by :: "('a \<Rightarrow> 'a \<Rightarrow> bool) \<Rightarrow> 'a list \<Rightarrow> 'a list" where
  "sort_by le xs = foldr (insert_by le) xs []"

lemma sort_by_simps [simp]:
  "sort_by le [] = []"
  "sort_by le (x # xs) = insert_by le x (sort_by le xs)"
  by (simp_all add: sort_by_def)

lemma mset_insert_by [simp]: "mset (insert_by le x xs) = add_mset x (mset xs)"
  by (induction xs) auto

lemma mset_sort_by [simp]: "mset (sort_by le xs) = mset xs"
  by (induction xs) auto

lemma set_sort_by [simp]: "set (sort_by le xs) = set xs"
  by (metis mset_sort_by set_mset_mset)

lemma length_sort_by [simp]: "length (sort_by le xs) = length xs"
  by (metis mset_sort_by size_mset)

lemma distinct_sort_by [simp]: "distinct (sort_by le xs) = distinct xs"
  by (metis mset_sort_by mset_eq_imp_distinct_iff)

locale preference =
  fixes le :: "'a \<Rightarrow> 'a \<Rightarrow> bool"
  assumes total: "le x y \<or> le y x"
    and trans: "le x y \<Longrightarrow> le y z \<Longrightarrow> le x z"
begin

lemma insert_by_sorted: "sorted_wrt le xs \<Longrightarrow> sorted_wrt le (insert_by le x xs)"
proof (induction xs)
  case Nil
  then show ?case by simp
next
  case (Cons y ys)
  have "set (insert_by le x ys) = insert x (set ys)"
    by (metis mset_insert_by set_mset_add_mset_insert set_mset_mset)
  with Cons show ?case using total [of x y] by (auto intro: trans)
qed

lemma sort_by_sorted: "sorted_wrt le (sort_by le xs)"
  by (induction xs) (auto intro: insert_by_sorted)

lemma insert_by_min: "\<forall>y \<in> set ys. le x y \<Longrightarrow> insert_by le x ys = x # ys"
  by (cases ys) auto

lemma sort_by_id: "sorted_wrt le xs \<Longrightarrow> sort_by le xs = xs"
  by (induction xs) (auto simp: insert_by_min)

lemma sort_by_idem: "sort_by le (sort_by le xs) = sort_by le xs"
  by (rule sort_by_id [OF sort_by_sorted])

end

section \<open>String collation\<close>

text \<open>
  \<open>a.localeCompare(b)\<close> depends on the user's locale, so it is a parameter \<open>lc\<close> of the definitions
  that use it. What they rely on: it compares consistently (a total preorder), and, where stated, a
  string sorts before its extensions. \<open>code_unit_compare\<close> is one such comparison.
\<close>

definition collates :: "(string \<Rightarrow> string \<Rightarrow> int) \<Rightarrow> bool" where
  "collates lc \<longleftrightarrow> (\<forall>x y. sgn (lc x y) = - sgn (lc y x)) \<and>
     (\<forall>x y z. lc x y \<le> 0 \<longrightarrow> lc y z \<le> 0 \<longrightarrow> lc x z \<le> 0)"

definition prefix_first :: "(string \<Rightarrow> string \<Rightarrow> int) \<Rightarrow> bool" where
  "prefix_first lc \<longleftrightarrow> (\<forall>x y. strict_prefix x y \<longrightarrow> lc x y < 0)"

fun code_unit_compare :: "string \<Rightarrow> string \<Rightarrow> int" where
  "code_unit_compare [] [] = 0"
| "code_unit_compare [] (y # ys) = - 1"
| "code_unit_compare (x # xs) [] = 1"
| "code_unit_compare (x # xs) (y # ys) =
     (if x = y then code_unit_compare xs ys
      else if (of_char x :: nat) < of_char y then - 1 else 1)"

lemma code_unit_sgn: "sgn (code_unit_compare x y) = - sgn (code_unit_compare y x)"
  by (induction x y rule: code_unit_compare.induct) (auto simp: not_less le_less)

lemma code_unit_trans:
  "code_unit_compare x y \<le> 0 \<Longrightarrow> code_unit_compare y z \<le> 0 \<Longrightarrow> code_unit_compare x z \<le> 0"
proof (induction x y arbitrary: z rule: code_unit_compare.induct)
  case (1 z)
  then show ?case by simp
next
  case (2 y ys z)
  then show ?case by (cases z) simp_all
next
  case (3 x xs z)
  then show ?case by simp
next
  case (4 x xs y ys z)
  then show ?case by (cases z) (auto split: if_splits)
qed

lemma code_unit_collates: "collates code_unit_compare"
  unfolding collates_def by (blast intro: code_unit_sgn code_unit_trans)

lemma code_unit_prefix_first: "prefix_first code_unit_compare"
proof -
  have "strict_prefix x y \<Longrightarrow> code_unit_compare x y < 0" for x y
    by (induction x y rule: code_unit_compare.induct) auto
  then show ?thesis by (simp add: prefix_first_def)
qed

lemma collates_sgn: "collates lc \<Longrightarrow> sgn (lc x y) = - sgn (lc y x)"
  unfolding collates_def by blast

lemma collates_total: "collates lc \<Longrightarrow> lc x y \<le> 0 \<or> lc y x \<le> 0"
  using collates_sgn [of lc x y] by (auto simp: sgn_if split: if_splits)

lemma collates_trans: "collates lc \<Longrightarrow> lc x y \<le> 0 \<Longrightarrow> lc y z \<le> 0 \<Longrightarrow> lc x z \<le> 0"
  unfolding collates_def by blast

lemma collates_neg: "collates lc \<Longrightarrow> lc x y < 0 \<Longrightarrow> 0 < lc y x"
  using collates_sgn [of lc x y] by (auto simp: sgn_if split: if_splits)

text \<open>A comparison by an integer rank and then by collation is a preference.\<close>

lemma preference_rank_then_collate:
  assumes "collates lc"
  shows "preference (\<lambda>a b. (if r a - r b \<noteq> (0::int) then r a - r b else lc (key a) (key b)) \<le> 0)"
proof
  show "(if r x - r y \<noteq> 0 then r x - r y else lc (key x) (key y)) \<le> 0 \<or>
      (if r y - r x \<noteq> 0 then r y - r x else lc (key y) (key x)) \<le> 0" for x y
    using collates_total [OF assms, of "key x" "key y"] by auto
  show "(if r x - r y \<noteq> 0 then r x - r y else lc (key x) (key y)) \<le> 0 \<Longrightarrow>
      (if r y - r z \<noteq> 0 then r y - r z else lc (key y) (key z)) \<le> 0 \<Longrightarrow>
      (if r x - r z \<noteq> 0 then r x - r z else lc (key x) (key z)) \<le> 0" for x y z
    using collates_trans [OF assms, of "key x" "key y" "key z"] by (auto split: if_splits)
qed

end
