(* ===== verification/GridLayout.thy ===== *)
theory GridLayout
  imports Complex_Main Prelude
begin

text \<open>
  The split-pane layout: \<open>GridNode\<close> of \<open>src/src/lib/terminal-group-types.ts\<close> and the tree helpers
  of \<open>src/src/lib/terminal-group-reducer.ts\<close>. Pane sizes are JavaScript numbers: exact rationals
  here (rounding of doubles is not modelled), with \<open>NaN\<close> for the value arithmetic gives when a size
  is missing (\<open>sizes\<close> shorter than \<open>children\<close>).
\<close>

datatype jsnum = Num rat | NaN

datatype split_direction = Up | Down | Left | Right

datatype orientation = Horizontal | Vertical

datatype grid_node = Leaf string | Branch orientation "grid_node list" "jsnum list"

section \<open>Operations\<close>

fun findLeafPath :: "grid_node \<Rightarrow> string \<Rightarrow> nat list option"
  and findLeafPathIn :: "nat \<Rightarrow> grid_node list \<Rightarrow> string \<Rightarrow> nat list option" where
  "findLeafPath (Leaf g) groupId = (if g = groupId then Some [] else None)"
| "findLeafPath (Branch d cs sz) groupId = findLeafPathIn 0 cs groupId"
| "findLeafPathIn i [] groupId = None"
| "findLeafPathIn i (c # cs) groupId =
     (case findLeafPath c groupId of
        Some sub \<Rightarrow> Some (i # sub)
      | None \<Rightarrow> findLeafPathIn (Suc i) cs groupId)"

fun insertSplit :: "grid_node \<Rightarrow> string \<Rightarrow> string \<Rightarrow> split_direction \<Rightarrow> grid_node" where
  "insertSplit (Leaf g) groupId newGroupId direction =
     (if g \<noteq> groupId then Leaf g
      else
        let branchDir = (if direction = Left \<or> direction = Right then Horizontal else Vertical);
            oldLeaf = Leaf groupId;
            newLeaf = Leaf newGroupId;
            children = (if direction = Right \<or> direction = Down then [oldLeaf, newLeaf]
                        else [newLeaf, oldLeaf])
        in Branch branchDir children [Num 50, Num 50])"
| "insertSplit (Branch d cs sz) groupId newGroupId direction =
     Branch d (map (\<lambda>c. insertSplit c groupId newGroupId direction) cs) sz"

fun num_add :: "jsnum \<Rightarrow> jsnum \<Rightarrow> jsnum" where
  "num_add (Num a) (Num b) = Num (a + b)"
| "num_add _ _ = NaN"

text \<open>\<open>(s / sum) * 100\<close>; \<open>normalizeSizes\<close> uses it with a sum that is not 0.\<close>

fun percent_of :: "jsnum \<Rightarrow> jsnum \<Rightarrow> jsnum" where
  "percent_of (Num t) (Num s) = Num (s / t * 100)"
| "percent_of _ _ = NaN"

definition normalizeSizes :: "jsnum list \<Rightarrow> jsnum list" where
  "normalizeSizes sizes =
     (let sum = foldl num_add (Num 0) sizes in
      if sum = Num 0 then map (\<lambda>_. Num (100 / of_nat (length sizes))) sizes
      else map (percent_of sum) sizes)"

text \<open>\<open>node.sizes[i]\<close> for \<open>i < n\<close>; a missing entry is \<open>undefined\<close>, which arithmetic reads as NaN.\<close>

definition sizes_upto :: "nat \<Rightarrow> jsnum list \<Rightarrow> jsnum list" where
  "sizes_upto n sizes = map (\<lambda>i. if i < length sizes then sizes ! i else NaN) [0..<n]"

fun keep_some :: "('a option \<times> 'b) list \<Rightarrow> ('a \<times> 'b) list" where
  "keep_some [] = []"
| "keep_some ((None, s) # rs) = keep_some rs"
| "keep_some ((Some c, s) # rs) = (c, s) # keep_some rs"

fun removeLeaf :: "grid_node \<Rightarrow> string \<Rightarrow> grid_node option" where
  "removeLeaf (Leaf g) groupId = (if g = groupId then None else Some (Leaf g))"
| "removeLeaf (Branch d cs sz) groupId =
     (let kept = keep_some (zip (map (\<lambda>c. removeLeaf c groupId) cs) (sizes_upto (length cs) sz));
          newChildren = map fst kept;
          newSizes = map snd kept
      in if newChildren = [] then None
         else if length newChildren = length cs \<and> newChildren = cs then Some (Branch d cs sz)
         else Some (Branch d newChildren (normalizeSizes newSizes)))"

fun simplifyTree :: "grid_node \<Rightarrow> grid_node" where
  "simplifyTree (Leaf g) = Leaf g"
| "simplifyTree (Branch d cs sz) =
     (case map simplifyTree cs of
        [c] \<Rightarrow> c
      | simplified \<Rightarrow> Branch d simplified sz)"

text \<open>\<open>updateSizes\<close>: the path entries are integers, of which negative and too large ones are refused.\<close>

fun updateSizes :: "grid_node \<Rightarrow> int list \<Rightarrow> jsnum list \<Rightarrow> grid_node" where
  "updateSizes (Branch d cs sz) [] sizes = Branch d cs sizes"
| "updateSizes (Leaf g) path sizes = Leaf g"
| "updateSizes (Branch d cs sz) (idx # rest) sizes =
     (if idx < 0 \<or> idx \<ge> int (length cs) then Branch d cs sz
      else Branch d (cs[nat idx := updateSizes (cs ! nat idx) rest sizes]) sz)"

fun collectLeafIds :: "grid_node \<Rightarrow> string list" where
  "collectLeafIds (Leaf g) = [g]"
| "collectLeafIds (Branch d cs sz) = concat (map collectLeafIds cs)"

section \<open>Well-formed layouts\<close>

text \<open>
  The abstract layout: every branch has at least two panes and one size per pane, the sizes are
  numbers, none negative, that add up to 100.
\<close>

fun num_val :: "jsnum \<Rightarrow> rat" where
  "num_val (Num a) = a"
| "num_val NaN = 0"

definition sizes_ok :: "nat \<Rightarrow> jsnum list \<Rightarrow> bool" where
  "sizes_ok n sz \<longleftrightarrow> length sz = n \<and> NaN \<notin> set sz \<and> (\<forall>s \<in> set sz. 0 \<le> num_val s)
     \<and> sum_list (map num_val sz) = 100"

fun grid_ok :: "grid_node \<Rightarrow> bool" where
  "grid_ok (Leaf g) = True"
| "grid_ok (Branch d cs sz) =
     (2 \<le> length cs \<and> sizes_ok (length cs) sz \<and> (\<forall>c \<in> set cs. grid_ok c))"

text \<open>The subtree a path of child indices leads to.\<close>

fun subtree_at :: "grid_node \<Rightarrow> nat list \<Rightarrow> grid_node option" where
  "subtree_at n [] = Some n"
| "subtree_at (Leaf g) (i # p) = None"
| "subtree_at (Branch d cs sz) (i # p) = (if i < length cs then subtree_at (cs ! i) p else None)"

section \<open>Sizes\<close>

lemma foldl_num_add: "foldl num_add a sz =
   (if a = NaN \<or> NaN \<in> set sz then NaN else Num (num_val a + sum_list (map num_val sz)))"
proof (induction sz arbitrary: a)
  case Nil
  then show ?case by (cases a) auto
next
  case (Cons s sz)
  then show ?case by (cases a; cases s) (auto simp: add.assoc)
qed

lemma length_normalizeSizes [simp]: "length (normalizeSizes sz) = length sz"
  by (simp add: normalizeSizes_def Let_def)

lemma normalizeSizes_nums:
  "NaN \<notin> set sz \<Longrightarrow> normalizeSizes sz =
     (let t = sum_list (map num_val sz) in
      if t = 0 then map (\<lambda>_. Num (100 / of_nat (length sz))) sz
      else map (\<lambda>s. Num (num_val s / t * 100)) sz)"
proof -
  assume a: "NaN \<notin> set sz"
  have "percent_of (Num t) s = Num (num_val s / t * 100)" if "s \<in> set sz" for s t
    using a that by (cases s) auto
  with a show ?thesis by (simp add: normalizeSizes_def Let_def foldl_num_add cong: map_cong)
qed

lemma sum_list_scale: "sum_list (map (\<lambda>s. f s * 100 / t) xs) = sum_list (map f xs) * (100::rat) / t"
  by (induction xs) (auto simp: field_simps add_divide_distrib)

lemma normalizeSizes_ok:
  assumes "sz \<noteq> []" "NaN \<notin> set sz" "\<forall>s \<in> set sz. 0 \<le> num_val s"
  shows "sizes_ok (length sz) (normalizeSizes sz)"
proof (cases "sum_list (map num_val sz) = 0")
  case True
  with assms show ?thesis
    by (auto simp: sizes_ok_def normalizeSizes_nums comp_def sum_list_replicate map_replicate_const)
next
  case False
  moreover have "0 \<le> sum_list (map num_val sz)"
    using assms(3) by (intro sum_list_nonneg) auto
  ultimately show ?thesis using assms
    by (auto simp: sizes_ok_def normalizeSizes_nums comp_def sum_list_scale)
qed

lemma normalizeSizes_id: "sizes_ok n sz \<Longrightarrow> normalizeSizes sz = sz"
proof -
  assume a: "sizes_ok n sz"
  have "Num (num_val s) = s" if "s \<in> set sz" for s
    using a that by (cases s) (auto simp: sizes_ok_def)
  with a show ?thesis by (auto simp: sizes_ok_def normalizeSizes_nums intro: map_idI)
qed

lemma sizes_upto_id [simp]: "length sz = n \<Longrightarrow> sizes_upto n sz = sz"
  by (auto simp: sizes_upto_def intro: nth_equalityI)

lemma length_sizes_upto [simp]: "length (sizes_upto n sz) = n"
  by (simp add: sizes_upto_def)


section \<open>Leaves\<close>

lemma keep_some_fst:
  "length rs = length ss \<Longrightarrow> map fst (keep_some (zip rs ss)) = List.map_filter id rs"
proof (induction rs ss rule: list_induct2)
  case Nil
  then show ?case by (simp add: map_filter_simps)
next
  case (Cons r rs s ss)
  then show ?case by (cases r) (auto simp: map_filter_simps)
qed

lemma keep_some_snd_subset: "set (map snd (keep_some (zip rs ss))) \<subseteq> set ss"
proof (induction rs arbitrary: ss)
  case Nil
  then show ?case by simp
next
  case (Cons r rs)
  then show ?case by (cases ss; cases r) fastforce+
qed

lemma map_filter_map: "List.map_filter id (map f xs) = List.map_filter f xs"
  by (induction xs) (auto simp: map_filter_simps split: option.splits)

lemma map_filter_all_id: "\<forall>x \<in> set xs. f x = Some x \<Longrightarrow> List.map_filter f xs = xs"
  by (induction xs) (auto simp: map_filter_simps)

lemma set_map_filter_iff: "y \<in> set (List.map_filter f xs) \<longleftrightarrow> (\<exists>x \<in> set xs. f x = Some y)"
  by (induction xs) (auto simp: map_filter_simps split: option.splits)

text \<open>The equation the proofs use: which children survive, and what happens to them.\<close>

lemma removeLeaf_Branch:
  "removeLeaf (Branch d cs sz) g =
     (let new = List.map_filter (\<lambda>c. removeLeaf c g) cs in
      if new = [] then None
      else if new = cs then Some (Branch d cs sz)
      else Some (Branch d new (normalizeSizes
        (map snd (keep_some (zip (map (\<lambda>c. removeLeaf c g) cs) (sizes_upto (length cs) sz)))))))"
proof -
  let ?K = "keep_some (zip (map (\<lambda>c. removeLeaf c g) cs) (sizes_upto (length cs) sz))"
  have "map fst ?K = List.map_filter (\<lambda>c. removeLeaf c g) cs"
    by (simp add: keep_some_fst map_filter_map)
  then show ?thesis
    by (simp only: removeLeaf.simps Let_def) auto
qed

declare removeLeaf.simps(2) [simp del]

definition opt_leaves :: "grid_node option \<Rightarrow> string list" where
  "opt_leaves n = (case n of None \<Rightarrow> [] | Some n' \<Rightarrow> collectLeafIds n')"

lemma opt_leaves_simps [simp]:
  "opt_leaves None = []" "opt_leaves (Some n) = collectLeafIds n"
  by (simp_all add: opt_leaves_def)

lemma leaves_map_filter:
  "concat (map collectLeafIds (List.map_filter f cs)) = concat (map (\<lambda>c. opt_leaves (f c)) cs)"
  by (induction cs) (auto simp: map_filter_simps split: option.splits)

lemma removeLeaf_leaves: "opt_leaves (removeLeaf n g) = filter (\<lambda>x. x \<noteq> g) (collectLeafIds n)"
proof (induction n)
  case (Leaf x)
  then show ?case by simp
next
  case (Branch d cs sz)
  let ?new = "List.map_filter (\<lambda>c. removeLeaf c g) cs"
  have "concat (map collectLeafIds ?new) = concat (map (\<lambda>c. opt_leaves (removeLeaf c g)) cs)"
    by (rule leaves_map_filter)
  also have "\<dots> = concat (map (\<lambda>c. filter (\<lambda>x. x \<noteq> g) (collectLeafIds c)) cs)"
    using Branch by (intro arg_cong [where f = concat] map_cong) auto
  finally have "concat (map collectLeafIds ?new) = filter (\<lambda>x. x \<noteq> g) (concat (map collectLeafIds cs))"
    by (simp add: filter_concat comp_def)
  then show ?case by (simp add: Let_def removeLeaf_Branch) (metis concat.simps(1) list.simps(8))
qed

text \<open>A tree none of whose leaves is the one removed comes back unchanged, sizes included.\<close>

lemma removeLeaf_absent:
  "g \<notin> set (collectLeafIds n) \<Longrightarrow> grid_ok n \<Longrightarrow> removeLeaf n g = Some n"
proof (induction n)
  case (Leaf x)
  then show ?case by simp
next
  case (Branch d cs sz)
  then have "List.map_filter (\<lambda>c. removeLeaf c g) cs = cs"
    by (intro map_filter_all_id) auto
  moreover have "cs \<noteq> []" using Branch.prems by auto
  ultimately show ?case by (simp add: Let_def removeLeaf_Branch)
qed

lemma removeLeaf_None_leaves: "removeLeaf n g = None \<Longrightarrow> set (collectLeafIds n) \<subseteq> {g}"
proof -
  assume "removeLeaf n g = None"
  then have "filter (\<lambda>x. x \<noteq> g) (collectLeafIds n) = []"
    using removeLeaf_leaves [of n g] by simp
  then show ?thesis by (auto simp: filter_empty_conv)
qed

lemma grid_ok_leaves_ne: "grid_ok n \<Longrightarrow> collectLeafIds n \<noteq> []"
proof (induction n)
  case (Leaf x)
  then show ?case by simp
next
  case (Branch d cs sz)
  then obtain c cs' where "cs = c # cs'" by (cases cs) auto
  with Branch show ?case by auto
qed

lemma removeLeaf_Some_leaves:
  "removeLeaf n g = Some n' \<Longrightarrow> collectLeafIds n' = filter (\<lambda>x. x \<noteq> g) (collectLeafIds n)"
  using removeLeaf_leaves [of n g] by simp

lemma simplifyTree_leaves [simp]: "collectLeafIds (simplifyTree n) = collectLeafIds n"
proof (induction n)
  case (Leaf x)
  then show ?case by simp
next
  case (Branch d cs sz)
  then have *: "map collectLeafIds (map simplifyTree cs) = map collectLeafIds cs" by simp
  have "collectLeafIds (case ss of [c] \<Rightarrow> c | simplified \<Rightarrow> Branch d simplified sz)
    = concat (map collectLeafIds ss)" for ss
    by (simp split: list.split)
  with * show ?case by (simp only: simplifyTree.simps collectLeafIds.simps)
qed

lemma simplifyTree_id: "grid_ok n \<Longrightarrow> simplifyTree n = n"
proof (induction n)
  case (Leaf x)
  then show ?case by simp
next
  case (Branch d cs sz)
  then have "map simplifyTree cs = cs" by (auto intro: map_idI)
  moreover obtain a b cs' where "cs = a # b # cs'"
    using Branch.prems by (cases cs; cases "tl cs") auto
  ultimately show ?case by simp
qed

section \<open>Splitting\<close>

definition split_pair :: "string \<Rightarrow> string \<Rightarrow> split_direction \<Rightarrow> string list" where
  "split_pair g new d = (if d = Right \<or> d = Down then [g, new] else [new, g])"

lemma insertSplit_leaves:
  "collectLeafIds (insertSplit n g new d) =
     concat (map (\<lambda>x. if x = g then split_pair g new d else [x]) (collectLeafIds n))"
proof (induction n)
  case (Leaf x)
  then show ?case by (simp add: split_pair_def Let_def)
next
  case (Branch o1 cs sz)
  then show ?case by (induction cs) (auto simp: comp_def)
qed

lemma set_insertSplit_leaves:
  "g \<in> set (collectLeafIds n) \<Longrightarrow>
     set (collectLeafIds (insertSplit n g new d)) = insert new (set (collectLeafIds n))"
  by (auto simp: insertSplit_leaves split_pair_def split: if_splits)

lemma insertSplit_absent: "g \<notin> set (collectLeafIds n) \<Longrightarrow> insertSplit n g new d = n"
proof (induction n)
  case (Leaf x)
  then show ?case by simp
next
  case (Branch o1 cs sz)
  then show ?case by (auto intro: map_idI)
qed

lemma distinct_split_concat:
  "distinct xs \<Longrightarrow> new \<notin> set xs \<Longrightarrow>
     distinct (concat (map (\<lambda>x. if x = g then split_pair g new d else [x]) xs))"
  by (induction xs) (auto simp: split_pair_def split: if_splits)

lemma insertSplit_distinct:
  "distinct (collectLeafIds n) \<Longrightarrow> new \<notin> set (collectLeafIds n) \<Longrightarrow>
     distinct (collectLeafIds (insertSplit n g new d))"
  by (simp add: insertSplit_leaves distinct_split_concat)

lemma insertSplit_ok: "grid_ok n \<Longrightarrow> grid_ok (insertSplit n g new d)"
  by (induction n) (auto simp: Let_def sizes_ok_def)


section \<open>Removing and simplifying keeps layouts well-formed\<close>

text \<open>Between \<open>removeLeaf\<close> and \<open>simplifyTree\<close> a branch may be left with a single pane.\<close>

fun grid_weak :: "grid_node \<Rightarrow> bool" where
  "grid_weak (Leaf g) = True"
| "grid_weak (Branch d cs sz) =
     (cs \<noteq> [] \<and> sizes_ok (length cs) sz \<and> (\<forall>c \<in> set cs. grid_weak c))"

lemma grid_ok_weak: "grid_ok n \<Longrightarrow> grid_weak n"
  by (induction n) auto

lemma removeLeaf_weak: "grid_weak n \<Longrightarrow> removeLeaf n g = Some n' \<Longrightarrow> grid_weak n'"
proof (induction n arbitrary: n')
  case (Leaf x)
  then show ?case by (auto split: if_splits)
next
  case (Branch d cs sz)
  define K where "K = keep_some (zip (map (\<lambda>c. removeLeaf c g) cs) (sizes_upto (length cs) sz))"
  let ?new = "List.map_filter (\<lambda>c. removeLeaf c g) cs"
  have fst_K: "map fst K = ?new" by (simp add: K_def keep_some_fst map_filter_map)
  have sz: "sizes_ok (length cs) sz" using Branch.prems by simp
  then have "set (map snd K) \<subseteq> set sz"
    using keep_some_snd_subset unfolding K_def by (metis sizes_ok_def sizes_upto_id)
  with sz have K_nums: "NaN \<notin> set (map snd K)" "\<forall>s \<in> set (map snd K). 0 \<le> num_val s"
    by (auto simp: sizes_ok_def)
  have len: "length (map snd K) = length ?new" by (simp flip: fst_K)
  have weak_new: "\<forall>c \<in> set ?new. grid_weak c"
    using Branch.IH Branch.prems by (fastforce simp: set_map_filter_iff)
  have "sizes_ok (length ?new) (normalizeSizes (map snd K))" if "?new \<noteq> []"
    using normalizeSizes_ok [OF _ K_nums] that len by (metis length_0_conv)
  with weak_new Branch.prems show ?case
    by (auto simp: removeLeaf_Branch Let_def K_def split: if_splits)
qed

lemma simplifyTree_ok: "grid_weak n \<Longrightarrow> grid_ok (simplifyTree n)"
proof (induction n)
  case (Leaf x)
  then show ?case by simp
next
  case (Branch d cs sz)
  then have all: "\<forall>c \<in> set (map simplifyTree cs). grid_ok c" by auto
  show ?case
  proof (cases "map simplifyTree cs" rule: remdups_adj.cases)
    case 1
    with Branch.prems show ?thesis by simp
  next
    case (2 c)
    with all show ?thesis by simp
  next
    case (3 c c' ss)
    then have "length cs = Suc (Suc (length ss))" by (metis length_Cons length_map)
    with 3 all Branch.prems show ?thesis by simp
  qed
qed

lemma removeLeaf_simplify_ok:
  "grid_ok n \<Longrightarrow> removeLeaf n g = Some n' \<Longrightarrow> grid_ok (simplifyTree n')"
  by (blast intro: simplifyTree_ok removeLeaf_weak grid_ok_weak)

section \<open>Paths\<close>

lemma findLeafPath_sound:
  "findLeafPath n g = Some p \<Longrightarrow> subtree_at n p = Some (Leaf g)"
  "findLeafPathIn i cs g = Some p \<Longrightarrow>
     \<exists>j q. p = (i + j) # q \<and> j < length cs \<and> subtree_at (cs ! j) q = Some (Leaf g)"
proof (induction n g and i cs g arbitrary: p and p rule: findLeafPath_findLeafPathIn.induct)
  case (4 i c cs g)
  show ?case
  proof (cases "findLeafPath c g")
    case None
    with 4 obtain j q where "p = (Suc i + j) # q" "j < length cs"
      "subtree_at (cs ! j) q = Some (Leaf g)" by fastforce
    then show ?thesis by (intro exI [of _ "Suc j"] exI [of _ q]) simp
  next
    case (Some sub)
    with 4 show ?thesis by (intro exI [of _ 0]) auto
  qed
qed (auto split: if_splits)

lemma findLeafPath_None:
  "findLeafPath n g = None \<longleftrightarrow> g \<notin> set (collectLeafIds n)"
  "findLeafPathIn i cs g = None \<longleftrightarrow> (\<forall>c \<in> set cs. g \<notin> set (collectLeafIds c))"
  by (induction n g and i cs g rule: findLeafPath_findLeafPathIn.induct)
    (auto split: option.splits)

section \<open>Resizing\<close>

lemma updateSizes_leaves [simp]: "collectLeafIds (updateSizes n path sizes) = collectLeafIds n"
proof (induction n path sizes rule: updateSizes.induct)
  case (3 d cs sz idx rest sizes)
  show ?case
  proof (cases "idx < 0 \<or> idx \<ge> int (length cs)")
    case True
    then show ?thesis by simp
  next
    case False
    then have "nat idx < length cs" by arith
    moreover have "collectLeafIds (updateSizes (cs ! nat idx) rest sizes) = collectLeafIds (cs ! nat idx)"
      using 3 False by blast
    ultimately have "map collectLeafIds (cs[nat idx := updateSizes (cs ! nat idx) rest sizes])
      = map collectLeafIds cs" by (simp add: map_update list_update_same_conv)
    with False show ?thesis by (simp only: updateSizes.simps collectLeafIds.simps if_False)
  qed
qed auto

text \<open>The sizes given fit the branch at that path (or there is no branch to update).\<close>

definition fits_path :: "grid_node \<Rightarrow> int list \<Rightarrow> jsnum list \<Rightarrow> bool" where
  "fits_path n path sizes \<longleftrightarrow>
     ((\<forall>i \<in> set path. 0 \<le> i) \<longrightarrow>
       (case subtree_at n (map nat path) of
          Some (Branch d cs sz) \<Rightarrow> sizes_ok (length cs) sizes | _ \<Rightarrow> True))"

lemma updateSizes_ok: "grid_ok n \<Longrightarrow> fits_path n path sizes \<Longrightarrow> grid_ok (updateSizes n path sizes)"
proof (induction n path sizes rule: updateSizes.induct)
  case (1 d cs sz sizes)
  then show ?case by (simp add: fits_path_def)
next
  case (2 g path sizes)
  then show ?case by simp
next
  case (3 d cs sz idx rest sizes)
  show ?case
  proof (cases "idx < 0 \<or> idx \<ge> int (length cs)")
    case True
    with 3 show ?thesis by simp
  next
    case False
    then have i: "nat idx < length cs" "0 \<le> idx" by arith+
    with "3.prems" have "fits_path (cs ! nat idx) rest sizes" by (simp add: fits_path_def)
    moreover have "grid_ok (cs ! nat idx)" using "3.prems" i by simp
    ultimately have "grid_ok (updateSizes (cs ! nat idx) rest sizes)"
      using "3.IH" [OF False] by blast
    moreover have "set (cs[nat idx := x]) \<subseteq> insert x (set cs)" for x
      by (rule set_update_subset_insert)
    ultimately show ?thesis using False "3.prems" by auto
  qed
qed

section \<open>Closing a new pane restores the layout\<close>

lemma keep_some_snd_all:
  "length rs = length ss \<Longrightarrow> \<forall>r \<in> set rs. r \<noteq> None \<Longrightarrow> map snd (keep_some (zip rs ss)) = ss"
  by (induction rs ss rule: list_induct2) auto

lemma map_filter_Some: "\<forall>x \<in> set xs. f x = Some (h x) \<Longrightarrow> List.map_filter f xs = map h xs"
  by (induction xs) (auto simp: map_filter_simps)

lemma split_close_restores:
  "grid_ok n \<Longrightarrow> new \<notin> set (collectLeafIds n) \<Longrightarrow> new \<noteq> g \<Longrightarrow>
     \<exists>n'. removeLeaf (insertSplit n g new d) new = Some n' \<and> simplifyTree n' = n"
proof (induction n)
  case (Leaf x)
  then show ?case
    by (auto simp: Let_def removeLeaf_Branch map_filter_simps)
next
  case (Branch o1 cs sz)
  let ?ins = "\<lambda>c. insertSplit c g new d"
  have "\<forall>c \<in> set cs. \<exists>c'. removeLeaf (?ins c) new = Some c' \<and> simplifyTree c' = c"
    using Branch by simp
  then obtain h where h: "\<forall>c \<in> set cs. removeLeaf (?ins c) new = Some (h c) \<and> simplifyTree (h c) = c"
    by metis
  let ?cs = "map ?ins cs" and ?rm = "\<lambda>c. removeLeaf c new"
  have new: "List.map_filter ?rm ?cs = map h cs"
  proof -
    have "List.map_filter ?rm ?cs = List.map_filter (?rm \<circ> ?ins) cs"
      by (induction cs) (auto simp: map_filter_simps split: option.splits)
    also have "\<dots> = map h cs" using h by (intro map_filter_Some) auto
    finally show ?thesis .
  qed
  have sz: "sizes_ok (length cs) sz" "2 \<le> length cs" using Branch.prems by auto
  have "map snd (keep_some (zip (map ?rm ?cs) (sizes_upto (length ?cs) sz))) = sz"
    using h sz by (subst keep_some_snd_all) (auto simp: sizes_ok_def)
  then have rm: "removeLeaf (Branch o1 ?cs sz) new = Some (Branch o1 (map h cs) sz)"
    using sz normalizeSizes_id [OF sz(1)] by (auto simp: removeLeaf_Branch new Let_def)
  have "map (simplifyTree \<circ> h) cs = cs" using h by (auto intro: map_idI)
  moreover obtain a b cs' where "cs = a # b # cs'" using sz(2) by (cases cs; cases "tl cs") auto
  ultimately have "simplifyTree (Branch o1 (map h cs) sz) = Branch o1 cs sz" by simp
  with rm show ?case by simp
qed

text \<open>
  The path search of the layout tree is sound and complete: a path it returns leads to the
  pane asked for, and it returns none exactly when the tree does not show that pane.
\<close>

theorem findLeafPath_correct:
  "case findLeafPath n g of
     Some p \<Rightarrow> subtree_at n p = Some (Leaf g) \<and> g \<in> set (collectLeafIds n)
   | None \<Rightarrow> g \<notin> set (collectLeafIds n)"
  using findLeafPath_sound(1) [of n g] findLeafPath_None(1) [of n g] by (auto split: option.split)

end
