(* ===== verification/JsObject.thy ===== *)
theory JsObject
  imports Prelude
begin

text \<open>
  JavaScript objects used as dictionaries (\<open>Record<string, V>\<close>): association lists in insertion
  order, with distinct keys. Assigning an existing property keeps its place, a new one goes to
  the end, \<open>delete\<close> removes it. \<open>Object.keys\<close> lists the array-index keys (decimal numerals
  below 2^32 - 1) in ascending order and then the other keys in insertion order; the group ids of
  the terminal layout are such numerals. Inherited properties of \<open>Object.prototype\<close> are left out:
  no identifier of the program is spelled like one.
\<close>

type_synonym 'v obj = "(string \<times> 'v) list"

definition obj_get :: "'v obj \<Rightarrow> string \<Rightarrow> 'v option" where
  "obj_get o1 k = map_of o1 k"

definition obj_set :: "string \<Rightarrow> 'v \<Rightarrow> 'v obj \<Rightarrow> 'v obj" where
  "obj_set k v o1 = AList.update k v o1"

definition obj_del :: "string \<Rightarrow> 'v obj \<Rightarrow> 'v obj" where
  "obj_del k o1 = AList.delete k o1"

text \<open>\<open>for (const k of ks) delete o[k]\<close>\<close>

definition obj_del_all :: "string list \<Rightarrow> 'v obj \<Rightarrow> 'v obj" where
  "obj_del_all ks o1 = fold obj_del ks o1"

definition is_index_key :: "string \<Rightarrow> bool" where
  "is_index_key k \<longleftrightarrow> k \<noteq> [] \<and> (\<forall>c \<in> set k. 48 \<le> (of_char c :: nat) \<and> (of_char c :: nat) \<le> 57)
     \<and> (hd k = CHR ''0'' \<longrightarrow> k = ''0'') \<and> nat_of_digits k < 2 ^ 32 - 1"

definition obj_entries :: "'v obj \<Rightarrow> (string \<times> 'v) list" where
  "obj_entries o1 = sort_key (nat_of_digits \<circ> fst) (filter (is_index_key \<circ> fst) o1)
     @ filter (\<lambda>p. \<not> is_index_key (fst p)) o1"

definition obj_keys :: "'v obj \<Rightarrow> string list" where
  "obj_keys o1 = map fst (obj_entries o1)"

definition obj_values :: "'v obj \<Rightarrow> 'v list" where
  "obj_values o1 = map snd (obj_entries o1)"

text \<open>\<open>Object.fromEntries(entries.map(...))\<close> that keeps every key.\<close>

definition obj_map :: "(string \<Rightarrow> 'v \<Rightarrow> 'w) \<Rightarrow> 'v obj \<Rightarrow> 'w obj" where
  "obj_map f o1 = map (\<lambda>(k, v). (k, f k v)) (obj_entries o1)"

definition obj_ok :: "'v obj \<Rightarrow> bool" where
  "obj_ok o1 \<longleftrightarrow> distinct (map fst o1)"

section \<open>The contract of a dictionary\<close>

locale js_record =
  fixes get :: "'o \<Rightarrow> string \<Rightarrow> 'v option"
    and put :: "string \<Rightarrow> 'v \<Rightarrow> 'o \<Rightarrow> 'o"
    and del :: "string \<Rightarrow> 'o \<Rightarrow> 'o"
    and keys :: "'o \<Rightarrow> string list"
    and valid :: "'o \<Rightarrow> bool"
  assumes get_put: "get (put k v m) = (get m)(k \<mapsto> v)"
    and get_del: "get (del k m) = (get m)(k := None)"
    and set_keys: "set (keys m) = {k. get m k \<noteq> None}"
    and keys_distinct: "valid m \<Longrightarrow> distinct (keys m)"
    and valid_put: "valid m \<Longrightarrow> valid (put k v m)"
    and valid_del: "valid m \<Longrightarrow> valid (del k m)"
begin

lemma keys_put: "set (keys (put k v m)) = insert k (set (keys m))"
  by (auto simp: set_keys get_put)

lemma keys_del: "set (keys (del k m)) = set (keys m) - {k}"
  by (auto simp: set_keys get_del)

lemma get_fold_del: "get (fold del ks m) k = (if k \<in> set ks then None else get m k)"
  by (induction ks arbitrary: m) (auto simp: get_del)

lemma valid_fold_del: "valid m \<Longrightarrow> valid (fold del ks m)"
  by (induction ks arbitrary: m) (auto intro: valid_del)

lemma get_fold_put:
  "get (fold (\<lambda>k. put k v) ks m) k = (if k \<in> set ks then Some v else get m k)"
  by (induction ks arbitrary: m) (auto simp: get_put)

lemma put_size:
  assumes "valid m" shows "length (keys (put k v m)) = (if get m k = None then Suc (length (keys m)) else length (keys m))"
proof -
  have "length (keys m') = card (set (keys m'))" if "valid m'" for m'
    using keys_distinct [OF that] by (simp add: distinct_card)
  then have "length (keys (put k v m)) = card (insert k (set (keys m)))"
    and "length (keys m) = card (set (keys m))"
    using assms valid_put [OF assms, of k v] keys_put [of k v m] by simp_all
  moreover have "k \<in> set (keys m) \<longleftrightarrow> get m k \<noteq> None" by (simp add: set_keys)
  ultimately show ?thesis by (auto simp: card_insert_if)
qed

end

section \<open>Association lists keep the contract\<close>

lemma mset_filter_split: "mset (filter P xs) + mset (filter (\<lambda>x. \<not> P x) xs) = mset xs"
  by (induction xs) auto

lemma obj_entries_mset [simp]: "mset (obj_entries o1) = mset o1"
  using mset_filter_split [of "is_index_key \<circ> fst" o1] by (simp add: obj_entries_def)

lemma obj_entries_set [simp]: "set (obj_entries o1) = set o1"
  by (metis obj_entries_mset set_mset_mset)

lemma obj_keys_set [simp]: "set (obj_keys o1) = fst ` set o1"
  by (simp add: obj_keys_def)

lemma obj_keys_mset: "mset (obj_keys o1) = mset (map fst o1)"
  by (simp add: obj_keys_def)

lemma obj_keys_length [simp]: "length (obj_keys o1) = length o1"
  by (metis obj_keys_mset length_map size_mset)

interpretation rec: js_record obj_get obj_set obj_del obj_keys obj_ok
proof unfold_locales
  fix m :: "'v obj" and k v
  show "obj_get (obj_set k v m) = (obj_get m)(k \<mapsto> v)"
    by (rule ext) (simp add: obj_get_def obj_set_def update_conv')
  show "obj_get (obj_del k m) = (obj_get m)(k := None)"
    by (rule ext) (simp add: obj_get_def obj_del_def delete_conv')
  show "set (obj_keys m) = {k. obj_get m k \<noteq> None}"
    by (auto simp: obj_get_def map_of_eq_None_iff)
  show "distinct (obj_keys m)" if "obj_ok m"
    using that unfolding obj_ok_def by (metis obj_keys_mset mset_eq_imp_distinct_iff)
  show "obj_ok (obj_set k v m)" if "obj_ok m"
    using that by (simp add: obj_ok_def obj_set_def distinct_update)
  show "obj_ok (obj_del k m)" if "obj_ok m"
    using that by (simp add: obj_ok_def obj_del_def distinct_delete)
qed

lemmas obj_simps = rec.get_put rec.get_del

lemma obj_get_set [simp]: "obj_get (obj_set k v o1) j = (if j = k then Some v else obj_get o1 j)"
  by (simp add: rec.get_put)

lemma obj_get_del [simp]: "obj_get (obj_del k o1) j = (if j = k then None else obj_get o1 j)"
  by (simp add: rec.get_del)

lemma obj_get_del_all [simp]:
  "obj_get (obj_del_all ks o1) j = (if j \<in> set ks then None else obj_get o1 j)"
  by (simp add: obj_del_all_def rec.get_fold_del)

lemma obj_get_Nil [simp]: "obj_get [] k = None"
  by (simp add: obj_get_def)

lemma obj_ok_intros [simp, intro]:
  "obj_ok []" "obj_ok o1 \<Longrightarrow> obj_ok (obj_set k v o1)" "obj_ok o1 \<Longrightarrow> obj_ok (obj_del k o1)"
  "obj_ok o1 \<Longrightarrow> obj_ok (obj_del_all ks o1)"
  by (simp_all add: rec.valid_put rec.valid_del obj_del_all_def rec.valid_fold_del)
    (simp add: obj_ok_def)

lemma obj_keys_get: "k \<in> set (obj_keys o1) \<longleftrightarrow> obj_get o1 k \<noteq> None"
  using rec.set_keys [of o1] by auto

lemma obj_get_mem: "obj_ok o1 \<Longrightarrow> obj_get o1 k = Some v \<longleftrightarrow> (k, v) \<in> set o1"
  by (simp add: obj_get_def obj_ok_def)

lemma obj_values_set: "obj_ok o1 \<Longrightarrow> v \<in> set (obj_values o1) \<longleftrightarrow> (\<exists>k. obj_get o1 k = Some v)"
  by (force simp: obj_values_def obj_get_mem)

lemma obj_map_ok: "obj_ok o1 \<Longrightarrow> obj_ok (obj_map f o1)"
proof -
  assume "obj_ok o1"
  moreover have "map fst (obj_map f o1) = obj_keys o1"
    by (simp add: obj_map_def obj_keys_def comp_def split_def)
  ultimately show ?thesis unfolding obj_ok_def
    by (metis obj_keys_mset mset_eq_imp_distinct_iff)
qed

lemma obj_get_map [simp]:
  assumes "obj_ok o1" shows "obj_get (obj_map f o1) k = map_option (f k) (obj_get o1 k)"
proof -
  have "(k, w) \<in> set (obj_map f o1) \<longleftrightarrow> (\<exists>v. (k, v) \<in> set o1 \<and> w = f k v)" for w
    by (auto simp: obj_map_def)
  then have "obj_get (obj_map f o1) k = Some w \<longleftrightarrow> map_option (f k) (obj_get o1 k) = Some w" for w
    using assms obj_map_ok [OF assms, of f] by (auto simp: obj_get_mem)
  then show ?thesis by (metis option.exhaust)
qed

lemma obj_single_key: "obj_ok o1 \<Longrightarrow> length o1 \<le> 1 \<Longrightarrow> obj_get o1 k = Some v \<Longrightarrow> o1 = [(k, v)]"
  by (cases o1) (auto simp: obj_get_def split: if_splits)

end
