(* ===== verification/TabGroups.thy ===== *)
theory TabGroups
  imports GridLayout JsObject
begin

text \<open>
  The terminal groups: the state of \<open>src/src/lib/terminal-group-types.ts\<close> and the reducer of
  \<open>src/src/lib/terminal-group-reducer.ts\<close>, one definition per action. \<open>state_ok\<close> (below, with
  the proofs in \<open>TabGroupsInv\<close>) is what the reducer keeps of the state.

  \<open>nextGroupId\<close> is a natural number: the code writes 2 and adds 1. Returning the same object
  (\<open>return state\<close>) is returning an equal state; React's comparison by reference is not modelled.
\<close>

section \<open>State\<close>

datatype tab_type = Terminal | FileBrowser | Desktop | Editor

datatype conn_status = Connected | Connecting | Disconnected | Pending

record terminal_tab =
  tab_id :: string
  tab_name :: string
  tabType :: "tab_type option"
  protocol :: "string option"
  host :: "string option"
  username :: "string option"
  originalConnectionId :: "string option"
  connectionStatus :: conn_status
  reconnectCount :: "nat option"
  hasUnreadOutput :: "bool option"
  editorFilePath :: "string option"
  editorConnectionId :: "string option"

record terminal_group =
  group_id :: string
  tabs :: "terminal_tab list"
  activeTabId :: "string option"

record group_state =
  groups :: "terminal_group obj"
  activeGroupId :: string
  gridLayout :: grid_node
  nextGroupId :: nat
  tabToGroupMap :: "string obj"

datatype group_action =
    SPLIT_GROUP string split_direction "terminal_tab option"
  | REMOVE_GROUP string
  | ACTIVATE_GROUP string
  | ADD_TAB string terminal_tab
  | REMOVE_TAB string string
  | ACTIVATE_TAB string string
  | MOVE_TAB string string string "int option"
  | REORDER_TAB string int int
  | CLOSE_OTHER_TABS string string
  | CLOSE_TABS_TO_RIGHT string string
  | CLOSE_TABS_TO_LEFT string string
  | CLOSE_ALL_TABS string
  | MOVE_TAB_TO_NEW_GROUP string string split_direction
  | MARK_TAB_UNREAD_OUTPUT string nat
  | ACKNOWLEDGE_TAB_OUTPUT string
  | UPDATE_TAB_STATUS string conn_status
  | UPDATE_TAB_NAME string string
  | RECONNECT_TAB string
  | UPDATE_GRID_SIZES "int list" "jsnum list"
  | RESET_LAYOUT
  | RESTORE_LAYOUT group_state

abbreviation group_ids :: "terminal_group \<Rightarrow> string list" where
  "group_ids g \<equiv> map tab_id (tabs g)"

section \<open>Helpers\<close>

definition createDefaultState :: group_state where
  "createDefaultState =
     \<lparr>groups = [(''1'', \<lparr>group_id = ''1'', tabs = [], activeTabId = None\<rparr>)],
      activeGroupId = ''1'', gridLayout = Leaf ''1'', nextGroupId = 2, tabToGroupMap = []\<rparr>"

definition pickAdjacentTab :: "terminal_tab list \<Rightarrow> nat \<Rightarrow> string option" where
  "pickAdjacentTab ts removedIndex =
     (if ts = [] then None
      else if removedIndex < length ts then Some (tab_id (ts ! removedIndex))
      else Some (tab_id (last ts)))"

text \<open>\<open>Object.keys(o)[0]\<close>; used only where the object has a property.\<close>

definition first_key :: "'v obj \<Rightarrow> string" where
  "first_key o1 = (case obj_keys o1 of k # _ \<Rightarrow> k | [] \<Rightarrow> '''')"

definition removeGroupFromState :: "group_state \<Rightarrow> string \<Rightarrow> group_state" where
  "removeGroupFromState s groupId =
     (let newGroups = obj_del groupId (groups s);
          newMap = (case obj_get (groups s) groupId of
                      Some g \<Rightarrow> obj_del_all (group_ids g) (tabToGroupMap s)
                    | None \<Rightarrow> tabToGroupMap s);
          newGrid = simplifyTree (case removeLeaf (gridLayout s) groupId of
                      Some n \<Rightarrow> n | None \<Rightarrow> Leaf (first_key newGroups));
          newActive = (if activeGroupId s = groupId
                       then (case collectLeafIds newGrid of
                               l # _ \<Rightarrow> l | [] \<Rightarrow> first_key newGroups)
                       else activeGroupId s)
      in s\<lparr>groups := newGroups, gridLayout := newGrid, activeGroupId := newActive,
           tabToGroupMap := newMap\<rparr>)"

definition maybeRemoveEmptyGroup :: "group_state \<Rightarrow> string \<Rightarrow> group_state" where
  "maybeRemoveEmptyGroup s groupId =
     (case obj_get (groups s) groupId of
        None \<Rightarrow> s
      | Some g \<Rightarrow>
          if tabs g \<noteq> [] then s
          else if length (obj_keys (groups s)) \<le> 1 then s
          else removeGroupFromState s groupId)"

definition isTerminalTabVisible :: "group_state \<Rightarrow> string \<Rightarrow> bool" where
  "isTerminalTabVisible s tabId =
     (case obj_get (tabToGroupMap s) tabId of
        None \<Rightarrow> False
      | Some groupId \<Rightarrow>
          groupId \<noteq> [] \<and>
          (case obj_get (groups s) groupId of
             None \<Rightarrow> False | Some g \<Rightarrow> activeTabId g = Some tabId) \<and>
          findLeafPath (gridLayout s) groupId \<noteq> None)"

definition resetUnreadOutput :: "group_state \<Rightarrow> group_state" where
  "resetUnreadOutput s =
     (if \<forall>g \<in> set (obj_values (groups s)). \<forall>t \<in> set (tabs g). hasUnreadOutput t = Some False
      then s
      else s\<lparr>groups := obj_map (\<lambda>_ g. g\<lparr>tabs := map (\<lambda>t. t\<lparr>hasUnreadOutput := Some False\<rparr>) (tabs g)\<rparr>)
                        (groups s)\<rparr>)"

section \<open>One definition per action\<close>

definition split_group :: "group_state \<Rightarrow> string \<Rightarrow> split_direction \<Rightarrow> terminal_tab option \<Rightarrow> group_state" where
  "split_group s groupId direction newTab =
     (case obj_get (groups s) groupId of
        None \<Rightarrow> s
      | Some _ \<Rightarrow>
          let newGroupId = string_of_nat (nextGroupId s);
              newGroup = \<lparr>group_id = newGroupId,
                          tabs = (case newTab of Some t \<Rightarrow> [t] | None \<Rightarrow> []),
                          activeTabId = map_option tab_id newTab\<rparr>
          in s\<lparr>groups := obj_set newGroupId newGroup (groups s),
               gridLayout := insertSplit (gridLayout s) groupId newGroupId direction,
               nextGroupId := nextGroupId s + 1,
               activeGroupId := newGroupId,
               tabToGroupMap := (case newTab of
                   Some t \<Rightarrow> obj_set (tab_id t) newGroupId (tabToGroupMap s)
                 | None \<Rightarrow> tabToGroupMap s)\<rparr>)"

definition remove_group :: "group_state \<Rightarrow> string \<Rightarrow> group_state" where
  "remove_group s groupId =
     (case obj_get (groups s) groupId of
        None \<Rightarrow> s
      | Some g \<Rightarrow>
          if length (obj_keys (groups s)) \<le> 1
          then s\<lparr>groups := [(groupId, g\<lparr>tabs := [], activeTabId := None\<rparr>)],
                 tabToGroupMap := obj_del_all (group_ids g) (tabToGroupMap s)\<rparr>
          else removeGroupFromState s groupId)"

definition activate_group :: "group_state \<Rightarrow> string \<Rightarrow> group_state" where
  "activate_group s groupId =
     (if obj_get (groups s) groupId = None then s else s\<lparr>activeGroupId := groupId\<rparr>)"

definition add_tab :: "group_state \<Rightarrow> string \<Rightarrow> terminal_tab \<Rightarrow> group_state" where
  "add_tab s groupId t =
     (case obj_get (groups s) groupId of
        None \<Rightarrow> s
      | Some g \<Rightarrow>
          if \<exists>g' \<in> set (obj_values (groups s)). tab_id t \<in> set (group_ids g') then s
          else s\<lparr>groups := obj_set groupId
                   (g\<lparr>tabs := tabs g @ [t], activeTabId := Some (tab_id t)\<rparr>) (groups s),
                 tabToGroupMap := obj_set (tab_id t) groupId (tabToGroupMap s)\<rparr>)"

text \<open>The tab list of a group without the tab at the index found, and the tab then active.\<close>

definition without_tab :: "terminal_group \<Rightarrow> string \<Rightarrow> nat \<Rightarrow> terminal_group" where
  "without_tab g tabId removedIndex =
     (let newTabs = filter (\<lambda>t. tab_id t \<noteq> tabId) (tabs g)
      in g\<lparr>tabs := newTabs,
           activeTabId := (if activeTabId g = Some tabId
                           then pickAdjacentTab newTabs removedIndex else activeTabId g)\<rparr>)"

definition remove_tab :: "group_state \<Rightarrow> string \<Rightarrow> string \<Rightarrow> group_state" where
  "remove_tab s groupId tabId =
     (case obj_get (groups s) groupId of
        None \<Rightarrow> s
      | Some g \<Rightarrow>
          (case find_index (\<lambda>t. tab_id t = tabId) (tabs g) of
             None \<Rightarrow> s
           | Some tabIndex \<Rightarrow>
               maybeRemoveEmptyGroup
                 (s\<lparr>groups := obj_set groupId (without_tab g tabId tabIndex) (groups s),
                    tabToGroupMap := obj_del tabId (tabToGroupMap s)\<rparr>) groupId))"

definition activate_tab :: "group_state \<Rightarrow> string \<Rightarrow> string \<Rightarrow> group_state" where
  "activate_tab s groupId tabId =
     (case obj_get (groups s) groupId of
        None \<Rightarrow> s
      | Some g \<Rightarrow>
          if tabId \<notin> set (group_ids g) then s
          else s\<lparr>groups := obj_set groupId (g\<lparr>activeTabId := Some tabId\<rparr>) (groups s)\<rparr>)"

text \<open>
  \<open>splice(idx, 0, tab)\<close> with \<open>idx\<close> the given index capped at the length, or the length when none
  is given; a negative index counts from the end.
\<close>

definition splice_pos :: "nat \<Rightarrow> int option \<Rightarrow> nat" where
  "splice_pos len targetIndex =
     (let idx = (case targetIndex of Some i \<Rightarrow> min i (int len) | None \<Rightarrow> int len)
      in if idx < 0 then nat (max 0 (int len + idx)) else nat idx)"

definition move_tab :: "group_state \<Rightarrow> string \<Rightarrow> string \<Rightarrow> string \<Rightarrow> int option \<Rightarrow> group_state" where
  "move_tab s sourceGroupId targetGroupId tabId targetIndex =
     (case (obj_get (groups s) sourceGroupId, obj_get (groups s) targetGroupId) of
        (Some src, Some tgt) \<Rightarrow>
          (case (find (\<lambda>t. tab_id t = tabId) (tabs src),
                 find_index (\<lambda>t. tab_id t = tabId) (tabs src)) of
             (Some t, Some removedIndex) \<Rightarrow>
               let src' = without_tab src tabId removedIndex in
               if sourceGroupId = targetGroupId then
                 s\<lparr>groups := obj_set sourceGroupId
                     (src\<lparr>tabs := insert_at (splice_pos (length (tabs src')) targetIndex) t (tabs src'),
                          activeTabId := Some (tab_id t)\<rparr>) (groups s)\<rparr>
               else
                 maybeRemoveEmptyGroup
                   (s\<lparr>groups := obj_set targetGroupId
                        (tgt\<lparr>tabs := insert_at (splice_pos (length (tabs tgt)) targetIndex) t (tabs tgt),
                             activeTabId := Some (tab_id t)\<rparr>)
                        (obj_set sourceGroupId src' (groups s)),
                      tabToGroupMap := obj_set tabId targetGroupId (tabToGroupMap s)\<rparr>) sourceGroupId
           | _ \<Rightarrow> s)
      | _ \<Rightarrow> s)"

definition reorder_tab :: "group_state \<Rightarrow> string \<Rightarrow> int \<Rightarrow> int \<Rightarrow> group_state" where
  "reorder_tab s groupId fromIndex toIndex =
     (case obj_get (groups s) groupId of
        None \<Rightarrow> s
      | Some g \<Rightarrow>
          let n = int (length (tabs g)) in
          if fromIndex < 0 \<or> fromIndex \<ge> n then s
          else if toIndex < 0 \<or> toIndex \<ge> n then s
          else if fromIndex = toIndex then s
          else s\<lparr>groups := obj_set groupId
                   (g\<lparr>tabs := insert_at (nat toIndex) (tabs g ! nat fromIndex)
                                (remove_at (nat fromIndex) (tabs g))\<rparr>) (groups s)\<rparr>)"

definition close_other_tabs :: "group_state \<Rightarrow> string \<Rightarrow> string \<Rightarrow> group_state" where
  "close_other_tabs s groupId tabId =
     (case obj_get (groups s) groupId of
        None \<Rightarrow> s
      | Some g \<Rightarrow>
          (case find (\<lambda>t. tab_id t = tabId) (tabs g) of
             None \<Rightarrow> s
           | Some t \<Rightarrow>
               s\<lparr>groups := obj_set groupId (g\<lparr>tabs := [t], activeTabId := Some (tab_id t)\<rparr>) (groups s),
                 tabToGroupMap := obj_del_all (filter (\<lambda>i. i \<noteq> tabId) (group_ids g)) (tabToGroupMap s)\<rparr>))"

text \<open>The active tab after closing one side: kept if it survives, else the fallback.\<close>

definition surviving_active :: "string option \<Rightarrow> terminal_tab list \<Rightarrow> string option \<Rightarrow> string option" where
  "surviving_active active newTabs fallback =
     (case active of
        Some a \<Rightarrow> if a \<noteq> [] \<and> a \<in> set (map tab_id newTabs) then Some a else fallback
      | None \<Rightarrow> fallback)"

definition close_tabs_to_right :: "group_state \<Rightarrow> string \<Rightarrow> string \<Rightarrow> group_state" where
  "close_tabs_to_right s groupId tabId =
     (case obj_get (groups s) groupId of
        None \<Rightarrow> s
      | Some g \<Rightarrow>
          (case find_index (\<lambda>t. tab_id t = tabId) (tabs g) of
             None \<Rightarrow> s
           | Some idx \<Rightarrow>
               let newTabs = take (Suc idx) (tabs g); removedTabs = drop (Suc idx) (tabs g) in
               s\<lparr>groups := obj_set groupId
                   (g\<lparr>tabs := newTabs,
                      activeTabId := surviving_active (activeTabId g) newTabs
                        (if newTabs = [] then None else Some (tab_id (last newTabs)))\<rparr>) (groups s),
                 tabToGroupMap := obj_del_all (map tab_id removedTabs) (tabToGroupMap s)\<rparr>))"

definition close_tabs_to_left :: "group_state \<Rightarrow> string \<Rightarrow> string \<Rightarrow> group_state" where
  "close_tabs_to_left s groupId tabId =
     (case obj_get (groups s) groupId of
        None \<Rightarrow> s
      | Some g \<Rightarrow>
          (case find_index (\<lambda>t. tab_id t = tabId) (tabs g) of
             None \<Rightarrow> s
           | Some idx \<Rightarrow>
               let newTabs = drop idx (tabs g); removedTabs = take idx (tabs g) in
               s\<lparr>groups := obj_set groupId
                   (g\<lparr>tabs := newTabs,
                      activeTabId := surviving_active (activeTabId g) newTabs
                        (if newTabs = [] then None else Some (tab_id (hd newTabs)))\<rparr>) (groups s),
                 tabToGroupMap := obj_del_all (map tab_id removedTabs) (tabToGroupMap s)\<rparr>))"

definition close_all_tabs :: "group_state \<Rightarrow> string \<Rightarrow> group_state" where
  "close_all_tabs s groupId =
     (case obj_get (groups s) groupId of
        None \<Rightarrow> s
      | Some g \<Rightarrow>
          if tabs g = [] then s
          else maybeRemoveEmptyGroup
            (s\<lparr>groups := obj_set groupId (g\<lparr>tabs := [], activeTabId := None\<rparr>) (groups s),
               tabToGroupMap := obj_del_all (group_ids g) (tabToGroupMap s)\<rparr>) groupId)"

definition move_tab_to_new_group ::
  "group_state \<Rightarrow> string \<Rightarrow> string \<Rightarrow> split_direction \<Rightarrow> group_state" where
  "move_tab_to_new_group s groupId tabId direction =
     (case obj_get (groups s) groupId of
        None \<Rightarrow> s
      | Some g \<Rightarrow>
          (case (find (\<lambda>t. tab_id t = tabId) (tabs g),
                 find_index (\<lambda>t. tab_id t = tabId) (tabs g)) of
             (Some t, Some removedIndex) \<Rightarrow>
               let newGroupId = string_of_nat (nextGroupId s);
                   newGroup = \<lparr>group_id = newGroupId, tabs = [t], activeTabId = Some (tab_id t)\<rparr>
               in maybeRemoveEmptyGroup
                 (s\<lparr>groups := obj_set newGroupId newGroup
                      (obj_set groupId (without_tab g tabId removedIndex) (groups s)),
                    gridLayout := insertSplit (gridLayout s) groupId newGroupId direction,
                    nextGroupId := nextGroupId s + 1,
                    activeGroupId := newGroupId,
                    tabToGroupMap := obj_set tabId newGroupId (tabToGroupMap s)\<rparr>) groupId
           | _ \<Rightarrow> s))"

text \<open>
  \<open>MARK_TAB_UNREAD_OUTPUT\<close> (\<open>Some reconnectCount\<close>) and \<open>ACKNOWLEDGE_TAB_OUTPUT\<close> (\<open>None\<close>) share
  their case. A tab missing from the map is looked up under the property name \<open>undefined\<close>.
\<close>

definition mark_or_ack :: "group_state \<Rightarrow> string \<Rightarrow> nat option \<Rightarrow> group_state" where
  "mark_or_ack s tabId mark =
     (let groupId = (case obj_get (tabToGroupMap s) tabId of Some g \<Rightarrow> g | None \<Rightarrow> ''undefined'') in
      case obj_get (groups s) groupId of
        None \<Rightarrow> s
      | Some g \<Rightarrow>
          (case find_index (\<lambda>t. tab_id t = tabId) (tabs g) of
             None \<Rightarrow> s
           | Some index \<Rightarrow>
               let t = tabs g ! index; visible = isTerminalTabVisible s tabId; unread = (mark \<noteq> None) in
               if tabType t \<noteq> None \<and> tabType t \<noteq> Some Terminal then s
               else if (case mark of
                          Some rc \<Rightarrow> visible \<or> rc \<noteq> (case reconnectCount t of Some n \<Rightarrow> n | None \<Rightarrow> 0)
                        | None \<Rightarrow> \<not> visible \<or> connectionStatus t = Pending) then s
               else if (hasUnreadOutput t = Some True) = unread then s
               else s\<lparr>groups := obj_set groupId
                        (g\<lparr>tabs := (tabs g)[index := t\<lparr>hasUnreadOutput := Some unread\<rparr>]\<rparr>) (groups s)\<rparr>))"

text \<open>The lookup and rebuild that \<open>UPDATE_TAB_STATUS\<close>, \<open>UPDATE_TAB_NAME\<close> and \<open>RECONNECT_TAB\<close> share.\<close>

definition modify_tab :: "group_state \<Rightarrow> string \<Rightarrow> (terminal_tab \<Rightarrow> terminal_tab) \<Rightarrow> group_state" where
  "modify_tab s tabId f =
     (case obj_get (tabToGroupMap s) tabId of
        None \<Rightarrow> s
      | Some groupId \<Rightarrow>
          if groupId = [] then s
          else
            (case obj_get (groups s) groupId of
               None \<Rightarrow> s
             | Some g \<Rightarrow>
                 (case find_index (\<lambda>t. tab_id t = tabId) (tabs g) of
                    None \<Rightarrow> s
                  | Some tabIndex \<Rightarrow>
                      s\<lparr>groups := obj_set groupId
                          (g\<lparr>tabs := (tabs g)[tabIndex := f (tabs g ! tabIndex)]\<rparr>) (groups s)\<rparr>)))"

definition update_tab_status :: "group_state \<Rightarrow> string \<Rightarrow> conn_status \<Rightarrow> group_state" where
  "update_tab_status s tabId status = modify_tab s tabId (\<lambda>t. t\<lparr>connectionStatus := status\<rparr>)"

definition update_tab_name :: "group_state \<Rightarrow> string \<Rightarrow> string \<Rightarrow> group_state" where
  "update_tab_name s tabId name = modify_tab s tabId (\<lambda>t. t\<lparr>tab_name := name\<rparr>)"

definition reconnect_tab :: "group_state \<Rightarrow> string \<Rightarrow> group_state" where
  "reconnect_tab s tabId =
     modify_tab s tabId
       (\<lambda>t. t\<lparr>reconnectCount := Some ((case reconnectCount t of Some n \<Rightarrow> n | None \<Rightarrow> 0) + 1),
              connectionStatus := Connecting\<rparr>)"

section \<open>The reducer\<close>

fun terminalGroupReducer :: "group_state \<Rightarrow> group_action \<Rightarrow> group_state" where
  "terminalGroupReducer s (SPLIT_GROUP g d t) = split_group s g d t"
| "terminalGroupReducer s (REMOVE_GROUP g) = remove_group s g"
| "terminalGroupReducer s (ACTIVATE_GROUP g) = activate_group s g"
| "terminalGroupReducer s (ADD_TAB g t) = add_tab s g t"
| "terminalGroupReducer s (REMOVE_TAB g t) = remove_tab s g t"
| "terminalGroupReducer s (ACTIVATE_TAB g t) = activate_tab s g t"
| "terminalGroupReducer s (MOVE_TAB src tgt t i) = move_tab s src tgt t i"
| "terminalGroupReducer s (REORDER_TAB g i j) = reorder_tab s g i j"
| "terminalGroupReducer s (CLOSE_OTHER_TABS g t) = close_other_tabs s g t"
| "terminalGroupReducer s (CLOSE_TABS_TO_RIGHT g t) = close_tabs_to_right s g t"
| "terminalGroupReducer s (CLOSE_TABS_TO_LEFT g t) = close_tabs_to_left s g t"
| "terminalGroupReducer s (CLOSE_ALL_TABS g) = close_all_tabs s g"
| "terminalGroupReducer s (MOVE_TAB_TO_NEW_GROUP g t d) = move_tab_to_new_group s g t d"
| "terminalGroupReducer s (MARK_TAB_UNREAD_OUTPUT t rc) = mark_or_ack s t (Some rc)"
| "terminalGroupReducer s (ACKNOWLEDGE_TAB_OUTPUT t) = mark_or_ack s t None"
| "terminalGroupReducer s (UPDATE_TAB_STATUS t st) = update_tab_status s t st"
| "terminalGroupReducer s (UPDATE_TAB_NAME t name) = update_tab_name s t name"
| "terminalGroupReducer s (RECONNECT_TAB t) = reconnect_tab s t"
| "terminalGroupReducer s (UPDATE_GRID_SIZES path sizes) =
     s\<lparr>gridLayout := updateSizes (gridLayout s) path sizes\<rparr>"
| "terminalGroupReducer s RESET_LAYOUT = createDefaultState"
| "terminalGroupReducer s (RESTORE_LAYOUT s') = resetUnreadOutput s'"

section \<open>Display names\<close>

text \<open>
  \<open>getTabDisplayName\<close> (\<open>terminal-group-utils.ts\<close>). The tab is one of the group's tabs, given by
  its position, as \<open>indexOf\<close> compares by reference.
\<close>

definition base_id :: "terminal_tab \<Rightarrow> string" where
  "base_id t = (case or_null (originalConnectionId t) of Some i \<Rightarrow> i | None \<Rightarrow> tab_id t)"

definition getTabDisplayName :: "terminal_tab list \<Rightarrow> nat \<Rightarrow> string" where
  "getTabDisplayName ts i =
     (let t = ts ! i;
          siblings = filter (\<lambda>j. base_id (ts ! j) = base_id t) [0..<length ts]
      in if length siblings \<le> 1 then tab_name t
         else tab_name t @ '' ('' @
           string_of_nat (case find_index (\<lambda>j. j = i) siblings of Some k \<Rightarrow> k + 1 | None \<Rightarrow> 0) @ '')'')"

section \<open>The state invariant\<close>

text \<open>
  What the reducer keeps: objects with distinct keys; each group filed under its own id, its tab
  ids distinct, with an active tab exactly when it has tabs; the leaves of the layout are the
  groups, each once; the focused group exists; \<open>tabToGroupMap\<close> is the inverse of the groups' tab
  lists (so a tab id occurs once in the whole state); group ids from \<open>nextGroupId\<close> on are unused;
  the layout is well-formed.
\<close>

definition group_ok :: "terminal_group \<Rightarrow> bool" where
  "group_ok g \<longleftrightarrow> distinct (group_ids g) \<and>
     (case activeTabId g of None \<Rightarrow> tabs g = [] | Some a \<Rightarrow> a \<in> set (group_ids g))"

definition groups_ok :: "terminal_group obj \<Rightarrow> bool" where
  "groups_ok gs \<longleftrightarrow> obj_ok gs \<and>
     (\<forall>k g. obj_get gs k = Some g \<longrightarrow> group_id g = k \<and> group_ok g)"

definition tab_in :: "terminal_group obj \<Rightarrow> string \<Rightarrow> string \<Rightarrow> bool" where
  "tab_in gs k t \<longleftrightarrow> (\<exists>g. obj_get gs k = Some g \<and> t \<in> set (group_ids g))"

definition map_ok :: "terminal_group obj \<Rightarrow> string obj \<Rightarrow> bool" where
  "map_ok gs m \<longleftrightarrow> obj_ok m \<and> (\<forall>t k. obj_get m t = Some k \<longleftrightarrow> tab_in gs k t)"

definition layout_ok :: "terminal_group obj \<Rightarrow> grid_node \<Rightarrow> bool" where
  "layout_ok gs n \<longleftrightarrow> grid_ok n \<and> distinct (collectLeafIds n) \<and>
     (\<forall>k. k \<in> set (collectLeafIds n) \<longleftrightarrow> obj_get gs k \<noteq> None)"

definition ids_fresh :: "terminal_group obj \<Rightarrow> nat \<Rightarrow> bool" where
  "ids_fresh gs n \<longleftrightarrow> (\<forall>m \<ge> n. obj_get gs (string_of_nat m) = None)"

definition state_ok :: "group_state \<Rightarrow> bool" where
  "state_ok s \<longleftrightarrow> groups_ok (groups s) \<and> map_ok (groups s) (tabToGroupMap s) \<and>
     layout_ok (groups s) (gridLayout s) \<and> ids_fresh (groups s) (nextGroupId s) \<and>
     obj_get (groups s) (activeGroupId s) \<noteq> None"

text \<open>
  The actions that bring data in from outside must bring good data: a tab opened by a split has
  an id no tab has yet, new sizes fit the branch they are for, a restored layout is well-formed.
\<close>

fun ok_action :: "group_state \<Rightarrow> group_action \<Rightarrow> bool" where
  "ok_action s (SPLIT_GROUP g d (Some t)) = (obj_get (tabToGroupMap s) (tab_id t) = None)"
| "ok_action s (UPDATE_GRID_SIZES path sizes) = fits_path (gridLayout s) path sizes"
| "ok_action s (RESTORE_LAYOUT s') = state_ok s'"
| "ok_action s _ = True"

end
