(* ===== verification/TabGroupsInv.thy ===== *)
theory TabGroupsInv
  imports TabGroups
begin

text \<open>
  The reducer keeps \<open>state_ok\<close>: one preservation lemma per action, the interpretation of the
  \<open>action_machine\<close> interface on the reducer, and the functional facts about tabs that the
  properties of the root theory rest on.
\<close>

section \<open>Reading the invariant\<close>

lemma tab_in_set [simp]:
  "tab_in (obj_set k g gs) j t = (if j = k then t \<in> set (group_ids g) else tab_in gs j t)"
  by (auto simp: tab_in_def)

lemma tab_in_del [simp]: "tab_in (obj_del k gs) j t = (j \<noteq> k \<and> tab_in gs j t)"
  by (auto simp: tab_in_def)

lemma tab_in_get: "obj_get gs k = Some g \<Longrightarrow> tab_in gs k t = (t \<in> set (group_ids g))"
  by (simp add: tab_in_def)

lemma state_ok_group: "state_ok s \<Longrightarrow> obj_get (groups s) k = Some g \<Longrightarrow> group_id g = k \<and> group_ok g"
  by (simp add: state_ok_def groups_ok_def)

lemma state_ok_map: "state_ok s \<Longrightarrow> (obj_get (tabToGroupMap s) t = Some k) = tab_in (groups s) k t"
  by (simp add: state_ok_def map_ok_def)

lemma state_ok_map_None:
  "state_ok s \<Longrightarrow> obj_get (tabToGroupMap s) t = None \<longleftrightarrow> (\<forall>k. \<not> tab_in (groups s) k t)"
  using state_ok_map [of s t] by (metis not_None_eq option.distinct(1))

lemma tab_in_unique:
  "state_ok s \<Longrightarrow> tab_in (groups s) k t \<Longrightarrow> tab_in (groups s) j t \<Longrightarrow> j = k"
  by (metis state_ok_map option.inject)

lemma state_ok_leaves:
  "state_ok s \<Longrightarrow> k \<in> set (collectLeafIds (gridLayout s)) \<longleftrightarrow> obj_get (groups s) k \<noteq> None"
  by (simp add: state_ok_def layout_ok_def)

lemma state_ok_fresh: "state_ok s \<Longrightarrow> obj_get (groups s) (string_of_nat (nextGroupId s)) = None"
  by (simp add: state_ok_def ids_fresh_def)

lemma groups_ok_set: "groups_ok gs \<Longrightarrow> group_id g = k \<Longrightarrow> group_ok g \<Longrightarrow> groups_ok (obj_set k g gs)"
  by (auto simp: groups_ok_def)

lemma groups_ok_del: "groups_ok gs \<Longrightarrow> groups_ok (obj_del k gs)"
  by (auto simp: groups_ok_def split: if_splits)

text \<open>Replacing an existing group changes neither the layout's agreement nor freshness.\<close>

lemma layout_ok_replace: "obj_get gs k \<noteq> None \<Longrightarrow> layout_ok (obj_set k g gs) n = layout_ok gs n"
  by (auto simp: layout_ok_def)

lemma ids_fresh_replace: "obj_get gs k \<noteq> None \<Longrightarrow> ids_fresh (obj_set k g gs) n = ids_fresh gs n"
  by (auto simp: ids_fresh_def)

section \<open>Changing one group\<close>

lemma state_ok_replace:
  assumes "state_ok s" and k: "obj_get (groups s) k = Some g"
    and g': "group_id g' = k" "group_ok g'"
    and m: "map_ok (obj_set k g' (groups s)) m"
  shows "state_ok (s\<lparr>groups := obj_set k g' (groups s), tabToGroupMap := m\<rparr>)"
  using assms by (auto simp: state_ok_def groups_ok_set layout_ok_replace ids_fresh_replace)

lemma map_ok_same_ids:
  "map_ok gs m \<Longrightarrow> obj_get gs k = Some g \<Longrightarrow> set (group_ids g') = set (group_ids g) \<Longrightarrow>
     map_ok (obj_set k g' gs) m"
  by (auto simp: map_ok_def tab_in_get)

lemma state_ok_same_ids:
  assumes "state_ok s" "obj_get (groups s) k = Some g" "group_id g' = k" "group_ok g'"
    "set (group_ids g') = set (group_ids g)"
  shows "state_ok (s\<lparr>groups := obj_set k g' (groups s)\<rparr>)"
proof -
  have "map_ok (obj_set k g' (groups s)) (tabToGroupMap s)"
    using assms by (intro map_ok_same_ids) (auto simp: state_ok_def)
  from state_ok_replace [OF assms(1-4) this] show ?thesis by simp
qed

text \<open>Dropping some of a group's tabs, and their entries of the map.\<close>

lemma map_ok_drop:
  assumes s: "state_ok s" and k: "obj_get (groups s) k = Some g"
    and ids: "set (group_ids g') = set (group_ids g) - set removed"
    and removed: "set removed \<subseteq> set (group_ids g)"
  shows "map_ok (obj_set k g' (groups s)) (obj_del_all removed (tabToGroupMap s))"
  unfolding map_ok_def
proof (intro conjI allI)
  show "obj_ok (obj_del_all removed (tabToGroupMap s))"
    using s by (simp add: state_ok_def map_ok_def)
next
  fix t j
  show "obj_get (obj_del_all removed (tabToGroupMap s)) t = Some j \<longleftrightarrow>
      tab_in (obj_set k g' (groups s)) j t"
  proof (cases "t \<in> set removed")
    case True
    with removed k have "tab_in (groups s) k t" by (auto simp: tab_in_get)
    then have "tab_in (groups s) j t \<Longrightarrow> j = k" by (rule tab_in_unique [OF s])
    moreover have "t \<notin> set (group_ids g')" using True ids by simp
    ultimately have "\<not> tab_in (obj_set k g' (groups s)) j t" by auto
    with True show ?thesis by simp
  next
    case False
    with ids k have "tab_in (obj_set k g' (groups s)) j t = tab_in (groups s) j t"
      by (simp add: tab_in_get)
    with False show ?thesis by (simp add: state_ok_map [OF s])
  qed
qed

lemma obj_del_all_single: "obj_del_all [k] o1 = obj_del k o1"
  by (simp add: obj_del_all_def)

lemma state_ok_drop:
  assumes "state_ok s" "obj_get (groups s) k = Some g" "group_id g' = k" "group_ok g'"
    "set (group_ids g') = set (group_ids g) - set removed" "set removed \<subseteq> set (group_ids g)"
  shows "state_ok (s\<lparr>groups := obj_set k g' (groups s),
                     tabToGroupMap := obj_del_all removed (tabToGroupMap s)\<rparr>)"
  using assms by (intro state_ok_replace map_ok_drop)

lemma group_ok_clear [simp]: "group_ok (g\<lparr>tabs := [], activeTabId := None\<rparr>)"
  by (simp add: group_ok_def)

lemma pickAdjacentTab_in:
  "case pickAdjacentTab ts i of None \<Rightarrow> ts = [] | Some a \<Rightarrow> a \<in> set (map tab_id ts)"
  by (auto simp: pickAdjacentTab_def)

lemma without_tab_ids [simp]: "group_ids (without_tab g t i) = filter (\<lambda>x. x \<noteq> t) (group_ids g)"
  by (simp add: without_tab_def Let_def filter_map comp_def)

lemma without_tab_id [simp]: "group_id (without_tab g t i) = group_id g"
  by (simp add: without_tab_def Let_def)

lemma without_tab_ok: "group_ok g \<Longrightarrow> group_ok (without_tab g t i)"
proof -
  assume g: "group_ok g"
  have "distinct (group_ids (without_tab g t i))"
    using g by (simp only: without_tab_ids) (simp add: group_ok_def)
  moreover have "case activeTabId (without_tab g t i) of None \<Rightarrow> tabs (without_tab g t i) = []
      | Some a \<Rightarrow> a \<in> set (group_ids (without_tab g t i))"
  proof (cases "activeTabId g = Some t")
    case True
    then show ?thesis
      using pickAdjacentTab_in [of "filter (\<lambda>x. tab_id x \<noteq> t) (tabs g)" i]
      by (simp add: without_tab_def Let_def split: option.splits)
  next
    case False
    then show ?thesis using g
      by (auto simp: without_tab_def Let_def group_ok_def split: option.splits)
  qed
  ultimately show ?thesis by (simp add: group_ok_def)
qed

section \<open>Removing a group\<close>

lemma other_group_exists:
  assumes "groups_ok gs" "obj_get gs k = Some g" "\<not> length (obj_keys gs) \<le> 1"
  shows "\<exists>j h. j \<noteq> k \<and> obj_get gs j = Some h"
proof (rule ccontr)
  assume none: "\<not> ?thesis"
  have "set (obj_keys gs) \<subseteq> {k}"
    using none by (auto simp: obj_keys_get simp del: obj_keys_set)
  moreover have "distinct (obj_keys gs)" using assms(1) by (simp add: groups_ok_def rec.keys_distinct)
  ultimately have "length (obj_keys gs) \<le> card {k}"
    by (metis card_mono distinct_card finite.emptyI finite.insertI)
  with assms(3) show False by simp
qed

lemma removeGroup_ok:
  assumes s: "state_ok s" and k: "obj_get (groups s) k = Some g"
    and many: "\<not> length (obj_keys (groups s)) \<le> 1"
  shows "state_ok (removeGroupFromState s k)"
proof -
  let ?gs = "obj_del k (groups s)" and ?m = "obj_del_all (group_ids g) (tabToGroupMap s)"
  from s have ok: "groups_ok (groups s)" "layout_ok (groups s) (gridLayout s)"
    "ids_fresh (groups s) (nextGroupId s)" "map_ok (groups s) (tabToGroupMap s)"
    by (auto simp: state_ok_def)
  obtain j h where j: "j \<noteq> k" "obj_get (groups s) j = Some h"
    using other_group_exists [OF ok(1) k many] by blast
  with s have "j \<in> set (collectLeafIds (gridLayout s))" by (simp add: state_ok_leaves)
  with j obtain n where n: "removeLeaf (gridLayout s) k = Some n"
    using removeLeaf_None_leaves by fastforce
  let ?n = "simplifyTree n"
  have leaves: "collectLeafIds n = filter (\<lambda>x. x \<noteq> k) (collectLeafIds (gridLayout s))"
    using removeLeaf_Some_leaves [OF n] by simp
  have lay: "layout_ok ?gs ?n"
    using ok(2) removeLeaf_simplify_ok [OF _ n] by (auto simp: layout_ok_def leaves)
  have map: "map_ok ?gs ?m"
    unfolding map_ok_def
  proof (intro conjI allI)
    show "obj_ok ?m" using ok(4) by (simp add: map_ok_def)
  next
    fix t i
    show "obj_get ?m t = Some i \<longleftrightarrow> tab_in ?gs i t"
      using k state_ok_map [OF s, of t i] tab_in_unique [OF s, of k t i]
      by (auto simp: tab_in_get)
  qed
  have leaf_ne: "collectLeafIds ?n \<noteq> []" using lay by (intro grid_ok_leaves_ne) (simp add: layout_ok_def)
  then have "obj_get ?gs (hd (collectLeafIds ?n)) \<noteq> None"
    using lay hd_in_set [OF leaf_ne] unfolding layout_ok_def by blast
  moreover have "obj_get (groups s) (activeGroupId s) \<noteq> None" using s by (simp add: state_ok_def)
  ultimately have "obj_get ?gs (activeGroupId (removeGroupFromState s k)) \<noteq> None"
    using leaf_ne by (auto simp: removeGroupFromState_def Let_def n split: list.split)
  moreover have "groups_ok ?gs" "ids_fresh ?gs (nextGroupId s)"
    using ok by (auto simp: groups_ok_del ids_fresh_def)
  ultimately show ?thesis using lay map
    by (simp add: state_ok_def removeGroupFromState_def Let_def n k)
qed

lemma maybeRemove_ok: "state_ok s \<Longrightarrow> state_ok (maybeRemoveEmptyGroup s k)"
  by (simp add: maybeRemoveEmptyGroup_def removeGroup_ok split: option.split)


section \<open>One lemma per action\<close>

lemma createDefaultState_ok: "state_ok createDefaultState"
proof -
  have "string_of_nat m \<noteq> ''1''" if "2 \<le> m" for m
  proof
    assume "string_of_nat m = ''1''"
    then have "m = nat_of_digits ''1''" by (metis nat_of_string_of_nat)
    then have "m = 1" by (simp add: nat_of_digits_def)
    with that show False by simp
  qed
  then show ?thesis
    by (auto simp: state_ok_def createDefaultState_def groups_ok_def map_ok_def layout_ok_def
        ids_fresh_def group_ok_def tab_in_def obj_get_def obj_ok_def split: if_splits)
qed

text \<open>A new group, placed next to an existing one.\<close>

lemma layout_ok_split:
  assumes "layout_ok gs n" "obj_get gs k \<noteq> None" "obj_get gs new = None"
  shows "layout_ok (obj_set new g gs) (insertSplit n k new d)"
proof -
  have "k \<in> set (collectLeafIds n)" "new \<notin> set (collectLeafIds n)"
    using assms by (auto simp: layout_ok_def)
  with assms show ?thesis
    by (auto simp: layout_ok_def insertSplit_ok insertSplit_distinct set_insertSplit_leaves)
qed

lemma ids_fresh_new: "ids_fresh gs n \<Longrightarrow> ids_fresh (obj_set (string_of_nat n) g gs) (Suc n)"
  by (auto simp: ids_fresh_def)

lemma split_group_ok:
  assumes "state_ok s" "ok_action s (SPLIT_GROUP k d t)"
  shows "state_ok (split_group s k d t)"
proof (cases "obj_get (groups s) k")
  case None
  with assms show ?thesis by (simp add: split_group_def)
next
  case (Some g)
  let ?new = "string_of_nat (nextGroupId s)"
  let ?g = "\<lparr>group_id = ?new, tabs = (case t of Some t \<Rightarrow> [t] | None \<Rightarrow> []),
              activeTabId = map_option tab_id t\<rparr>"
  let ?gs = "obj_set ?new ?g (groups s)"
  let ?m = "case t of Some t \<Rightarrow> obj_set (tab_id t) ?new (tabToGroupMap s) | None \<Rightarrow> tabToGroupMap s"
  have fresh: "obj_get (groups s) ?new = None" using assms by (simp add: state_ok_fresh)
  have "groups_ok ?gs"
    using assms by (intro groups_ok_set) (auto simp: state_ok_def group_ok_def split: option.split)
  moreover have "layout_ok ?gs (insertSplit (gridLayout s) k ?new d)"
    using assms Some fresh by (intro layout_ok_split) (auto simp: state_ok_def)
  moreover have "ids_fresh ?gs (Suc (nextGroupId s))"
    using assms by (intro ids_fresh_new) (simp add: state_ok_def)
  moreover have "map_ok ?gs ?m"
  proof (cases t)
    case None
    with assms fresh show ?thesis by (auto simp: state_ok_def map_ok_def tab_in_def)
  next
    case (Some t')
    then have "\<And>i. \<not> tab_in (groups s) i (tab_id t')"
      using assms by (simp add: state_ok_map_None)
    then show ?thesis
      using Some assms fresh by (auto simp: state_ok_def map_ok_def tab_in_def)
  qed
  ultimately show ?thesis
    using Some by (simp add: split_group_def Let_def state_ok_def)
qed

lemma remove_group_ok: assumes "state_ok s" shows "state_ok (remove_group s k)"
proof (cases "obj_get (groups s) k")
  case None
  with assms show ?thesis by (simp add: remove_group_def)
next
  case (Some g)
  show ?thesis
  proof (cases "length (obj_keys (groups s)) \<le> 1")
    case True
    then have gs: "groups s = [(k, g)]"
      using assms Some by (intro obj_single_key) (auto simp: state_ok_def groups_ok_def)
    have "state_ok (s\<lparr>groups := obj_set k (g\<lparr>tabs := [], activeTabId := None\<rparr>) (groups s),
        tabToGroupMap := obj_del_all (group_ids g) (tabToGroupMap s)\<rparr>)"
      using assms Some by (intro state_ok_drop) (auto simp: state_ok_group)
    then show ?thesis using True Some by (simp add: remove_group_def gs obj_set_def)
  next
    case False
    with assms Some show ?thesis by (simp add: remove_group_def removeGroup_ok)
  qed
qed

lemma activate_group_ok: "state_ok s \<Longrightarrow> state_ok (activate_group s k)"
  by (simp add: activate_group_def state_ok_def)

lemma add_tab_guard:
  assumes "state_ok s"
  shows "(\<exists>g \<in> set (obj_values (groups s)). t \<in> set (group_ids g)) \<longleftrightarrow> (\<exists>k. tab_in (groups s) k t)"
proof -
  have ok: "obj_ok (groups s)" using assms by (simp add: state_ok_def groups_ok_def)
  show ?thesis by (simp only: Bex_def obj_values_set [OF ok] tab_in_def) blast
qed

lemma add_tab_ok: assumes s: "state_ok s" shows "state_ok (add_tab s k t)"
proof (cases "obj_get (groups s) k")
  case None
  with assms show ?thesis by (simp add: add_tab_def)
next
  case (Some g)
  let ?g = "g\<lparr>tabs := tabs g @ [t], activeTabId := Some (tab_id t)\<rparr>"
  show ?thesis
  proof (cases "\<exists>i. tab_in (groups s) i (tab_id t)")
    case True
    with s Some show ?thesis
      by (simp only: add_tab_def add_tab_guard [OF s] option.case True if_True)
  next
    case False
    then have new: "\<And>i. \<not> tab_in (groups s) i (tab_id t)" by blast
    from new [of k] Some state_ok_group [OF s Some] have "group_ok ?g"
      by (simp add: group_ok_def tab_in_get)
    moreover have "map_ok (obj_set k ?g (groups s)) (obj_set (tab_id t) k (tabToGroupMap s))"
      using s new Some by (auto simp: state_ok_def map_ok_def tab_in_get)
    ultimately have "state_ok (s\<lparr>groups := obj_set k ?g (groups s),
        tabToGroupMap := obj_set (tab_id t) k (tabToGroupMap s)\<rparr>)"
      using s Some state_ok_group [OF s Some] by (intro state_ok_replace) auto
    with False Some show ?thesis
      by (simp only: add_tab_def add_tab_guard [OF s] option.case if_False)
  qed
qed

lemma find_index_id: "find_index (\<lambda>t. tab_id t = i) ts = Some k \<Longrightarrow> i \<in> set (map tab_id ts)"
  using find_index_Some by fastforce

lemma remove_tab_ok: assumes s: "state_ok s" shows "state_ok (remove_tab s k t)"
proof (cases "obj_get (groups s) k")
  case None
  with s show ?thesis by (simp add: remove_tab_def)
next
  case (Some g)
  have "state_ok (s\<lparr>groups := obj_set k (without_tab g t i) (groups s),
      tabToGroupMap := obj_del_all [t] (tabToGroupMap s)\<rparr>)"
    if "find_index (\<lambda>x. tab_id x = t) (tabs g) = Some i" for i
    using s Some find_index_id [OF that]
    by (intro state_ok_drop) (auto simp: state_ok_group without_tab_ok simp del: set_map)
  with s Some show ?thesis
    by (auto simp: remove_tab_def obj_del_all_single intro!: maybeRemove_ok split: option.split)
qed

lemma activate_tab_ok: assumes s: "state_ok s" shows "state_ok (activate_tab s k t)"
proof (cases "obj_get (groups s) k")
  case None
  with s show ?thesis by (simp add: activate_tab_def)
next
  case (Some g)
  have "state_ok (s\<lparr>groups := obj_set k (g\<lparr>activeTabId := Some t\<rparr>) (groups s)\<rparr>)"
    if "t \<in> set (group_ids g)"
    using s Some that state_ok_group [OF s Some]
    by (intro state_ok_same_ids) (auto simp: group_ok_def)
  with s Some show ?thesis by (simp add: activate_tab_def)
qed

subsection \<open>Moving tabs\<close>

lemma map_ok_move:
  assumes s: "state_ok s"
    and moved: "\<And>i x. tab_in gs' i x = (if x = t then i = j else tab_in (groups s) i x)"
  shows "map_ok gs' (obj_set t j (tabToGroupMap s))"
  using s by (auto simp: map_ok_def moved state_ok_map) (simp add: state_ok_def map_ok_def)

text \<open>The source group of a move, and the tab found in it.\<close>

lemma found_tab:
  assumes "find (\<lambda>t. tab_id t = i) (tabs g) = Some t"
  shows "tab_id t = i" "i \<in> set (group_ids g)"
  using find_Some_mem [OF assms] by auto

lemma group_ok_insert:
  assumes "group_ok g" "tab_id t \<notin> set (group_ids g)"
  shows "group_ok (g\<lparr>tabs := insert_at p t (tabs g), activeTabId := Some (tab_id t)\<rparr>)"
  using assms by (simp add: group_ok_def map_insert_at)

lemma move_same_ok:
  assumes s: "state_ok s" and k: "obj_get (groups s) k = Some g"
    and t: "find (\<lambda>t. tab_id t = i) (tabs g) = Some t"
  shows "state_ok (s\<lparr>groups := obj_set k (g\<lparr>tabs := insert_at p t (tabs (without_tab g i r)),
            activeTabId := Some (tab_id t)\<rparr>) (groups s)\<rparr>)"
proof -
  note ids = without_tab_ids [of g i r]
  have "group_ok ((without_tab g i r)\<lparr>tabs := insert_at p t (tabs (without_tab g i r)),
      activeTabId := Some (tab_id t)\<rparr>)"
    using state_ok_group [OF s k] found_tab [OF t]
    by (intro group_ok_insert without_tab_ok) (simp_all only: ids, simp_all)
  then have "group_ok (g\<lparr>tabs := insert_at p t (tabs (without_tab g i r)), activeTabId := Some (tab_id t)\<rparr>)"
    by (simp add: group_ok_def)
  moreover have "set (map tab_id (insert_at p t (tabs (without_tab g i r)))) = set (group_ids g)"
    using found_tab [OF t] by (simp only: map_insert_at ids set_insert_at) auto
  ultimately show ?thesis using s k state_ok_group [OF s k] by (intro state_ok_same_ids) auto
qed

lemma move_other_ok:
  assumes s: "state_ok s" and k: "obj_get (groups s) k = Some src" "obj_get (groups s) j = Some tgt"
    and t: "find (\<lambda>t. tab_id t = i) (tabs src) = Some t" and kj: "k \<noteq> j"
  shows "state_ok (s\<lparr>groups := obj_set j (tgt\<lparr>tabs := insert_at p t (tabs tgt),
              activeTabId := Some (tab_id t)\<rparr>) (obj_set k (without_tab src i r) (groups s)),
            tabToGroupMap := obj_set i j (tabToGroupMap s)\<rparr>)"
proof -
  let ?tgt = "tgt\<lparr>tabs := insert_at p t (tabs tgt), activeTabId := Some (tab_id t)\<rparr>"
  let ?gs1 = "obj_set k (without_tab src i r) (groups s)"
  let ?gs = "obj_set j ?tgt ?gs1"
  have i: "tab_id t = i" "tab_in (groups s) k i"
    using found_tab [OF t] k by (auto simp: tab_in_get)
  then have "\<not> tab_in (groups s) j i" using tab_in_unique [OF s] kj by blast
  then have new: "tab_id t \<notin> set (group_ids tgt)" using k i by (simp add: tab_in_get)
  have only: "tab_in (groups s) x i \<Longrightarrow> x = k" for x using tab_in_unique [OF s] i by blast
  have a: "set (group_ids ?tgt) = insert i (set (group_ids tgt))"
    by (simp add: map_insert_at i)
  have b: "set (group_ids (without_tab src i r)) = set (group_ids src) - {i}"
    by (simp only: without_tab_ids) auto
  have e: "tab_in ?gs x y = (if x = j then y = i \<or> tab_in (groups s) j y
      else if x = k then y \<noteq> i \<and> tab_in (groups s) k y else tab_in (groups s) x y)" for x y
    by (simp only: tab_in_set a b tab_in_get [OF k(1)] tab_in_get [OF k(2)]) auto
  have "tab_in ?gs x y = (if y = i then x = j else tab_in (groups s) x y)" for x y
    unfolding e using only \<open>\<not> tab_in (groups s) j i\<close> by (cases "y = i"; cases "x = j"; cases "x = k") auto
  then have map: "map_ok ?gs (obj_set i j (tabToGroupMap s))" by (rule map_ok_move [OF s])
  have gs1: "groups_ok ?gs1"
    using s k state_ok_group [OF s k(1)]
    by (intro groups_ok_set without_tab_ok) (auto simp: state_ok_def)
  moreover have "group_id ?tgt = j" "group_ok ?tgt"
    using state_ok_group [OF s k(2)] new by (simp_all add: group_ok_insert)
  ultimately have "groups_ok ?gs" by (rule groups_ok_set)
  moreover have "layout_ok ?gs (gridLayout s)" "ids_fresh ?gs (nextGroupId s)"
    using s k kj by (auto simp: state_ok_def layout_ok_replace ids_fresh_replace)
  ultimately show ?thesis using s k map by (auto simp: state_ok_def)
qed

lemma move_tab_ok: assumes s: "state_ok s" shows "state_ok (move_tab s k j i ti)"
  using s unfolding move_tab_def
  by (auto split: option.split simp: Let_def intro!: maybeRemove_ok move_same_ok move_other_ok)

lemma reorder_tab_ok: assumes s: "state_ok s" shows "state_ok (reorder_tab s k i j)"
proof (cases "obj_get (groups s) k")
  case None
  with s show ?thesis by (simp add: reorder_tab_def)
next
  case (Some g)
  have "state_ok (s\<lparr>groups := obj_set k (g\<lparr>tabs := insert_at m (tabs g ! n) (remove_at n (tabs g))\<rparr>) (groups s)\<rparr>)"
    if "n < length (tabs g)" for n m
  proof -
    have mset: "mset (insert_at m (tabs g ! n) (remove_at n (tabs g))) = mset (tabs g)"
      using that by (rule mset_remove_insert_at)
    then have "mset (map tab_id (insert_at m (tabs g ! n) (remove_at n (tabs g)))) = mset (group_ids g)"
      by simp
    then have "distinct (map tab_id (insert_at m (tabs g ! n) (remove_at n (tabs g)))) = distinct (group_ids g)"
      by (rule mset_eq_imp_distinct_iff)
    moreover have "set (insert_at m (tabs g ! n) (remove_at n (tabs g))) = set (tabs g)"
      by (metis mset set_mset_mset)
    moreover have "insert_at m x ys \<noteq> []" for x :: terminal_tab and ys by (simp add: insert_at_def)
    ultimately show ?thesis
      using s Some state_ok_group [OF s Some] that
      by (intro state_ok_same_ids) (auto simp: group_ok_def simp del: set_insert_at split: option.splits)
  qed
  with s Some show ?thesis by (auto simp: reorder_tab_def Let_def)
qed

lemma move_tab_to_new_group_ok:
  assumes s: "state_ok s" shows "state_ok (move_tab_to_new_group s k i d)"
proof (cases "obj_get (groups s) k")
  case None
  with s show ?thesis by (simp add: move_tab_to_new_group_def)
next
  case (Some g)
  let ?new = "string_of_nat (nextGroupId s)"
  have fresh: "obj_get (groups s) ?new = None" using s by (rule state_ok_fresh)
  have "state_ok (s\<lparr>groups := obj_set ?new \<lparr>group_id = ?new, tabs = [t], activeTabId = Some (tab_id t)\<rparr>
           (obj_set k (without_tab g i r) (groups s)),
         gridLayout := insertSplit (gridLayout s) k ?new d, nextGroupId := nextGroupId s + 1,
         activeGroupId := ?new, tabToGroupMap := obj_set i ?new (tabToGroupMap s)\<rparr>)"
    (is "state_ok ?s") if t: "find (\<lambda>t. tab_id t = i) (tabs g) = Some t" for t r
  proof -
    have i: "tab_id t = i" "tab_in (groups s) k i"
      using found_tab [OF t] Some by (auto simp: tab_in_get)
    have k: "k \<noteq> ?new" using Some fresh by auto
    have only: "tab_in (groups s) x i \<Longrightarrow> x = k" for x using tab_in_unique [OF s] i by blast
    have none: "\<not> tab_in (groups s) ?new y" for y using fresh by (simp add: tab_in_def)
    have b: "set (group_ids (without_tab g i r)) = set (group_ids g) - {i}"
      by (simp only: without_tab_ids) auto
    have e: "tab_in (groups ?s) x y = (if x = ?new then y = i
        else if x = k then y \<noteq> i \<and> tab_in (groups s) k y else tab_in (groups s) x y)" for x y
      by (simp add: i(1) del: set_map) (simp only: b tab_in_get [OF Some], auto)
    have "tab_in (groups ?s) x y = (if y = i then x = ?new else tab_in (groups s) x y)" for x y
      unfolding e using only none by (cases "y = i"; cases "x = ?new"; cases "x = k") auto
    then have "map_ok (groups ?s) (tabToGroupMap ?s)"
      using map_ok_move [OF s] by simp
    moreover have gs1: "groups_ok (obj_set k (without_tab g i r) (groups s))"
      using s Some state_ok_group [OF s Some]
      by (intro groups_ok_set without_tab_ok) (auto simp: state_ok_def)
    then have "groups_ok (groups ?s)" by (auto intro!: groups_ok_set simp: group_ok_def)
    moreover have "layout_ok (groups ?s) (gridLayout ?s)"
      using s Some fresh k by (auto simp: state_ok_def layout_ok_replace intro!: layout_ok_split)
    moreover have "ids_fresh (groups ?s) (nextGroupId ?s)"
      using s Some by (auto simp: state_ok_def ids_fresh_replace intro!: ids_fresh_new)
    ultimately show ?thesis by (simp add: state_ok_def)
  qed
  with s Some show ?thesis
    by (auto simp: move_tab_to_new_group_def Let_def intro!: maybeRemove_ok split: option.split)
qed

subsection \<open>Closing tabs\<close>

lemma close_other_tabs_ok: assumes s: "state_ok s" shows "state_ok (close_other_tabs s k i)"
proof (cases "obj_get (groups s) k")
  case None
  with s show ?thesis by (simp add: close_other_tabs_def)
next
  case (Some g)
  have "state_ok (s\<lparr>groups := obj_set k (g\<lparr>tabs := [t], activeTabId := Some (tab_id t)\<rparr>) (groups s),
      tabToGroupMap := obj_del_all (filter (\<lambda>x. x \<noteq> i) (group_ids g)) (tabToGroupMap s)\<rparr>)"
    if t: "find (\<lambda>t. tab_id t = i) (tabs g) = Some t" for t
    using s Some found_tab [OF t]
    by (intro state_ok_drop) (auto simp: state_ok_group group_ok_def)
  with s Some show ?thesis by (auto simp: close_other_tabs_def split: option.split)
qed

lemma surviving_active_in:
  "ts \<noteq> [] \<Longrightarrow> f = Some (tab_id x) \<Longrightarrow> x \<in> set ts \<Longrightarrow>
     case surviving_active a ts f of None \<Rightarrow> ts = [] | Some b \<Rightarrow> b \<in> set (map tab_id ts)"
  by (auto simp: surviving_active_def split: option.split)

lemma close_side_ok:
  assumes s: "state_ok s" and k: "obj_get (groups s) k = Some g"
    and parts: "tabs g = removed @ kept \<or> tabs g = kept @ removed" "kept \<noteq> []"
    and a: "case a of None \<Rightarrow> kept = [] | Some b \<Rightarrow> b \<in> set (map tab_id kept)"
  shows "state_ok (s\<lparr>groups := obj_set k (g\<lparr>tabs := kept, activeTabId := a\<rparr>) (groups s),
      tabToGroupMap := obj_del_all (map tab_id removed) (tabToGroupMap s)\<rparr>)"
proof -
  have dist: "distinct (group_ids g)" using state_ok_group [OF s k] by (simp add: group_ok_def)
  have diff: "distinct (xs @ ys) \<Longrightarrow> set xs = set (xs @ ys) - set ys"
    "distinct (xs @ ys) \<Longrightarrow> set ys = set (xs @ ys) - set xs" for xs ys :: "string list"
    by auto
  have "set (map tab_id kept) = set (group_ids g) - set (map tab_id removed)"
    using parts(1) dist diff by (metis map_append)
  moreover have "distinct (map tab_id kept)" using dist parts(1) by auto
  moreover have "set (map tab_id removed) \<subseteq> set (group_ids g)" using parts(1) by auto
  ultimately show ?thesis
    using s k state_ok_group [OF s k] a
    by (intro state_ok_drop) (auto simp: group_ok_def split: option.splits)
qed

lemma close_tabs_to_right_ok: assumes s: "state_ok s" shows "state_ok (close_tabs_to_right s k i)"
proof (cases "obj_get (groups s) k")
  case None
  with s show ?thesis by (simp add: close_tabs_to_right_def)
next
  case (Some g)
  show ?thesis
  proof (cases "find_index (\<lambda>t. tab_id t = i) (tabs g)")
    case None
    with s show ?thesis by (simp only: close_tabs_to_right_def Some option.case)
  next
    case (Some n)
    let ?kept = "take (Suc n) (tabs g)"
    have ne: "?kept \<noteq> []" using find_index_Some [OF Some] by auto
    have "state_ok (s\<lparr>groups := obj_set k (g\<lparr>tabs := ?kept, activeTabId := surviving_active
          (activeTabId g) ?kept (if ?kept = [] then None else Some (tab_id (last ?kept)))\<rparr>) (groups s),
        tabToGroupMap := obj_del_all (map tab_id (drop (Suc n) (tabs g))) (tabToGroupMap s)\<rparr>)"
      using s ne \<open>obj_get (groups s) k = Some g\<close> last_in_set [OF ne]
      by (intro close_side_ok surviving_active_in) auto
    with Some \<open>obj_get (groups s) k = Some g\<close> show ?thesis
      by (simp only: close_tabs_to_right_def option.case Let_def)
  qed
qed

lemma close_tabs_to_left_ok: assumes s: "state_ok s" shows "state_ok (close_tabs_to_left s k i)"
proof (cases "obj_get (groups s) k")
  case None
  with s show ?thesis by (simp add: close_tabs_to_left_def)
next
  case (Some g)
  show ?thesis
  proof (cases "find_index (\<lambda>t. tab_id t = i) (tabs g)")
    case None
    with s show ?thesis by (simp only: close_tabs_to_left_def Some option.case)
  next
    case (Some n)
    let ?kept = "drop n (tabs g)"
    have ne: "?kept \<noteq> []" using find_index_Some [OF Some] by auto
    have "state_ok (s\<lparr>groups := obj_set k (g\<lparr>tabs := ?kept, activeTabId := surviving_active
          (activeTabId g) ?kept (if ?kept = [] then None else Some (tab_id (hd ?kept)))\<rparr>) (groups s),
        tabToGroupMap := obj_del_all (map tab_id (take n (tabs g))) (tabToGroupMap s)\<rparr>)"
      using s ne \<open>obj_get (groups s) k = Some g\<close> hd_in_set [OF ne]
      by (intro close_side_ok surviving_active_in) auto
    with Some \<open>obj_get (groups s) k = Some g\<close> show ?thesis
      by (simp only: close_tabs_to_left_def option.case Let_def)
  qed
qed

lemma close_all_tabs_ok: assumes s: "state_ok s" shows "state_ok (close_all_tabs s k)"
proof (cases "obj_get (groups s) k")
  case None
  with s show ?thesis by (simp add: close_all_tabs_def)
next
  case (Some g)
  have "state_ok (s\<lparr>groups := obj_set k (g\<lparr>tabs := [], activeTabId := None\<rparr>) (groups s),
      tabToGroupMap := obj_del_all (group_ids g) (tabToGroupMap s)\<rparr>)"
    using s Some by (intro state_ok_drop) (auto simp: state_ok_group)
  with s Some show ?thesis by (auto simp: close_all_tabs_def intro: maybeRemove_ok)
qed

subsection \<open>Changing a tab in place\<close>

lemma tab_in_place_ok:
  assumes s: "state_ok s" and k: "obj_get (groups s) k = Some g"
    and i: "find_index (\<lambda>t. tab_id t = x) (tabs g) = Some i" and t: "tab_id t = tab_id (tabs g ! i)"
  shows "state_ok (s\<lparr>groups := obj_set k (g\<lparr>tabs := (tabs g)[i := t]\<rparr>) (groups s)\<rparr>)"
proof -
  have "map tab_id ((tabs g)[i := t]) = group_ids g"
    using find_index_Some [OF i] t by (simp add: map_update list_update_same_conv)
  then show ?thesis
    using s k state_ok_group [OF s k]
    by (intro state_ok_same_ids) (auto simp: group_ok_def simp del: set_map split: option.splits)
qed

lemma modify_tab_ok:
  "state_ok s \<Longrightarrow> (\<And>t. tab_id (f t) = tab_id t) \<Longrightarrow> state_ok (modify_tab s x f)"
  by (auto simp: modify_tab_def intro!: tab_in_place_ok split: option.split)

lemma mark_or_ack_ok: "state_ok s \<Longrightarrow> state_ok (mark_or_ack s x mark)"
  by (auto simp: mark_or_ack_def Let_def intro!: tab_in_place_ok split: option.split)

subsection \<open>Restoring\<close>

lemma map_ids_reset: "map tab_id (map (\<lambda>t. t\<lparr>hasUnreadOutput := b\<rparr>) ts) = map tab_id ts"
  by simp

lemma resetUnreadOutput_ok: assumes s: "state_ok s" shows "state_ok (resetUnreadOutput s)"
proof (cases "\<forall>g \<in> set (obj_values (groups s)). \<forall>t \<in> set (tabs g). hasUnreadOutput t = Some False")
  case True
  with s show ?thesis by (simp add: resetUnreadOutput_def)
next
  case False
  let ?f = "\<lambda>(_ :: string) g. g\<lparr>tabs := map (\<lambda>t. t\<lparr>hasUnreadOutput := Some False\<rparr>) (tabs g)\<rparr>"
  have ok: "obj_ok (groups s)" using s by (simp add: state_ok_def groups_ok_def)
  have get: "obj_get (obj_map ?f (groups s)) k = map_option (?f k) (obj_get (groups s) k)" for k
    by (rule obj_get_map [OF ok])
  have f_ok: "group_ok (?f k g) = group_ok g" for k g
    by (simp add: group_ok_def comp_def) (auto split: option.split)
  have "tab_in (obj_map ?f (groups s)) = tab_in (groups s)"
    by (rule ext, rule ext) (auto simp: tab_in_def get image_image)
  with s have "state_ok (s\<lparr>groups := obj_map ?f (groups s)\<rparr>)"
    by (auto simp: state_ok_def groups_ok_def map_ok_def layout_ok_def ids_fresh_def get f_ok obj_map_ok)
  with False show ?thesis by (simp only: resetUnreadOutput_def if_False)
qed

section \<open>The reducer keeps the invariant\<close>

lemmas action_oks = split_group_ok remove_group_ok activate_group_ok add_tab_ok remove_tab_ok
  activate_tab_ok move_tab_ok reorder_tab_ok close_other_tabs_ok close_tabs_to_right_ok
  close_tabs_to_left_ok close_all_tabs_ok move_tab_to_new_group_ok mark_or_ack_ok
  createDefaultState_ok resetUnreadOutput_ok

lemma updateGridSizes_ok:
  "state_ok s \<Longrightarrow> fits_path (gridLayout s) path sizes \<Longrightarrow>
     state_ok (s\<lparr>gridLayout := updateSizes (gridLayout s) path sizes\<rparr>)"
  by (simp add: state_ok_def layout_ok_def updateSizes_ok)

interpretation grp: action_machine terminalGroupReducer state_ok ok_action
proof unfold_locales
  fix s a
  assume "state_ok s" "ok_action s a"
  then show "state_ok (terminalGroupReducer s a)"
    by (cases a) (simp_all add: action_oks modify_tab_ok updateGridSizes_ok
        update_tab_status_def update_tab_name_def reconnect_tab_def)
qed

end
