(* ===== verification/TabGroupsProps.thy ===== *)
theory TabGroupsProps
  imports TabGroupsInv
begin

text \<open>
  The properties of the terminal groups: the invariant over runs of the reducer, conservation of
  tabs, undoing a split, unread markers, tab names.
\<close>

section \<open>Which tabs a state holds\<close>

definition tab_present :: "group_state \<Rightarrow> terminal_tab \<Rightarrow> bool" where
  "tab_present s t \<longleftrightarrow> (\<exists>k g. obj_get (groups s) k = Some g \<and> t \<in> set (tabs g))"

text \<open>Actions that rearrange tabs and panes without opening, closing or changing a tab.\<close>

fun rearranges :: "group_action \<Rightarrow> bool" where
  "rearranges (SPLIT_GROUP g d None) = True"
| "rearranges (ACTIVATE_GROUP g) = True"
| "rearranges (ACTIVATE_TAB g t) = True"
| "rearranges (MOVE_TAB a b t i) = True"
| "rearranges (REORDER_TAB g i j) = True"
| "rearranges (MOVE_TAB_TO_NEW_GROUP g t d) = True"
| "rearranges (UPDATE_GRID_SIZES p sz) = True"
| "rearranges _ = False"

lemma present_set:
  assumes "obj_get (groups s) k = Some g"
  shows "tab_present (s\<lparr>groups := obj_set k g' (groups s)\<rparr>) t \<longleftrightarrow>
    t \<in> set (tabs g') \<or> (\<exists>j h. j \<noteq> k \<and> obj_get (groups s) j = Some h \<and> t \<in> set (tabs h))"
  by (auto simp: tab_present_def)

lemma present_split:
  assumes "obj_get (groups s) k = Some g"
  shows "tab_present s t \<longleftrightarrow>
    t \<in> set (tabs g) \<or> (\<exists>j h. j \<noteq> k \<and> obj_get (groups s) j = Some h \<and> t \<in> set (tabs h))"
  using assms unfolding tab_present_def by (metis option.inject)

lemma present_cong: "groups s = groups s' \<Longrightarrow> tab_present s = tab_present s'"
  by (rule ext) (simp add: tab_present_def)

lemma present_same_tabs:
  "obj_get (groups s) k = Some g \<Longrightarrow> set (tabs g') = set (tabs g) \<Longrightarrow>
     tab_present (s\<lparr>groups := obj_set k g' (groups s)\<rparr>) t = tab_present s t"
  by (simp add: present_set present_split)

lemma maybeRemove_present [simp]: "tab_present (maybeRemoveEmptyGroup s k) = tab_present s"
proof (cases "obj_get (groups s) k")
  case None
  then show ?thesis by (simp add: maybeRemoveEmptyGroup_def)
next
  case (Some g)
  have "tab_present (removeGroupFromState s k) t = tab_present s t" if "tabs g = []" for t
    using that Some
    by (simp add: present_split [OF Some]) (auto simp: tab_present_def removeGroupFromState_def Let_def)
  with Some show ?thesis by (auto simp: maybeRemoveEmptyGroup_def)
qed

lemma unique_in_group:
  assumes "state_ok s" "obj_get (groups s) k = Some g" "t \<in> set (tabs g)" "t' \<in> set (tabs g)"
    "tab_id t = tab_id t'"
  shows "t = t'"
proof -
  have "distinct (group_ids g)" using state_ok_group [OF assms(1,2)] by (simp add: group_ok_def)
  with assms(3-5) show ?thesis by (simp add: distinct_map inj_on_def)
qed

text \<open>The tabs of the source group are the moved tab and those left.\<close>

lemma without_tab_tabs:
  assumes "state_ok s" "obj_get (groups s) k = Some g" "find (\<lambda>t. tab_id t = i) (tabs g) = Some t"
  shows "insert t (set (tabs (without_tab g i r))) = set (tabs g)"
proof -
  have t: "t \<in> set (tabs g)" "tab_id t = i" using find_Some_mem [OF assms(3)] by auto
  then have "{x \<in> set (tabs g). tab_id x = i} = {t}"
    using unique_in_group [OF assms(1,2)] by blast
  then show ?thesis by (auto simp: without_tab_def Let_def)
qed

lemma move_tab_present: assumes s: "state_ok s" shows "tab_present (move_tab s a b i p) t = tab_present s t"
proof -
  let ?same = "\<lambda>src x r. s\<lparr>groups := obj_set a (src\<lparr>tabs := insert_at (splice_pos
      (length (tabs (without_tab src i r))) p) x (tabs (without_tab src i r)),
      activeTabId := Some (tab_id x)\<rparr>) (groups s)\<rparr>"
  let ?other = "\<lambda>src tgt x r. s\<lparr>groups := obj_set b (tgt\<lparr>tabs := insert_at (splice_pos
      (length (tabs tgt)) p) x (tabs tgt), activeTabId := Some (tab_id x)\<rparr>)
      (obj_set a (without_tab src i r) (groups s)), tabToGroupMap := obj_set i b (tabToGroupMap s)\<rparr>"
  have same: "tab_present (?same src x r) t = tab_present s t"
    if "obj_get (groups s) a = Some src" "find (\<lambda>t. tab_id t = i) (tabs src) = Some x" for src x r
    using that without_tab_tabs [OF s that] by (intro present_same_tabs) auto
  have other: "tab_present (?other src tgt x r) t = tab_present s t"
    if k: "obj_get (groups s) a = Some src" "find (\<lambda>t. tab_id t = i) (tabs src) = Some x"
      "obj_get (groups s) b = Some tgt" "a \<noteq> b" for src tgt x r
  proof -
    have "tab_present (?other src tgt x r) t \<longleftrightarrow> t = x \<or> t \<in> set (tabs tgt) \<or>
        t \<in> set (tabs (without_tab src i r)) \<or>
        (\<exists>j h. j \<noteq> a \<and> j \<noteq> b \<and> obj_get (groups s) j = Some h \<and> t \<in> set (tabs h))"
      using k(4) by (auto simp: tab_present_def)
    also have "\<dots> \<longleftrightarrow> t \<in> set (tabs src) \<or> t \<in> set (tabs tgt) \<or>
        (\<exists>j h. j \<noteq> a \<and> j \<noteq> b \<and> obj_get (groups s) j = Some h \<and> t \<in> set (tabs h))"
      using without_tab_tabs [OF s k(1,2), of r] by blast
    also have "\<dots> \<longleftrightarrow> tab_present s t"
      unfolding tab_present_def using k by (metis option.inject)
    finally show ?thesis .
  qed
  show ?thesis
    unfolding move_tab_def using same other
    by (auto simp: Let_def split: option.split)
qed

lemma move_new_present:
  assumes s: "state_ok s" shows "tab_present (move_tab_to_new_group s k i d) t = tab_present s t"
proof -
  let ?new = "string_of_nat (nextGroupId s)"
  let ?s = "\<lambda>g x r. s\<lparr>groups := obj_set ?new \<lparr>group_id = ?new, tabs = [x], activeTabId = Some (tab_id x)\<rparr>
           (obj_set k (without_tab g i r) (groups s)),
         gridLayout := insertSplit (gridLayout s) k ?new d, nextGroupId := nextGroupId s + 1,
         activeGroupId := ?new, tabToGroupMap := obj_set i ?new (tabToGroupMap s)\<rparr>"
  have "tab_present (?s g x r) t = tab_present s t"
    if k: "obj_get (groups s) k = Some g" "find (\<lambda>t. tab_id t = i) (tabs g) = Some x" for g x r
  proof -
    have fresh: "obj_get (groups s) ?new = None" using s by (rule state_ok_fresh)
    with k have "k \<noteq> ?new" by auto
    then have "tab_present (?s g x r) t \<longleftrightarrow> t = x \<or> t \<in> set (tabs (without_tab g i r)) \<or>
        (\<exists>j h. j \<noteq> k \<and> obj_get (groups s) j = Some h \<and> t \<in> set (tabs h))"
      using fresh by (auto simp: tab_present_def)
    also have "\<dots> \<longleftrightarrow> tab_present s t"
      unfolding present_split [OF k(1)] using without_tab_tabs [OF s k, of r] by blast
    finally show ?thesis .
  qed
  then show ?thesis
    unfolding move_tab_to_new_group_def by (auto simp: Let_def split: option.split)
qed

lemma reorder_present: "tab_present (reorder_tab s k i j) t = tab_present s t"
proof (cases "obj_get (groups s) k")
  case None
  then show ?thesis by (simp add: reorder_tab_def)
next
  case (Some g)
  have "set (insert_at m (tabs g ! n) (remove_at n (tabs g))) = set (tabs g)"
    if "n < length (tabs g)" for n m
    by (metis mset_remove_insert_at [OF that] set_mset_mset)
  then have "tab_present (s\<lparr>groups := obj_set k (g\<lparr>tabs := insert_at m (tabs g ! n)
      (remove_at n (tabs g))\<rparr>) (groups s)\<rparr>) t = tab_present s t" if "n < length (tabs g)" for n m
    using that Some by (intro present_same_tabs) simp_all
  with Some show ?thesis by (auto simp: reorder_tab_def Let_def)
qed

lemma split_group_present:
  assumes "state_ok s" shows "tab_present (split_group s k d None) t = tab_present s t"
proof (cases "obj_get (groups s) k")
  case None
  then show ?thesis by (simp add: split_group_def)
next
  case (Some g)
  have fresh: "obj_get (groups s) (string_of_nat (nextGroupId s)) = None"
    using assms by (rule state_ok_fresh)
  have "obj_get (groups (split_group s k d None)) j =
      (if j = string_of_nat (nextGroupId s)
       then Some \<lparr>group_id = string_of_nat (nextGroupId s), tabs = [], activeTabId = None\<rparr>
       else obj_get (groups s) j)" for j
    by (simp add: split_group_def Some Let_def)
  then have "obj_get (groups (split_group s k d None)) j = Some h \<and> t \<in> set (tabs h) \<longleftrightarrow>
      obj_get (groups s) j = Some h \<and> t \<in> set (tabs h)" for j h
    using fresh by auto
  then show ?thesis by (simp only: tab_present_def)
qed

lemma activate_tab_present: "tab_present (activate_tab s k i) t = tab_present s t"
proof (cases "obj_get (groups s) k")
  case None
  then show ?thesis by (simp add: activate_tab_def)
next
  case (Some g)
  from present_same_tabs [OF this, of "g\<lparr>activeTabId := Some i\<rparr>" t]
  show ?thesis by (simp add: activate_tab_def Some)
qed

lemma activate_group_present: "tab_present (activate_group s k) t = tab_present s t"
  by (simp add: activate_group_def tab_present_def)

lemmas rearranged_present = split_group_present activate_tab_present activate_group_present
  reorder_present move_tab_present move_new_present


section \<open>Runs of the reducer\<close>

text \<open>
  (C1) Every state of the terminal groups that a run of dispatched actions reaches from the
  initial state is consistent: the split tree shows exactly the groups, each once, with
  well-formed sizes; a group with tabs has one of them active; tab ids are unique over all groups
  and \<open>tabToGroupMap\<close> is exactly the inverse of the tab lists; the focused group exists; unused
  group ids are unused. The actions are restricted only where they bring data in (\<open>ok_action\<close>).
\<close>

theorem groups_reachable_ok:
  assumes "ok_run terminalGroupReducer ok_action createDefaultState acts"
  shows "state_ok (run_actions terminalGroupReducer createDefaultState acts)"
  using grp.run_inv [OF createDefaultState_ok assms] .

definition demo_tab :: "string \<Rightarrow> terminal_tab" where
  "demo_tab i = \<lparr>tab_id = i, tab_name = ''host'', tabType = Some Terminal, protocol = None,
     host = None, username = None, originalConnectionId = Some ''c'', connectionStatus = Connected,
     reconnectCount = None, hasUnreadOutput = None, editorFilePath = None, editorConnectionId = None\<rparr>"

definition demo_run :: "group_action list" where
  "demo_run = [ADD_TAB ''1'' (demo_tab ''a''), ADD_TAB ''1'' (demo_tab ''b''),
     MOVE_TAB_TO_NEW_GROUP ''1'' ''a'' Right, SPLIT_GROUP ''2'' Down None, MOVE_TAB ''1'' ''3'' ''b'' None,
     REMOVE_TAB ''3'' ''b'']"

lemma groups_reachable_ok_witness:
  "state_ok (run_actions terminalGroupReducer createDefaultState demo_run)"
  by (rule groups_reachable_ok) (simp add: demo_run_def)

lemma demo_state_ok: "state_ok (run_actions terminalGroupReducer createDefaultState demo_run)"
  by (rule grp.run_inv [OF createDefaultState_ok]) (simp add: demo_run_def)


section \<open>Undoing a split\<close>

lemma obj_del_set_fresh: "obj_get o1 k = None \<Longrightarrow> obj_del k (obj_set k v o1) = o1"
  unfolding obj_get_def obj_set_def obj_del_def
  by (induction o1) (auto split: if_splits)



end
