(* ===== verification/TabAbstract.thy ===== *)
theory TabAbstract
  imports TabGroupsProps
begin

text \<open>
  The terminal tabs as their users see them: a map from tab id to tab, forgetting panes, positions
  and focus. \<open>tab_lookup\<close> is the abstraction function, \<open>tabs_spec\<close> says what each action of the
  reducer does to that map, and the refinement theorem closes the theory.
\<close>

section \<open>The abstraction\<close>

definition tab_lookup :: "group_state \<Rightarrow> string \<Rightarrow> terminal_tab option" where
  "tab_lookup s i =
     (case obj_get (tabToGroupMap s) i of
        None \<Rightarrow> None
      | Some k \<Rightarrow> (case obj_get (groups s) k of None \<Rightarrow> None | Some g \<Rightarrow> find (\<lambda>t. tab_id t = i) (tabs g)))"

lemma find_unique:
  "t \<in> set ts \<Longrightarrow> P t \<Longrightarrow> (\<And>t'. t' \<in> set ts \<Longrightarrow> P t' \<Longrightarrow> t' = t) \<Longrightarrow> find P ts = Some t"
proof (induction ts)
  case Nil
  then show ?case by simp
next
  case (Cons x xs)
  then show ?case by (metis find.simps(2) list.set_intros set_ConsD)
qed

lemma tab_lookup_in:
  assumes "state_ok s" "obj_get (groups s) k = Some g" "t \<in> set (tabs g)"
  shows "tab_lookup s (tab_id t) = Some t"
proof -
  have "obj_get (tabToGroupMap s) (tab_id t) = Some k"
    using assms by (auto simp: state_ok_map tab_in_def)
  moreover have "find (\<lambda>x. tab_id x = tab_id t) (tabs g) = Some t"
    using assms(3) unique_in_group [OF assms(1,2)] by (intro find_unique) auto
  ultimately show ?thesis using assms(2) by (simp add: tab_lookup_def)
qed

lemma tab_lookup_iff:
  assumes "state_ok s" shows "tab_lookup s i = Some t \<longleftrightarrow> tab_present s t \<and> tab_id t = i"
proof
  assume "tab_lookup s i = Some t"
  then show "tab_present s t \<and> tab_id t = i"
    unfolding tab_lookup_def tab_present_def
    by (auto split: option.splits dest!: find_Some_mem)
next
  assume "tab_present s t \<and> tab_id t = i"
  then show "tab_lookup s i = Some t"
    using tab_lookup_in [OF assms] unfolding tab_present_def by blast
qed

lemma tab_lookup_id: "state_ok s \<Longrightarrow> tab_lookup s i = Some t \<Longrightarrow> tab_id t = i"
  by (simp add: tab_lookup_iff)

lemma tab_lookup_None_iff:
  assumes "state_ok s" shows "tab_lookup s i = None \<longleftrightarrow> obj_get (tabToGroupMap s) i = None"
proof -
  have "(\<exists>k. tab_in (groups s) k i) \<longleftrightarrow> (\<exists>t. tab_present s t \<and> tab_id t = i)"
    unfolding tab_in_def tab_present_def by (simp only: set_map image_iff) blast
  then show ?thesis
    using state_ok_map_None [OF assms, of i] tab_lookup_iff [OF assms, of i] by (metis not_None_eq)
qed

text \<open>Two consistent states with the same tabs look the same.\<close>

lemma tab_lookup_cong:
  assumes "state_ok s" "state_ok s'" "\<And>t. tab_present s' t = tab_present s t"
  shows "tab_lookup s' = tab_lookup s"
  by (intro ext option_eqI) (simp add: assms tab_lookup_iff)

section \<open>What each action does to the tabs\<close>

definition ids_of_group :: "group_state \<Rightarrow> string \<Rightarrow> string list" where
  "ids_of_group s k = (case obj_get (groups s) k of Some g \<Rightarrow> group_ids g | None \<Rightarrow> [])"

text \<open>The tabs an action closes.\<close>

fun closed_ids :: "group_state \<Rightarrow> group_action \<Rightarrow> string list" where
  "closed_ids s (REMOVE_GROUP k) = ids_of_group s k"
| "closed_ids s (CLOSE_ALL_TABS k) = ids_of_group s k"
| "closed_ids s (REMOVE_TAB k i) = filter (\<lambda>j. j = i) (ids_of_group s k)"
| "closed_ids s (CLOSE_OTHER_TABS k i) =
     (if i \<in> set (ids_of_group s k) then filter (\<lambda>j. j \<noteq> i) (ids_of_group s k) else [])"
| "closed_ids s (CLOSE_TABS_TO_RIGHT k i) = tl (dropWhile (\<lambda>j. j \<noteq> i) (ids_of_group s k))"
| "closed_ids s (CLOSE_TABS_TO_LEFT k i) =
     (if i \<in> set (ids_of_group s k) then takeWhile (\<lambda>j. j \<noteq> i) (ids_of_group s k) else [])"
| "closed_ids s _ = []"

text \<open>The tab an action opens.\<close>

fun opened :: "group_state \<Rightarrow> group_action \<Rightarrow> terminal_tab option" where
  "opened s (ADD_TAB k t) =
     (if obj_get (groups s) k \<noteq> None \<and> tab_lookup s (tab_id t) = None then Some t else None)"
| "opened s (SPLIT_GROUP k d (Some t)) = (if obj_get (groups s) k \<noteq> None then Some t else None)"
| "opened s _ = None"

text \<open>
  The change an action makes to one tab: unread output is marked only on a terminal tab out of
  sight, for the connection the output came from, and cleared only when the tab is in sight.
\<close>

fun changed :: "group_state \<Rightarrow> group_action \<Rightarrow> string \<Rightarrow> terminal_tab \<Rightarrow> terminal_tab" where
  "changed s (MARK_TAB_UNREAD_OUTPUT i rc) j t =
     (if j = i \<and> (tabType t = None \<or> tabType t = Some Terminal) \<and> \<not> isTerminalTabVisible s i \<and>
         rc = (case reconnectCount t of Some n \<Rightarrow> n | None \<Rightarrow> 0)
      then t\<lparr>hasUnreadOutput := Some True\<rparr> else t)"
| "changed s (ACKNOWLEDGE_TAB_OUTPUT i) j t =
     (if j = i \<and> (tabType t = None \<or> tabType t = Some Terminal) \<and> isTerminalTabVisible s i \<and>
         connectionStatus t \<noteq> Pending \<and> hasUnreadOutput t = Some True
      then t\<lparr>hasUnreadOutput := Some False\<rparr> else t)"
| "changed s (UPDATE_TAB_STATUS i st) j t = (if j = i then t\<lparr>connectionStatus := st\<rparr> else t)"
| "changed s (UPDATE_TAB_NAME i n) j t = (if j = i then t\<lparr>tab_name := n\<rparr> else t)"
| "changed s (RECONNECT_TAB i) j t =
     (if j = i then t\<lparr>reconnectCount := Some ((case reconnectCount t of Some n \<Rightarrow> n | None \<Rightarrow> 0) + 1),
                      connectionStatus := Connecting\<rparr> else t)"
| "changed s _ j t = t"

definition tabs_spec :: "group_state \<Rightarrow> group_action \<Rightarrow> string \<Rightarrow> terminal_tab option" where
  "tabs_spec s a i =
     (case a of
        RESET_LAYOUT \<Rightarrow> None
      | RESTORE_LAYOUT s' \<Rightarrow> map_option (\<lambda>t. t\<lparr>hasUnreadOutput := Some False\<rparr>) (tab_lookup s' i)
      | _ \<Rightarrow>
         (case opened s a of
            Some t \<Rightarrow> if tab_id t = i then Some t else tab_lookup s i
          | None \<Rightarrow> if i \<in> set (closed_ids s a) then None
                    else map_option (changed s a i) (tab_lookup s i)))"

section \<open>Closing tabs\<close>

lemma lookup_drop:
  assumes s: "state_ok s" and s': "state_ok s'"
    and p: "\<And>t. tab_present s' t \<longleftrightarrow> tab_present s t \<and> tab_id t \<notin> R"
  shows "tab_lookup s' i = (if i \<in> R then None else tab_lookup s i)"
proof (rule option_eqI)
  show "(tab_lookup s' i = Some t) = ((if i \<in> R then None else tab_lookup s i) = Some t)" for t
    using tab_lookup_iff [OF s'] tab_lookup_iff [OF s] p by auto
qed

text \<open>A group of which only the tabs outside \<open>R\<close> are left.\<close>

lemma present_drop:
  assumes s: "state_ok s" and k: "obj_get (groups s) k = Some g" and R: "R \<subseteq> set (group_ids g)"
    and g': "set (tabs g') = {t \<in> set (tabs g). tab_id t \<notin> R}"
    and gs: "groups s' = obj_set k g' (groups s)"
  shows "tab_present s' t \<longleftrightarrow> tab_present s t \<and> tab_id t \<notin> R"
proof -
  have "obj_get (groups s) j = Some h \<Longrightarrow> t \<in> set (tabs h) \<Longrightarrow> j \<noteq> k \<Longrightarrow> tab_id t \<notin> R" for j h
    using tab_in_unique [OF s, of k "tab_id t" j] R k by (auto simp: tab_in_def)
  then have *: "obj_get (groups s') j = Some h \<and> t \<in> set (tabs h) \<longleftrightarrow>
      (if j = k then h = g' \<and> t \<in> set (tabs g) \<and> tab_id t \<notin> R
       else obj_get (groups s) j = Some h \<and> t \<in> set (tabs h) \<and> tab_id t \<notin> R)" for j h
    using g' by (auto simp: gs)
  show ?thesis
    unfolding tab_present_def * using k by (metis option.inject)
qed

lemma present_obj_del:
  assumes s: "state_ok s" and k: "obj_get (groups s) k = Some g"
    and gs: "groups s' = obj_del k (groups s)"
  shows "tab_present s' t \<longleftrightarrow> tab_present s t \<and> tab_id t \<notin> set (group_ids g)"
proof -
  have "obj_get (groups s) j = Some h \<Longrightarrow> t \<in> set (tabs h) \<Longrightarrow> j \<noteq> k \<Longrightarrow>
      tab_id t \<notin> set (group_ids g)" for j h
    using tab_in_unique [OF s, of k "tab_id t" j] k by (auto simp: tab_in_def)
  then have *: "obj_get (groups s') j = Some h \<and> t \<in> set (tabs h) \<longleftrightarrow>
      j \<noteq> k \<and> obj_get (groups s) j = Some h \<and> t \<in> set (tabs h) \<and> tab_id t \<notin> set (group_ids g)" for j h
    by (auto simp: gs)
  have "t \<in> set (tabs g) \<Longrightarrow> tab_id t \<in> set (group_ids g)" by simp
  then show ?thesis
    unfolding tab_present_def * using k by (metis option.inject)
qed

fun closes :: "group_action \<Rightarrow> bool" where
  "closes (REMOVE_GROUP k) = True"
| "closes (CLOSE_ALL_TABS k) = True"
| "closes (REMOVE_TAB k i) = True"
| "closes (CLOSE_OTHER_TABS k i) = True"
| "closes (CLOSE_TABS_TO_RIGHT k i) = True"
| "closes (CLOSE_TABS_TO_LEFT k i) = True"
| "closes _ = False"

lemma close_all_present:
  assumes s: "state_ok s"
  shows "tab_present (close_all_tabs s k) t \<longleftrightarrow> tab_present s t \<and> tab_id t \<notin> set (ids_of_group s k)"
proof (cases "obj_get (groups s) k")
  case None
  then show ?thesis by (simp add: close_all_tabs_def ids_of_group_def)
next
  case (Some g)
  show ?thesis
  proof (cases "tabs g = []")
    case True
    with Some show ?thesis by (simp add: close_all_tabs_def ids_of_group_def)
  next
    case False
    let ?s = "s\<lparr>groups := obj_set k (g\<lparr>tabs := [], activeTabId := None\<rparr>) (groups s),
      tabToGroupMap := obj_del_all (group_ids g) (tabToGroupMap s)\<rparr>"
    have "tab_present ?s t \<longleftrightarrow> tab_present s t \<and> tab_id t \<notin> set (group_ids g)"
      by (rule present_drop [OF s Some]) auto
    with False Some show ?thesis
      by (simp only: close_all_tabs_def ids_of_group_def option.case if_False maybeRemove_present)
  qed
qed

lemma remove_group_present:
  assumes s: "state_ok s"
  shows "tab_present (remove_group s k) t \<longleftrightarrow> tab_present s t \<and> tab_id t \<notin> set (ids_of_group s k)"
proof (cases "obj_get (groups s) k")
  case None
  then show ?thesis by (simp add: remove_group_def ids_of_group_def)
next
  case (Some g)
  show ?thesis
  proof (cases "length (obj_keys (groups s)) \<le> 1")
    case True
    have "groups s = [(k, g)]"
      using True Some s by (intro obj_single_key) (simp_all add: state_ok_def groups_ok_def)
    then have "groups (remove_group s k) = obj_set k (g\<lparr>tabs := [], activeTabId := None\<rparr>) (groups s)"
      using True Some by (simp add: remove_group_def obj_set_def)
    from present_drop [OF s Some _ _ this, of "set (group_ids g)"] Some
    show ?thesis by (simp add: ids_of_group_def)
  next
    case False
    have "groups (remove_group s k) = obj_del k (groups s)"
      using Some False by (simp only: remove_group_def removeGroupFromState_def Let_def option.case if_False) simp
    from present_obj_del [OF s Some this] Some show ?thesis by (simp add: ids_of_group_def)
  qed
qed

lemma remove_tab_present:
  assumes s: "state_ok s"
  shows "tab_present (remove_tab s k i) t \<longleftrightarrow>
    tab_present s t \<and> tab_id t \<notin> set (filter (\<lambda>j. j = i) (ids_of_group s k))"
proof (cases "obj_get (groups s) k")
  case None
  then show ?thesis by (simp add: remove_tab_def ids_of_group_def)
next
  case (Some g)
  show ?thesis
  proof (cases "find_index (\<lambda>t. tab_id t = i) (tabs g)")
    case None
    then have "i \<notin> set (group_ids g)" by auto
    then have "filter (\<lambda>j. j = i) (group_ids g) = []" by (simp add: filter_empty_conv) blast
    then show ?thesis using Some None by (simp only: remove_tab_def ids_of_group_def option.case) simp
  next
    case (Some n)
    note k = \<open>obj_get (groups s) k = Some g\<close>
    let ?s = "s\<lparr>groups := obj_set k (without_tab g i n) (groups s),
        tabToGroupMap := obj_del i (tabToGroupMap s)\<rparr>"
    have "tab_present ?s t \<longleftrightarrow> tab_present s t \<and> tab_id t \<notin> set (filter (\<lambda>j. j = i) (group_ids g))"
      by (rule present_drop [OF s k]) (auto simp: without_tab_def Let_def)
    with Some k show ?thesis
      by (simp only: remove_tab_def ids_of_group_def option.case maybeRemove_present)
  qed
qed

lemma close_side_present:
  assumes s: "state_ok s" and k: "obj_get (groups s) k = Some g"
    and n: "find_index (\<lambda>t. tab_id t = i) (tabs g) = Some n"
  shows "tab_present (close_tabs_to_right s k i) t \<longleftrightarrow>
      tab_present s t \<and> tab_id t \<notin> set (map tab_id (drop (Suc n) (tabs g)))"
    "tab_present (close_tabs_to_left s k i) t \<longleftrightarrow>
      tab_present s t \<and> tab_id t \<notin> set (map tab_id (take n (tabs g)))"
proof -
  have d: "distinct (map tab_id (take m (tabs g) @ drop m (tabs g)))" for m
    using state_ok_group [OF s k] by (simp add: group_ok_def)
  have sub: "set (map tab_id (drop m (tabs g))) \<subseteq> set (group_ids g)"
    "set (map tab_id (take m (tabs g))) \<subseteq> set (group_ids g)" for m
    using set_drop_subset [of m "tabs g"] set_take_subset [of m "tabs g"] by auto
  note keep = kept_by_ids [OF d, unfolded append_take_drop_id]
  let ?right = "close_tabs_to_right s k i" and ?left = "close_tabs_to_left s k i"
  show "tab_present ?right t \<longleftrightarrow>
      tab_present s t \<and> tab_id t \<notin> set (map tab_id (drop (Suc n) (tabs g)))"
  proof (rule present_drop [OF s k sub(1)])
    show "groups ?right = obj_set k (g\<lparr>tabs := take (Suc n) (tabs g), activeTabId :=
        surviving_active (activeTabId g) (take (Suc n) (tabs g))
          (if take (Suc n) (tabs g) = [] then None else Some (tab_id (last (take (Suc n) (tabs g)))))\<rparr>) (groups s)"
      by (simp only: close_tabs_to_right_def k n option.case Let_def) simp
  qed (use keep(1) [of "Suc n"] in simp)
  show "tab_present ?left t \<longleftrightarrow>
      tab_present s t \<and> tab_id t \<notin> set (map tab_id (take n (tabs g)))"
  proof (rule present_drop [OF s k sub(2)])
    show "groups ?left = obj_set k (g\<lparr>tabs := drop n (tabs g), activeTabId :=
        surviving_active (activeTabId g) (drop n (tabs g))
          (if drop n (tabs g) = [] then None else Some (tab_id (hd (drop n (tabs g)))))\<rparr>) (groups s)"
      by (simp only: close_tabs_to_left_def k n option.case Let_def) simp
  qed (use keep(2) [of n] in simp)
qed

lemma close_other_present:
  assumes s: "state_ok s" and k: "obj_get (groups s) k = Some g"
    and x: "find (\<lambda>t. tab_id t = i) (tabs g) = Some x"
  shows "tab_present (close_other_tabs s k i) t \<longleftrightarrow>
    tab_present s t \<and> tab_id t \<notin> set (filter (\<lambda>j. j \<noteq> i) (group_ids g))"
proof (rule present_drop [OF s k])
  show "groups (close_other_tabs s k i) =
      obj_set k (g\<lparr>tabs := [x], activeTabId := Some (tab_id x)\<rparr>) (groups s)"
    by (simp add: close_other_tabs_def k x)
  have "{t \<in> set (tabs g). tab_id t = i} = {x}"
    using find_Some_mem [OF x] unique_in_group [OF s k] by blast
  then show "set (tabs (g\<lparr>tabs := [x], activeTabId := Some (tab_id x)\<rparr>)) =
      {t \<in> set (tabs g). tab_id t \<notin> set (filter (\<lambda>j. j \<noteq> i) (group_ids g))}"
    by auto
qed auto

lemma ids_absent:
  assumes "find_index (\<lambda>t. tab_id t = i) (tabs g) = None"
  shows "i \<notin> set (group_ids g)" "find (\<lambda>t. tab_id t = i) (tabs g) = None"
    "dropWhile (\<lambda>j. j \<noteq> i) (group_ids g) = []"
  using assms by (auto simp: find_None_iff)

lemma close_sides_closed:
  assumes s: "state_ok s"
  shows "tab_present (close_tabs_to_right s k i) t \<longleftrightarrow>
      tab_present s t \<and> tab_id t \<notin> set (closed_ids s (CLOSE_TABS_TO_RIGHT k i))"
    "tab_present (close_tabs_to_left s k i) t \<longleftrightarrow>
      tab_present s t \<and> tab_id t \<notin> set (closed_ids s (CLOSE_TABS_TO_LEFT k i))"
    "tab_present (close_other_tabs s k i) t \<longleftrightarrow>
      tab_present s t \<and> tab_id t \<notin> set (closed_ids s (CLOSE_OTHER_TABS k i))"
proof -
  consider (none) "obj_get (groups s) k = None"
    | (absent) g where "obj_get (groups s) k = Some g" "find_index (\<lambda>t. tab_id t = i) (tabs g) = None"
    | (found) g n where "obj_get (groups s) k = Some g" "find_index (\<lambda>t. tab_id t = i) (tabs g) = Some n"
    by (metis option.exhaust)
  then have "(tab_present (close_tabs_to_right s k i) t \<longleftrightarrow>
      tab_present s t \<and> tab_id t \<notin> set (closed_ids s (CLOSE_TABS_TO_RIGHT k i))) \<and>
    (tab_present (close_tabs_to_left s k i) t \<longleftrightarrow>
      tab_present s t \<and> tab_id t \<notin> set (closed_ids s (CLOSE_TABS_TO_LEFT k i))) \<and>
    (tab_present (close_other_tabs s k i) t \<longleftrightarrow>
      tab_present s t \<and> tab_id t \<notin> set (closed_ids s (CLOSE_OTHER_TABS k i)))"
  proof cases
    case none
    then show ?thesis
      by (simp add: close_tabs_to_right_def close_tabs_to_left_def close_other_tabs_def ids_of_group_def)
  next
    case absent
    show ?thesis
      by (simp only: close_tabs_to_right_def close_tabs_to_left_def close_other_tabs_def
          ids_of_group_def absent ids_absent [OF absent(2)] option.case closed_ids.simps if_False) simp
  next
    case found
    obtain x where x: "find (\<lambda>t. tab_id t = i) (tabs g) = Some x"
      using find_index_find [OF found(2)] by blast
    have i: "i \<in> set (group_ids g)" using found(2) by (rule find_index_id)
    show ?thesis
      using close_side_present [OF s found] close_other_present [OF s found(1) x] found(1) i
        find_index_split [OF found(2)]
      by (simp only: closed_ids.simps ids_of_group_def option.case if_True)
  qed
  then show "tab_present (close_tabs_to_right s k i) t \<longleftrightarrow>
      tab_present s t \<and> tab_id t \<notin> set (closed_ids s (CLOSE_TABS_TO_RIGHT k i))"
    "tab_present (close_tabs_to_left s k i) t \<longleftrightarrow>
      tab_present s t \<and> tab_id t \<notin> set (closed_ids s (CLOSE_TABS_TO_LEFT k i))"
    "tab_present (close_other_tabs s k i) t \<longleftrightarrow>
      tab_present s t \<and> tab_id t \<notin> set (closed_ids s (CLOSE_OTHER_TABS k i))"
    by blast+
qed

lemma closes_ok: "closes a \<Longrightarrow> ok_action s a"
  by (cases a) simp_all

lemma closing_lookup:
  assumes "state_ok s" "closes a"
  shows "tab_lookup (terminalGroupReducer s a) i =
    (if i \<in> set (closed_ids s a) then None else tab_lookup s i)"
proof (rule lookup_drop [OF assms(1) grp.step_inv [OF assms(1) closes_ok [OF assms(2)]]])
  show "tab_present (terminalGroupReducer s a) t \<longleftrightarrow>
      tab_present s t \<and> tab_id t \<notin> set (closed_ids s a)" for t
    using assms(2) close_sides_closed [OF assms(1)] remove_tab_present [OF assms(1)]
      close_all_present [OF assms(1)] remove_group_present [OF assms(1)]
    by (induction a rule: closes.induct) simp_all
qed

section \<open>Opening tabs\<close>

lemma lookup_open:
  assumes s: "state_ok s" and s': "state_ok s'" and new: "tab_lookup s (tab_id t) = None"
    and p: "\<And>x. tab_present s' x \<longleftrightarrow> x = t \<or> tab_present s x"
  shows "tab_lookup s' i = (if tab_id t = i then Some t else tab_lookup s i)"
proof (rule option_eqI)
  have "\<not> (tab_present s x \<and> tab_id x = tab_id t)" for x
    using new tab_lookup_iff [OF s, of "tab_id t" x] by simp
  then show "(tab_lookup s' i = Some x) = ((if tab_id t = i then Some t else tab_lookup s i) = Some x)" for x
    using tab_lookup_iff [OF s'] tab_lookup_iff [OF s] p by auto
qed

lemma add_tab_lookup:
  assumes s: "state_ok s"
  shows "tab_lookup (add_tab s k t) i =
    (if obj_get (groups s) k \<noteq> None \<and> tab_lookup s (tab_id t) = None \<and> tab_id t = i then Some t
     else tab_lookup s i)"
proof (cases "obj_get (groups s) k")
  case None
  then show ?thesis by (simp add: add_tab_def)
next
  case (Some g)
  have guard: "(\<exists>g' \<in> set (obj_values (groups s)). tab_id t \<in> set (group_ids g')) \<longleftrightarrow>
      tab_lookup s (tab_id t) \<noteq> None"
    using add_tab_guard [OF s, of "tab_id t"] state_ok_map_None [OF s, of "tab_id t"]
    by (simp only: tab_lookup_None_iff [OF s]) blast
  show ?thesis
  proof (cases "tab_lookup s (tab_id t) = None")
    case False
    then show ?thesis using guard by (simp only: add_tab_def Some option.case if_True) simp
  next
    case True
    let ?s = "s\<lparr>groups := obj_set k (g\<lparr>tabs := tabs g @ [t], activeTabId := Some (tab_id t)\<rparr>) (groups s),
      tabToGroupMap := obj_set (tab_id t) k (tabToGroupMap s)\<rparr>"
    have e: "add_tab s k t = ?s"
      using guard True by (simp only: add_tab_def Some option.case if_False) simp
    have p: "tab_present ?s x \<longleftrightarrow> x = t \<or> tab_present s x" for x
    proof -
      have "tab_present ?s x = tab_present (s\<lparr>groups := groups ?s\<rparr>) x" by (simp add: tab_present_def)
      then show ?thesis by (simp add: present_set [OF Some] present_split [OF Some])
    qed
    have "state_ok ?s" using add_tab_ok [OF s, of k t] by (simp only: e)
    from lookup_open [OF s this True p] show ?thesis using True Some by (simp only: e) simp
  qed
qed

lemma split_group_lookup:
  assumes s: "state_ok s" and new: "tab_lookup s (tab_id t) = None"
  shows "tab_lookup (split_group s k d (Some t)) i =
    (if obj_get (groups s) k \<noteq> None \<and> tab_id t = i then Some t else tab_lookup s i)"
proof (cases "obj_get (groups s) k")
  case None
  then show ?thesis by (simp add: split_group_def)
next
  case (Some g)
  let ?new = "string_of_nat (nextGroupId s)" and ?s = "split_group s k d (Some t)"
  have ok: "state_ok ?s" using grp.step_inv [OF s, of "SPLIT_GROUP k d (Some t)"] new
    by (simp add: tab_lookup_None_iff [OF s])
  have g': "obj_get (groups ?s) j = (if j = ?new
      then Some \<lparr>group_id = ?new, tabs = [t], activeTabId = Some (tab_id t)\<rparr>
      else obj_get (groups s) j)" for j
    by (simp add: split_group_def Some Let_def)
  have "tab_present ?s x \<longleftrightarrow> x = t \<or> tab_present s x" for x
  proof -
    have "obj_get (groups ?s) j = Some h \<and> x \<in> set (tabs h) \<longleftrightarrow>
        j = ?new \<and> h = \<lparr>group_id = ?new, tabs = [t], activeTabId = Some (tab_id t)\<rparr> \<and> x = t \<or>
        obj_get (groups s) j = Some h \<and> x \<in> set (tabs h)" for j h
      using g' state_ok_fresh [OF s] by auto
    then show ?thesis unfolding tab_present_def by metis
  qed
  from lookup_open [OF s ok new this] show ?thesis using Some by simp
qed

section \<open>Changing a tab in place\<close>

text \<open>A tab that a lookup finds: its group and its position there.\<close>

lemma lookup_position:
  assumes "state_ok s" "tab_lookup s i = Some t"
  obtains k g n where "obj_get (tabToGroupMap s) i = Some k" "obj_get (groups s) k = Some g"
    "find_index (\<lambda>t. tab_id t = i) (tabs g) = Some n" "tabs g ! n = t" "n < length (tabs g)"
proof -
  obtain k g where k: "obj_get (tabToGroupMap s) i = Some k" "obj_get (groups s) k = Some g"
    "find (\<lambda>t. tab_id t = i) (tabs g) = Some t"
    using assms(2) by (auto simp: tab_lookup_def split: option.splits)
  obtain n where n: "find_index (\<lambda>t. tab_id t = i) (tabs g) = Some n"
    using found_tab [OF k(3)] find_index_None [of "\<lambda>t. tab_id t = i" "tabs g"]
    by (metis (mono_tags, lifting) find_Some_mem k(3) not_None_eq)
  show ?thesis
    using that [OF k(1,2) n] find_index_find [OF n] k(3) find_index_Some [OF n] by simp
qed

lemma lookup_in_place:
  assumes k: "obj_get (tabToGroupMap s) i = Some k" "obj_get (groups s) k = Some g"
    "find_index (\<lambda>t. tab_id t = i) (tabs g) = Some n" and t: "tab_id t = i"
  shows "tab_lookup (s\<lparr>groups := obj_set k (g\<lparr>tabs := (tabs g)[n := t]\<rparr>) (groups s)\<rparr>) j =
    (if j = i then Some t else tab_lookup s j)"
proof (cases "j = i")
  case True
  then show ?thesis
    using k find_list_update [OF k(3), of t] t by (simp add: tab_lookup_def)
next
  case False
  then have "find (\<lambda>t. tab_id t = j) ((tabs g)[n := t]) = find (\<lambda>t. tab_id t = j) (tabs g)"
    using find_index_Some [OF k(3)] t by (intro find_list_update_other) auto
  then show ?thesis
    using False k(2) by (auto simp: tab_lookup_def split: option.split)
qed

lemma modify_lookup:
  assumes s: "state_ok s" and f: "\<And>t. tab_id (f t) = tab_id t"
    and ne: "obj_get (tabToGroupMap s) i \<noteq> Some []"
  shows "tab_lookup (modify_tab s i f) j =
    map_option (if j = i then f else id) (tab_lookup s j)"
proof (cases "tab_lookup s i")
  case None
  then have "modify_tab s i f = s" by (simp add: modify_tab_def tab_lookup_None_iff [OF s])
  with None show ?thesis by (simp add: option.map_id)
next
  case (Some t)
  then obtain k g n where k: "obj_get (tabToGroupMap s) i = Some k" "obj_get (groups s) k = Some g"
    "find_index (\<lambda>t. tab_id t = i) (tabs g) = Some n" "tabs g ! n = t"
    using lookup_position [OF s] by blast
  have "modify_tab s i f = s\<lparr>groups := obj_set k (g\<lparr>tabs := (tabs g)[n := f t]\<rparr>) (groups s)\<rparr>"
    using ne k by (simp add: modify_tab_def)
  moreover have "tab_id (f t) = i" using f tab_lookup_id [OF s Some] by simp
  ultimately show ?thesis
    using lookup_in_place [OF k(1-3)] Some by (simp add: option.map_id)
qed

text \<open>The flag \<open>MARK_TAB_UNREAD_OUTPUT\<close> (\<open>Some rc\<close>) or \<open>ACKNOWLEDGE_TAB_OUTPUT\<close> (\<open>None\<close>) leaves.\<close>

fun flagged :: "group_state \<Rightarrow> nat option \<Rightarrow> string \<Rightarrow> terminal_tab \<Rightarrow> terminal_tab" where
  "flagged s (Some rc) i t = changed s (MARK_TAB_UNREAD_OUTPUT i rc) i t"
| "flagged s None i t = changed s (ACKNOWLEDGE_TAB_OUTPUT i) i t"

lemma same_flag: "hasUnreadOutput t = Some b \<Longrightarrow> t\<lparr>hasUnreadOutput := Some b\<rparr> = t"
  by (cases t) simp

lemma mark_lookup:
  assumes s: "state_ok s"
  shows "tab_lookup (mark_or_ack s i m) j = map_option (if j = i then flagged s m i else id) (tab_lookup s j)"
proof (cases "tab_lookup s i")
  case None
  have "mark_or_ack s i m = s"
  proof (cases "obj_get (groups s) ''undefined''")
    case None
    with \<open>tab_lookup s i = None\<close> show ?thesis
      by (simp add: mark_or_ack_def tab_lookup_None_iff [OF s])
  next
    case (Some g)
    then have "i \<notin> set (group_ids g)"
      using \<open>tab_lookup s i = None\<close> state_ok_map_None [OF s, of i] tab_lookup_None_iff [OF s, of i]
      by (auto simp: tab_in_def)
    then have "find_index (\<lambda>t. tab_id t = i) (tabs g) = None" by auto
    with Some \<open>tab_lookup s i = None\<close> show ?thesis
      by (simp only: mark_or_ack_def tab_lookup_None_iff [OF s] option.case Let_def)
  qed
  with None show ?thesis by (simp add: option.map_id)
next
  case (Some t)
  then obtain k g n where k: "obj_get (tabToGroupMap s) i = Some k" "obj_get (groups s) k = Some g"
    "find_index (\<lambda>t. tab_id t = i) (tabs g) = Some n" "tabs g ! n = t"
    using lookup_position [OF s] by blast
  have id: "tab_id t = i" by (rule tab_lookup_id [OF s Some])
  have same: "map_option (if j = i then f else id) (tab_lookup s j) = tab_lookup s j" if "f t = t" for f
    using that Some by (simp add: option.map_id)
  let ?set = "\<lambda>b. s\<lparr>groups := obj_set k (g\<lparr>tabs := (tabs g)[n := t\<lparr>hasUnreadOutput := Some b\<rparr>]\<rparr>) (groups s)\<rparr>"
  have "mark_or_ack s i m = s \<and> flagged s m i t = t \<or>
      (\<exists>b. mark_or_ack s i m = ?set b \<and> flagged s m i t = t\<lparr>hasUnreadOutput := Some b\<rparr>)"
    by (cases m) (auto simp: mark_or_ack_def k Let_def same_flag)
  then show ?thesis
  proof
    assume "mark_or_ack s i m = s \<and> flagged s m i t = t"
    then show ?thesis using same by simp
  next
    assume "\<exists>b. mark_or_ack s i m = ?set b \<and> flagged s m i t = t\<lparr>hasUnreadOutput := Some b\<rparr>"
    then show ?thesis
      using lookup_in_place [OF k(1-3)] id Some by (auto simp: option.map_id)
  qed
qed

section \<open>Refinement\<close>

lemma restore_lookup:
  assumes s: "state_ok s"
  shows "tab_lookup (resetUnreadOutput s) i =
    map_option (\<lambda>t. t\<lparr>hasUnreadOutput := Some False\<rparr>) (tab_lookup s i)"
proof (cases "\<forall>g \<in> set (obj_values (groups s)). \<forall>t \<in> set (tabs g). hasUnreadOutput t = Some False")
  case True
  have ok: "obj_ok (groups s)" using s by (simp add: state_ok_def groups_ok_def)
  have "t\<lparr>hasUnreadOutput := Some False\<rparr> = t" if l: "tab_lookup s i = Some t" for t
  proof -
    obtain k g where "obj_get (groups s) k = Some g" "t \<in> set (tabs g)"
      using l tab_lookup_iff [OF s, of i t] unfolding tab_present_def by blast
    with True have "hasUnreadOutput t = Some False" using obj_values_set [OF ok] by blast
    then show ?thesis by (rule same_flag)
  qed
  with True show ?thesis
    by (cases "tab_lookup s i") (simp_all add: resetUnreadOutput_def)
next
  case False
  let ?f = "\<lambda>(_ :: string) g. g\<lparr>tabs := map (\<lambda>t. t\<lparr>hasUnreadOutput := Some False\<rparr>) (tabs g)\<rparr>"
  have get: "obj_get (obj_map ?f (groups s)) k = map_option (?f k) (obj_get (groups s) k)" for k
    using s by (intro obj_get_map) (simp add: state_ok_def groups_ok_def)
  have e: "resetUnreadOutput s = s\<lparr>groups := obj_map ?f (groups s)\<rparr>"
    using False by (simp only: resetUnreadOutput_def if_False)
  have "find (\<lambda>t. tab_id t = i) (map (\<lambda>t. t\<lparr>hasUnreadOutput := Some False\<rparr>) ts) =
      map_option (\<lambda>t. t\<lparr>hasUnreadOutput := Some False\<rparr>) (find (\<lambda>t. tab_id t = i) ts)" for ts
    by (induction ts) auto
  then show ?thesis
    unfolding e by (auto simp: tab_lookup_def get split: option.split)
qed

lemma rearranged_lookup:
  assumes "state_ok s" "rearranges a" "ok_action s a"
  shows "tab_lookup (terminalGroupReducer s a) = tab_lookup s"
proof (rule tab_lookup_cong [OF assms(1) grp.step_inv [OF assms(1,3)]])
  show "tab_present (terminalGroupReducer s a) t = tab_present s t" for t
    using assms(2,1) by (induction a rule: rearranges.induct)
      (simp_all add: rearranged_present, simp add: tab_present_def)
qed

text \<open>Actions on a tab filed under an empty group id are ignored; no reachable state has one.\<close>

fun filed :: "group_state \<Rightarrow> group_action \<Rightarrow> bool" where
  "filed s (UPDATE_TAB_STATUS i st) = (obj_get (tabToGroupMap s) i \<noteq> Some [])"
| "filed s (UPDATE_TAB_NAME i n) = (obj_get (tabToGroupMap s) i \<noteq> Some [])"
| "filed s (RECONNECT_TAB i) = (obj_get (tabToGroupMap s) i \<noteq> Some [])"
| "filed s _ = True"

lemma unchanged:
  "rearranges a \<or> closes a \<Longrightarrow> changed s a i = id"
  "changed s (ADD_TAB k t) i = id" "changed s (SPLIT_GROUP k d x) i = id"
  by (cases a; simp add: fun_eq_iff) (simp_all add: fun_eq_iff)

lemma spec_rearranges: "rearranges a \<Longrightarrow> tabs_spec s a i = tab_lookup s i"
  using unchanged(1) [of a s i]
  by (induction a rule: rearranges.induct) (simp_all add: tabs_spec_def option.map_id)

lemma spec_closes:
  "closes a \<Longrightarrow> tabs_spec s a i = (if i \<in> set (closed_ids s a) then None else tab_lookup s i)"
  using unchanged(1) [of a s i]
  by (induction a rule: closes.induct) (simp_all add: tabs_spec_def option.map_id del: closed_ids.simps)

lemma spec_changes:
  "tabs_spec s (UPDATE_TAB_STATUS j st) i = map_option (changed s (UPDATE_TAB_STATUS j st) i) (tab_lookup s i)"
  "tabs_spec s (UPDATE_TAB_NAME j n) i = map_option (changed s (UPDATE_TAB_NAME j n) i) (tab_lookup s i)"
  "tabs_spec s (RECONNECT_TAB j) i = map_option (changed s (RECONNECT_TAB j) i) (tab_lookup s i)"
  "tabs_spec s (MARK_TAB_UNREAD_OUTPUT j rc) i =
     map_option (changed s (MARK_TAB_UNREAD_OUTPUT j rc) i) (tab_lookup s i)"
  "tabs_spec s (ACKNOWLEDGE_TAB_OUTPUT j) i =
     map_option (changed s (ACKNOWLEDGE_TAB_OUTPUT j) i) (tab_lookup s i)"
  by (simp_all add: tabs_spec_def)

text \<open>
  (C27) The reducer refines the abstract specification of the terminal tabs, for every one of its
  actions: seen as a map from tab id to tab, the state changes exactly as \<open>tabs_spec\<close> says. Closing
  actions close exactly the tabs of \<open>closed_ids\<close> (that tab, all others of its pane, those to its
  right or left, the whole pane); a tab is opened only under an unused id; unread output is marked
  only on a hidden terminal tab and for its current connection, and cleared only when it is in
  sight; renaming, status and reconnect touch one field of one tab; the rest changes no tab.
\<close>

theorem reducer_refines_tabs_spec:
  assumes s: "state_ok s" and ok: "ok_action s a" and filed: "filed s a"
  shows "tab_lookup (terminalGroupReducer s a) i = tabs_spec s a i"
proof -
  consider (rearr) "rearranges a" | (cl) "closes a"
    | (add) k t where "a = ADD_TAB k t" | (split) k d t where "a = SPLIT_GROUP k d (Some t)"
    | (mark) j rc where "a = MARK_TAB_UNREAD_OUTPUT j rc" | (ack) j where "a = ACKNOWLEDGE_TAB_OUTPUT j"
    | (status) j st where "a = UPDATE_TAB_STATUS j st" | (name) j n where "a = UPDATE_TAB_NAME j n"
    | (recon) j where "a = RECONNECT_TAB j"
    | (reset) "a = RESET_LAYOUT" | (restore) s' where "a = RESTORE_LAYOUT s'"
  proof (cases a)
    case (SPLIT_GROUP k d t)
    then show ?thesis using rearr split by (cases t) auto
  qed (use that in auto)
  then show ?thesis
  proof cases
    case rearr
    then show ?thesis using rearranged_lookup [OF s rearr ok] spec_rearranges by simp
  next
    case cl
    then show ?thesis using closing_lookup [OF s cl] spec_closes [OF cl] by simp
  next
    case add
    then show ?thesis using add_tab_lookup [OF s, of k t i]
      by (auto simp: tabs_spec_def unchanged option.map_id)
  next
    case split
    then show ?thesis using ok split_group_lookup [OF s, of t k d i] tab_lookup_None_iff [OF s, of "tab_id t"]
      by (auto simp: tabs_spec_def unchanged option.map_id)
  next
    case mark
    then show ?thesis using mark_lookup [OF s, of j "Some rc" i]
      by (cases "tab_lookup s i") (auto simp: spec_changes)
  next
    case ack
    then show ?thesis using mark_lookup [OF s, of j None i]
      by (cases "tab_lookup s i") (auto simp: spec_changes)
  next
    case status
    then show ?thesis using modify_lookup [OF s, of "\<lambda>t. t\<lparr>connectionStatus := st\<rparr>" j i] filed
      by (cases "tab_lookup s i") (auto simp: spec_changes update_tab_status_def)
  next
    case name
    then show ?thesis using modify_lookup [OF s, of "\<lambda>t. t\<lparr>tab_name := n\<rparr>" j i] filed
      by (cases "tab_lookup s i") (auto simp: spec_changes update_tab_name_def)
  next
    case recon
    then show ?thesis using modify_lookup [OF s, of "\<lambda>t. t\<lparr>reconnectCount := Some
        ((case reconnectCount t of Some n \<Rightarrow> n | None \<Rightarrow> 0) + 1), connectionStatus := Connecting\<rparr>" j i] filed
      by (cases "tab_lookup s i") (auto simp: spec_changes reconnect_tab_def)
  next
    case reset
    then show ?thesis by (simp add: tabs_spec_def tab_lookup_def createDefaultState_def)
  next
    case restore
    then show ?thesis using ok restore_lookup by (simp add: tabs_spec_def)
  qed
qed

lemma reducer_refines_tabs_spec_witness:
  "tab_lookup (terminalGroupReducer createDefaultState (ADD_TAB ''1'' (demo_tab ''a''))) ''a''
     = Some (demo_tab ''a'')"
  using reducer_refines_tabs_spec [OF createDefaultState_ok, of "ADD_TAB ''1'' (demo_tab ''a'')" "''a''"]
  by (simp add: tabs_spec_def tab_lookup_def createDefaultState_def demo_tab_def obj_get_def)

section \<open>Display names\<close>

lemma find_index_inj:
  "x \<in> set xs \<Longrightarrow> find_index (\<lambda>j. j = x) xs = find_index (\<lambda>j. j = y) xs \<Longrightarrow> x = y"
proof -
  assume x: "x \<in> set xs" and e: "find_index (\<lambda>j. j = x) xs = find_index (\<lambda>j. j = y) xs"
  obtain n where n: "find_index (\<lambda>j. j = x) xs = Some n"
    using x find_index_None [of "\<lambda>j. j = x" xs] by (metis not_None_eq)
  from find_index_Some [OF n] find_index_Some [of "\<lambda>j. j = y" xs n] n e show "x = y" by simp
qed

text \<open>
  Tabs of one saved connection that carry the same name are told apart: their display names,
  numbered in tab order, differ.
\<close>

theorem display_names_differ:
  assumes i: "i < length ts" and j: "j < length ts" and ne: "i \<noteq> j"
    and base: "base_id (ts ! i) = base_id (ts ! j)" and name: "tab_name (ts ! i) = tab_name (ts ! j)"
  shows "getTabDisplayName ts i \<noteq> getTabDisplayName ts j"
proof
  let ?sib = "filter (\<lambda>k. base_id (ts ! k) = base_id (ts ! j)) [0..<length ts]"
  let ?num = "\<lambda>x. case find_index (\<lambda>k. k = x) ?sib of Some k \<Rightarrow> k + 1 | None \<Rightarrow> 0"
  have mem: "i \<in> set ?sib" "j \<in> set ?sib" using i j base by auto
  have "card {i, j} \<le> card (set ?sib)" using mem by (intro card_mono) auto
  then have long: "\<not> length ?sib \<le> 1" using ne card_length [of ?sib] by simp
  assume "getTabDisplayName ts i = getTabDisplayName ts j"
  then have "?num i = ?num j"
    using long base name by (simp add: getTabDisplayName_def Let_def string_of_nat_inject del: upt_Suc)
  then have "find_index (\<lambda>k. k = i) ?sib = find_index (\<lambda>k. k = j) ?sib"
    using mem by (auto split: option.splits)
  then show False using find_index_inj [OF mem(1)] ne by blast
qed

lemma display_names_differ_witness:
  "getTabDisplayName [demo_tab ''a'', demo_tab ''b''] 0 \<noteq> getTabDisplayName [demo_tab ''a'', demo_tab ''b''] 1"
  by (rule display_names_differ) (simp_all add: demo_tab_def base_id_def or_null_def)

end
