(* ===== verification/TransferQueue.thy ===== *)
theory TransferQueue
  imports Complex_Main Prelude
begin

text \<open>
  The transfer queue: the items and the reducer of \<open>src/src/lib/transfer-queue-reducer.ts\<close>, the
  progress plumbing of \<open>src/src/lib/transfer-progress.ts\<close>. The service that drives the queue is in
  \<open>TransferService\<close>.

  \<open>Date.now()\<close> and \<open>performance.now()\<close> are arguments. Byte counts are integers; speeds and the
  weights 0.7 and 0.3 of the moving average are exact rationals, not doubles. The reducer draws ids
  from the module's counter, so it takes the counter and returns it.
\<close>

section \<open>Items\<close>

datatype transfer_status = Queued | Transferring | Completed | Failed | Cancelled

datatype transfer_direction = Upload | Download

record confined_paths =
  remoteRoot :: string
  destinationRoot :: string
  remoteRelativePath :: string
  destinationRelativePath :: string

record transfer_item =
  item_id :: string
  connectionId :: string
  fileName :: string
  direction :: transfer_direction
  sourcePath :: string
  destinationPath :: string
  status :: transfer_status
  progress :: int
  bytesTransferred :: int
  totalBytes :: int
  speed :: rat
  item_error :: "string option"
  startedAt :: "int option"
  completedAt :: "int option"
  confined :: "confined_paths option"

record enqueue_input =
  in_id :: "string option"
  in_connectionId :: string
  in_fileName :: string
  in_direction :: transfer_direction
  in_sourcePath :: string
  in_destinationPath :: string
  in_totalBytes :: int
  in_confined :: "confined_paths option"

datatype transfer_action =
    ENQUEUE "enqueue_input list"
  | START string
  | PROGRESS string int int rat "int option"
  | COMPLETE string
  | FAIL string string
  | CANCEL string
  | RETRY string
  | CLEAR_COMPLETED
  | CLEAR_ALL

section \<open>Ids\<close>

definition string_of_int :: "int \<Rightarrow> string" where
  "string_of_int i = (if i < 0 then ''-'' @ string_of_nat (nat (- i)) else string_of_nat (nat i))"

text \<open>The id drawn when the counter is \<open>n\<close>; drawing it increments the counter.\<close>

definition generateTransferId :: "int \<Rightarrow> nat \<Rightarrow> string" where
  "generateTransferId now n = ''transfer-'' @ string_of_nat n @ ''-'' @ string_of_int now"

fun draw_ids :: "int \<Rightarrow> nat \<Rightarrow> enqueue_input list \<Rightarrow> enqueue_input list \<times> nat" where
  "draw_ids now n [] = ([], n)"
| "draw_ids now n (x # xs) =
     (case in_id x of
        Some _ \<Rightarrow> (case draw_ids now n xs of (ys, m) \<Rightarrow> (x # ys, m))
      | None \<Rightarrow> (case draw_ids now (Suc n) xs of
                   (ys, m) \<Rightarrow> (x\<lparr>in_id := Some (generateTransferId now n)\<rparr> # ys, m)))"

section \<open>The reducer\<close>

definition new_item :: "enqueue_input \<Rightarrow> transfer_item" where
  "new_item x = \<lparr>item_id = the (in_id x), connectionId = in_connectionId x, fileName = in_fileName x,
     direction = in_direction x, sourcePath = in_sourcePath x, destinationPath = in_destinationPath x,
     status = Queued, progress = 0, bytesTransferred = 0, totalBytes = in_totalBytes x, speed = 0,
     item_error = None, startedAt = None, completedAt = None, confined = in_confined x\<rparr>"

definition isTerminalStatus :: "transfer_status \<Rightarrow> bool" where
  "isTerminalStatus st \<longleftrightarrow> st = Completed \<or> st = Failed \<or> st = Cancelled"

definition update_items :: "(transfer_item \<Rightarrow> bool) \<Rightarrow> (transfer_item \<Rightarrow> transfer_item) \<Rightarrow>
    transfer_item list \<Rightarrow> transfer_item list" where
  "update_items P f = map (\<lambda>x. if P x then f x else x)"

fun transferQueueReducer ::
  "int \<Rightarrow> nat \<Rightarrow> transfer_item list \<Rightarrow> transfer_action \<Rightarrow> transfer_item list \<times> nat" where
  "transferQueueReducer now n st (ENQUEUE inputs) =
     (case draw_ids now n inputs of (withIds, m) \<Rightarrow> (st @ map new_item withIds, m))"
| "transferQueueReducer now n st (START i) =
     (update_items (\<lambda>x. item_id x = i)
        (\<lambda>x. x\<lparr>status := Transferring, startedAt := Some now\<rparr>) st, n)"
| "transferQueueReducer now n st (PROGRESS i p b v tot) =
     (update_items (\<lambda>x. item_id x = i \<and> status x = Transferring)
        (\<lambda>x. x\<lparr>progress := p, bytesTransferred := b, speed := v,
               totalBytes := (case tot of Some t \<Rightarrow> t | None \<Rightarrow> totalBytes x)\<rparr>) st, n)"
| "transferQueueReducer now n st (COMPLETE i) =
     (update_items (\<lambda>x. item_id x = i \<and> status x = Transferring)
        (\<lambda>x. x\<lparr>status := Completed, progress := 100, speed := 0,
               bytesTransferred := (if totalBytes x > 0 then totalBytes x else bytesTransferred x),
               completedAt := Some now\<rparr>) st, n)"
| "transferQueueReducer now n st (FAIL i e) =
     (update_items (\<lambda>x. item_id x = i \<and> status x = Transferring)
        (\<lambda>x. x\<lparr>status := Failed, item_error := Some e, completedAt := Some now\<rparr>) st, n)"
| "transferQueueReducer now n st (CANCEL i) =
     (update_items (\<lambda>x. item_id x = i \<and> status x \<noteq> Completed)
        (\<lambda>x. x\<lparr>status := Cancelled, completedAt := Some now\<rparr>) st, n)"
| "transferQueueReducer now n st (RETRY i) =
     (update_items (\<lambda>x. item_id x = i \<and> (status x = Failed \<or> status x = Cancelled))
        (\<lambda>x. x\<lparr>status := Queued, progress := 0, bytesTransferred := 0, speed := 0,
               item_error := None, startedAt := None, completedAt := None\<rparr>) st, n)"
| "transferQueueReducer now n st CLEAR_COMPLETED =
     (filter (\<lambda>x. status x \<noteq> Completed \<and> status x \<noteq> Failed \<and> status x \<noteq> Cancelled) st, n)"
| "transferQueueReducer now n st CLEAR_ALL = (filter (\<lambda>x. status x = Transferring) st, n)"

section \<open>Selectors\<close>

definition getActiveTransferCount :: "transfer_item list \<Rightarrow> nat" where
  "getActiveTransferCount st = length (filter (\<lambda>x. status x = Queued \<or> status x = Transferring) st)"

definition getNextQueuedTransfer :: "transfer_item list \<Rightarrow> transfer_item option" where
  "getNextQueuedTransfer st =
     (if \<exists>x \<in> set st. status x = Transferring then None else find (\<lambda>x. status x = Queued) st)"

section \<open>Progress events\<close>

record speed_tracker =
  lastBytes :: int
  lastTime :: "rat option"
  smoothed :: rat

definition new_tracker :: speed_tracker where
  "new_tracker = \<lparr>lastBytes = 0, lastTime = None, smoothed = 0\<rparr>"

definition tracker_update :: "speed_tracker \<Rightarrow> int \<Rightarrow> rat \<Rightarrow> speed_tracker" where
  "tracker_update tr transferred now =
     (case lastTime tr of
        None \<Rightarrow> tr\<lparr>lastBytes := transferred, lastTime := Some now\<rparr>
      | Some t \<Rightarrow>
          let dt = (now - t) / 1000 in
          if dt < 2 / 10 then tr
          else
            let instantaneous = of_int (max 0 (transferred - lastBytes tr)) / dt
            in \<lparr>lastBytes = transferred, lastTime = Some now,
                smoothed = (if smoothed tr > 0
                            then 7 / 10 * smoothed tr + 3 / 10 * instantaneous
                            else instantaneous)\<rparr>)"

text \<open>
  The message handler of \<open>makeTransferProgressChannel\<close>: the new state of its tracker and the
  action it dispatches. The percentage is the floor of the exact quotient.
\<close>

definition progress_message ::
  "speed_tracker \<Rightarrow> string \<Rightarrow> int \<Rightarrow> int \<Rightarrow> int \<Rightarrow> rat \<Rightarrow> speed_tracker \<times> transfer_action" where
  "progress_message tr i fallbackTotal transferred evTotal now =
     (let total = (if evTotal > 0 then evTotal else fallbackTotal);
          tr' = tracker_update tr transferred now;
          p = (if total > 0 then min 99 (transferred * 100 div total) else 0)
      in (tr', PROGRESS i p transferred (smoothed tr') (if total > 0 then Some total else None)))"

section \<open>Lemmas on the reducer\<close>

lemma update_items_simps [simp]:
  "update_items P f [] = []"
  "update_items P f (x # xs) = (if P x then f x else x) # update_items P f xs"
  "length (update_items P f xs) = length xs"
  by (simp_all add: update_items_def)

lemma set_update_items [simp]: "set (update_items P f xs) = (\<lambda>x. if P x then f x else x) ` set xs"
  by (simp add: update_items_def)

lemma update_items_map: "(\<And>x. g (f x) = g x) \<Longrightarrow> map g (update_items P f xs) = map g xs"
  by (simp add: update_items_def)

lemma new_item_simps [simp]:
  "item_id (new_item x) = the (in_id x)" "status (new_item x) = Queued" "progress (new_item x) = 0"
  "totalBytes (new_item x) = in_totalBytes x" "bytesTransferred (new_item x) = 0"
  by (simp_all add: new_item_def)

text \<open>Only ENQUEUE and the CLEAR actions change which ids are queued, and in which order.\<close>

lemma reducer_ids:
  assumes "\<And>xs. a \<noteq> ENQUEUE xs" "a \<noteq> CLEAR_COMPLETED" "a \<noteq> CLEAR_ALL"
  shows "map item_id (fst (transferQueueReducer now n st a)) = map item_id st"
  using assms by (cases a) (blast, simp_all add: update_items_map)

lemma draw_ids_length: "length (fst (draw_ids now n xs)) = length xs"
  by (induction xs arbitrary: n) (simp_all split: option.splits prod.splits, (metis fst_conv)+)

lemma draw_ids_mono: "n \<le> snd (draw_ids now n xs)"
proof (induction xs arbitrary: n)
  case Nil
  then show ?case by simp
next
  case (Cons x xs)
  from Cons.IH [of n] Cons.IH [of "Suc n"] show ?case
    by (auto split: option.split prod.split)
qed

text \<open>Ids: the given ones are kept, the drawn ones carry fresh counter values.\<close>

lemma draw_ids_given:
  "y \<in> set (fst (draw_ids now n xs)) \<Longrightarrow>
     (\<exists>m. n \<le> m \<and> m < snd (draw_ids now n xs) \<and> in_id y = Some (generateTransferId now m)) \<or>
     (in_id y \<noteq> None \<and> y \<in> set xs)"
proof (induction xs arbitrary: n)
  case Nil
  then show ?case by simp
next
  case (Cons x xs)
  show ?case
  proof (cases "in_id x")
    case None
    obtain ys m where d: "draw_ids now (Suc n) xs = (ys, m)" by (cases "draw_ids now (Suc n) xs")
    have "n < m" using draw_ids_mono [of "Suc n" now xs] d by simp
    with Cons.IH [of "Suc n"] Cons.prems show ?thesis
      by (auto simp: None d intro: Suc_leD)
  next
    case (Some i)
    obtain ys m where d: "draw_ids now n xs = (ys, m)" by (cases "draw_ids now n xs")
    with Cons.IH [of n] Cons.prems show ?thesis by (auto simp: Some d)
  qed
qed

end
