(* ===== verification/TransferService.thy ===== *)
theory TransferService
  imports TransferQueue
begin

text \<open>
  The transfer service of \<open>src/src/lib/transfer-queue-service.ts\<close>: the module-level store, \<open>applyAction\<close>,
  the pump and the public operations, as a state machine whose events are the calls of the UI and
  the messages of the backend.

  JavaScript runs each event to its end before the next, so an event is one step. What the backend
  does (how long a transfer takes, whether it succeeds, what it reports) is the choice of the next
  event. Listeners are the log of the items they are called with; what they do in turn are later
  events. A promise is its entry in \<open>waiters\<close> and then in the log of resolutions.
\<close>

section \<open>State\<close>

datatype outcome = OutCompleted | OutFailed | OutCancelled

record svc =
  items :: "transfer_item list"
  pumping :: bool
  waiters :: "string list"
  inflight :: "(transfer_item \<times> speed_tracker) option"
  nextId :: nat
  resolved :: "(string \<times> outcome) list"
  settled_log :: "transfer_item list"

text \<open>
  \<open>inflight\<close> is the call of \<open>runTransfer\<close> that the pump awaits: the item as it was when taken from
  the queue, and its progress channel.
\<close>

definition init_svc :: svc where
  "init_svc = \<lparr>items = [], pumping = False, waiters = [], inflight = None, nextId = 1,
     resolved = [], settled_log = []\<rparr>"

section \<open>Applying an action\<close>

definition outcome_of :: "transfer_status \<Rightarrow> outcome" where
  "outcome_of st = (if st = Completed then OutCompleted
                    else if st = Failed then OutFailed else OutCancelled)"

text \<open>The items that just reached a final status: final now and not found final before.\<close>

definition just_settled :: "transfer_item list \<Rightarrow> transfer_item list \<Rightarrow> transfer_item list" where
  "just_settled prev nxt =
     filter (\<lambda>x. isTerminalStatus (status x) \<and>
       (case find (\<lambda>c. item_id c = item_id x) prev of
          Some b \<Rightarrow> \<not> isTerminalStatus (status b) | None \<Rightarrow> True)) nxt"

definition resolve_waiter :: "svc \<Rightarrow> transfer_item \<Rightarrow> svc" where
  "resolve_waiter s x =
     (if item_id x \<in> set (waiters s)
      then s\<lparr>waiters := removeAll (item_id x) (waiters s),
             resolved := resolved s @ [(item_id x, outcome_of (status x))]\<rparr>
      else s)"

definition reduce_and_settle :: "int \<Rightarrow> svc \<Rightarrow> transfer_action \<Rightarrow> svc" where
  "reduce_and_settle now s a =
     (case transferQueueReducer now (nextId s) (items s) a of
        (nxt, n) \<Rightarrow>
          let settled = just_settled (items s) nxt;
              s' = foldl resolve_waiter (s\<lparr>items := nxt, nextId := n\<rparr>) settled
          in s'\<lparr>settled_log := settled_log s' @ settled\<rparr>)"

text \<open>
  The pump up to its \<open>await\<close>: nothing if it is already running or nothing can start, else START
  and the call of the backend. START does not re-arm the pump.
\<close>

definition pump :: "int \<Rightarrow> svc \<Rightarrow> svc" where
  "pump now s =
     (if pumping s then s
      else case getNextQueuedTransfer (items s) of
             None \<Rightarrow> s
           | Some nxt \<Rightarrow>
               (reduce_and_settle now (s\<lparr>pumping := True\<rparr>) (START (item_id nxt)))
                 \<lparr>inflight := Some (nxt, new_tracker)\<rparr>)"

fun rearms :: "transfer_action \<Rightarrow> bool" where
  "rearms (ENQUEUE xs) = True"
| "rearms (RETRY i) = True"
| "rearms _ = False"

definition applyAction :: "int \<Rightarrow> svc \<Rightarrow> transfer_action \<Rightarrow> svc" where
  "applyAction now s a =
     (let s' = reduce_and_settle now s a in if rearms a then pump now s' else s')"

section \<open>Operations\<close>

definition enqueue :: "int \<Rightarrow> svc \<Rightarrow> enqueue_input list \<Rightarrow> svc \<times> transfer_item list" where
  "enqueue now s inputs =
     (case draw_ids now (nextId s) inputs of
        (withIds, n) \<Rightarrow>
          let s' = applyAction now (s\<lparr>nextId := n\<rparr>) (ENQUEUE withIds)
          in (s', filter (\<lambda>x. item_id x \<in> set (map (the \<circ> in_id) withIds)) (items s')))"

definition submit :: "int \<Rightarrow> svc \<Rightarrow> enqueue_input \<Rightarrow> svc \<times> string" where
  "submit now s input =
     (case draw_ids now (nextId s) [input] of
        (withIds, n) \<Rightarrow>
          let i = the (in_id (hd withIds));
              s' = applyAction now (s\<lparr>nextId := n\<rparr>) (ENQUEUE withIds)
          in (s'\<lparr>waiters := List.insert i (waiters s')\<rparr>, i))"

definition cancelTransfer :: "int \<Rightarrow> svc \<Rightarrow> string \<Rightarrow> svc" where
  "cancelTransfer now s i = applyAction now s (CANCEL i)"

text \<open>A progress message for the transfer in flight.\<close>

definition on_progress :: "int \<Rightarrow> rat \<Rightarrow> svc \<Rightarrow> int \<Rightarrow> int \<Rightarrow> svc" where
  "on_progress now perf s transferred evTotal =
     (case inflight s of
        None \<Rightarrow> s
      | Some (x, tr) \<Rightarrow>
          (case progress_message tr (item_id x) (totalBytes x) transferred evTotal perf of
             (tr', a) \<Rightarrow> applyAction now (s\<lparr>inflight := Some (x, tr')\<rparr>) a))"

text \<open>
  What the backend's call comes to: it threw, or returned with its success flag and its error.
  \<open>runTransfer\<close> applies the result. The pump's \<open>finally\<close> runs in a later microtask, so other calls
  may come between: it is a step of its own, \<open>resume\<close>.
\<close>

datatype backend_result = Threw string | Returned bool "string option"

definition result_action :: "string \<Rightarrow> backend_result \<Rightarrow> transfer_action" where
  "result_action i r =
     (case r of
        Threw e \<Rightarrow> FAIL i e
      | Returned ok e \<Rightarrow>
          if ok then COMPLETE i
          else FAIL i (case e of Some m \<Rightarrow> m | None \<Rightarrow> ''Transfer failed''))"

definition on_result :: "int \<Rightarrow> svc \<Rightarrow> backend_result \<Rightarrow> svc" where
  "on_result now s r =
     (case inflight s of
        None \<Rightarrow> s
      | Some (x, _) \<Rightarrow> (applyAction now s (result_action (item_id x) r))\<lparr>inflight := None\<rparr>)"

definition resume :: "int \<Rightarrow> svc \<Rightarrow> svc" where
  "resume now s =
     (if pumping s \<and> inflight s = None then pump now (s\<lparr>pumping := False\<rparr>) else s)"

section \<open>Steps\<close>

text \<open>
  A call that names an id itself names a new one: not queued, and not spelled like a generated one.
\<close>

definition fresh_input :: "svc \<Rightarrow> enqueue_input \<Rightarrow> bool" where
  "fresh_input s x \<longleftrightarrow>
     (case in_id x of
        None \<Rightarrow> True
      | Some i \<Rightarrow> i \<notin> set (map item_id (items s)) \<and> \<not> starts_with i ''transfer-'')"

inductive svc_step :: "svc \<Rightarrow> svc \<Rightarrow> bool" where
  Enqueue: "\<forall>x \<in> set inputs. fresh_input s x \<Longrightarrow> distinct (filter (\<lambda>i. i \<noteq> None) (map in_id inputs)) \<Longrightarrow>
     svc_step s (fst (enqueue now s inputs))"
| Submit: "fresh_input s input \<Longrightarrow> svc_step s (fst (submit now s input))"
| CancelT: "svc_step s (cancelTransfer now s i)"
| Retry: "svc_step s (applyAction now s (RETRY i))"
| Clear: "svc_step s (applyAction now s CLEAR_COMPLETED)"
| Progress: "svc_step s (on_progress now perf s transferred evTotal)"
| Result: "svc_step s (on_result now s r)"
| Resume: "svc_step s (resume now s)"

inductive_cases svc_stepE: "svc_step s s'"

inductive svc_reachable :: "svc \<Rightarrow> bool" where
  init: "svc_reachable init_svc"
| step: "svc_reachable s \<Longrightarrow> svc_step s s' \<Longrightarrow> svc_reachable s'"

end
