(* ===== verification/TransferInv.thy ===== *)
theory TransferInv
  imports TransferService
begin

text \<open>
  The invariant of the transfer service and the theorems about its runs.
\<close>

section \<open>Settling\<close>

lemma resolve_fold [simp]:
  "items (foldl resolve_waiter s xs) = items s" "pumping (foldl resolve_waiter s xs) = pumping s"
  "inflight (foldl resolve_waiter s xs) = inflight s" "nextId (foldl resolve_waiter s xs) = nextId s"
  "settled_log (foldl resolve_waiter s xs) = settled_log s"
  by (induction xs arbitrary: s) (simp_all add: resolve_waiter_def)

lemma resolve_fold_waiters:
  "set (waiters (foldl resolve_waiter s xs)) = set (waiters s) - item_id ` set xs"
  by (induction xs arbitrary: s) (auto simp: resolve_waiter_def)

lemma reduce_fields [simp]:
  "items (reduce_and_settle now s a) = fst (transferQueueReducer now (nextId s) (items s) a)"
  "nextId (reduce_and_settle now s a) = snd (transferQueueReducer now (nextId s) (items s) a)"
  "pumping (reduce_and_settle now s a) = pumping s"
  "inflight (reduce_and_settle now s a) = inflight s"
  by (simp_all add: reduce_and_settle_def Let_def split: prod.split)

lemma reduce_waiters:
  "set (waiters (reduce_and_settle now s a)) = set (waiters s) -
     item_id ` set (just_settled (items s) (fst (transferQueueReducer now (nextId s) (items s) a)))"
  by (simp add: reduce_and_settle_def Let_def resolve_fold_waiters split: prod.split)

lemma find_by_id:
  assumes "distinct (map item_id xs)" "x \<in> set xs"
  shows "find (\<lambda>c. item_id c = item_id x) xs = Some x"
  using assms by (induction xs) (auto simp: rev_image_eqI)

section \<open>The invariant\<close>

text \<open>
  Distinct ids; an item that is transferring is the one the pump awaits; a call in flight means a
  running pump; an idle pump has no work; every promise of \<open>submit\<close> still pending belongs to an
  item that is not yet settled; progress is below 100 until the item completes; ids carry counter
  values below the next one.
\<close>

definition item_ok :: "transfer_item \<Rightarrow> bool" where
  "item_ok x \<longleftrightarrow> (if status x = Completed then progress x = 100 else progress x \<le> 99)"

definition ids_ok :: "nat \<Rightarrow> transfer_item list \<Rightarrow> bool" where
  "ids_ok n xs \<longleftrightarrow> distinct (map item_id xs) \<and>
     (\<forall>x \<in> set xs. \<forall>t m. item_id x = generateTransferId t m \<longrightarrow> m < n)"

definition awaited :: "svc \<Rightarrow> string option" where
  "awaited s = map_option (item_id \<circ> fst) (inflight s)"

definition svc_ok :: "svc \<Rightarrow> bool" where
  "svc_ok s \<longleftrightarrow> ids_ok (nextId s) (items s) \<and>
     (\<forall>x \<in> set (items s). status x = Transferring \<longrightarrow> awaited s = Some (item_id x)) \<and>
     (inflight s \<noteq> None \<longrightarrow> pumping s) \<and>
     (\<not> pumping s \<longrightarrow> (\<forall>x \<in> set (items s). status x \<noteq> Queued)) \<and>
     (\<forall>i \<in> set (waiters s). \<exists>x \<in> set (items s). item_id x = i \<and> \<not> isTerminalStatus (status x)) \<and>
     (\<forall>x \<in> set (items s). item_ok x)"

text \<open>Without the clause on an idle pump: what holds between an action and the pump's next turn.\<close>

definition svc_pre :: "svc \<Rightarrow> bool" where
  "svc_pre s \<longleftrightarrow> ids_ok (nextId s) (items s) \<and>
     (\<forall>x \<in> set (items s). status x = Transferring \<longrightarrow> awaited s = Some (item_id x)) \<and>
     (inflight s \<noteq> None \<longrightarrow> pumping s) \<and>
     (\<forall>i \<in> set (waiters s). \<exists>x \<in> set (items s). item_id x = i \<and> \<not> isTerminalStatus (status x)) \<and>
     (\<forall>x \<in> set (items s). item_ok x)"

lemma svc_ok_pre: "svc_ok s \<longleftrightarrow> svc_pre s \<and> (\<not> pumping s \<longrightarrow> (\<forall>x \<in> set (items s). status x \<noteq> Queued))"
  by (auto simp: svc_ok_def svc_pre_def)

text \<open>
  An action that changes items in place, keeping ids: what has to be known of the change \<open>f\<close> of
  one item for the invariant to survive it.
\<close>

lemma in_place_pre:
  assumes s: "svc_pre s"
    and f: "transferQueueReducer now (nextId s) (items s) a = (map f (items s), nextId s)"
    and id: "\<And>x. x \<in> set (items s) \<Longrightarrow> item_id (f x) = item_id x"
    and tr: "\<And>x. x \<in> set (items s) \<Longrightarrow> status (f x) = Transferring \<Longrightarrow> awaited s = Some (item_id x)"
    and ok: "\<And>x. x \<in> set (items s) \<Longrightarrow> item_ok x \<Longrightarrow> item_ok (f x)"
  shows "svc_pre (reduce_and_settle now s a)"
proof -
  let ?s = "reduce_and_settle now s a"
  have d: "distinct (map item_id (items s))" using s by (simp add: svc_pre_def ids_ok_def)
  have ids: "map item_id (map f (items s)) = map item_id (items s)" using id by simp
  have "\<exists>x \<in> set (items ?s). item_id x = i \<and> \<not> isTerminalStatus (status x)"
    if "i \<in> set (waiters ?s)" for i
  proof -
    from that have i: "i \<in> set (waiters s)" "i \<notin> item_id ` set (just_settled (items s) (map f (items s)))"
      by (auto simp: reduce_waiters f)
    then obtain x where x: "x \<in> set (items s)" "item_id x = i" "\<not> isTerminalStatus (status x)"
      using s by (auto simp: svc_pre_def)
    have "\<not> isTerminalStatus (status (f x))"
    proof
      assume "isTerminalStatus (status (f x))"
      then have "f x \<in> set (just_settled (items s) (map f (items s)))"
        using x id [OF x(1)] find_by_id [OF d x(1)] by (simp add: just_settled_def)
      with i(2) x id [OF x(1)] show False by (metis image_eqI)
    qed
    with x id [OF x(1)] show ?thesis by (auto simp: f)
  qed
  moreover have "ids_ok (nextId ?s) (items ?s)"
    using s id ids by (auto simp: svc_pre_def ids_ok_def f simp del: map_map)
  ultimately show ?thesis
    using s tr ok id by (auto simp: svc_pre_def f awaited_def)
qed

subsection \<open>Actions that keep it\<close>

lemma item_ok_change:
  "item_ok x \<Longrightarrow> item_ok (x\<lparr>status := Cancelled, completedAt := c\<rparr>) \<or> status x = Completed"
  "item_ok x \<Longrightarrow> status x = Transferring \<Longrightarrow>
     item_ok (x\<lparr>status := Failed, item_error := e, completedAt := c\<rparr>)"
  "item_ok (x\<lparr>status := Completed, progress := 100, speed := v, bytesTransferred := b, completedAt := c\<rparr>)"
  "item_ok (x\<lparr>status := Queued, progress := 0, bytesTransferred := b, speed := v,
      item_error := e, startedAt := t, completedAt := c\<rparr>)"
  "p \<le> 99 \<Longrightarrow> status x = Transferring \<Longrightarrow>
     item_ok (x\<lparr>progress := p, bytesTransferred := b, speed := v, totalBytes := n\<rparr>)"
  by (auto simp: item_ok_def split: if_splits)

lemma complete_pre: "svc_pre s \<Longrightarrow> svc_pre (reduce_and_settle now s (COMPLETE i))"
  by (rule in_place_pre [where f = "\<lambda>x. if item_id x = i \<and> status x = Transferring
        then x\<lparr>status := Completed, progress := 100, speed := 0,
               bytesTransferred := (if totalBytes x > 0 then totalBytes x else bytesTransferred x),
               completedAt := Some now\<rparr> else x"])
    (auto simp: update_items_def item_ok_change svc_pre_def split: if_splits)

lemma fail_pre: "svc_pre s \<Longrightarrow> svc_pre (reduce_and_settle now s (FAIL i e))"
  by (rule in_place_pre [where f = "\<lambda>x. if item_id x = i \<and> status x = Transferring
        then x\<lparr>status := Failed, item_error := Some e, completedAt := Some now\<rparr> else x"])
    (auto simp: update_items_def item_ok_change svc_pre_def split: if_splits)

lemma progress_pre:
  "svc_pre s \<Longrightarrow> p \<le> 99 \<Longrightarrow> svc_pre (reduce_and_settle now s (PROGRESS i p b v tot))"
  by (rule in_place_pre [where f = "\<lambda>x. if item_id x = i \<and> status x = Transferring
        then x\<lparr>progress := p, bytesTransferred := b, speed := v,
               totalBytes := (case tot of Some t \<Rightarrow> t | None \<Rightarrow> totalBytes x)\<rparr> else x"])
    (auto simp: update_items_def item_ok_change svc_pre_def split: if_splits)

lemma cancel_pre: "svc_pre s \<Longrightarrow> svc_pre (reduce_and_settle now s (CANCEL i))"
  by (rule in_place_pre [where f = "\<lambda>x. if item_id x = i \<and> status x \<noteq> Completed
        then x\<lparr>status := Cancelled, completedAt := Some now\<rparr> else x"])
    (auto simp: update_items_def item_ok_def svc_pre_def split: if_splits)

lemma retry_pre: "svc_pre s \<Longrightarrow> svc_pre (reduce_and_settle now s (RETRY i))"
  by (rule in_place_pre [where f = "\<lambda>x. if item_id x = i \<and> (status x = Failed \<or> status x = Cancelled)
        then x\<lparr>status := Queued, progress := 0, bytesTransferred := 0, speed := 0,
               item_error := None, startedAt := None, completedAt := None\<rparr> else x"])
    (auto simp: update_items_def item_ok_change svc_pre_def split: if_splits)

lemma clear_pre:
  assumes s: "svc_pre s" shows "svc_pre (reduce_and_settle now s CLEAR_COMPLETED)"
proof -
  have "just_settled (items s) (filter (\<lambda>x. status x \<noteq> Completed \<and> status x \<noteq> Failed \<and>
      status x \<noteq> Cancelled) (items s)) = []"
    by (auto simp: just_settled_def filter_empty_conv isTerminalStatus_def)
  moreover have "distinct (map item_id (filter P (items s)))" for P
    using s by (simp add: svc_pre_def ids_ok_def distinct_map_filter)
  ultimately show ?thesis
    using s by (auto simp: svc_pre_def ids_ok_def reduce_waiters awaited_def isTerminalStatus_def)
qed

text \<open>Generated ids determine the counter value they were made from.\<close>

lemma generated_id_inject:
  "generateTransferId t m = generateTransferId t' m' \<Longrightarrow> m = m'"
proof -
  assume "generateTransferId t m = generateTransferId t' m'"
  then have "js_split (CHR ''-'') (string_of_nat m @ ''-'' @ string_of_int t) =
      js_split (CHR ''-'') (string_of_nat m' @ ''-'' @ string_of_int t')"
    by (simp add: generateTransferId_def)
  then show ?thesis
    using string_of_nat_no_sep [of m] string_of_nat_no_sep [of m']
    by (simp add: js_split_append)
qed

lemma draw_ids_idem:
  "\<forall>x \<in> set xs. in_id x \<noteq> None \<Longrightarrow> draw_ids now n xs = (xs, n)"
  by (induction xs) (auto split: option.split)

lemma draw_ids_all: "y \<in> set (fst (draw_ids now n xs)) \<Longrightarrow> in_id y \<noteq> None"
  using draw_ids_given by fastforce

definition plain_id :: "enqueue_input \<Rightarrow> bool" where
  "plain_id x \<longleftrightarrow> (\<forall>i. in_id x = Some i \<longrightarrow> \<not> starts_with i ''transfer-'')"

lemma generated_prefix: "starts_with (generateTransferId t m) ''transfer-''"
  by (simp add: generateTransferId_def)

lemma draw_ids_distinct:
  "distinct (filter (\<lambda>i. i \<noteq> None) (map in_id xs)) \<Longrightarrow> \<forall>x \<in> set xs. plain_id x \<Longrightarrow>
     distinct (map in_id (fst (draw_ids now n xs)))"
proof (induction xs arbitrary: n)
  case Nil
  then show ?case by simp
next
  case (Cons x xs)
  show ?case
  proof (cases "in_id x")
    case None
    obtain ys m where d: "draw_ids now (Suc n) xs = (ys, m)" by (cases "draw_ids now (Suc n) xs")
    have "in_id y \<noteq> Some (generateTransferId now n)" if "y \<in> set ys" for y
    proof
      assume e: "in_id y = Some (generateTransferId now n)"
      from draw_ids_given [of y now "Suc n" xs] that d
      consider k where "Suc n \<le> k" "in_id y = Some (generateTransferId now k)" | "y \<in> set xs" by auto
      then show False
      proof cases
        case 1
        then show ?thesis using e generated_id_inject [of now n now k] by simp
      next
        case 2
        then show ?thesis using e Cons.prems(2) generated_prefix by (auto simp: plain_id_def)
      qed
    qed
    then show ?thesis using Cons.IH [of "Suc n"] Cons.prems None d by (force simp: d)
  next
    case (Some i)
    obtain ys m where d: "draw_ids now n xs = (ys, m)" by (cases "draw_ids now n xs")
    have "in_id y \<noteq> Some i" if "y \<in> set ys" for y
    proof
      assume e: "in_id y = Some i"
      from draw_ids_given [of y now n xs] that d
      consider k where "in_id y = Some (generateTransferId now k)" | "y \<in> set xs" by auto
      then show False
      proof cases
        case 1
        then show ?thesis using e Cons.prems(2) Some generated_prefix by (auto simp: plain_id_def)
      next
        case 2
        then show ?thesis using e Cons.prems(1) Some by (auto simp: image_iff)
      qed
    qed
    then show ?thesis using Cons.IH [of n] Cons.prems Some d by (force simp: d)
  qed
qed

lemma fresh_plain: "fresh_input s x \<Longrightarrow> plain_id x"
  by (auto simp: fresh_input_def plain_id_def)

lemma enqueue_pre:
  assumes s: "svc_pre s" and fresh: "\<forall>x \<in> set inputs. fresh_input s x"
    and dist: "distinct (filter (\<lambda>i. i \<noteq> None) (map in_id inputs))"
    and d: "draw_ids now (nextId s) inputs = (xs, n)"
  shows "svc_pre (reduce_and_settle now (s\<lparr>nextId := n\<rparr>) (ENQUEUE xs))"
proof -
  let ?s = "reduce_and_settle now (s\<lparr>nextId := n\<rparr>) (ENQUEUE xs)"
  have some: "in_id y \<noteq> None" if "y \<in> set xs" for y
    using draw_ids_all [of y now "nextId s" inputs] that d by simp
  have r: "transferQueueReducer now n (items s) (ENQUEUE xs) = (items s @ map new_item xs, n)"
    using draw_ids_idem [of xs now n] some by simp
  have given: "(\<exists>m. nextId s \<le> m \<and> m < n \<and> in_id y = Some (generateTransferId now m)) \<or>
      (\<exists>i. in_id y = Some i \<and> i \<notin> set (map item_id (items s)) \<and> \<not> starts_with i ''transfer-'')"
    if "y \<in> set xs" for y
    using draw_ids_given [of y now "nextId s" inputs] that d fresh
    by (auto simp: fresh_input_def split: option.splits)
  have old: "item_id x = generateTransferId t m \<Longrightarrow> m < nextId s" if "x \<in> set (items s)" for x t m
    using s that by (auto simp: svc_pre_def ids_ok_def)
  have n: "nextId s \<le> n" using draw_ids_mono [of "nextId s" now inputs] d by simp
  have new: "item_id x \<noteq> the (in_id y)" if x: "x \<in> set (items s)" and y: "y \<in> set xs" for x y
    using given [OF y] old [OF x] x by fastforce
  have "distinct (map in_id xs)"
    using draw_ids_distinct [OF dist, of now "nextId s"] fresh fresh_plain [of s] d by auto
  then have "distinct (map (the \<circ> in_id) xs)"
    using some by (auto simp: distinct_map inj_on_def) (metis option.expand option.distinct(1))
  then have dm: "distinct (map item_id (items s @ map new_item xs))"
    using s new by (auto simp: svc_pre_def ids_ok_def comp_def)
  have bound: "m < n" if "x \<in> set (items s @ map new_item xs)" "item_id x = generateTransferId t m" for x t m
  proof -
    consider "x \<in> set (items s)" | y where "y \<in> set xs" "x = new_item y" using \<open>x \<in> _\<close> by auto
    then show ?thesis
    proof cases
      case 1
      then show ?thesis using old [OF 1 that(2)] n by simp
    next
      case 2
      then show ?thesis
        using given [OF 2(1)] that(2) generated_prefix [of t m] by (auto dest: generated_id_inject)
    qed
  qed
  have "just_settled (items s) (items s @ map new_item xs) = []"
  proof -
    have "find (\<lambda>c. item_id c = item_id x) (items s) = Some x" if "x \<in> set (items s)" for x
      using s that by (intro find_by_id) (auto simp: svc_pre_def ids_ok_def)
    then show ?thesis
      by (auto simp: just_settled_def filter_empty_conv isTerminalStatus_def split: option.split)
  qed
  then have w: "set (waiters ?s) = set (waiters s)"
    using r by (simp add: reduce_waiters del: transferQueueReducer.simps)
  have i: "items ?s = items s @ map new_item xs" "nextId ?s = n" "inflight ?s = inflight s"
    "pumping ?s = pumping s" using r by (simp_all del: transferQueueReducer.simps)
  have "item_ok (new_item y)" for y by (simp add: item_ok_def)
  then show ?thesis
    unfolding svc_pre_def i w ids_ok_def awaited_def
    using s dm bound by (auto simp: svc_pre_def awaited_def)
qed

subsection \<open>The pump\<close>

lemma resolve_fold_update:
  "(foldl resolve_waiter s xs)\<lparr>inflight := v\<rparr> = foldl resolve_waiter (s\<lparr>inflight := v\<rparr>) xs"
proof (induction xs arbitrary: s)
  case Nil
  then show ?case by simp
next
  case (Cons x xs)
  have "(resolve_waiter s x)\<lparr>inflight := v\<rparr> = resolve_waiter (s\<lparr>inflight := v\<rparr>) x"
    by (simp add: resolve_waiter_def)
  with Cons [of "resolve_waiter s x"] show ?case by simp
qed

lemma reduce_inflight:
  "(reduce_and_settle now s a)\<lparr>inflight := v\<rparr> = reduce_and_settle now (s\<lparr>inflight := v\<rparr>) a"
proof -
  obtain nxt n where r: "transferQueueReducer now (nextId s) (items s) a = (nxt, n)"
    by (cases "transferQueueReducer now (nextId s) (items s) a")
  have "s\<lparr>items := nxt, nextId := n\<rparr>\<lparr>inflight := v\<rparr> = s\<lparr>inflight := v\<rparr>\<lparr>items := nxt, nextId := n\<rparr>"
    by simp
  then have "(foldl resolve_waiter (s\<lparr>items := nxt, nextId := n\<rparr>) xs)\<lparr>inflight := v\<rparr> =
      foldl resolve_waiter (s\<lparr>inflight := v\<rparr>\<lparr>items := nxt, nextId := n\<rparr>) xs" for xs
    using resolve_fold_update [of v "s\<lparr>items := nxt, nextId := n\<rparr>" xs] by (simp only:)
  moreover have "x\<lparr>settled_log := l\<rparr>\<lparr>inflight := v\<rparr> = x\<lparr>inflight := v\<rparr>\<lparr>settled_log := l\<rparr>" for x :: svc and l
    by simp
  ultimately show ?thesis
    by (simp only: reduce_and_settle_def Let_def r case_prod_conv svc.simps resolve_fold)
      (simp add: r)
qed

text \<open>The pump as one action on the state that already awaits the item.\<close>

lemma pump_start:
  assumes "\<not> pumping s" "getNextQueuedTransfer (items s) = Some x"
  shows "pump now s = reduce_and_settle now (s\<lparr>pumping := True, inflight := Some (x, new_tracker)\<rparr>) (START (item_id x))"
  using assms by (simp add: pump_def reduce_inflight)

lemma next_queued:
  assumes "getNextQueuedTransfer xs = Some x"
  shows "x \<in> set xs" "status x = Queued" "\<forall>y \<in> set xs. status y \<noteq> Transferring"
  using assms find_Some_mem [of "\<lambda>x. status x = Queued" xs x]
  by (auto simp: getNextQueuedTransfer_def split: if_splits)

lemma next_queued_None:
  "getNextQueuedTransfer xs = None \<Longrightarrow>
     (\<exists>y \<in> set xs. status y = Transferring) \<or> (\<forall>y \<in> set xs. status y \<noteq> Queued)"
  by (auto simp: getNextQueuedTransfer_def find_None_iff split: if_splits)

lemma pump_ok:
  assumes s: "svc_pre s" shows "svc_ok (pump now s)"
proof (cases "pumping s")
  case True
  with s show ?thesis by (simp add: pump_def svc_ok_pre)
next
  case False
  then have idle: "\<forall>x \<in> set (items s). status x \<noteq> Transferring"
    using s by (auto simp: svc_pre_def awaited_def)
  show ?thesis
  proof (cases "getNextQueuedTransfer (items s)")
    case None
    then show ?thesis
      using s False idle next_queued_None [OF None] by (auto simp: pump_def svc_ok_pre)
  next
    case (Some x)
    let ?s = "s\<lparr>pumping := True, inflight := Some (x, new_tracker)\<rparr>"
    have pre: "svc_pre ?s" using s idle by (simp add: svc_pre_def)
    have d: "distinct (map item_id (items s))" using s by (simp add: svc_pre_def ids_ok_def)
    have same: "y = x" if "y \<in> set (items s)" "item_id y = item_id x" for y
      using d that next_queued(1) [OF Some] by (simp add: distinct_map inj_on_def)
    have "svc_pre (reduce_and_settle now ?s (START (item_id x)))"
    proof (rule in_place_pre [OF pre, where f = "\<lambda>y. if item_id y = item_id x
          then y\<lparr>status := Transferring, startedAt := Some now\<rparr> else y"])
      fix y assume y: "y \<in> set (items ?s)" "item_ok y"
      then show "item_ok (if item_id y = item_id x
          then y\<lparr>status := Transferring, startedAt := Some now\<rparr> else y)"
        using same [of y] next_queued(2) [OF Some] by (auto simp: item_ok_def)
    qed (use idle in \<open>auto simp: update_items_def awaited_def split: if_splits\<close>)
    then show ?thesis
      using pump_start [OF False Some] by (simp add: svc_ok_pre)
  qed
qed

text \<open>An action that leaves no new work for an idle pump keeps the invariant.\<close>

lemma settle_ok:
  assumes "svc_ok s" "svc_pre (reduce_and_settle now s a)" "rearms a \<or>
    (\<forall>x \<in> set (fst (transferQueueReducer now (nextId s) (items s) a)). status x = Queued \<longrightarrow>
        (\<exists>y \<in> set (items s). status y = Queued))"
  shows "svc_ok (applyAction now s a)"
  using assms pump_ok [OF assms(2)]
  by (auto simp: applyAction_def Let_def svc_ok_pre)

lemma action_ok:
  assumes s: "svc_ok s"
  shows "svc_ok (applyAction now s (RETRY i))" "svc_ok (applyAction now s (CANCEL i))"
    "svc_ok (applyAction now s CLEAR_COMPLETED)" "svc_ok (applyAction now s (COMPLETE i))"
    "svc_ok (applyAction now s (FAIL i e))"
    "p \<le> 99 \<Longrightarrow> svc_ok (applyAction now s (PROGRESS i p b v tot))"
  using s unfolding svc_ok_pre [of s]
  by (auto intro!: settle_ok [OF s] retry_pre cancel_pre clear_pre complete_pre fail_pre progress_pre
      split: if_splits)

subsection \<open>Every step\<close>

lemma enqueue_ok:
  assumes s: "svc_ok s" and f: "\<forall>x \<in> set inputs. fresh_input s x"
    "distinct (filter (\<lambda>i. i \<noteq> None) (map in_id inputs))"
  shows "svc_ok (fst (enqueue now s inputs))"
proof -
  obtain xs n where d: "draw_ids now (nextId s) inputs = (xs, n)"
    by (cases "draw_ids now (nextId s) inputs")
  have "svc_pre s" using s by (simp add: svc_ok_pre)
  from pump_ok [OF enqueue_pre [OF this f d]] show ?thesis
    by (simp add: enqueue_def d applyAction_def Let_def)
qed

lemma progress_message_cap:
  "progress_message tr i f t e now = (tr', a) \<Longrightarrow> \<exists>p b v n. a = PROGRESS i p b v n \<and> p \<le> 99"
  by (auto simp: progress_message_def Let_def split: if_splits)

lemma on_progress_ok:
  assumes s: "svc_ok s" shows "svc_ok (on_progress now perf s t e)"
proof (cases "inflight s")
  case None
  with s show ?thesis by (simp add: on_progress_def)
next
  case (Some xt)
  obtain x tr where xt: "xt = (x, tr)" by (cases xt)
  obtain tr' a where m: "progress_message tr (item_id x) (totalBytes x) t e perf = (tr', a)"
    by (cases "progress_message tr (item_id x) (totalBytes x) t e perf")
  have "svc_ok (s\<lparr>inflight := Some (x, tr')\<rparr>)"
    using s Some xt by (simp add: svc_ok_def awaited_def)
  then show ?thesis
    using progress_message_cap [OF m] action_ok(6) by (auto simp: on_progress_def Some xt m)
qed

lemma result_action_cases: "\<exists>e. result_action i r = COMPLETE i \<or> result_action i r = FAIL i e"
  by (cases r) (auto simp: result_action_def)

lemma update_items_status:
  assumes "x \<in> set (update_items (\<lambda>x. item_id x = i \<and> status x = Transferring) f xs)" "item_id x = i"
    "\<And>y. status (f y) \<noteq> Transferring"
  shows "status x \<noteq> Transferring"
  using assms by (auto split: if_splits)

lemma result_settles:
  assumes "x \<in> set (fst (transferQueueReducer now n xs (result_action i r)))" "item_id x = i"
  shows "status x \<noteq> Transferring"
proof -
  obtain e where "result_action i r = COMPLETE i \<or> result_action i r = FAIL i e"
    using result_action_cases by blast
  then show ?thesis
  proof
    assume e: "result_action i r = COMPLETE i"
    show ?thesis
      using assms unfolding e transferQueueReducer.simps fst_conv by (rule update_items_status) simp
  next
    assume e: "result_action i r = FAIL i e"
    show ?thesis
      using assms unfolding e transferQueueReducer.simps fst_conv by (rule update_items_status) simp
  qed
qed

lemma result_not_rearms [simp]: "\<not> rearms (result_action i r)"
  using result_action_cases [of i r] by auto

lemma on_result_ok:
  assumes s: "svc_ok s" shows "svc_ok (on_result now s r)"
proof (cases "inflight s")
  case None
  with s show ?thesis by (simp add: on_result_def)
next
  case (Some xt)
  obtain x tr where xt: "xt = (x, tr)" by (cases xt)
  let ?s = "applyAction now s (result_action (item_id x) r)"
  have ok: "svc_ok ?s"
    using result_action_cases [of "item_id x" r] action_ok(4,5) [OF s] by metis
  have aw: "awaited ?s = Some (item_id x)"
    by (simp add: applyAction_def awaited_def Some xt)
  have p: "pumping ?s" using s Some by (simp add: applyAction_def svc_ok_def)
  have "status y \<noteq> Transferring" if y: "y \<in> set (items ?s)" for y
  proof
    assume t: "status y = Transferring"
    then have "item_id y = item_id x" using ok y aw by (simp add: svc_ok_def)
    with y t show False using result_settles by (auto simp: applyAction_def)
  qed
  with ok p show ?thesis by (auto simp: on_result_def Some xt svc_ok_def)
qed

lemma resume_ok: assumes s: "svc_ok s" shows "svc_ok (resume now s)"
proof (cases "pumping s \<and> inflight s = None")
  case True
  with s have "svc_pre (s\<lparr>pumping := False\<rparr>)" by (auto simp: svc_pre_def svc_ok_def awaited_def)
  from pump_ok [OF this] True show ?thesis by (simp add: resume_def)
qed (use s in \<open>auto simp: resume_def\<close>)

lemma pump_active:
  assumes "x \<in> set (items s)" "\<not> isTerminalStatus (status x)"
  shows "\<exists>y \<in> set (items (pump now s)). item_id y = item_id x \<and> \<not> isTerminalStatus (status y)"
proof (cases "pumping s \<or> getNextQueuedTransfer (items s) = None")
  case True
  with assms show ?thesis by (auto simp: pump_def)
next
  case False
  then obtain z where z: "getNextQueuedTransfer (items s) = Some z" "\<not> pumping s" by auto
  let ?f = "\<lambda>x. if item_id x = item_id z then x\<lparr>status := Transferring, startedAt := Some now\<rparr> else x"
  have "?f x \<in> set (items (pump now s))"
    unfolding pump_start [OF z(2,1)] using assms(1) by (simp add: update_items_def)
  moreover have "item_id (?f x) = item_id x" "\<not> isTerminalStatus (status (?f x))"
    using assms(2) by (auto simp: isTerminalStatus_def)
  ultimately show ?thesis by blast
qed

lemma pump_waiters_subset: "set (waiters (pump now s)) \<subseteq> set (waiters s)"
proof (cases "pumping s \<or> getNextQueuedTransfer (items s) = None")
  case True
  then show ?thesis by (auto simp: pump_def)
next
  case False
  then obtain z where z: "getNextQueuedTransfer (items s) = Some z" "\<not> pumping s" by auto
  show ?thesis unfolding pump_start [OF z(2,1)] reduce_waiters by auto
qed

lemma submit_ok:
  assumes s: "svc_ok s" and f: "fresh_input s input"
  shows "svc_ok (fst (submit now s input))"
proof -
  obtain xs n where d: "draw_ids now (nextId s) [input] = (xs, n)"
    by (cases "draw_ids now (nextId s) [input]")
  let ?s = "applyAction now (s\<lparr>nextId := n\<rparr>) (ENQUEUE xs)" and ?i = "the (in_id (hd xs))"
  have ok: "svc_ok ?s"
    using enqueue_ok [OF s, of "[input]" now] f by (simp add: enqueue_def d Let_def del: draw_ids.simps)
  have "length xs = 1" using draw_ids_length [of now "nextId s" "[input]"] d by simp
  then obtain y where y: "xs = [y]" by (cases xs) auto
  have "in_id y \<noteq> None" using draw_ids_all [of y now "nextId s" "[input]"] d y by simp
  then have "draw_ids now n [y] = ([y], n)" by (intro draw_ids_idem) simp
  then have "new_item y \<in> set (items (reduce_and_settle now (s\<lparr>nextId := n\<rparr>) (ENQUEUE xs)))"
    by (simp add: y del: draw_ids.simps)
  from pump_active [OF this, of now]
  have "\<exists>z \<in> set (items ?s). item_id z = ?i \<and> \<not> isTerminalStatus (status z)"
    by (simp add: applyAction_def isTerminalStatus_def y)
  with ok show ?thesis
    by (auto simp: submit_def d Let_def svc_ok_def awaited_def simp del: draw_ids.simps)
qed

lemma step_ok: "svc_step s s' \<Longrightarrow> svc_ok s \<Longrightarrow> svc_ok s'"
  by (induction rule: svc_step.induct)
    (auto intro: enqueue_ok submit_ok action_ok on_progress_ok on_result_ok resume_ok
      simp: cancelTransfer_def)

lemma init_ok: "svc_ok init_svc"
  by (simp add: svc_ok_def init_svc_def ids_ok_def)

lemma reachable_ok: "svc_reachable s \<Longrightarrow> svc_ok s"
  by (induction rule: svc_reachable.induct) (auto intro: init_ok step_ok)

lemma one_transferring:
  assumes "svc_ok s" shows "length (filter (\<lambda>x. status x = Transferring) (items s)) \<le> 1"
proof -
  let ?t = "filter (\<lambda>x. status x = Transferring) (items s)"
  have d: "distinct (map item_id ?t)" using assms by (simp add: svc_ok_def ids_ok_def distinct_map_filter)
  have "set (map item_id ?t) \<subseteq> {the (awaited s)}" using assms by (auto simp: svc_ok_def)
  then have "card (set (map item_id ?t)) \<le> 1" using card_mono [of "{the (awaited s)}"] by fastforce
  then show ?thesis using distinct_card [OF d] by simp
qed

section \<open>Properties\<close>

text \<open>
  (C2) In every state the transfer service can reach, whatever the UI does and the backend
  answers: at most one item is transferring, app-wide; it is the one whose call the pump awaits;
  ids are distinct; the pump is never idle while an item is queued (no lost wake-up); every pending
  promise of \<open>submit\<close> belongs to an item that is still queued or transferring; progress stays below
  100 until the transfer completes.
\<close>

theorem service_invariant:
  assumes "svc_reachable s"
  shows "svc_ok s \<and> length (filter (\<lambda>x. status x = Transferring) (items s)) \<le> 1"
  using reachable_ok [OF assms] one_transferring by blast

definition demo_input :: enqueue_input where
  "demo_input = \<lparr>in_id = None, in_connectionId = ''c'', in_fileName = ''f'', in_direction = Upload,
     in_sourcePath = ''/a'', in_destinationPath = ''/b'', in_totalBytes = 10, in_confined = None\<rparr>"

lemma demo_fresh: "fresh_input s demo_input"
  by (simp add: fresh_input_def demo_input_def)

definition demo_svc :: svc where
  "demo_svc = fst (submit 0 (fst (submit 0 init_svc demo_input)) demo_input)"

lemma demo_reachable: "svc_reachable demo_svc"
  unfolding demo_svc_def
  by (intro svc_reachable.step [OF _ svc_step.Submit] svc_reachable.init demo_fresh)

lemma service_invariant_witness: "svc_ok demo_svc \<and>
    length (filter (\<lambda>x. status x = Transferring) (items demo_svc)) \<le> 1"
  by (rule service_invariant [OF demo_reachable])

section \<open>Every transfer is reached\<close>

text \<open>One turn of the pump: the backend answers \<open>r\<close>, and the pump resumes.\<close>

definition turn :: "int \<Rightarrow> svc \<Rightarrow> backend_result \<Rightarrow> svc" where
  "turn now s r = resume now (on_result now s r)"

definition queued_count :: "svc \<Rightarrow> nat" where
  "queued_count s = length (filter (\<lambda>x. status x = Queued) (items s))"

definition work :: "svc \<Rightarrow> nat" where
  "work s = queued_count s + (if pumping s then 1 else 0)"

lemma turn_ok: "svc_ok s \<Longrightarrow> svc_ok (turn now s r)"
  by (simp add: turn_def resume_ok on_result_ok)

lemma queued_update_same:
  "(\<And>x. P x \<Longrightarrow> status x \<noteq> Queued) \<Longrightarrow> (\<And>x. status (f x) \<noteq> Queued) \<Longrightarrow>
     length (filter (\<lambda>x. status x = Queued) (update_items P f xs)) =
     length (filter (\<lambda>x. status x = Queued) xs)"
  by (induction xs) auto

lemma result_queued: "queued_count (on_result now s r) = queued_count s"
proof (cases "inflight s")
  case None
  then show ?thesis by (simp add: on_result_def)
next
  case (Some xt)
  obtain x tr where xt: "xt = (x, tr)" by (cases xt)
  obtain e where "result_action (item_id x) r = COMPLETE (item_id x) \<or>
      result_action (item_id x) r = FAIL (item_id x) e"
    using result_action_cases by blast
  then show ?thesis
    by (elim disjE) (simp_all add: on_result_def Some xt applyAction_def queued_count_def, (rule queued_update_same; simp)+)
qed

lemma start_less:
  assumes "x \<in> set xs" "status x = Queued" "item_id x = i"
  shows "length (filter (\<lambda>x. status x = Queued) (update_items (\<lambda>x. item_id x = i)
      (\<lambda>x. x\<lparr>status := Transferring, startedAt := t\<rparr>) xs)) <
    length (filter (\<lambda>x. status x = Queued) xs)"
proof -
  let ?f = "\<lambda>xs. filter (\<lambda>x. status x = Queued) (update_items (\<lambda>x. item_id x = i)
      (\<lambda>x. x\<lparr>status := Transferring, startedAt := t\<rparr>) xs)"
  have le: "length (?f ys) \<le> length (filter (\<lambda>x. status x = Queued) ys)" for ys
    by (induction ys) auto
  show ?thesis using assms
  proof (induction xs)
    case Nil
    then show ?case by simp
  next
    case (Cons y ys)
    then show ?case using le [of ys] by auto
  qed
qed

lemma pump_work:
  assumes "\<not> pumping s" shows "work (pump now s) \<le> queued_count s"
proof (cases "getNextQueuedTransfer (items s)")
  case None
  with assms show ?thesis by (simp add: pump_def work_def)
next
  case (Some x)
  show ?thesis
    using start_less [OF next_queued(1,2) [OF Some] refl, of "Some now"]
    unfolding pump_start [OF assms Some] by (simp add: work_def queued_count_def)
qed

lemma turn_work: "svc_ok s \<Longrightarrow> work (turn now s r) \<le> work s - 1"
proof (cases "pumping s")
  case True
  let ?s = "on_result now s r"
  have p: "pumping ?s" "inflight ?s = None"
    using True by (auto simp: on_result_def applyAction_def split: option.split)
  then have "turn now s r = pump now (?s\<lparr>pumping := False\<rparr>)" by (simp add: turn_def resume_def)
  moreover have "queued_count (?s\<lparr>pumping := False\<rparr>) = queued_count s"
    using result_queued by (simp add: queued_count_def)
  ultimately show ?thesis using pump_work [of "?s\<lparr>pumping := False\<rparr>" now] True by (simp add: work_def)
next
  case False
  moreover assume "svc_ok s"
  ultimately have "queued_count s = 0" "inflight s = None"
    unfolding svc_ok_def queued_count_def by (simp add: filter_empty_conv, blast)
  with False show ?thesis by (simp add: turn_def on_result_def resume_def work_def)
qed

lemma turns_work: "svc_ok s \<Longrightarrow> work (foldl (turn now) s rs) \<le> work s - length rs"
proof (induction rs arbitrary: s)
  case Nil
  then show ?case by simp
next
  case (Cons r rs)
  have "work (foldl (turn now) (turn now s r) rs) \<le> work (turn now s r) - length rs"
    using turn_ok [OF Cons.prems] by (rule Cons.IH)
  with turn_work [OF Cons.prems, of now r] show ?case by simp
qed

lemma turns_ok: "svc_ok s \<Longrightarrow> svc_ok (foldl (turn now) s rs)"
  by (induction rs arbitrary: s) (auto intro: turn_ok)

text \<open>
  (C19) No transfer is starved and no promise is left hanging: from any reachable state, once the
  backend has answered one call more than there are queued items, with any mix of successes, failures
  and exceptions, nothing is queued or transferring any more and every \<open>submit\<close> has been resolved.
\<close>

theorem queue_drains:
  assumes s: "svc_reachable s" and n: "queued_count s < length rs"
  shows "getActiveTransferCount (items (foldl (turn now) s rs)) = 0 \<and>
         waiters (foldl (turn now) s rs) = []"
proof -
  let ?s = "foldl (turn now) s rs"
  have ok: "svc_ok ?s" using turns_ok reachable_ok [OF s] by blast
  have "work s \<le> length rs" using n by (simp add: work_def)
  then have "work ?s = 0" using turns_work [OF reachable_ok [OF s], of now rs] by simp
  then have q: "\<not> pumping ?s" "\<forall>x \<in> set (items ?s). status x \<noteq> Queued"
    by (auto simp: work_def queued_count_def filter_empty_conv split: if_splits)
  with ok have t: "\<forall>x \<in> set (items ?s). status x \<noteq> Transferring"
    by (auto simp: svc_ok_def awaited_def)
  have "isTerminalStatus (status x)" if "x \<in> set (items ?s)" for x
    using that q(2) t by (cases "status x") (auto simp: isTerminalStatus_def)
  then have "set (waiters ?s) = {}" using ok by (auto simp: svc_ok_def)
  with q t show ?thesis by (simp add: getActiveTransferCount_def filter_empty_conv)
qed

lemma queue_drains_witness:
  "waiters (foldl (turn 0) demo_svc [Returned True None, Threw ''e'', Returned False None]) = []"
proof -
  have "queued_count demo_svc < 3" by code_simp
  then show ?thesis using queue_drains [OF demo_reachable, of "[Returned True None, Threw ''e'', Returned False None]"]
    by simp
qed

section \<open>Settled items stay settled\<close>

lemma backend_action_keeps:
  assumes "x \<in> set xs" "isTerminalStatus (status x)"
    "a = COMPLETE i \<or> a = FAIL i e \<or> a = PROGRESS i p b v tot"
  shows "x \<in> set (fst (transferQueueReducer now n xs a))"
proof -
  have "x \<in> set (update_items (\<lambda>x. item_id x = i \<and> status x = Transferring) f xs)" for f
    using assms(1,2) by (auto simp: isTerminalStatus_def intro!: rev_image_eqI [of x])
  with assms(3) show ?thesis by (elim disjE) (simp_all del: set_update_items)
qed

text \<open>
  A late answer of the backend cannot resurrect a transfer: an item that has completed, failed or
  been cancelled is left exactly as it is by a progress message, by the result of the call in flight
  and by the pump's next turn.
\<close>

theorem late_answer_ignored:
  assumes s: "svc_reachable s" and x: "x \<in> set (items s)" "isTerminalStatus (status x)"
  shows "x \<in> set (items (on_result now s r)) \<and> x \<in> set (items (on_progress now perf s t e)) \<and>
         x \<in> set (items (resume now s))"
proof (intro conjI)
  show "x \<in> set (items (on_result now s r))"
  proof (cases "inflight s")
    case (Some yt)
    obtain y tr where "yt = (y, tr)" by (cases yt)
    moreover obtain m where "result_action (item_id y) r = COMPLETE (item_id y) \<or>
        result_action (item_id y) r = FAIL (item_id y) m" using result_action_cases by blast
    ultimately show ?thesis
      using backend_action_keeps [OF x, of "result_action (item_id y) r" "item_id y" m] Some
      by (auto simp: on_result_def applyAction_def)
  qed (use x in \<open>simp add: on_result_def\<close>)
  show "x \<in> set (items (on_progress now perf s t e))"
  proof (cases "inflight s")
    case (Some yt)
    obtain y tr where y: "yt = (y, tr)" by (cases yt)
    obtain tr' a where m: "progress_message tr (item_id y) (totalBytes y) t e perf = (tr', a)"
      by (cases "progress_message tr (item_id y) (totalBytes y) t e perf")
    obtain p b v n where "a = PROGRESS (item_id y) p b v n" using progress_message_cap [OF m] by blast
    then show ?thesis
      using backend_action_keeps [OF x, of a "item_id y"] by (auto simp: on_progress_def Some y m applyAction_def)
  qed (use x in \<open>simp add: on_progress_def\<close>)
  show "x \<in> set (items (resume now s))"
  proof (cases "pumping s \<and> inflight s = None \<and> getNextQueuedTransfer (items s) \<noteq> None")
    case True
    then obtain z where z: "getNextQueuedTransfer (items (s\<lparr>pumping := False\<rparr>)) = Some z" by auto
    have "item_id x \<noteq> item_id z"
      using reachable_ok [OF s] x next_queued [OF z]
      by (auto simp: svc_ok_def ids_ok_def distinct_map inj_on_def isTerminalStatus_def)
    then show ?thesis
      using x(1) True pump_start [OF _ z, of now]
      by (auto simp: resume_def intro!: rev_image_eqI [of x])
  qed (use x in \<open>auto simp: resume_def pump_def\<close>)
qed

section \<open>Promises\<close>

lemma waiter_item:
  "svc_ok s \<Longrightarrow> i \<in> set (waiters s) \<Longrightarrow> \<exists>x \<in> set (items s). item_id x = i \<and> \<not> isTerminalStatus (status x)"
  by (simp add: svc_ok_def)

lemma resolve_fold_resolved:
  "distinct (map item_id xs) \<Longrightarrow> resolved (foldl resolve_waiter s xs) = resolved s @
     map (\<lambda>x. (item_id x, outcome_of (status x))) (filter (\<lambda>x. item_id x \<in> set (waiters s)) xs)"
proof (induction xs arbitrary: s)
  case Nil
  then show ?case by simp
next
  case (Cons x xs)
  have "filter (\<lambda>y. item_id y \<in> set (waiters (resolve_waiter s x))) xs =
      filter (\<lambda>y. item_id y \<in> set (waiters s)) xs"
    using Cons.prems by (intro filter_cong) (auto simp: resolve_waiter_def image_iff)
  with Cons show ?case by (simp add: resolve_waiter_def)
qed

text \<open>
  The promises of \<open>submit\<close> are resolved exactly when their item settles, once, with the item's
  final status: applying any action but an enqueue appends to the log of resolutions the awaited
  items that are final afterwards, each with its outcome, and nothing else.
\<close>

theorem promises_resolved:
  assumes s: "svc_reachable s" and a: "\<And>xs. a \<noteq> ENQUEUE xs"
  shows "resolved (reduce_and_settle now s a) = resolved s @
    map (\<lambda>x. (item_id x, outcome_of (status x)))
      (filter (\<lambda>x. isTerminalStatus (status x) \<and> item_id x \<in> set (waiters s))
        (items (reduce_and_settle now s a)))"
proof -
  obtain nxt n where r: "transferQueueReducer now (nextId s) (items s) a = (nxt, n)"
    by (cases "transferQueueReducer now (nextId s) (items s) a")
  have ok: "svc_ok s" using reachable_ok [OF s] .
  then have d: "distinct (map item_id (items s))" by (simp add: svc_ok_def ids_ok_def)
  have "map item_id nxt = map item_id (items s) \<or> (\<exists>P. nxt = filter P (items s))"
    using reducer_ids [OF a, of now "nextId s" "items s"] r by (cases a) auto
  then have dn: "distinct (map item_id nxt)" using d by (auto simp: distinct_map_filter)
  let ?J = "just_settled (items s) nxt"
  have dJ: "distinct (map item_id ?J)" using dn by (simp add: just_settled_def distinct_map_filter)
  have "filter (\<lambda>x. item_id x \<in> set (waiters s)) ?J =
      filter (\<lambda>x. isTerminalStatus (status x) \<and> item_id x \<in> set (waiters s)) nxt"
  proof -
    have "\<not> isTerminalStatus (status b)"
      if i: "item_id x \<in> set (waiters s)" and b: "find (\<lambda>c. item_id c = item_id x) (items s) = Some b" for x b
    proof -
      obtain y where y: "y \<in> set (items s)" "item_id y = item_id x" "\<not> isTerminalStatus (status y)"
        using waiter_item [OF ok i] by blast
      with find_by_id [OF d y(1)] b show ?thesis by simp
    qed
    then show ?thesis
      unfolding just_settled_def filter_filter by (intro filter_cong) (auto split: option.split)
  qed
  then show ?thesis
    using resolve_fold_resolved [OF dJ, of "s\<lparr>items := nxt, nextId := n\<rparr>"]
    by (simp add: reduce_and_settle_def r Let_def)
qed

lemma promises_resolved_witness:
  "resolved (reduce_and_settle 5 demo_svc (CANCEL (item_id (hd (items demo_svc))))) =
     [(item_id (hd (items demo_svc)), OutCancelled)]"
  using promises_resolved [OF demo_reachable, of "CANCEL (item_id (hd (items demo_svc)))" 5]
  by code_simp

text \<open>
  Cancelling is final: after \<open>cancelTransfer\<close> no item of that id is queued or transferring (it is
  cancelled, or had completed), no other item has changed, and no promise for it is pending.
\<close>

theorem cancel_settles:
  assumes s: "svc_reachable s"
  shows "items (cancelTransfer now s i) =
      map (\<lambda>x. if item_id x = i \<and> status x \<noteq> Completed
               then x\<lparr>status := Cancelled, completedAt := Some now\<rparr> else x) (items s) \<and>
    i \<notin> set (waiters (cancelTransfer now s i))"
proof
  let ?s = "cancelTransfer now s i"
  show e: "items ?s = map (\<lambda>x. if item_id x = i \<and> status x \<noteq> Completed
               then x\<lparr>status := Cancelled, completedAt := Some now\<rparr> else x) (items s)"
    by (simp add: cancelTransfer_def applyAction_def update_items_def)
  have ok: "svc_ok ?s"
    using action_ok(2) [OF reachable_ok [OF s]] by (simp add: cancelTransfer_def)
  have "isTerminalStatus (status x)" if x: "x \<in> set (items ?s)" and i: "item_id x = i" for x
  proof -
    obtain y where y: "x = (if item_id y = i \<and> status y \<noteq> Completed
        then y\<lparr>status := Cancelled, completedAt := Some now\<rparr> else y)"
      using x unfolding e set_map image_iff by blast
    show ?thesis
      using i unfolding y by (cases "item_id y = i \<and> status y \<noteq> Completed")
        (auto simp: isTerminalStatus_def)
  qed
  then show "i \<notin> set (waiters ?s)" using waiter_item [OF ok] by blast
qed

lemma cancel_settles_witness:
  "item_id (hd (items demo_svc)) \<notin> set (waiters (cancelTransfer 9 demo_svc (item_id (hd (items demo_svc)))))"
  using cancel_settles [OF demo_reachable] by blast

text \<open>
  \<open>CLEAR_ALL\<close> is the exception: it drops queued items without settling them, so a promise of
  \<open>submit\<close> whose item was still queued stays pending with no item left that could resolve it. (The UI
  offers only \<open>CLEAR_COMPLETED\<close>.)
\<close>

theorem clear_all_strands_promise:
  assumes s: "svc_reachable s" and x: "x \<in> set (items s)" "status x = Queued" "item_id x \<in> set (waiters s)"
  shows "item_id x \<in> set (waiters (applyAction now s CLEAR_ALL)) \<and>
         item_id x \<notin> set (map item_id (items (applyAction now s CLEAR_ALL)))"
proof
  have d: "distinct (map item_id (items s))"
    using reachable_ok [OF s] by (simp add: svc_ok_def ids_ok_def)
  have "just_settled (items s) (filter (\<lambda>x. status x = Transferring) (items s)) = []"
    by (auto simp: just_settled_def filter_empty_conv isTerminalStatus_def)
  then show "item_id x \<in> set (waiters (applyAction now s CLEAR_ALL))"
    using x(3) by (simp add: applyAction_def reduce_waiters)
  show "item_id x \<notin> set (map item_id (items (applyAction now s CLEAR_ALL)))"
    using d x(1,2) by (auto simp: applyAction_def distinct_map inj_on_def)
qed

lemma clear_all_strands_promise_witness:
  "item_id (items demo_svc ! 1) \<in> set (waiters (applyAction 0 demo_svc CLEAR_ALL))"
proof -
  have "length (items demo_svc) = 2" "status (items demo_svc ! 1) = Queued"
    "item_id (items demo_svc ! 1) \<in> set (waiters demo_svc)" by code_simp+
  then show ?thesis using clear_all_strands_promise [OF demo_reachable, of "items demo_svc ! 1" 0] by simp
qed

text \<open>
  What the progress bar is told: for byte counts that are not negative the percentage lies
  between 0 and 99 (100 is left to COMPLETE), the smoothed speed is not negative, and the total
  reported is positive or absent.
\<close>

theorem progress_message_bounds:
  assumes "0 \<le> smoothed tr" "0 \<le> transferred"
  shows "\<exists>tr' p v tot. progress_message tr i fallback transferred evTotal now =
      (tr', PROGRESS i p transferred v tot) \<and> 0 \<le> p \<and> p \<le> 99 \<and> 0 \<le> v \<and> v = smoothed tr' \<and>
      (\<forall>t. tot = Some t \<longrightarrow> 0 < t)"
proof -
  have "0 \<le> smoothed (tracker_update tr transferred now)"
    using assms(1) by (auto simp: tracker_update_def Let_def divide_nonneg_pos split: option.split)
  then show ?thesis
    using assms(2) by (auto simp: progress_message_def Let_def pos_imp_zdiv_nonneg_iff)
qed

lemma progress_message_bounds_witness:
  "\<exists>tr' p v tot. progress_message new_tracker ''x'' 100 50 0 3 = (tr', PROGRESS ''x'' p 50 v tot) \<and>
     0 \<le> p \<and> p \<le> 99 \<and> 0 \<le> v \<and> v = smoothed tr' \<and> (\<forall>t. tot = Some t \<longrightarrow> 0 < t)"
  by (rule progress_message_bounds) (simp_all add: new_tracker_def)

lemma late_answer_ignored_witness:
  "hd (items (cancelTransfer 9 demo_svc (item_id (hd (items demo_svc)))))
     \<in> set (items (on_result 0 (cancelTransfer 9 demo_svc (item_id (hd (items demo_svc)))) (Returned True None)))"
proof -
  let ?s = "cancelTransfer 9 demo_svc (item_id (hd (items demo_svc)))"
  have r: "svc_reachable ?s" by (rule svc_reachable.step [OF demo_reachable svc_step.CancelT])
  have "hd (items ?s) \<in> set (items ?s) \<and> isTerminalStatus (status (hd (items ?s)))" by code_simp
  then show ?thesis using late_answer_ignored [OF r, of "hd (items ?s)" 0 "Returned True None"] by blast
qed

end
