(* ===== verification/ConnectionStore.thy ===== *)
theory ConnectionStore
  imports JsObject
begin

text \<open>
  The saved connections and folders: \<open>ConnectionStorageManager\<close> of
  \<open>src/src/lib/connection-storage.ts\<close>, \<open>SECRET_FIELDS\<close> and \<open>isSealed\<close> of
  \<open>src/src/lib/credential-crypto.ts\<close>, and the folder rename of
  \<open>src/src/components/connection-manager.tsx\<close>.

  A stored array is \<open>Absent\<close>, \<open>Stored\<close> with its records, or \<open>Unreadable\<close>: a text that does not parse
  to an array. \<open>JSON.stringify\<close> and \<open>JSON.parse\<close> are taken to be inverse on the records. Reading
  marks an unreadable key in the module's set of corrupt keys, so reads return a new state.
  \<open>crypto.randomUUID()\<close> and the current time are arguments. \<open>secrets\<close> holds the fields of
  \<open>SECRET_FIELDS\<close> that are present, \<open>details\<close> stands for the fields the manager only carries along.
  The migration of the legacy session keys and the sealing of secrets at the start are in \<open>SecretMigration\<close>.
\<close>

section \<open>Records\<close>

record connection =
  conn_id :: string
  conn_name :: string
  conn_host :: string
  conn_port :: int
  conn_username :: string
  conn_protocol :: string
  conn_folder :: "string option"
  profileId :: "string option"
  createdAt :: string
  lastConnected :: "string option"
  favorite :: "bool option"
  authMethod :: "string option"
  sortOrder :: "int option"
  secrets :: "string obj"
  details :: string

record folder =
  folder_id :: string
  folder_name :: string
  folder_path :: string
  parentPath :: "string option"
  folder_createdAt :: string
  folder_sortOrder :: "int option"

definition connectionHasCredentials :: "connection \<Rightarrow> bool" where
  "connectionHasCredentials c =
     (let am = (case or_null (authMethod c) of Some a \<Rightarrow> a | None \<Rightarrow> ''password'') in
      if conn_protocol c = ''RDP'' \<or> conn_protocol c = ''VNC'' then True
      else if (conn_protocol c = ''SFTP'' \<or> conn_protocol c = ''FTP'') \<and> am = ''anonymous'' then True
      else if am = ''password'' then obj_get (secrets c) ''password'' \<noteq> None
      else am = ''publickey'')"

definition SECRET_FIELDS :: "string list" where
  "SECRET_FIELDS = [''password'', ''passphrase'', ''proxyPassword'', ''vncPassword'',
     ''tunnelPassword'', ''tunnelPassphrase'']"

definition isSealed :: "string \<Rightarrow> bool" where
  "isSealed v \<longleftrightarrow> starts_with v ''v1:'' \<and> length (js_split (CHR '':'') v) = 3"

section \<open>The store\<close>

datatype 'a stored = Absent | Unreadable string | Stored "'a list"

record store =
  conns :: "connection stored"
  folders :: "folder stored"
  conns_corrupt :: bool
  folders_corrupt :: bool
  sealFailedIds :: "string list"

text \<open>\<open>readStoredArray\<close> for the two keys (the backup of an unreadable value is in \<open>CorruptBackup\<close>).\<close>

definition getConnections :: "store \<Rightarrow> connection list \<times> store" where
  "getConnections s =
     (case conns s of
        Absent \<Rightarrow> ([], s\<lparr>conns_corrupt := False\<rparr>)
      | Stored cs \<Rightarrow> (cs, s\<lparr>conns_corrupt := False\<rparr>)
      | Unreadable _ \<Rightarrow> ([], s\<lparr>conns_corrupt := True\<rparr>))"

definition getFolders :: "store \<Rightarrow> folder list \<times> store" where
  "getFolders s =
     (case folders s of
        Absent \<Rightarrow> ([], s\<lparr>folders_corrupt := False\<rparr>)
      | Stored fs \<Rightarrow> (fs, s\<lparr>folders_corrupt := False\<rparr>)
      | Unreadable _ \<Rightarrow> ([], s\<lparr>folders_corrupt := True\<rparr>))"

definition stripUnencryptedSecrets :: "string list \<Rightarrow> connection \<Rightarrow> connection" where
  "stripUnencryptedSecrets failed c =
     c\<lparr>secrets := fold (\<lambda>field ss.
         case obj_get ss field of
           Some v \<Rightarrow> if v \<noteq> [] \<and> \<not> isSealed v \<and> conn_id c \<notin> set failed then obj_del field ss else ss
         | None \<Rightarrow> ss) SECRET_FIELDS (secrets c)\<rparr>"

definition persistConnections :: "connection list \<Rightarrow> store \<Rightarrow> store" where
  "persistConnections cs s =
     (if conns_corrupt s then s
      else s\<lparr>conns := Stored (map (stripUnencryptedSecrets (sealFailedIds s)) cs)\<rparr>)"

definition writeFolders :: "folder list \<Rightarrow> store \<Rightarrow> store" where
  "writeFolders fs s = (if folders_corrupt s then s else s\<lparr>folders := Stored fs\<rparr>)"

definition markSealFailed :: "string \<Rightarrow> store \<Rightarrow> store" where
  "markSealFailed i s = s\<lparr>sealFailedIds := List.insert i (sealFailedIds s)\<rparr>"

definition clearSealFailed :: "string \<Rightarrow> store \<Rightarrow> store" where
  "clearSealFailed i s = s\<lparr>sealFailedIds := removeAll i (sealFailedIds s)\<rparr>"

text \<open>Both arrays read, and whether either is corrupt.\<close>

definition read_both :: "store \<Rightarrow> folder list \<times> connection list \<times> store" where
  "read_both s =
     (case getFolders s of (fs, s1) \<Rightarrow> case getConnections s1 of (cs, s2) \<Rightarrow> (fs, cs, s2))"

definition corrupted :: "store \<Rightarrow> bool" where
  "corrupted s \<longleftrightarrow> conns_corrupt s \<or> folders_corrupt s"

section \<open>Connections\<close>

definition root_folder :: string where
  "root_folder = ''All Connections''"

definition folder_or_root :: "string option \<Rightarrow> string" where
  "folder_or_root f = (case or_null f of Some p \<Rightarrow> p | None \<Rightarrow> root_folder)"

definition getConnection :: "store \<Rightarrow> string \<Rightarrow> connection option" where
  "getConnection s i = find (\<lambda>c. conn_id c = i) (fst (getConnections s))"

definition under :: "string \<Rightarrow> string \<Rightarrow> bool" where
  "under folderPath p \<longleftrightarrow> starts_with p (folderPath @ ''/'')"

definition getConnectionsByFolder :: "store \<Rightarrow> string \<Rightarrow> connection list" where
  "getConnectionsByFolder s p = filter (\<lambda>c. conn_folder c = Some p) (fst (getConnections s))"

definition getConnectionsByFolderRecursive :: "store \<Rightarrow> string \<Rightarrow> connection list" where
  "getConnectionsByFolderRecursive s p =
     filter (\<lambda>c. conn_folder c = Some p \<or> (case conn_folder c of Some f \<Rightarrow> under p f | None \<Rightarrow> False))
       (fst (getConnections s))"

definition getSubfoldersRecursive :: "store \<Rightarrow> string \<Rightarrow> folder list" where
  "getSubfoldersRecursive s p = filter (\<lambda>f. under p (folder_path f)) (fst (getFolders s))"

definition saveConnection :: "string \<Rightarrow> string \<Rightarrow> connection \<Rightarrow> store \<Rightarrow> connection \<times> store" where
  "saveConnection uuid now c s =
     (case getConnections s of
        (cs, s1) \<Rightarrow>
          let new = c\<lparr>conn_id := uuid, createdAt := now, conn_folder := Some (folder_or_root (conn_folder c))\<rparr>
          in (new, persistConnections (cs @ [new]) s1))"

definition saveConnectionWithId :: "string \<Rightarrow> string \<Rightarrow> connection \<Rightarrow> store \<Rightarrow> connection \<times> store" where
  "saveConnectionWithId i now c s =
     (case getConnections s of
        (cs, s1) \<Rightarrow>
          let new = c\<lparr>conn_id := i, createdAt := now, lastConnected := Some now,
                      conn_folder := Some (folder_or_root (conn_folder c))\<rparr>
          in (new, persistConnections
                (case find_index (\<lambda>c. conn_id c = i) cs of
                   Some k \<Rightarrow> cs[k := new] | None \<Rightarrow> cs @ [new]) s1))"

text \<open>\<open>updates\<close> overlays the given fields, never \<open>id\<close> or \<open>createdAt\<close>.\<close>

definition updateConnection ::
  "string \<Rightarrow> (connection \<Rightarrow> connection) \<Rightarrow> store \<Rightarrow> connection option \<times> store" where
  "updateConnection i updates s =
     (case getConnections s of
        (cs, s1) \<Rightarrow>
          (case find_index (\<lambda>c. conn_id c = i) cs of
             None \<Rightarrow> (None, s1)
           | Some k \<Rightarrow> (Some (updates (cs ! k)), persistConnections (cs[k := updates (cs ! k)]) s1)))"

definition updateLastConnected :: "string \<Rightarrow> string \<Rightarrow> store \<Rightarrow> store" where
  "updateLastConnected now i s = snd (updateConnection i (\<lambda>c. c\<lparr>lastConnected := Some now\<rparr>) s)"

definition deleteConnection :: "string \<Rightarrow> store \<Rightarrow> bool \<times> store" where
  "deleteConnection i s =
     (case getConnections s of
        (cs, s1) \<Rightarrow>
          let filtered = filter (\<lambda>c. conn_id c \<noteq> i) cs in
          if length filtered = length cs then (False, s1)
          else (True, persistConnections filtered s1))"

definition moveConnection :: "string \<Rightarrow> string \<Rightarrow> store \<Rightarrow> bool \<times> store" where
  "moveConnection i newFolder s =
     (case updateConnection i (\<lambda>c. c\<lparr>conn_folder := Some newFolder\<rparr>) s of
        (r, s1) \<Rightarrow> (r \<noteq> None, s1))"

section \<open>Folders\<close>

definition child_path :: "string option \<Rightarrow> string \<Rightarrow> string" where
  "child_path parent name = (case or_null parent of Some p \<Rightarrow> p @ ''/'' @ name | None \<Rightarrow> name)"

definition createFolder :: "string \<Rightarrow> string \<Rightarrow> string \<Rightarrow> string option \<Rightarrow> store \<Rightarrow> folder \<times> store" where
  "createFolder uuid now name parent s =
     (case getFolders s of
        (fs, s1) \<Rightarrow>
          let path = child_path parent name in
          (case find (\<lambda>f. folder_path f = path) fs of
             Some existing \<Rightarrow> (existing, s1)
           | None \<Rightarrow>
               let new = \<lparr>folder_id = uuid, folder_name = name, folder_path = path, parentPath = parent,
                          folder_createdAt = now, folder_sortOrder = None\<rparr>
               in (new, writeFolders (fs @ [new]) s1)))"

definition deleteFolder :: "string \<Rightarrow> bool \<Rightarrow> store \<Rightarrow> bool \<times> store" where
  "deleteFolder path deleteSubfolders s =
     (if path = root_folder then (False, s)
      else
        (case read_both s of
           (fs, cs, s1) \<Rightarrow>
             if corrupted s1 then (False, s1)
             else
               let fs' = filter (\<lambda>f. \<not> (folder_path f = path \<or>
                           (deleteSubfolders \<and> under path (folder_path f)))) fs;
                   cs' = filter (\<lambda>c. \<not> (conn_folder c = Some path \<or>
                           (deleteSubfolders \<and> (case conn_folder c of Some f \<Rightarrow> under path f | None \<Rightarrow> False)))) cs
               in if length fs' = length fs then (False, s1)
                  else (True, persistConnections cs' (writeFolders fs' s1))))"

definition getSubfolders :: "store \<Rightarrow> string \<Rightarrow> folder list" where
  "getSubfolders s p = filter (\<lambda>f. parentPath f = Some p) (fst (getFolders s))"

text \<open>\<open>newPath + p.substring(folderPath.length)\<close>\<close>

definition rebase :: "string \<Rightarrow> string \<Rightarrow> string \<Rightarrow> string" where
  "rebase old new p = new @ drop (length old) p"

definition move_folder_entry :: "string \<Rightarrow> string \<Rightarrow> string option \<Rightarrow> folder \<Rightarrow> folder" where
  "move_folder_entry old new newParent f =
     (if folder_path f = old then f\<lparr>folder_path := new, parentPath := newParent\<rparr>
      else if under old (folder_path f) then
        f\<lparr>folder_path := rebase old new (folder_path f),
          parentPath := (if parentPath f = Some old then Some new
                         else case parentPath f of
                                Some p \<Rightarrow> if under old p then Some (rebase old new p) else Some p
                              | None \<Rightarrow> None)\<rparr>
      else f)"

definition move_connection_entry :: "string \<Rightarrow> string \<Rightarrow> connection \<Rightarrow> connection" where
  "move_connection_entry old new c =
     (if conn_folder c = Some old then c\<lparr>conn_folder := Some new\<rparr>
      else case conn_folder c of
             Some p \<Rightarrow> if under old p then c\<lparr>conn_folder := Some (rebase old new p)\<rparr> else c
           | None \<Rightarrow> c)"

definition moveFolderRecursive :: "string \<Rightarrow> string option \<Rightarrow> store \<Rightarrow> bool \<times> store" where
  "moveFolderRecursive folderPath newParent s =
     (if folderPath = root_folder then (False, s)
      else if newParent = Some folderPath \<or> (case newParent of Some p \<Rightarrow> under folderPath p | None \<Rightarrow> False)
        then (False, s)
      else
        (case read_both s of
           (fs, cs, s1) \<Rightarrow>
             if corrupted s1 then (False, s1)
             else
               (case find (\<lambda>f. folder_path f = folderPath) fs of
                  None \<Rightarrow> (False, s1)
                | Some f \<Rightarrow>
                    let newPath = child_path newParent (folder_name f) in
                    if parentPath f = newParent then (True, s1)
                    else (True,
                      persistConnections (map (move_connection_entry folderPath newPath) cs)
                        (writeFolders (map (move_folder_entry folderPath newPath newParent) fs) s1)))))"

end
