(* ===== verification/ConnectionOps.thy ===== *)
theory ConnectionOps
  imports ConnectionStore
begin

text \<open>
  The remaining operations of \<open>ConnectionStorageManager\<close>: ordering, the tree, import and export, reset,
  and the rename of \<open>connection-manager.tsx\<close>. The recursions over the folder hierarchy take fuel:
  \<open>None\<close> stands for a recursion deeper than the fuel.
\<close>

section \<open>Sort order\<close>

text \<open>
  \<open>(a.sortOrder ?? Infinity) - (b.sortOrder ?? Infinity) <= 0\<close>; \<open>Infinity - Infinity\<close> is NaN, which a
  sort takes as equal.
\<close>

fun so_le :: "int option \<Rightarrow> int option \<Rightarrow> bool" where
  "so_le (Some a) (Some b) = (a \<le> b)"
| "so_le (Some a) None = True"
| "so_le None (Some b) = False"
| "so_le None None = True"

interpretation by_sort_order: preference "\<lambda>a b. so_le (sortOrder a) (sortOrder b)"
proof
  fix x y z :: "'b connection_scheme"
  show "so_le (sortOrder x) (sortOrder y) \<or> so_le (sortOrder y) (sortOrder x)"
    by (cases "sortOrder x"; cases "sortOrder y") auto
  show "so_le (sortOrder x) (sortOrder y) \<Longrightarrow> so_le (sortOrder y) (sortOrder z) \<Longrightarrow>
      so_le (sortOrder x) (sortOrder z)"
    by (cases "sortOrder x"; cases "sortOrder y"; cases "sortOrder z") auto
qed

definition folder_siblings :: "folder list \<Rightarrow> string option \<Rightarrow> string option \<Rightarrow> folder list" where
  "folder_siblings fs parent excl =
     sort_by (\<lambda>a b. so_le (folder_sortOrder a) (folder_sortOrder b))
       (filter (\<lambda>f. parentPath f = parent \<and> Some (folder_id f) \<noteq> excl) fs)"

definition conn_siblings :: "connection list \<Rightarrow> string option \<Rightarrow> string option \<Rightarrow> connection list" where
  "conn_siblings cs parent excl =
     sort_by (\<lambda>a b. so_le (sortOrder a) (sortOrder b))
       (filter (\<lambda>c. folder_or_root (conn_folder c) = (case parent of Some p \<Rightarrow> p | None \<Rightarrow> root_folder) \<and>
          Some (conn_id c) \<noteq> excl) cs)"

text \<open>\<open>reindex\<close>: the n-th id's first bearer gets sort order n.\<close>

fun reindex_folders :: "nat \<Rightarrow> string list \<Rightarrow> folder list \<Rightarrow> folder list" where
  "reindex_folders n [] fs = fs"
| "reindex_folders n (i # is) fs = reindex_folders (Suc n) is
     (case find_index (\<lambda>f. folder_id f = i) fs of
        Some k \<Rightarrow> fs[k := (fs ! k)\<lparr>folder_sortOrder := Some (int n)\<rparr>] | None \<Rightarrow> fs)"

fun reindex_conns :: "nat \<Rightarrow> string list \<Rightarrow> connection list \<Rightarrow> connection list" where
  "reindex_conns n [] cs = cs"
| "reindex_conns n (i # is) cs = reindex_conns (Suc n) is
     (case find_index (\<lambda>c. conn_id c = i) cs of
        Some k \<Rightarrow> cs[k := (cs ! k)\<lparr>sortOrder := Some (int n)\<rparr>] | None \<Rightarrow> cs)"

definition place :: "string \<Rightarrow> int \<Rightarrow> string list \<Rightarrow> string list" where
  "place itemId newIndex siblings =
     insert_at (nat (max 0 (min newIndex (int (length siblings))))) itemId siblings"

definition reorder_folder ::
  "folder list \<Rightarrow> nat \<Rightarrow> string \<Rightarrow> string option \<Rightarrow> int \<Rightarrow> folder list" where
  "reorder_folder fs k itemId target newIndex =
     (let current = parentPath (fs ! k);
          sameParent = (current = target);
          siblings = folder_siblings fs target (if sameParent then Some itemId else None);
          fs1 = reindex_folders 0 (place itemId newIndex (map folder_id siblings)) fs;
          fs2 = fs1[k := (fs1 ! k)\<lparr>parentPath := target, folder_path := child_path target (folder_name (fs1 ! k))\<rparr>]
      in if sameParent then fs2
         else reindex_folders 0 (map folder_id (folder_siblings fs2 current (Some itemId))) fs2)"

definition reorder_connection ::
  "connection list \<Rightarrow> nat \<Rightarrow> string \<Rightarrow> string option \<Rightarrow> int \<Rightarrow> connection list" where
  "reorder_connection cs k itemId target newIndex =
     (let current = Some (folder_or_root (conn_folder (cs ! k)));
          sameParent = (current = target);
          siblings = conn_siblings cs target (if sameParent then Some itemId else None);
          cs1 = reindex_conns 0 (place itemId newIndex (map conn_id siblings)) cs;
          cs2 = cs1[k := (cs1 ! k)\<lparr>conn_folder := Some (case target of Some p \<Rightarrow> p | None \<Rightarrow> root_folder)\<rparr>]
      in if sameParent then cs2
         else reindex_conns 0 (map conn_id (conn_siblings cs2 current (Some itemId))) cs2)"

datatype item_type = FolderItem | ConnectionItem

definition reorderItem :: "string \<Rightarrow> item_type \<Rightarrow> string option \<Rightarrow> int \<Rightarrow> store \<Rightarrow> bool \<times> store" where
  "reorderItem itemId itemType target newIndex s =
     (case read_both s of
        (fs, cs, s1) \<Rightarrow>
          if corrupted s1 then (False, s1)
          else
            (case itemType of
               FolderItem \<Rightarrow>
                 (case find_index (\<lambda>f. folder_id f = itemId) fs of
                    None \<Rightarrow> (False, s1)
                  | Some k \<Rightarrow> (True, persistConnections cs
                      (writeFolders (reorder_folder fs k itemId target newIndex) s1)))
             | ConnectionItem \<Rightarrow>
                 (case find_index (\<lambda>c. conn_id c = itemId) cs of
                    None \<Rightarrow> (False, s1)
                  | Some k \<Rightarrow> (True, persistConnections (reorder_connection cs k itemId target newIndex)
                      (writeFolders fs s1)))))"

section \<open>The tree\<close>

primrec collectValidPaths :: "nat \<Rightarrow> folder list \<Rightarrow> string option \<Rightarrow> string list option" where
  "collectValidPaths 0 fs parent = None"
| "collectValidPaths (Suc n) fs parent =
     map_option concat (those (map (\<lambda>c.
         map_option (\<lambda>sub. folder_path c # sub) (collectValidPaths n fs (Some (folder_path c))))
       (filter (\<lambda>f. parentPath f = parent) fs)))"

definition getValidFolders :: "nat \<Rightarrow> store \<Rightarrow> folder list option" where
  "getValidFolders fuel s =
     (let allFolders = fst (getFolders s) in
      map_option (\<lambda>valid. filter (\<lambda>f. folder_path f \<in> set valid) allFolders)
        (collectValidPaths fuel allFolders None))"

datatype tree_node =
    FolderNode string string string "tree_node list"
  | ConnectionNode connection bool

text \<open>
  A connection's node carries the record's display fields; the model keeps the record, and whether
  the connection is active.
\<close>

primrec buildFolderTree ::
  "nat \<Rightarrow> folder list \<Rightarrow> connection list \<Rightarrow> string list \<Rightarrow> string option \<Rightarrow> tree_node list option" where
  "buildFolderTree 0 fs cs active parent = None"
| "buildFolderTree (Suc n) fs cs active parent =
     those (map (\<lambda>f.
         map_option (\<lambda>sub. FolderNode (folder_id f) (folder_name f) (folder_path f)
             (sub @ map (\<lambda>c. ConnectionNode c (conn_id c \<in> set active))
               (sort_by (\<lambda>a b. so_le (sortOrder a) (sortOrder b))
                 (filter (\<lambda>c. conn_folder c = Some (folder_path f)) cs))))
           (buildFolderTree n fs cs active (Some (folder_path f))))
       (sort_by (\<lambda>a b. so_le (folder_sortOrder a) (folder_sortOrder b))
         (filter (\<lambda>f. parentPath f = parent) fs)))"

definition buildConnectionTree :: "nat \<Rightarrow> store \<Rightarrow> string list \<Rightarrow> tree_node list option" where
  "buildConnectionTree fuel s active =
     (case read_both s of (fs, cs, _) \<Rightarrow> buildFolderTree fuel fs cs active None)"

definition getFavorites :: "store \<Rightarrow> connection list" where
  "getFavorites s = filter (\<lambda>c. favorite c = Some True) (fst (getConnections s))"

text \<open>\<open>date_ms\<close> reads the milliseconds of a timestamp; an unreadable one is not modelled here.\<close>

definition getRecentConnections :: "(string \<Rightarrow> int) \<Rightarrow> store \<Rightarrow> nat \<Rightarrow> connection list" where
  "getRecentConnections date_ms s limit =
     (let ms = (\<lambda>c. case or_null (lastConnected c) of Some t \<Rightarrow> date_ms t | None \<Rightarrow> 0) in
      take limit (sort_by (\<lambda>a b. ms b - ms a \<le> 0)
        (filter (\<lambda>c. or_null (lastConnected c) \<noteq> None) (fst (getConnections s)))))"

section \<open>Import, export, reset\<close>

record conn_bundle =
  bundle_connections :: "connection list"
  bundle_folders :: "folder list option"

definition exportConnections :: "store \<Rightarrow> conn_bundle" where
  "exportConnections s = (case read_both s of (fs, cs, _) \<Rightarrow>
     \<lparr>bundle_connections = cs, bundle_folders = Some fs\<rparr>)"

text \<open>
  \<open>uuid n\<close> is the n-th id drawn. The text is \<open>None\<close> when it does not parse to an object with an array of
  connections; then, and when a store is corrupt, the import throws (\<open>None\<close>).
\<close>

fun import_folders :: "(nat \<Rightarrow> string) \<Rightarrow> string \<Rightarrow> nat \<Rightarrow> folder list \<Rightarrow> folder list \<Rightarrow> folder list \<times> nat" where
  "import_folders uuid now n fs [] = (fs, n)"
| "import_folders uuid now n fs (f # rest) =
     (if \<exists>g \<in> set fs. folder_path g = folder_path f then import_folders uuid now n fs rest
      else import_folders uuid now (Suc n) (fs @ [f\<lparr>folder_id := uuid n, folder_createdAt := now\<rparr>]) rest)"

fun import_conns :: "(nat \<Rightarrow> string) \<Rightarrow> string \<Rightarrow> nat \<Rightarrow> connection list \<Rightarrow> connection list" where
  "import_conns uuid now n [] = []"
| "import_conns uuid now n (c # cs) =
     c\<lparr>conn_id := uuid n, createdAt := now\<rparr> # import_conns uuid now (Suc n) cs"

definition importConnections ::
  "(nat \<Rightarrow> string) \<Rightarrow> string \<Rightarrow> conn_bundle option \<Rightarrow> bool \<Rightarrow> store \<Rightarrow> nat option \<times> store" where
  "importConnections uuid now json merge s =
     (case read_both s of
        (fs0, cs0, s1) \<Rightarrow>
          if corrupted s1 then (None, s1)
          else
            (case json of
               None \<Rightarrow> (None, s1)
             | Some b \<Rightarrow>
                 (case import_folders uuid now 0 (if merge then fs0 else [])
                         (case bundle_folders b of Some fs \<Rightarrow> fs | None \<Rightarrow> []) of
                    (fs, n) \<Rightarrow>
                      let cs = (if merge then cs0 else []) @ import_conns uuid now n (bundle_connections b)
                      in (Some (length (bundle_connections b)),
                          writeFolders fs (persistConnections cs s1)))))"

text \<open>\<open>initialize\<close> without legacy data.\<close>

definition initialize :: "(nat \<Rightarrow> string) \<Rightarrow> string \<Rightarrow> store \<Rightarrow> store" where
  "initialize uuid now s =
     (case getFolders s of
        (fs, s1) \<Rightarrow>
          if fs = [] then
            (let s2 = snd (createFolder (uuid 0) now root_folder None s1);
                 s3 = snd (createFolder (uuid 1) now ''Personal'' (Some root_folder) s2)
             in snd (createFolder (uuid 2) now ''Work'' (Some root_folder) s3))
          else s1)"

definition clearAll :: "(nat \<Rightarrow> string) \<Rightarrow> string \<Rightarrow> store \<Rightarrow> store" where
  "clearAll uuid now s =
     initialize uuid now
       (s\<lparr>conns := Absent, folders := Absent, conns_corrupt := False, folders_corrupt := False\<rparr>)"

section \<open>Renaming a folder\<close>

text \<open>
  \<open>handleRenameFolder\<close>: create the new folder and copies of the subfolders, move the connections,
  delete the old folder with everything in it.
\<close>

definition rename_subfolder :: "(nat \<Rightarrow> string) \<Rightarrow> string \<Rightarrow> string \<Rightarrow> string \<Rightarrow> nat \<times> store \<Rightarrow> folder \<Rightarrow> nat \<times> store" where
  "rename_subfolder uuid now oldPath newPath ns sub =
     (let relativePath = drop (length oldPath + 1) (folder_path sub);
          parts = js_split (CHR ''/'') relativePath;
          parent = (if length parts > 1 then newPath @ ''/'' @ js_join ''/'' (butlast parts) else newPath)
      in (Suc (fst ns), snd (createFolder (uuid (fst ns)) now (last parts) (Some parent) (snd ns))))"

definition rename_connection :: "string \<Rightarrow> string \<Rightarrow> store \<Rightarrow> connection \<Rightarrow> store" where
  "rename_connection oldPath newPath s c =
     snd (moveConnection (conn_id c)
       (if conn_folder c = Some oldPath then newPath
        else newPath @ ''/'' @ drop (length oldPath + 1) (the (conn_folder c))) s)"

definition renameFolder :: "(nat \<Rightarrow> string) \<Rightarrow> string \<Rightarrow> folder \<Rightarrow> string \<Rightarrow> store \<Rightarrow> store" where
  "renameFolder uuid now f newNameInput s =
     (if js_trim newNameInput = [] then s
      else
        let oldPath = folder_path f;
            newName = js_trim newNameInput;
            newPath = child_path (parentPath f) newName;
            allConnections = getConnectionsByFolderRecursive s oldPath;
            subfolders = getSubfoldersRecursive s oldPath;
            s1 = snd (snd (read_both s))
        in if corrupted s1 then s1
           else
             let s2 = snd (createFolder (uuid 0) now newName (parentPath f) s1);
                 s3 = snd (foldl (rename_subfolder uuid now oldPath newPath) (1, s2) subfolders);
                 s4 = foldl (rename_connection oldPath newPath) s3 allConnections
             in snd (deleteFolder oldPath True s4))"

end
