(* ===== verification/ConnectionProps.thy ===== *)
theory ConnectionProps
  imports ConnectionOps
begin

text \<open>
  Properties of the connection store over runs of its operations: no plaintext secret is written, an
  unreadable store is never overwritten; and what saving, updating and deleting do.
\<close>

section \<open>Operations\<close>

datatype store_op =
    SaveConnection string string connection
  | SaveConnectionWithId string string connection
  | UpdateConnection string "connection \<Rightarrow> connection"
  | DeleteConnection string
  | MoveConnection string string
  | ReorderItem string item_type "string option" int
  | MoveFolder string "string option"
  | CreateFolder string string string "string option"
  | DeleteFolder string bool
  | ImportConnections "nat \<Rightarrow> string" string "conn_bundle option" bool
  | Initialize "nat \<Rightarrow> string" string
  | RenameFolder "nat \<Rightarrow> string" string folder string
  | MarkSealFailed string
  | SealMigrated string "connection \<Rightarrow> connection"

text \<open>
  \<open>SealMigrated\<close> is the success branch of the startup migration of \<open>App.tsx\<close>: the protection is lifted
  and the record with its sealed secrets written back.
\<close>

fun apply_op :: "store \<Rightarrow> store_op \<Rightarrow> store" where
  "apply_op s (SaveConnection u t c) = snd (saveConnection u t c s)"
| "apply_op s (SaveConnectionWithId i t c) = snd (saveConnectionWithId i t c s)"
| "apply_op s (UpdateConnection i f) = snd (updateConnection i f s)"
| "apply_op s (DeleteConnection i) = snd (deleteConnection i s)"
| "apply_op s (MoveConnection i p) = snd (moveConnection i p s)"
| "apply_op s (ReorderItem i ty p n) = snd (reorderItem i ty p n s)"
| "apply_op s (MoveFolder p q) = snd (moveFolderRecursive p q s)"
| "apply_op s (CreateFolder u t n p) = snd (createFolder u t n p s)"
| "apply_op s (DeleteFolder p b) = snd (deleteFolder p b s)"
| "apply_op s (ImportConnections u t b m) = snd (importConnections u t b m s)"
| "apply_op s (Initialize u t) = initialize u t s"
| "apply_op s (RenameFolder u t f n) = renameFolder u t f n s"
| "apply_op s (MarkSealFailed i) = markSealFailed i s"
| "apply_op s (SealMigrated i f) = snd (updateConnection i f (clearSealFailed i s))"

section \<open>Secrets\<close>

definition secret_ok :: "string list \<Rightarrow> connection \<Rightarrow> bool" where
  "secret_ok failed c \<longleftrightarrow>
     (\<forall>field \<in> set SECRET_FIELDS. case obj_get (secrets c) field of
        Some v \<Rightarrow> v = [] \<or> isSealed v \<or> conn_id c \<in> set failed | None \<Rightarrow> True)"

definition secrets_ok :: "store \<Rightarrow> bool" where
  "secrets_ok s \<longleftrightarrow> (case conns s of Stored cs \<Rightarrow> \<forall>c \<in> set cs. secret_ok (sealFailedIds s) c | _ \<Rightarrow> True)"

definition strip_field :: "string list \<Rightarrow> string \<Rightarrow> string \<Rightarrow> string obj \<Rightarrow> string obj" where
  "strip_field failed i field ss =
     (case obj_get ss field of
        Some v \<Rightarrow> if v \<noteq> [] \<and> \<not> isSealed v \<and> i \<notin> set failed then obj_del field ss else ss
      | None \<Rightarrow> ss)"

lemma strip_secrets:
  "secrets (stripUnencryptedSecrets failed c) = fold (strip_field failed (conn_id c)) SECRET_FIELDS (secrets c)"
  unfolding stripUnencryptedSecrets_def strip_field_def [abs_def] by simp

lemma strip_field_get:
  "obj_get (strip_field failed i field ss) f =
     (case obj_get ss f of
        Some v \<Rightarrow> if f = field \<and> v \<noteq> [] \<and> \<not> isSealed v \<and> i \<notin> set failed then None else Some v
      | None \<Rightarrow> None)"
  by (cases "obj_get ss f"; cases "obj_get ss field") (auto simp: strip_field_def)

lemma strip_fold_get:
  "obj_get (fold (strip_field failed i) flds ss) f =
     (case obj_get ss f of
        Some v \<Rightarrow> if f \<in> set flds \<and> v \<noteq> [] \<and> \<not> isSealed v \<and> i \<notin> set failed then None else Some v
      | None \<Rightarrow> None)"
proof (induction flds arbitrary: ss)
  case Nil
  then show ?case by (simp split: option.split)
next
  case (Cons field flds)
  then show ?case by (cases "obj_get ss f") (simp_all add: strip_field_get)
qed

lemma strip_fields [simp]:
  "conn_id (stripUnencryptedSecrets failed c) = conn_id c"
  "conn_folder (stripUnencryptedSecrets failed c) = conn_folder c"
  "sortOrder (stripUnencryptedSecrets failed c) = sortOrder c"
  by (simp_all add: stripUnencryptedSecrets_def)

lemma strip_ok: "secret_ok failed (stripUnencryptedSecrets failed c)"
  by (simp add: secret_ok_def strip_secrets strip_fold_get split: option.split)

lemma persist_ok: "secrets_ok s \<Longrightarrow> secrets_ok (persistConnections cs s)"
  by (simp add: secrets_ok_def persistConnections_def strip_ok split: stored.split)

lemma secrets_ok_cong: "conns s = conns s' \<Longrightarrow> sealFailedIds s = sealFailedIds s' \<Longrightarrow> secrets_ok s = secrets_ok s'"
  by (simp only: secrets_ok_def)

lemma folders_keep_secrets: "secrets_ok (writeFolders fs s) = secrets_ok s"
  by (rule secrets_ok_cong) (simp_all add: writeFolders_def)

lemma reads_keep:
  "getConnections s = (cs, s1) \<Longrightarrow> conns s1 = conns s \<and> folders s1 = folders s \<and> sealFailedIds s1 = sealFailedIds s"
  "getFolders s = (fs, s2) \<Longrightarrow> conns s2 = conns s \<and> folders s2 = folders s \<and> sealFailedIds s2 = sealFailedIds s"
  by (auto simp: getConnections_def getFolders_def split: stored.splits)

lemma reads_keep_secrets:
  "getConnections s = (cs, s1) \<Longrightarrow> secrets_ok s1 = secrets_ok s"
  "getFolders s = (fs, s2) \<Longrightarrow> secrets_ok s2 = secrets_ok s"
  "read_both s = (fs, cs, s3) \<Longrightarrow> secrets_ok s3 = secrets_ok s"
  using reads_keep
  by (auto simp: read_both_def intro!: secrets_ok_cong split: prod.splits)

lemma createFolder_secrets: "secrets_ok s \<Longrightarrow> secrets_ok (snd (createFolder u t n p s))"
  by (auto simp: createFolder_def Let_def folders_keep_secrets reads_keep_secrets
      split: prod.split option.split)

lemma update_secrets: "secrets_ok s \<Longrightarrow> secrets_ok (snd (updateConnection i f s))"
  by (auto simp: updateConnection_def persist_ok reads_keep_secrets split: prod.split option.split)

lemma move_secrets: "secrets_ok s \<Longrightarrow> secrets_ok (snd (moveConnection i p s))"
  using update_secrets by (simp add: moveConnection_def split_beta)

lemma deleteFolder_secrets: "secrets_ok s \<Longrightarrow> secrets_ok (snd (deleteFolder p b s))"
  by (auto simp: deleteFolder_def Let_def persist_ok folders_keep_secrets reads_keep_secrets split: prod.split)

lemma rename_folds_secrets:
  "secrets_ok (snd ns) \<Longrightarrow> secrets_ok (snd (foldl (rename_subfolder u t a b) ns subs))"
  "secrets_ok s \<Longrightarrow> secrets_ok (foldl (rename_connection a b) s cs)"
  by (induction subs arbitrary: ns)
    (simp_all add: rename_subfolder_def Let_def createFolder_secrets,
     induction cs arbitrary: s, simp_all add: rename_connection_def move_secrets)

lemma rename_secrets: "secrets_ok s \<Longrightarrow> secrets_ok (renameFolder u t f n s)"
  by (cases "read_both s")
    (auto simp: renameFolder_def Let_def reads_keep_secrets
      intro!: deleteFolder_secrets rename_folds_secrets createFolder_secrets)

text \<open>When the sealed record has been written back, nothing of that id is left unsealed.\<close>

lemma seal_secrets:
  assumes "secrets_ok s" shows "secrets_ok (snd (updateConnection i f (clearSealFailed i s)))"
proof (cases "conns s")
  case (Stored cs)
  let ?s = "(clearSealFailed i s)\<lparr>conns_corrupt := False\<rparr>"
  have r: "getConnections (clearSealFailed i s) = (cs, ?s)"
    by (simp add: getConnections_def clearSealFailed_def Stored)
  show ?thesis
  proof (cases "find_index (\<lambda>c. conn_id c = i) cs")
    case None
    then have "\<forall>c \<in> set cs. conn_id c \<noteq> i" by simp
    then have "secret_ok (removeAll i failed) c = secret_ok failed c" if "c \<in> set cs" for c failed
      using that by (auto simp: secret_ok_def split: option.split)
    then have "secrets_ok ?s" using assms by (simp add: secrets_ok_def clearSealFailed_def Stored)
    moreover have "snd (updateConnection i f (clearSealFailed i s)) = ?s"
      by (simp only: updateConnection_def r None prod.case option.case snd_conv)
    ultimately show ?thesis by simp
  next
    case (Some k)
    then show ?thesis
      by (simp add: updateConnection_def r persistConnections_def secrets_ok_def strip_ok)
  qed
qed (auto simp: updateConnection_def getConnections_def clearSealFailed_def secrets_ok_def)

lemma import_secrets: "secrets_ok s \<Longrightarrow> secrets_ok (snd (importConnections u t b m s))"
  by (auto simp: importConnections_def Let_def persist_ok folders_keep_secrets reads_keep_secrets
      split: prod.split option.split)

lemma reorder_secrets: "secrets_ok s \<Longrightarrow> secrets_ok (snd (reorderItem i ty p n s))"
  by (auto simp: reorderItem_def persist_ok folders_keep_secrets reads_keep_secrets
      split: prod.split option.split item_type.split)

lemma moveFolder_secrets: "secrets_ok s \<Longrightarrow> secrets_ok (snd (moveFolderRecursive p q s))"
  by (auto simp: moveFolderRecursive_def Let_def persist_ok folders_keep_secrets reads_keep_secrets
      split: prod.split option.split)

lemma initialize_secrets: "secrets_ok s \<Longrightarrow> secrets_ok (initialize u t s)"
  by (auto simp: initialize_def Let_def reads_keep_secrets intro!: createFolder_secrets split: prod.split)

interpretation vault: action_machine apply_op secrets_ok "\<lambda>_ _. True"
proof
  fix s a
  assume s: "secrets_ok s"
  have "secrets_ok (snd (saveConnection u t c s))" "secrets_ok (snd (saveConnectionWithId u t c s))"
    "secrets_ok (snd (deleteConnection u s))" for u t c
    using s by (auto simp: saveConnection_def saveConnectionWithId_def deleteConnection_def Let_def
        persist_ok reads_keep_secrets split: prod.split)
  moreover have "secrets_ok (markSealFailed i s)" for i
    using s by (auto simp: secrets_ok_def markSealFailed_def secret_ok_def split: stored.splits option.splits)
  ultimately show "secrets_ok (apply_op s a)"
    using s by (cases a) (simp_all add: update_secrets move_secrets reorder_secrets moveFolder_secrets
        createFolder_secrets deleteFolder_secrets import_secrets initialize_secrets rename_secrets seal_secrets)
qed

section \<open>An unreadable store is left alone\<close>

lemma conns_guard [simp]:
  "conns (persistConnections cs s) = (if conns_corrupt s then conns s
     else Stored (map (stripUnencryptedSecrets (sealFailedIds s)) cs))"
  "conns_corrupt (persistConnections cs s) = conns_corrupt s"
  "folders (persistConnections cs s) = folders s"
  "folders_corrupt (persistConnections cs s) = folders_corrupt s"
  "conns (writeFolders fs s) = conns s" "conns_corrupt (writeFolders fs s) = conns_corrupt s"
  "folders (writeFolders fs s) = (if folders_corrupt s then folders s else Stored fs)"
  "folders_corrupt (writeFolders fs s) = folders_corrupt s"
  "sealFailedIds (persistConnections cs s) = sealFailedIds s"
  "sealFailedIds (writeFolders fs s) = sealFailedIds s"
  by (simp_all add: persistConnections_def writeFolders_def)

lemma read_conns:
  "getConnections s = (cs, s1) \<Longrightarrow> conns s1 = conns s \<and> folders s1 = folders s \<and>
     folders_corrupt s1 = folders_corrupt s \<and> sealFailedIds s1 = sealFailedIds s \<and>
     (conns_corrupt s1 \<longleftrightarrow> (\<exists>x. conns s = Unreadable x)) \<and>
     cs = (case conns s of Stored cs \<Rightarrow> cs | _ \<Rightarrow> [])"
  by (auto simp: getConnections_def split: stored.splits)

lemma read_folders:
  "getFolders s = (fs, s1) \<Longrightarrow> conns s1 = conns s \<and> folders s1 = folders s \<and>
     conns_corrupt s1 = conns_corrupt s \<and> sealFailedIds s1 = sealFailedIds s \<and>
     (folders_corrupt s1 \<longleftrightarrow> (\<exists>x. folders s = Unreadable x)) \<and>
     fs = (case folders s of Stored fs \<Rightarrow> fs | _ \<Rightarrow> [])"
  by (auto simp: getFolders_def split: stored.splits)

lemma read_both_state:
  "read_both s = (fs, cs, s1) \<Longrightarrow> conns s1 = conns s \<and> folders s1 = folders s \<and>
     sealFailedIds s1 = sealFailedIds s \<and>
     (conns_corrupt s1 \<longleftrightarrow> (\<exists>x. conns s = Unreadable x)) \<and>
     (folders_corrupt s1 \<longleftrightarrow> (\<exists>x. folders s = Unreadable x)) \<and>
     fs = (case folders s of Stored fs \<Rightarrow> fs | _ \<Rightarrow> []) \<and> cs = (case conns s of Stored cs \<Rightarrow> cs | _ \<Rightarrow> [])"
  by (cases "conns s"; cases "folders s") (auto simp: read_both_def getConnections_def getFolders_def)

text \<open>What every operation does to an unreadable connections store, and to an unreadable folders store.\<close>

definition keeps :: "(store \<Rightarrow> store) \<Rightarrow> bool" where
  "keeps g \<longleftrightarrow> (\<forall>s x. conns s = Unreadable x \<longrightarrow> conns (g s) = Unreadable x) \<and>
     (\<forall>s x. folders s = Unreadable x \<longrightarrow> folders (g s) = Unreadable x)"

lemma keeps_comp: "keeps f \<Longrightarrow> keeps g \<Longrightarrow> keeps (\<lambda>s. f (g s))"
  by (simp add: keeps_def)

lemma keeps_createFolder: "keeps (\<lambda>s. snd (createFolder u t n p s))"
  by (auto simp: keeps_def createFolder_def Let_def dest: read_folders split: prod.split option.split)

lemma keeps_update: "keeps (\<lambda>s. snd (updateConnection i f s))"
  by (auto simp: keeps_def updateConnection_def dest: read_conns split: prod.split option.split)

lemma keeps_moveConn: "keeps (\<lambda>s. snd (moveConnection i p s))"
  using keeps_update by (simp add: moveConnection_def split_beta)

lemma keeps_save: "keeps (\<lambda>s. snd (saveConnection u t c s))" "keeps (\<lambda>s. snd (saveConnectionWithId u t c s))"
  "keeps (\<lambda>s. snd (deleteConnection u s))"
  by (auto simp: keeps_def saveConnection_def saveConnectionWithId_def deleteConnection_def Let_def
      dest: read_conns split: prod.split)

lemma keeps_both:
  "keeps (\<lambda>s. snd (deleteFolder p b s))" "keeps (\<lambda>s. snd (moveFolderRecursive p q s))"
  "keeps (\<lambda>s. snd (reorderItem i ty q n s))" "keeps (\<lambda>s. snd (importConnections u t json m s))"
  by (auto simp: keeps_def deleteFolder_def moveFolderRecursive_def reorderItem_def importConnections_def
      corrupted_def Let_def dest: read_both_state split: prod.split option.split item_type.split)

lemma keeps_initialize: "keeps (initialize u t)"
  using keeps_createFolder unfolding keeps_def initialize_def Let_def
  by (auto dest: read_folders split: prod.split)

lemma keeps_rename: "keeps (renameFolder u t f n)"
proof -
  have subs: "conns (snd ns) = Unreadable x \<Longrightarrow> conns (snd (foldl (rename_subfolder u t a b) ns gs)) = Unreadable x"
    "folders (snd ns) = Unreadable x \<Longrightarrow> folders (snd (foldl (rename_subfolder u t a b) ns gs)) = Unreadable x"
    for a b ns gs x
    using keeps_createFolder by (induction gs arbitrary: ns) (auto simp: rename_subfolder_def Let_def keeps_def)
  have cons: "conns s = Unreadable x \<Longrightarrow> conns (foldl (rename_connection a b) s cs) = Unreadable x"
    "folders s = Unreadable x \<Longrightarrow> folders (foldl (rename_connection a b) s cs) = Unreadable x" for a b s cs x
    using keeps_moveConn by (induction cs arbitrary: s) (auto simp: rename_connection_def keeps_def)
  show ?thesis
    unfolding keeps_def
  proof (intro conjI allI impI)
    fix s x
    obtain fs cs s1 where r: "read_both s = (fs, cs, s1)" by (cases "read_both s")
    {
      assume "conns s = Unreadable x"
      then have "corrupted s1" "conns s1 = Unreadable x"
        using read_both_state [OF r] by (simp_all add: corrupted_def)
      then show "conns (renameFolder u t f n s) = Unreadable x"
        using \<open>conns s = Unreadable x\<close> by (simp add: renameFolder_def Let_def r)
    next
      assume "folders s = Unreadable x"
      then have "corrupted s1" "folders s1 = Unreadable x"
        using read_both_state [OF r] by (simp_all add: corrupted_def)
      then show "folders (renameFolder u t f n s) = Unreadable x"
        using \<open>folders s = Unreadable x\<close> by (simp add: renameFolder_def Let_def r)
    }
  qed
qed

lemma op_keeps: "keeps (\<lambda>s. apply_op s a)"
proof (cases a)
  case (SealMigrated i f)
  have "keeps (clearSealFailed i)" by (simp add: keeps_def clearSealFailed_def)
  from keeps_comp [OF keeps_update this] SealMigrated show ?thesis by simp
qed (simp_all add: keeps_save keeps_update keeps_moveConn keeps_both keeps_createFolder keeps_initialize
    keeps_rename, simp add: keeps_def markSealFailed_def)

interpretation unread_conns: action_machine apply_op "\<lambda>s. conns s = Unreadable x" "\<lambda>_ _. True" for x
  using op_keeps by unfold_locales (simp add: keeps_def)

interpretation unread_folders: action_machine apply_op "\<lambda>s. folders s = Unreadable x" "\<lambda>_ _. True" for x
  using op_keeps by unfold_locales (simp add: keeps_def)

lemma any_run: "ok_run apply_op (\<lambda>_ _. True) s ops"
  by (induction ops arbitrary: s) auto


definition demo_conn :: connection where
  "demo_conn = \<lparr>conn_id = ''i'', conn_name = ''n'', conn_host = ''h'', conn_port = 22, conn_username = ''u'',
     conn_protocol = ''SSH'', conn_folder = None, profileId = None, createdAt = ''t'', lastConnected = None,
     favorite = None, authMethod = None, sortOrder = None, secrets = [(''password'', ''hunter2'')], details = []\<rparr>"

definition empty_store :: store where
  "empty_store = \<lparr>conns = Absent, folders = Absent, conns_corrupt = False, folders_corrupt = False,
     sealFailedIds = []\<rparr>"




section \<open>What saving, updating and deleting do\<close>

lemma obj_del_absent: "obj_get ss f = None \<Longrightarrow> obj_del f ss = ss"
  unfolding obj_get_def obj_del_def by (simp add: map_of_eq_None_iff)

lemma strip_id: "secret_ok failed c \<Longrightarrow> stripUnencryptedSecrets failed c = c"
proof -
  assume ok: "secret_ok failed c"
  have "fold (strip_field failed (conn_id c)) flds (secrets c) = secrets c"
    if "set flds \<subseteq> set SECRET_FIELDS" for flds
    using that
  proof (induction flds)
    case (Cons f flds)
    then have "strip_field failed (conn_id c) f (secrets c) = secrets c"
      using ok by (auto simp: strip_field_def secret_ok_def split: option.split)
    with Cons show ?case by simp
  qed simp
  then have "fold (strip_field failed (conn_id c)) SECRET_FIELDS (secrets c) = secrets c" by blast
  then have "secrets (stripUnencryptedSecrets failed c) = secrets c" by (simp only: strip_secrets)
  then show ?thesis by (simp add: stripUnencryptedSecrets_def)
qed

definition readable :: "store \<Rightarrow> bool" where
  "readable s \<longleftrightarrow> (\<forall>x. conns s \<noteq> Unreadable x)"

definition listed :: "store \<Rightarrow> connection list" where
  "listed s = (case conns s of Stored cs \<Rightarrow> cs | _ \<Rightarrow> [])"

lemma getConnection_listed: "getConnection s i = find (\<lambda>c. conn_id c = i) (listed s)"
  by (simp add: getConnection_def getConnections_def listed_def split: stored.split)

lemma read_readable:
  "readable s \<Longrightarrow> getConnections s = (cs, s1) \<Longrightarrow> cs = listed s \<and> \<not> conns_corrupt s1 \<and>
     sealFailedIds s1 = sealFailedIds s"
  using read_conns [of s cs s1] by (auto simp: readable_def listed_def)

lemma strip_listed: "secrets_ok s \<Longrightarrow> map (stripUnencryptedSecrets (sealFailedIds s)) (listed s) = listed s"
  by (auto simp: secrets_ok_def listed_def strip_id intro!: map_idI split: stored.splits)

lemma listed_persist:
  "\<not> conns_corrupt s \<Longrightarrow> listed (persistConnections cs s) = map (stripUnencryptedSecrets (sealFailedIds s)) cs"
  by (simp add: listed_def)

lemma find_map_strip:
  "find (\<lambda>c. conn_id c = i) (map (stripUnencryptedSecrets failed) cs) =
     map_option (stripUnencryptedSecrets failed) (find (\<lambda>c. conn_id c = i) cs)"
  by (induction cs) auto

lemma find_list_update_id:
  assumes "find_index (\<lambda>c. conn_id c = i) cs = Some k" "conn_id new = i"
  shows "find (\<lambda>c. conn_id c = j) (cs[k := new]) = (if j = i then Some new else find (\<lambda>c. conn_id c = j) cs)"
proof (cases "j = i")
  case True
  then show ?thesis using find_list_update [OF assms(1), of new] assms(2) by simp
next
  case False
  then show ?thesis
    using find_index_Some [OF assms(1)] assms(2) by (simp add: find_list_update_other)
qed

lemma find_filter_id:
  "find (\<lambda>c. conn_id c = j) (filter (\<lambda>c. conn_id c \<noteq> i) cs) = (if j = i then None else find (\<lambda>c. conn_id c = j) cs)"
  by (induction cs) auto

text \<open>The record as it is written: under its id, in a folder, without unsealed secrets.\<close>

definition filed :: "store \<Rightarrow> string \<Rightarrow> string \<Rightarrow> string option \<Rightarrow> connection \<Rightarrow> connection" where
  "filed s i now lst c = stripUnencryptedSecrets (sealFailedIds s)
     (c\<lparr>conn_id := i, createdAt := now, lastConnected := lst,
        conn_folder := Some (folder_or_root (conn_folder c))\<rparr>)"

text \<open>
  The store is a map from ids to records: in a readable store whose secrets are in order, saving under
  an id, updating and deleting change the record of that id as asked, with any unsealed secret left out,
  and no other record; saving a new connection files it under its new id.
\<close>

theorem store_is_a_map:
  assumes r: "readable s" and ok: "secrets_ok s"
    and f: "\<And>c. conn_id (f c) = conn_id c" and fresh: "getConnection s u = None"
  shows "getConnection (snd (saveConnectionWithId i t c s)) = (getConnection s)(i \<mapsto> filed s i t (Some t) c) \<and>
    getConnection (snd (saveConnection u t c s)) = (getConnection s)(u \<mapsto> filed s u t (lastConnected c) c) \<and>
    getConnection (snd (updateConnection i f s)) = (getConnection s)(i :=
      map_option (\<lambda>c. stripUnencryptedSecrets (sealFailedIds s) (f c)) (getConnection s i)) \<and>
    getConnection (snd (deleteConnection i s)) = (getConnection s)(i := None)"
proof -
  obtain cs s1 where g: "getConnections s = (cs, s1)" by (cases "getConnections s")
  note rd = read_readable [OF r g]
  let ?strip = "stripUnencryptedSecrets (sealFailedIds s)"
  have l1: "listed s1 = listed s" using read_conns [OF g] by (simp add: listed_def)
  have find_strip: "map_option ?strip (find (\<lambda>c. conn_id c = j) (listed s)) = find (\<lambda>c. conn_id c = j) (listed s)" for j
    using find_map_strip [of j "sealFailedIds s" "listed s"] strip_listed [OF ok] by simp
  have put: "find (\<lambda>c. conn_id c = j) (map ?strip (xs[k := new])) =
      (if j = i then Some (?strip new) else map_option ?strip (find (\<lambda>c. conn_id c = j) xs))"
    if "find_index (\<lambda>c. conn_id c = i) xs = Some k" "conn_id new = i" for xs k new j i
    using find_list_update_id [OF that] by (simp add: find_map_strip)
  have add: "find (\<lambda>c. conn_id c = j) (map ?strip (xs @ [new])) =
      (if j = i then Some (?strip new) else map_option ?strip (find (\<lambda>c. conn_id c = j) xs))"
    if "find_index (\<lambda>c. conn_id c = i) xs = None" "conn_id new = i" for xs new j i
  proof -
    have "find (\<lambda>c. conn_id c = i) xs = None" using that(1) by (simp add: find_None_iff)
    then show ?thesis using that(2) by (simp add: find_map_strip find_append split: option.split)
  qed
  have "getConnection (snd (saveConnectionWithId i t c s)) j =
      ((getConnection s)(i \<mapsto> filed s i t (Some t) c)) j" for j
    using rd find_strip by (cases "find_index (\<lambda>c. conn_id c = i) (listed s)")
      (simp_all add: saveConnectionWithId_def g Let_def getConnection_listed listed_persist put add filed_def
        del: find_index_None list.map map_append map_update)
  moreover have "getConnection (snd (saveConnection u t c s)) j =
      ((getConnection s)(u \<mapsto> filed s u t (lastConnected c) c)) j" for j
  proof -
    have "find_index (\<lambda>c. conn_id c = u) (listed s) = None"
      using fresh by (simp add: getConnection_listed find_None_iff)
    from add [OF this] rd find_strip show ?thesis
      by (simp add: saveConnection_def g Let_def getConnection_listed listed_persist filed_def
          del: find_index_None list.map map_append)
  qed
  moreover have "getConnection (snd (updateConnection i f s)) j = ((getConnection s)(i :=
      map_option (\<lambda>c. ?strip (f c)) (getConnection s i))) j" for j
  proof (cases "find_index (\<lambda>c. conn_id c = i) (listed s)")
    case None
    then have "find (\<lambda>c. conn_id c = i) (listed s) = None" by (simp add: find_None_iff)
    with None rd l1 show ?thesis
      by (simp add: updateConnection_def g getConnection_listed del: find_index_None)
  next
    case (Some k)
    have "conn_id (f (listed s ! k)) = i" using find_index_Some [OF Some] f by simp
    from put [OF Some this] find_index_find [OF Some] Some rd find_strip show ?thesis
      by (simp add: updateConnection_def g getConnection_listed listed_persist del: map_update)
  qed
  moreover have "getConnection (snd (deleteConnection i s)) j = ((getConnection s)(i := None)) j" for j
  proof (cases "length (filter (\<lambda>c. conn_id c \<noteq> i) (listed s)) = length (listed s)")
    case True
    then have "filter (\<lambda>c. conn_id c \<noteq> i) (listed s) = listed s"
      by (metis length_filter_less linorder_neq_iff filter_id_conv)
    then have "find (\<lambda>c. conn_id c = j) (listed s) = (if j = i then None else find (\<lambda>c. conn_id c = j) (listed s))"
      using find_filter_id [of j i "listed s"] by simp
    with True rd l1 show ?thesis
      by (cases "j = i") (simp_all add: deleteConnection_def g Let_def getConnection_listed)
  next
    case False
    with rd find_strip show ?thesis
      by (simp add: deleteConnection_def g Let_def getConnection_listed listed_persist find_map_strip find_filter_id)
  qed
  ultimately show ?thesis by blast
qed

lemma store_is_a_map_witness:
  "getConnection (snd (saveConnectionWithId ''i'' ''t'' demo_conn empty_store)) =
     (getConnection empty_store)(''i'' \<mapsto> filed empty_store ''i'' ''t'' (Some ''t'') demo_conn)"
  using store_is_a_map [of empty_store "\<lambda>c. c" "''u''" "''i''" "''t''" demo_conn]
  by (simp add: readable_def secrets_ok_def empty_store_def getConnection_def getConnections_def)

end
