(* ===== verification/SecretMigration.thy ===== *)
theory SecretMigration
  imports ConnectionProps
begin

text \<open>
  Encrypting the stored secrets at the start: \<open>isLegacyPlaintext\<close>, \<open>sealLegacySecrets\<close> and
  \<open>openConnectionSecrets\<close> of \<open>src/src/lib/credential-crypto.ts\<close>, and the migration loop of
  \<open>src/src/App.tsx\<close>. The commands of the backend are parameters: \<open>seal n v\<close> is the answer to the n-th call of
  \<open>credential_seal\<close>, \<open>unseal w\<close> that of \<open>credential_open\<close>, \<open>None\<close> a rejection.
\<close>

section \<open>Sealing and opening\<close>

definition isLegacyPlaintext :: "string \<Rightarrow> bool" where
  "isLegacyPlaintext v \<longleftrightarrow> v \<noteq> [] \<and> \<not> isSealed v"

text \<open>The result: the secrets and whether any was sealed, or \<open>None\<close> if a call failed; and the calls made.\<close>

fun seal_fields ::
  "(nat \<Rightarrow> string \<Rightarrow> string option) \<Rightarrow> nat \<Rightarrow> string list \<Rightarrow> string obj \<Rightarrow> bool \<Rightarrow> (string obj \<times> bool) option \<times> nat" where
  "seal_fields seal n [] ss migrated = (Some (ss, migrated), n)"
| "seal_fields seal n (f # fs) ss migrated =
     (case obj_get ss f of
        None \<Rightarrow> seal_fields seal n fs ss migrated
      | Some v \<Rightarrow>
          if isLegacyPlaintext v then
            (case seal n v of
               None \<Rightarrow> (None, Suc n)
             | Some w \<Rightarrow> seal_fields seal (Suc n) fs (obj_set f w ss) True)
          else seal_fields seal n fs ss migrated)"

definition sealLegacySecrets ::
  "(nat \<Rightarrow> string \<Rightarrow> string option) \<Rightarrow> nat \<Rightarrow> connection \<Rightarrow> (string obj \<times> bool) option \<times> nat" where
  "sealLegacySecrets seal n c = seal_fields seal n SECRET_FIELDS (secrets c) False"

definition open_field :: "(string \<Rightarrow> string option) \<Rightarrow> string \<Rightarrow> string obj \<Rightarrow> string obj" where
  "open_field unseal f ss =
     (case obj_get ss f of
        None \<Rightarrow> ss
      | Some v \<Rightarrow> if isSealed v then (case unseal v of Some p \<Rightarrow> obj_set f p ss | None \<Rightarrow> ss) else ss)"

definition openConnectionSecrets :: "(string \<Rightarrow> string option) \<Rightarrow> connection \<Rightarrow> connection" where
  "openConnectionSecrets unseal c = c\<lparr>secrets := fold (open_field unseal) SECRET_FIELDS (secrets c)\<rparr>"

section \<open>The migration at the start\<close>

text \<open>\<open>{...connections[index], ...updates}\<close> for a whole record of updates.\<close>

definition overlay :: "connection \<Rightarrow> connection \<Rightarrow> connection" where
  "overlay new old = new\<lparr>
     conn_folder := (case conn_folder new of None \<Rightarrow> conn_folder old | v \<Rightarrow> v),
     profileId := (case profileId new of None \<Rightarrow> profileId old | v \<Rightarrow> v),
     lastConnected := (case lastConnected new of None \<Rightarrow> lastConnected old | v \<Rightarrow> v),
     favorite := (case favorite new of None \<Rightarrow> favorite old | v \<Rightarrow> v),
     authMethod := (case authMethod new of None \<Rightarrow> authMethod old | v \<Rightarrow> v),
     sortOrder := (case sortOrder new of None \<Rightarrow> sortOrder old | v \<Rightarrow> v),
     secrets := fold (\<lambda>(k, v). obj_set k v) (secrets new) (secrets old)\<rparr>"

definition has_plaintext :: "connection \<Rightarrow> bool" where
  "has_plaintext c \<longleftrightarrow>
     list_ex (\<lambda>f. case obj_get (secrets c) f of Some v \<Rightarrow> isLegacyPlaintext v | None \<Rightarrow> False) SECRET_FIELDS"

definition migrate_one ::
  "(nat \<Rightarrow> string \<Rightarrow> string option) \<Rightarrow> nat \<times> store \<Rightarrow> connection \<Rightarrow> nat \<times> store" where
  "migrate_one seal ns c =
     (case sealLegacySecrets seal (fst ns) c of
        (None, n) \<Rightarrow> (n, markSealFailed (conn_id c) (snd ns))
      | (Some (ss, migrated), n) \<Rightarrow>
          (n, if migrated
              then snd (updateConnection (conn_id c) (overlay (c\<lparr>secrets := ss\<rparr>)) (clearSealFailed (conn_id c) (snd ns)))
              else snd ns))"

definition migrateSecrets :: "(nat \<Rightarrow> string \<Rightarrow> string option) \<Rightarrow> store \<Rightarrow> store" where
  "migrateSecrets seal s =
     (case getConnections s of
        (cs, s1) \<Rightarrow> snd (foldl (migrate_one seal) (0, s1) (filter has_plaintext cs)))"

section \<open>Updating any store\<close>

lemma readable_step [simp]: "readable (clearSealFailed i s) = readable s" "readable (markSealFailed i s) = readable s"
  "getConnection (clearSealFailed i s) = getConnection s" "getConnection (markSealFailed i s) = getConnection s"
  by (auto simp: readable_def clearSealFailed_def markSealFailed_def getConnection_listed listed_def)

lemma getConnection_update:
  assumes r: "readable s" and c: "getConnection s i = Some c" and f: "conn_id (f c) = i"
  shows "readable (snd (updateConnection i f s))"
    and "sealFailedIds (snd (updateConnection i f s)) = sealFailedIds s"
    and "getConnection (snd (updateConnection i f s)) j =
      map_option (stripUnencryptedSecrets (sealFailedIds s)) (if j = i then Some (f c) else getConnection s j)"
proof -
  obtain cs s1 where g: "getConnections s = (cs, s1)" by (cases "getConnections s")
  note rd = read_readable [OF r g]
  have find: "find (\<lambda>c. conn_id c = i) cs = Some c" using c rd by (simp add: getConnection_listed)
  then obtain k where k: "find_index (\<lambda>c. conn_id c = i) cs = Some k"
    using find_index_exists [of cs "\<lambda>c. conn_id c = i"] find_Some_mem [OF find] by blast
  have n: "cs ! k = c" using find_index_find [OF k] find by simp
  have u: "snd (updateConnection i f s) = persistConnections (cs[k := f c]) s1"
    by (simp add: updateConnection_def g k n)
  show "readable (snd (updateConnection i f s))" using rd by (simp add: u readable_def)
  show "sealFailedIds (snd (updateConnection i f s)) = sealFailedIds s" using rd by (simp add: u)
  show "getConnection (snd (updateConnection i f s)) j =
      map_option (stripUnencryptedSecrets (sealFailedIds s)) (if j = i then Some (f c) else getConnection s j)"
  proof -
    have e: "listed s = cs" "\<not> conns_corrupt s1" "sealFailedIds s1 = sealFailedIds s" using rd by simp_all
    show ?thesis
      by (simp add: u getConnection_listed e listed_persist find_map_strip find_list_update_id [OF k f])
  qed
qed

section \<open>When every call succeeds\<close>

text \<open>A field before and after: each legacy secret becomes a sealed text that opens to it.\<close>

definition field_sealed :: "(string \<Rightarrow> string option) \<Rightarrow> bool \<Rightarrow> string option \<Rightarrow> string option \<Rightarrow> bool" where
  "field_sealed unseal secret v v' \<longleftrightarrow> (case v of
     None \<Rightarrow> v' = None
   | Some p \<Rightarrow> if secret \<and> isLegacyPlaintext p then \<exists>w. v' = Some w \<and> isSealed w \<and> unseal w = Some p
              else v' = Some p)"

definition sealed_as :: "(string \<Rightarrow> string option) \<Rightarrow> string obj \<Rightarrow> string obj \<Rightarrow> bool" where
  "sealed_as unseal ss ss' \<longleftrightarrow> (\<forall>f. field_sealed unseal (f \<in> set SECRET_FIELDS) (obj_get ss f) (obj_get ss' f))"

text \<open>The same, or a legacy secret is missing.\<close>

definition thinned :: "string obj \<Rightarrow> string obj \<Rightarrow> bool" where
  "thinned ss ss' \<longleftrightarrow> (\<forall>f. obj_get ss' f = obj_get ss f \<or>
     obj_get ss' f = None \<and> f \<in> set SECRET_FIELDS \<and> (\<exists>v. obj_get ss f = Some v \<and> isLegacyPlaintext v))"

lemma seal_fields_ok:
  assumes ok: "\<And>n v. \<exists>w. seal n v = Some w \<and> isSealed w \<and> unseal w = Some v"
  shows "\<exists>ss' m' n'. seal_fields seal n fs ss m = (Some (ss', m'), n') \<and>
    (\<forall>f. field_sealed unseal (f \<in> set fs) (obj_get ss f) (obj_get ss' f)) \<and> (obj_ok ss \<longrightarrow> obj_ok ss') \<and>
    (m' \<longleftrightarrow> m \<or> (\<exists>f \<in> set fs. \<exists>v. obj_get ss f = Some v \<and> isLegacyPlaintext v))"
proof (induction fs arbitrary: n ss m)
  case Nil
  then show ?case by (auto simp: field_sealed_def split: option.split)
next
  case (Cons g fs)
  show ?case
  proof (cases "\<exists>v. obj_get ss g = Some v \<and> isLegacyPlaintext v")
    case False
    then have e: "seal_fields seal n (g # fs) ss m = seal_fields seal n fs ss m"
      by (auto split: option.split)
    obtain ss' m' n' where i: "seal_fields seal n fs ss m = (Some (ss', m'), n')"
      "\<And>f. field_sealed unseal (f \<in> set fs) (obj_get ss f) (obj_get ss' f)" "obj_ok ss \<longrightarrow> obj_ok ss'"
      "m' \<longleftrightarrow> m \<or> (\<exists>f \<in> set fs. \<exists>v. obj_get ss f = Some v \<and> isLegacyPlaintext v)"
      using Cons.IH [of n ss m] by blast
    have "field_sealed unseal (f \<in> set (g # fs)) (obj_get ss f) (obj_get ss' f)" for f
      using i(2) [of f] False by (cases "obj_get ss f"; cases "f = g") (auto simp: field_sealed_def)
    moreover have "m' \<longleftrightarrow> m \<or> (\<exists>f \<in> set (g # fs). \<exists>v. obj_get ss f = Some v \<and> isLegacyPlaintext v)"
      using i(4) False by auto
    ultimately show ?thesis unfolding e using i(1,3) by blast
  next
    case True
    then obtain v where v: "obj_get ss g = Some v" "isLegacyPlaintext v" by blast
    obtain w where w: "seal n v = Some w" "isSealed w" "unseal w = Some v" using ok by blast
    then have nl: "\<not> isLegacyPlaintext w" by (simp add: isLegacyPlaintext_def)
    have e: "seal_fields seal n (g # fs) ss m = seal_fields seal (Suc n) fs (obj_set g w ss) True"
      using v w by simp
    obtain ss' m' n' where i: "seal_fields seal (Suc n) fs (obj_set g w ss) True = (Some (ss', m'), n')"
      "\<And>f. field_sealed unseal (f \<in> set fs) (obj_get (obj_set g w ss) f) (obj_get ss' f)"
      "obj_ok (obj_set g w ss) \<longrightarrow> obj_ok ss'" "m'"
      using Cons.IH [of "Suc n" "obj_set g w ss" True] by blast
    have "field_sealed unseal (f \<in> set (g # fs)) (obj_get ss f) (obj_get ss' f)" for f
      using i(2) [of f] v w nl by (cases "obj_get ss f"; cases "f = g") (auto simp: field_sealed_def split: if_splits)
    moreover have "m' \<longleftrightarrow> m \<or> (\<exists>f \<in> set (g # fs). \<exists>v. obj_get ss f = Some v \<and> isLegacyPlaintext v)"
      using i(4) v by auto
    ultimately show ?thesis unfolding e using i(1,3) by blast
  qed
qed

definition same_but_secrets :: "connection \<Rightarrow> connection \<Rightarrow> bool" where
  "same_but_secrets c d \<longleftrightarrow> d\<lparr>secrets := secrets c\<rparr> = c"

lemma fold_put_get:
  "obj_ok xs \<Longrightarrow> obj_get (fold (\<lambda>(k, v). obj_set k v) xs o1) f =
    (case obj_get xs f of Some v \<Rightarrow> Some v | None \<Rightarrow> obj_get o1 f)"
proof (induction xs arbitrary: o1)
  case (Cons x xs)
  obtain k v where x: "x = (k, v)" by force
  have ok: "obj_ok xs" "k \<notin> fst ` set xs" using Cons.prems by (auto simp: obj_ok_def x)
  then have "obj_get xs k = None" by (simp add: obj_get_def map_of_eq_None_iff)
  moreover have "obj_get (x # xs) f = (if f = k then Some v else obj_get xs f)" by (simp add: obj_get_def x)
  ultimately show ?case using Cons.IH [OF ok(1)] by (auto simp: x split: option.split)
qed simp

lemma overlay_same: "same_but_secrets c d \<Longrightarrow> same_but_secrets c (overlay (c\<lparr>secrets := ss\<rparr>) d)"
  by (cases c; cases d) (auto simp: same_but_secrets_def overlay_def split: option.split)

lemma strip_get:
  "obj_get (secrets (stripUnencryptedSecrets [] c)) f =
    (case obj_get (secrets c) f of
       Some v \<Rightarrow> if f \<in> set SECRET_FIELDS \<and> isLegacyPlaintext v then None else Some v | None \<Rightarrow> None)"
  by (cases "obj_get (secrets c) f") (simp_all add: strip_secrets strip_fold_get isLegacyPlaintext_def)

lemma strip_same: "same_but_secrets c (stripUnencryptedSecrets failed d) = same_but_secrets c d"
  by (simp add: same_but_secrets_def stripUnencryptedSecrets_def)

lemma strip_sealed: "sealed_as unseal ss (secrets d) \<Longrightarrow> sealed_as unseal ss (secrets (stripUnencryptedSecrets [] d))"
  unfolding sealed_as_def strip_get
proof (intro allI)
  fix f
  assume "\<forall>f. field_sealed unseal (f \<in> set SECRET_FIELDS) (obj_get ss f) (obj_get (secrets d) f)"
  then have "field_sealed unseal (f \<in> set SECRET_FIELDS) (obj_get ss f) (obj_get (secrets d) f)" ..
  then show "field_sealed unseal (f \<in> set SECRET_FIELDS) (obj_get ss f)
      (case obj_get (secrets d) f of
         Some v \<Rightarrow> if f \<in> set SECRET_FIELDS \<and> isLegacyPlaintext v then None else Some v | None \<Rightarrow> None)"
    by (cases "obj_get ss f"; cases "obj_get (secrets d) f")
      (auto simp: field_sealed_def isLegacyPlaintext_def split: if_splits)
qed

lemma strip_thinned:
  assumes "thinned ss (secrets d)" shows "thinned ss (secrets (stripUnencryptedSecrets [] d))"
  unfolding thinned_def strip_get
proof
  fix f
  have "obj_get (secrets d) f = obj_get ss f \<or>
     obj_get (secrets d) f = None \<and> f \<in> set SECRET_FIELDS \<and> (\<exists>v. obj_get ss f = Some v \<and> isLegacyPlaintext v)"
    using assms by (simp add: thinned_def)
  then show "(case obj_get (secrets d) f of
         Some v \<Rightarrow> if f \<in> set SECRET_FIELDS \<and> isLegacyPlaintext v then None else Some v | None \<Rightarrow> None) = obj_get ss f \<or>
      (case obj_get (secrets d) f of
         Some v \<Rightarrow> if f \<in> set SECRET_FIELDS \<and> isLegacyPlaintext v then None else Some v | None \<Rightarrow> None) = None \<and>
      f \<in> set SECRET_FIELDS \<and> (\<exists>v. obj_get ss f = Some v \<and> isLegacyPlaintext v)"
    by (cases "obj_get (secrets d) f"; cases "obj_get ss f") auto
qed

lemma overlay_sealed:
  assumes ok: "obj_ok ss'" and th: "\<And>f. obj_get (secrets c) f = None \<Longrightarrow> obj_get (secrets d) f = None"
    and fs: "sealed_as unseal (secrets c) ss'"
  shows "sealed_as unseal (secrets c) (secrets (overlay (c\<lparr>secrets := ss'\<rparr>) d))"
proof -
  have "obj_get (secrets (overlay (c\<lparr>secrets := ss'\<rparr>) d)) f = obj_get ss' f" for f
  proof (cases "obj_get ss' f")
    case None
    then have "obj_get (secrets c) f = None"
      using fs [unfolded sealed_as_def, rule_format, of f]
      by (auto simp: field_sealed_def split: option.splits if_splits)
    then have "obj_get (secrets d) f = None" by (rule th)
    with None show ?thesis by (simp add: overlay_def fold_put_get [OF ok])
  qed (simp add: overlay_def fold_put_get [OF ok])
  then show ?thesis using fs by (simp add: sealed_as_def)
qed

definition migrating :: "(string \<Rightarrow> string option) \<Rightarrow> connection list \<Rightarrow> connection set \<Rightarrow> store \<Rightarrow> bool" where
  "migrating unseal cs D s \<longleftrightarrow> readable s \<and> sealFailedIds s = [] \<and>
     (\<forall>c \<in> set cs. \<exists>d. getConnection s (conn_id c) = Some d \<and> same_but_secrets c d \<and>
        (if c \<in> D then sealed_as unseal (secrets c) (secrets d) else thinned (secrets c) (secrets d)))"

lemma clear_none: "sealFailedIds s = [] \<Longrightarrow> sealFailedIds (clearSealFailed i s) = []"
  by (simp add: clearSealFailed_def)

lemma migrate_one_ok:
  assumes ok: "\<And>n v. \<exists>w. seal n v = Some w \<and> isSealed w \<and> unseal w = Some v"
    and s: "migrating unseal cs D (snd ns)" and c: "c \<in> set cs" "has_plaintext c" "obj_ok (secrets c)"
    and dist: "distinct (map conn_id cs)"
  shows "migrating unseal cs (insert c D) (snd (migrate_one seal ns c))"
proof -
  obtain ss' m' n' where r: "seal_fields seal (fst ns) SECRET_FIELDS (secrets c) False = (Some (ss', m'), n')"
    "sealed_as unseal (secrets c) ss'" "obj_ok (secrets c) \<longrightarrow> obj_ok ss'"
    "m' \<longleftrightarrow> (\<exists>f \<in> set SECRET_FIELDS. \<exists>v. obj_get (secrets c) f = Some v \<and> isLegacyPlaintext v)"
    using seal_fields_ok [of seal unseal "fst ns" SECRET_FIELDS "secrets c" False] ok
    unfolding sealed_as_def by blast
  have "m'" using c(2) r(4) by (auto simp: has_plaintext_def list_ex_iff split: option.splits)
  let ?f = "overlay (c\<lparr>secrets := ss'\<rparr>)" and ?s = "clearSealFailed (conn_id c) (snd ns)"
  have e: "snd (migrate_one seal ns c) = snd (updateConnection (conn_id c) ?f ?s)"
    using r(1) \<open>m'\<close> by (simp add: migrate_one_def sealLegacySecrets_def)
  obtain d where d: "getConnection (snd ns) (conn_id c) = Some d" "same_but_secrets c d"
    using s c(1) unfolding migrating_def by blast
  have "c = x" if "x \<in> set cs" "conn_id x = conn_id c" for x
    using dist c(1) that by (metis distinct_map inj_onD)
  note uniq = this
  have rd: "readable ?s" "sealFailedIds ?s = []" "getConnection ?s (conn_id c) = Some d" "conn_id (?f d) = conn_id c"
    using s d(1) by (simp_all add: migrating_def clear_none overlay_def)
  note u = getConnection_update [of ?s "conn_id c" d ?f, OF rd(1,3,4)]
  have "\<exists>y. getConnection (snd (updateConnection (conn_id c) ?f ?s)) (conn_id x) = Some y \<and> same_but_secrets x y \<and>
      (if x \<in> insert c D then sealed_as unseal (secrets x) (secrets y) else thinned (secrets x) (secrets y))"
    if x: "x \<in> set cs" for x
  proof (cases "conn_id x = conn_id c")
    case True
    then have [simp]: "x = c" using uniq x by blast
    have th: "thinned (secrets c) (secrets d) \<or> sealed_as unseal (secrets c) (secrets d)"
      using s c(1) d(1) unfolding migrating_def by (metis option.inject)
    have nn: "obj_get (secrets d) f = None" if "obj_get (secrets c) f = None" for f
    proof (cases "thinned (secrets c) (secrets d)")
      case True
      then have "obj_get (secrets d) f = obj_get (secrets c) f \<or> obj_get (secrets d) f = None"
        unfolding thinned_def by (elim allE [of _ f]) (elim disjE conjE, rule disjI1, assumption, rule disjI2, assumption)
      with that show ?thesis by auto
    next
      case False
      with th have "field_sealed unseal (f \<in> set SECRET_FIELDS) (obj_get (secrets c) f) (obj_get (secrets d) f)"
        unfolding sealed_as_def by blast
      with that show ?thesis by (simp add: field_sealed_def)
    qed
    have sl: "sealed_as unseal (secrets c) (secrets (?f d))"
      by (rule overlay_sealed [OF _ nn r(2)]) (use r(3) c(3) in blast)
    show ?thesis using rd(2) u(3) [of "conn_id c"] overlay_same [OF d(2), of ss'] strip_sealed [OF sl]
      by (simp add: strip_same)
  next
    case False
    obtain y where y: "getConnection (snd ns) (conn_id x) = Some y" "same_but_secrets x y"
      "if x \<in> D then sealed_as unseal (secrets x) (secrets y) else thinned (secrets x) (secrets y)"
      using s x unfolding migrating_def by blast
    with False show ?thesis
      using rd(2) u(3) [of "conn_id x"] strip_sealed [of unseal "secrets x" y] strip_thinned [of "secrets x" y]
      by (auto simp: strip_same)
  qed
  then show ?thesis unfolding e migrating_def using u(1,2) rd(2) by simp
qed

lemma migrate_all_ok:
  assumes ok: "\<And>n v. \<exists>w. seal n v = Some w \<and> isSealed w \<and> unseal w = Some v"
    and dist: "distinct (map conn_id cs)"
  shows "migrating unseal cs D (snd ns) \<Longrightarrow> set rs \<subseteq> {c \<in> set cs. has_plaintext c \<and> obj_ok (secrets c)} \<Longrightarrow>
    migrating unseal cs (D \<union> set rs) (snd (foldl (migrate_one seal) ns rs))"
proof (induction rs arbitrary: ns D)
  case (Cons c rs)
  have "migrating unseal cs (insert c D) (snd (migrate_one seal ns c))"
    by (rule migrate_one_ok [OF ok Cons.prems(1) _ _ _ dist]) (use Cons.prems(2) in auto)
  from Cons.IH [OF this] Cons.prems(2) show ?case by simp
qed simp

lemma thinned_plain: "\<not> has_plaintext c \<Longrightarrow> thinned (secrets c) ss \<Longrightarrow> sealed_as unseal (secrets c) ss"
  unfolding thinned_def sealed_as_def
proof
  fix f
  assume n: "\<not> has_plaintext c" and "\<forall>f. obj_get ss f = obj_get (secrets c) f \<or> obj_get ss f = None \<and>
    f \<in> set SECRET_FIELDS \<and> (\<exists>v. obj_get (secrets c) f = Some v \<and> isLegacyPlaintext v)"
  then have t: "obj_get ss f = obj_get (secrets c) f \<or> obj_get ss f = None \<and>
    f \<in> set SECRET_FIELDS \<and> (\<exists>v. obj_get (secrets c) f = Some v \<and> isLegacyPlaintext v)" by (elim allE [of _ f])
  have "\<not> isLegacyPlaintext v" if "f \<in> set SECRET_FIELDS" "obj_get (secrets c) f = Some v" for v
    using n that by (auto simp: has_plaintext_def list_ex_iff split: option.splits)
  with t show "field_sealed unseal (f \<in> set SECRET_FIELDS) (obj_get (secrets c) f) (obj_get ss f)"
    by (cases "obj_get (secrets c) f") (auto simp: field_sealed_def)
qed

lemma thinned_refl [simp]: "thinned ss ss"
  by (simp add: thinned_def)

text \<open>
  (C12) The migration of plaintext secrets at the start is complete: if the backend seals what it is given, every
  stored record keeps all its fields, and each of its plaintext secrets has become a sealed text that opens
  to it.
\<close>

theorem migration_seals_everything:
  assumes s: "readable s" "sealFailedIds s = []" "distinct (map conn_id (listed s))"
    and secrets: "\<forall>c \<in> set (listed s). obj_ok (secrets c)"
    and ok: "\<And>n v. \<exists>w. seal n v = Some w \<and> isSealed w \<and> unseal w = Some v"
    and c: "getConnection s i = Some c"
  shows "\<exists>d. getConnection (migrateSecrets seal s) i = Some d \<and> same_but_secrets c d \<and>
    sealed_as unseal (secrets c) (secrets d)"
proof -
  obtain cs s1 where g: "getConnections s = (cs, s1)" by (cases "getConnections s")
  note rd = read_readable [OF s(1) g]
  have l1: "listed s1 = listed s" "conns s1 = conns s" using read_conns [OF g] by (simp_all add: listed_def)
  have find: "find (\<lambda>x. conn_id x = conn_id d) (listed s) = Some d" if dm: "d \<in> set (listed s)" for d
  proof -
    obtain e where e: "find (\<lambda>x. conn_id x = conn_id d) (listed s) = Some e"
      using dm by (cases "find (\<lambda>x. conn_id x = conn_id d) (listed s)") (auto simp: find_None_iff)
    from find_Some_mem [OF e] have "e \<in> set (listed s)" "conn_id e = conn_id d" by auto
    then have "e = d" using s(3) dm by (metis distinct_map inj_onD)
    with e show ?thesis by simp
  qed
  have "migrating unseal (listed s) {} s1"
    using s(1,2) rd l1 find by (auto simp: migrating_def readable_def getConnection_listed same_but_secrets_def)
  then have "migrating unseal (listed s) ({} \<union> set (filter has_plaintext (listed s)))
      (snd (foldl (migrate_one seal) (0, s1) (filter has_plaintext (listed s))))"
    by (intro migrate_all_ok [OF ok s(3)]) (use secrets in auto)
  then have m: "migrating unseal (listed s) (set (filter has_plaintext (listed s))) (migrateSecrets seal s)"
    using rd by (simp add: migrateSecrets_def g)
  have f: "find (\<lambda>x. conn_id x = i) (listed s) = Some c" using c by (simp add: getConnection_listed)
  from find_Some_mem [OF f] have mem: "c \<in> set (listed s)" "conn_id c = i" by auto
  with m obtain d where d: "getConnection (migrateSecrets seal s) i = Some d" "same_but_secrets c d"
    "if c \<in> set (filter has_plaintext (listed s)) then sealed_as unseal (secrets c) (secrets d)
     else thinned (secrets c) (secrets d)"
    unfolding migrating_def by blast
  then have "sealed_as unseal (secrets c) (secrets d)"
    using thinned_plain mem(1) by (cases "has_plaintext c") auto
  with d show ?thesis by blast
qed

text \<open>Two records with a plaintext password each, as an old version left them.\<close>

definition legacy_conn :: "string \<Rightarrow> string \<Rightarrow> connection" where
  "legacy_conn i p = demo_conn\<lparr>conn_id := i, secrets := [(''password'', p)]\<rparr>"

definition legacy_store :: store where
  "legacy_store = empty_store\<lparr>conns := Stored [legacy_conn ''a'' ''one'', legacy_conn ''b'' ''two'']\<rparr>"

text \<open>A backend for a witness: the text itself, with its colons escaped.\<close>

definition escape :: "string \<Rightarrow> string" where
  "escape v = concat (map (\<lambda>c. if c = CHR '':'' then ''%c'' else if c = CHR ''%'' then ''%p'' else [c]) v)"

fun unescape :: "string \<Rightarrow> string" where
  "unescape [] = []"
| "unescape [x] = [x]"
| "unescape (x # y # r) =
     (if x = CHR ''%'' then (if y = CHR ''c'' then CHR '':'' else CHR ''%'') # unescape r else x # unescape (y # r))"

lemma unescape_escape: "unescape (escape v) = v"
proof (induction v)
  case (Cons c v)
  have "unescape (c # r) = c # unescape r" if "c \<noteq> CHR ''%''" for r
    using that by (cases r) simp_all
  with Cons show ?case by (simp add: escape_def)
qed (simp add: escape_def)

lemma demo_sealed: "isSealed (''v1:n:'' @ escape v)"
proof -
  have "CHR '':'' \<notin> set (escape v)" by (auto simp: escape_def split: if_splits)
  moreover have "js_split c w = [w]" if "c \<notin> set w" for c w using that by (induction w) auto
  ultimately have "js_split (CHR '':'') (escape v) = [escape v]" by blast
  then show ?thesis by (simp add: isSealed_def)
qed

lemma migration_seals_everything_witness:
  "\<exists>d. getConnection (migrateSecrets (\<lambda>_ v. Some (''v1:n:'' @ escape v)) legacy_store) ''b'' = Some d \<and>
     same_but_secrets (legacy_conn ''b'' ''two'') d \<and>
     sealed_as (\<lambda>w. Some (unescape (drop 5 w))) (secrets (legacy_conn ''b'' ''two'')) (secrets d)"
proof (rule migration_seals_everything)
  show "\<exists>w. Some (''v1:n:'' @ escape v) = Some w \<and> isSealed w \<and> Some (unescape (drop 5 w)) = Some v" for v
    using demo_sealed unescape_escape by simp
qed (simp_all add: legacy_store_def legacy_conn_def readable_def listed_def empty_store_def demo_conn_def
      getConnection_listed obj_ok_def)


section \<open>Data of old versions\<close>

text \<open>
  \<open>migrateFromSessionStorage\<close>: the keys of an old version are moved to the new ones, with the root folder
  renamed. \<open>sessions\<close> and \<open>session_folders\<close> are what the old keys hold; a text that is no array makes the
  migration throw, which the code catches.
\<close>

text \<open>\<open>s.replace(/old/g, new)\<close> for a text without special characters.\<close>

fun replace_all :: "string \<Rightarrow> string \<Rightarrow> string \<Rightarrow> string" where
  "replace_all old new [] = []"
| "replace_all old new (c # cs) =
     (if old \<noteq> [] \<and> prefix old (c # cs) then new @ replace_all old new (drop (length old) (c # cs))
      else c # replace_all old new cs)"

definition new_root :: "string \<Rightarrow> string" where
  "new_root s = replace_all ''All Sessions'' ''All Connections'' s"

definition migrated_session :: "connection \<Rightarrow> connection" where
  "migrated_session c = c\<lparr>conn_folder := map_option new_root (conn_folder c)\<rparr>"

definition migrated_folder :: "folder \<Rightarrow> folder" where
  "migrated_folder f = f\<lparr>folder_name := new_root (folder_name f), folder_path := new_root (folder_path f),
     parentPath := map_option new_root (parentPath f)\<rparr>"

definition write_conns :: "connection list \<Rightarrow> store \<Rightarrow> store" where
  "write_conns cs s = (if conns_corrupt s then s else s\<lparr>conns := Stored cs\<rparr>)"

definition migrateFromSessionStorage :: "connection stored \<Rightarrow> folder stored \<Rightarrow> store \<Rightarrow> store" where
  "migrateFromSessionStorage sessions session_folders s =
     (case conns s of
        Absent \<Rightarrow>
          (case sessions of
             Stored cs \<Rightarrow>
               let s1 = write_conns (map migrated_session cs) s
               in (case session_folders of
                     Absent \<Rightarrow> s1
                   | Unreadable _ \<Rightarrow> snd (getFolders s1)
                   | Stored fs \<Rightarrow> writeFolders (map migrated_folder fs) (snd (getFolders s1)))
           | _ \<Rightarrow> s)
      | _ \<Rightarrow> s)"

lemma replace_hit: "old \<noteq> [] \<Longrightarrow> prefix old s \<Longrightarrow>
    replace_all old new s = new @ replace_all old new (drop (length old) s)"
  by (cases s) simp_all

lemma replace_miss: "\<not> (old \<noteq> [] \<and> prefix old (c # cs)) \<Longrightarrow> replace_all old new (c # cs) = c # replace_all old new cs"
  by (subst replace_all.simps(2)) (rule if_not_P)

lemma replace_all_step: "c \<notin> set old \<Longrightarrow> replace_all old new (xs @ c # ys) = replace_all old new xs @ c # replace_all old new ys"
proof (induction old new xs rule: replace_all.induct)
  case (1 old new)
  then have "\<not> (old \<noteq> [] \<and> prefix old (c # ys))" by (cases old) auto
  from replace_miss [OF this] show ?case by (simp only: append_Nil replace_all.simps(1))
next
  case (2 old new x xs)
  show ?case
  proof (cases "old \<noteq> [] \<and> prefix old (x # xs)")
    case True
    then obtain zs where z: "x # xs = old @ zs" by (auto simp: prefix_def)
    have p: "prefix old ((x # xs) @ c # ys)" unfolding z by simp
    have d: "drop (length old) ((x # xs) @ c # ys) = drop (length old) (x # xs) @ c # ys" unfolding z by simp
    show ?thesis
      unfolding replace_hit [OF True [THEN conjunct1] True [THEN conjunct2]]
        replace_hit [OF True [THEN conjunct1] p] d 2(1) [OF True 2(3)] by simp
  next
    case False
    have "\<not> (old \<noteq> [] \<and> prefix old (x # xs @ c # ys))"
    proof
      assume p: "old \<noteq> [] \<and> prefix old (x # xs @ c # ys)"
      then obtain zs where z: "x # xs @ c # ys = old @ zs" by (auto simp: prefix_def)
      have "length old \<le> length (x # xs)"
      proof (rule ccontr)
        assume "\<not> ?thesis"
        then have "old = take (length old) ((x # xs) @ c # ys)" "length (x # xs) < length old" using z by simp_all
        then have "old ! length (x # xs) = ((x # xs) @ c # ys) ! length (x # xs)" by (metis nth_take)
        then have "c = old ! length (x # xs)" by (simp add: nth_append)
        then show False using 2(3) \<open>length (x # xs) < length old\<close> by (metis nth_mem)
      qed
      then have "prefix old (x # xs)" using p by (metis append_Cons prefix_append prefix_length_prefix prefixI)
      then show False using False p by blast
    qed
    note m = replace_miss [OF this, of new]
    show ?thesis unfolding append_Cons m replace_miss [OF False] 2(2) [OF False 2(3)] ..
  qed
qed

lemma new_root_path: "new_root (p @ ''/'' @ n) = new_root p @ ''/'' @ new_root n"
  using replace_all_step [of "CHR ''/''" "''All Sessions''" "''All Connections''" p n]
  by (simp add: new_root_def)

text \<open>
  Data of old versions comes over whole: on a machine with old sessions and no new store, the start
  has every session and folder in the new store, nested as before, with the root renamed; a second start
  leaves everything alone.
\<close>

theorem legacy_data_comes_over:
  assumes "conns s = Absent" "\<not> conns_corrupt s" "folders s = Absent" "fs \<noteq> []"
    and tree: "\<forall>f \<in> set fs. folder_path f = child_path (parentPath f) (folder_name f) \<and> parentPath f \<noteq> Some []"
  shows "let r = migrateFromSessionStorage (Stored cs) (Stored fs) s; s' = initialize uuid now r in
    s' = r \<and> listed s' = map (\<lambda>c. c\<lparr>conn_folder := map_option new_root (conn_folder c)\<rparr>) cs \<and>
    (\<exists>gs. folders s' = Stored gs \<and> map folder_path gs = map (new_root \<circ> folder_path) fs \<and>
       (\<forall>g \<in> set gs. folder_path g = child_path (parentPath g) (folder_name g))) \<and>
    migrateFromSessionStorage (Stored cs) (Stored fs) s' = s'"
proof -
  let ?r = "migrateFromSessionStorage (Stored cs) (Stored fs) s"
  have r: "conns ?r = Stored (map migrated_session cs)" "folders ?r = Stored (map migrated_folder fs)"
    "\<not> folders_corrupt ?r"
    using assms(1-3) by (simp_all add: migrateFromSessionStorage_def write_conns_def Let_def getFolders_def)
  have i: "initialize uuid now ?r = ?r"
    using r assms(4) by (simp add: initialize_def getFolders_def)
  have child: "child_path (map_option new_root p) (new_root n) = new_root (child_path p n)" if "p \<noteq> Some []" for p n
  proof (cases p)
    case (Some q)
    then have "new_root q \<noteq> []" using that by (cases q) (auto simp: new_root_def)
    then show ?thesis using Some that new_root_path [of q n] by (cases q) (simp_all add: child_path_def or_null_def)
  qed (simp add: child_path_def or_null_def)
  have "\<forall>g \<in> set (map migrated_folder fs). folder_path g = child_path (parentPath g) (folder_name g)"
    using tree by (auto simp: migrated_folder_def child)
  moreover have "map folder_path (map migrated_folder fs) = map (new_root \<circ> folder_path) fs"
    by (simp add: migrated_folder_def)
  moreover have "migrateFromSessionStorage (Stored cs) (Stored fs) ?r = ?r"
    by (simp add: migrateFromSessionStorage_def [of _ _ ?r] r)
  ultimately show ?thesis
    using r i by (simp add: Let_def listed_def migrated_session_def [abs_def])
qed

definition old_root :: folder where
  "old_root = \<lparr>folder_id = ''f'', folder_name = ''All Sessions'', folder_path = ''All Sessions'', parentPath = None,
     folder_createdAt = [], folder_sortOrder = None\<rparr>"

lemma legacy_data_comes_over_witness:
  "listed (initialize (\<lambda>_. []) [] (migrateFromSessionStorage (Stored [demo_conn]) (Stored [old_root]) empty_store)) =
    map (\<lambda>c. c\<lparr>conn_folder := map_option new_root (conn_folder c)\<rparr>) [demo_conn]"
proof -
  have h: "conns empty_store = Absent" "\<not> conns_corrupt empty_store" "folders empty_store = Absent" "[old_root] \<noteq> []"
    "\<forall>f \<in> set [old_root]. folder_path f = child_path (parentPath f) (folder_name f) \<and> parentPath f \<noteq> Some []"
    by (simp_all add: empty_store_def old_root_def child_path_def or_null_def)
  show ?thesis
    using legacy_data_comes_over [OF h, where cs = "[demo_conn]" and uuid = "\<lambda>_. []" and now = "[]"]
    unfolding Let_def by (elim conjE) assumption
qed

end
