(* ===== verification/SessionRestore.thy ===== *)
theory SessionRestore
  imports TabAbstract SecretMigration
begin

text \<open>
  Restoring the sessions of the previous run: the registry of \<open>src/src/lib/restoration-manager.ts\<close>, the
  deadlines of \<open>restore-timing.ts\<close>, the guard of \<open>connect-guard.ts\<close>, the health check of
  \<open>session-health.ts\<close>, \<open>ActiveConnectionsManager\<close> of \<open>connection-storage.ts\<close>, and the restore loop of
  \<open>src/src/App.tsx\<close>.
\<close>

section \<open>The registry of pending restorations\<close>

text \<open>
  Promises are numbered in the order of the calls. \<open>timers\<close> holds, for each armed timeout, its promise and
  the connection it was set for.
\<close>

record registry =
  pendingRestorations :: "nat obj"
  earlySignals :: "string list"
  timers :: "(nat \<times> string) list"
  resolved :: "nat list"
  promises :: nat

definition new_registry :: registry where
  "new_registry = \<lparr>pendingRestorations = [], earlySignals = [], timers = [], resolved = [], promises = 0\<rparr>"

definition registerRestoration :: "string \<Rightarrow> registry \<Rightarrow> registry" where
  "registerRestoration c r =
     (if c \<in> set (earlySignals r)
      then r\<lparr>earlySignals := removeAll c (earlySignals r), resolved := promises r # resolved r,
             promises := promises r + 1\<rparr>
      else r\<lparr>pendingRestorations := obj_set c (promises r) (pendingRestorations r),
             timers := (promises r, c) # timers r, promises := promises r + 1\<rparr>)"

definition restoration_timeout :: "nat \<Rightarrow> string \<Rightarrow> registry \<Rightarrow> registry" where
  "restoration_timeout n c r =
     (if (n, c) \<in> set (timers r)
      then r\<lparr>pendingRestorations := obj_del c (pendingRestorations r),
             timers := removeAll (n, c) (timers r), resolved := n # resolved r\<rparr>
      else r)"

definition signalReady :: "string \<Rightarrow> registry \<Rightarrow> registry" where
  "signalReady c r =
     (case obj_get (pendingRestorations r) c of
        Some n \<Rightarrow> r\<lparr>pendingRestorations := obj_del c (pendingRestorations r),
                   timers := filter (\<lambda>t. fst t \<noteq> n) (timers r), resolved := n # resolved r\<rparr>
      | None \<Rightarrow> r\<lparr>earlySignals := List.insert c (earlySignals r)\<rparr>)"

definition clearAllRestorations :: "registry \<Rightarrow> registry" where
  "clearAllRestorations r =
     r\<lparr>pendingRestorations := [], earlySignals := [],
       timers := filter (\<lambda>t. fst t \<notin> set (map snd (pendingRestorations r))) (timers r),
       resolved := map snd (pendingRestorations r) @ resolved r\<rparr>"

datatype registry_event = RegisterR string | TimeoutR nat string | ReadyR string | ClearR

fun registry_step :: "registry \<Rightarrow> registry_event \<Rightarrow> registry" where
  "registry_step r (RegisterR c) = registerRestoration c r"
| "registry_step r (TimeoutR n c) = restoration_timeout n c r"
| "registry_step r (ReadyR c) = signalReady c r"
| "registry_step r ClearR = clearAllRestorations r"

text \<open>No promise is forgotten: it is resolved, or a timer will resolve it.\<close>

definition registry_ok :: "registry \<Rightarrow> bool" where
  "registry_ok r \<longleftrightarrow> (\<forall>n < promises r. n \<in> set (resolved r) \<or> n \<in> fst ` set (timers r)) \<and>
     (\<forall>t \<in> set (timers r). fst t < promises r) \<and> (\<forall>p \<in> set (pendingRestorations r). snd p < promises r)"

lemma obj_set_mem: "p \<in> set (obj_set k v o1) \<Longrightarrow> p = (k, v) \<or> p \<in> set o1"
proof -
  have "p \<in> set (AList.update k v o1) \<Longrightarrow> p = (k, v) \<or> p \<in> set o1" by (induction o1) (auto split: if_splits)
  then show "p \<in> set (obj_set k v o1) \<Longrightarrow> p = (k, v) \<or> p \<in> set o1" by (simp add: obj_set_def)
qed

lemma obj_del_mem: "p \<in> set (obj_del k o1) \<Longrightarrow> p \<in> set o1"
  by (auto simp: obj_del_def AList.delete_eq)

lemma registry_step_ok: "registry_ok r \<Longrightarrow> registry_ok (registry_step r e)"
proof (cases e)
  case (RegisterR c)
  assume r: "registry_ok r"
  have "snd p < promises r + 1" if "p \<in> set (obj_set c (promises r) (pendingRestorations r))" for p
  proof -
    from that have "p = (c, promises r) \<or> p \<in> set (pendingRestorations r)"
      by (rule obj_set_mem)
    with r show ?thesis by (auto simp: registry_ok_def)
  qed
  with r RegisterR show ?thesis by (auto simp: registry_ok_def registerRestoration_def less_Suc_eq)
next
  case (TimeoutR n c)
  assume r: "registry_ok r"
  with r TimeoutR show ?thesis by (force simp: registry_ok_def restoration_timeout_def dest: obj_del_mem)
next
  case (ReadyR c)
  assume r: "registry_ok r"
  with r ReadyR show ?thesis by (force simp: registry_ok_def signalReady_def split: option.split dest: obj_del_mem)
next
  case ClearR
  assume r: "registry_ok r"
  then show ?thesis using ClearR by (force simp: registry_ok_def clearAllRestorations_def)
qed

interpretation restorations: action_machine registry_step registry_ok "\<lambda>_ _. True"
  by unfold_locales (rule registry_step_ok)

lemma any_registry_run: "ok_run registry_step (\<lambda>_ _. True) r es"
  by (induction es arbitrary: r) auto

lemma new_registry_ok: "registry_ok new_registry"
  by (simp add: registry_ok_def new_registry_def)

text \<open>
  Every promise is answered: whatever the order of registrations, signals, timeouts and clearings, a promise
  that is not resolved has a running timer, so when no timer is left all are resolved.
\<close>

lemma no_restoration_hangs:
  assumes "timers (run_actions registry_step new_registry es) = []" "n < promises (run_actions registry_step new_registry es)"
  shows "n \<in> set (resolved (run_actions registry_step new_registry es))"
  using restorations.run_inv [OF new_registry_ok any_registry_run, of es] assms by (simp add: registry_ok_def)

section \<open>Deadlines\<close>

text \<open>\<open>configured\<close> is the timeout in seconds of the settings, if any; the defaults are the module's.\<close>

definition seconds_ms :: "nat option \<Rightarrow> nat" where
  "seconds_ms configured = (case configured of Some s \<Rightarrow> s * 1000 | None \<Rightarrow> 0)"

definition effectiveConnectTimeoutMs :: "nat option \<Rightarrow> nat" where
  "effectiveConnectTimeoutMs configured = max 15000 (seconds_ms configured)"

definition effectiveOverallTimeoutMs :: "nat option \<Rightarrow> nat \<Rightarrow> nat" where
  "effectiveOverallTimeoutMs configured sessionCount = max 60000 (seconds_ms configured * sessionCount)"

section \<open>The connect guard\<close>

record connect_guard =
  connectInFlight :: "string list"
  duplicateCounter :: nat

definition isConnectInFlight :: "connect_guard \<Rightarrow> string \<Rightarrow> bool" where
  "isConnectInFlight g i \<longleftrightarrow> i \<in> set (connectInFlight g)"

definition beginConnect :: "string \<Rightarrow> connect_guard \<Rightarrow> bool \<times> connect_guard" where
  "beginConnect i g = (if i \<in> set (connectInFlight g) then (False, g)
     else (True, g\<lparr>connectInFlight := connectInFlight g @ [i]\<rparr>))"

definition endConnect :: "string \<Rightarrow> connect_guard \<Rightarrow> connect_guard" where
  "endConnect i g = g\<lparr>connectInFlight := removeAll i (connectInFlight g)\<rparr>"

text \<open>\<open>now\<close> is the clock as a numeral.\<close>

definition nextDuplicateId :: "string \<Rightarrow> string \<Rightarrow> connect_guard \<Rightarrow> string \<times> connect_guard" where
  "nextDuplicateId connectionId now g =
     (connectionId @ ''-dup-'' @ now @ ''-'' @ string_of_nat (duplicateCounter g),
      g\<lparr>duplicateCounter := duplicateCounter g + 1\<rparr>)"

section \<open>The health check\<close>

record session_health =
  sshConnected :: bool
  hasPty :: bool
  detached :: bool

definition isSshTerminalTab :: "terminal_tab \<Rightarrow> bool" where
  "isSshTerminalTab t \<longleftrightarrow> (tabType t = None \<or> tabType t = Some Terminal) \<and>
     (protocol t = None \<or> protocol t = Some ''SSH'')"

text \<open>
  \<open>fetchHealth\<close>: the answer of the backend, \<open>None\<close> if the call failed. The tabs returned are those marked
  as disconnected, in that order; a pass that meets another one in flight does nothing.
\<close>

fun unhealthy_tabs :: "(string \<Rightarrow> session_health option) \<Rightarrow> terminal_tab list \<Rightarrow> string list" where
  "unhealthy_tabs fetchHealth [] = []"
| "unhealthy_tabs fetchHealth (t # ts) =
     (if \<not> isSshTerminalTab t \<or> connectionStatus t \<noteq> Connected then unhealthy_tabs fetchHealth ts
      else case fetchHealth (tab_id t) of
             None \<Rightarrow> unhealthy_tabs fetchHealth ts
           | Some health \<Rightarrow>
               if \<not> sshConnected health \<or> (\<not> hasPty health \<and> \<not> detached health)
               then tab_id t # unhealthy_tabs fetchHealth ts else unhealthy_tabs fetchHealth ts)"

definition reconcileSessionHealth ::
  "bool \<Rightarrow> (string \<Rightarrow> session_health option) \<Rightarrow> terminal_tab list \<Rightarrow> string list" where
  "reconcileSessionHealth reconcileInFlight fetchHealth ts =
     (if reconcileInFlight then [] else unhealthy_tabs fetchHealth ts)"

section \<open>Active connections\<close>

record active_connection =
  ac_tabId :: string
  ac_connectionId :: string
  ac_order :: int
  ac_originalConnectionId :: "string option"

text \<open>\<open>legacy\<close> is what the key of old versions holds, its records already read under their new names.\<close>

definition migrateFromActiveSessions ::
  "active_connection stored \<Rightarrow> active_connection stored \<Rightarrow> active_connection stored" where
  "migrateFromActiveSessions legacy current =
     (case current of Absent \<Rightarrow> (case legacy of Stored xs \<Rightarrow> Stored xs | _ \<Rightarrow> Absent) | _ \<Rightarrow> current)"

definition getActiveConnections ::
  "active_connection stored \<Rightarrow> active_connection stored \<Rightarrow> active_connection list \<times> active_connection stored" where
  "getActiveConnections legacy current =
     (let current1 = migrateFromActiveSessions legacy current
      in (case current1 of Stored xs \<Rightarrow> xs | _ \<Rightarrow> [], current1))"

section \<open>Reconnecting one tab\<close>

datatype connect_call = DesktopConnect | SftpConnect | FtpConnect | SshConnect

definition connect_call_for :: "terminal_tab \<Rightarrow> connection \<Rightarrow> connect_call" where
  "connect_call_for t c =
     (if tabType t = Some Desktop then DesktopConnect
      else if tabType t = Some FileBrowser \<or> protocol t = Some ''SFTP'' \<or> protocol t = Some ''FTP'' then
        (if protocol t = Some ''SFTP'' \<or> conn_protocol c = ''SFTP'' then SftpConnect else FtpConnect)
      else SshConnect)"

record restore_env =
  env_store :: store
  env_groups :: group_state
  failedPendingTabIds :: "string list"

text \<open>
  \<open>backend call t c\<close>: whether the connect call succeeds before its deadline; \<open>unseal\<close> opens a sealed secret.
\<close>

definition connectRestoredTab ::
  "(string \<Rightarrow> string option) \<Rightarrow> (connect_call \<Rightarrow> terminal_tab \<Rightarrow> connection \<Rightarrow> bool) \<Rightarrow> string \<Rightarrow>
   terminal_tab \<Rightarrow> restore_env \<Rightarrow> bool \<times> restore_env" where
  "connectRestoredTab unseal backend now t e =
     (let markFailed = e\<lparr>failedPendingTabIds := List.insert (tab_id t) (failedPendingTabIds e)\<rparr>;
          connectionIdToLoad = (case or_null (originalConnectionId t) of Some i \<Rightarrow> i | None \<Rightarrow> tab_id t)
      in case getConnection (env_store e) connectionIdToLoad of
           None \<Rightarrow> (False, markFailed)
         | Some stored \<Rightarrow>
             let c = openConnectionSecrets unseal stored; call = connect_call_for t c
             in if \<not> connectionHasCredentials c then (False, markFailed)
                else if backend call t c then
                  (True, e\<lparr>env_store := (if or_null (originalConnectionId t) = None
                               then updateLastConnected now (conn_id c) (env_store e) else env_store e),
                     env_groups := terminalGroupReducer (env_groups e)
                       (UPDATE_TAB_STATUS (tab_id t) (if call = SshConnect then Connecting else Connected))\<rparr>)
                else (False, markFailed))"

section \<open>The restore loop\<close>

definition restore_split :: "group_state \<Rightarrow> active_connection list \<Rightarrow> terminal_tab list \<times> string list" where
  "restore_split g activeConnections =
     (let restoredTabs = concat (map tabs (obj_values (groups g)));
          activeTabIds = List.map_filter (\<lambda>h. or_null (activeTabId h)) (obj_values (groups g));
          found = List.map_filter (\<lambda>a. find (\<lambda>t. tab_id t = ac_connectionId a) (rev restoredTabs))
            (sort_by (\<lambda>a b. ac_order a - ac_order b \<le> 0) activeConnections)
      in (filter (\<lambda>t. tab_id t \<in> set activeTabIds) found,
          remdups (map tab_id (filter (\<lambda>t. tab_id t \<notin> set activeTabIds) found))))"

text \<open>
  \<open>cancelled i\<close>: whether the overall deadline has passed when the loop comes to the i-th tab. The waiting
  for the terminal between two tabs is the registry above and changes nothing here.
\<close>

record restore_result =
  res_env :: restore_env
  lazyTabIds :: "string list"
  restoredCount :: nat
  failedCount :: nat

fun restore_loop ::
  "(string \<Rightarrow> string option) \<Rightarrow> (connect_call \<Rightarrow> terminal_tab \<Rightarrow> connection \<Rightarrow> bool) \<Rightarrow> string \<Rightarrow>
   (nat \<Rightarrow> bool) \<Rightarrow> nat \<Rightarrow> terminal_tab list \<Rightarrow> restore_result \<Rightarrow> restore_result" where
  "restore_loop unseal backend now cancelled i [] r = r"
| "restore_loop unseal backend now cancelled i (t # ts) r =
     (if cancelled i then r\<lparr>lazyTabIds := fold List.insert (map tab_id (t # ts)) (lazyTabIds r)\<rparr>
      else case connectRestoredTab unseal backend now t (res_env r) of
             (True, e) \<Rightarrow> restore_loop unseal backend now cancelled (Suc i) ts
               (r\<lparr>res_env := e, restoredCount := restoredCount r + 1\<rparr>)
           | (False, e) \<Rightarrow> restore_loop unseal backend now cancelled (Suc i) ts
               (r\<lparr>res_env := e, failedCount := failedCount r + 1\<rparr>))"

datatype restore_toast = NoToast | ConnectionsRestored | RestoreFailed | RestoreLazyFailed | RestoreLazyOnly

text \<open>The end of the restore: the message, and whether the list of active connections is cleared.\<close>

definition restore_outcome :: "bool \<Rightarrow> restore_result \<Rightarrow> restore_toast \<times> bool" where
  "restore_outcome restoreCancelled r =
     (if restoreCancelled then (NoToast, False)
      else if restoredCount r > 0 then (ConnectionsRestored, False)
      else if failedCount r > 0 \<and> lazyTabIds r = [] then (RestoreFailed, True)
      else if failedCount r > 0 then (RestoreLazyFailed, False)
      else if lazyTabIds r \<noteq> [] then (RestoreLazyOnly, False)
      else (NoToast, False))"

definition restoreActiveSessions ::
  "(string \<Rightarrow> string option) \<Rightarrow> (connect_call \<Rightarrow> terminal_tab \<Rightarrow> connection \<Rightarrow> bool) \<Rightarrow> string \<Rightarrow> bool \<Rightarrow>
   (nat \<Rightarrow> bool) \<Rightarrow> bool \<Rightarrow> active_connection list \<Rightarrow> restore_env \<Rightarrow> (restore_result \<times> restore_toast \<times> bool) option" where
  "restoreActiveSessions unseal backend now enabled cancelled restoreCancelled activeConnections e =
     (if activeConnections = [] \<or> \<not> enabled then None
      else let (eager, lazy) = restore_split (env_groups e) activeConnections;
               r = restore_loop unseal backend now cancelled 0 eager
                 \<lparr>res_env = e, lazyTabIds = lazy, restoredCount = 0, failedCount = 0\<rparr>
           in Some (r, restore_outcome restoreCancelled r))"

section \<open>The restore accounts for every tab\<close>

definition live_tabs :: "group_state \<Rightarrow> string set" where
  "live_tabs g = {i. \<exists>t. tab_lookup g i = Some t \<and> connectionStatus t \<in> {Connecting, Connected}}"

definition restorable :: "restore_env \<Rightarrow> bool" where
  "restorable e \<longleftrightarrow> state_ok (env_groups e) \<and> (\<forall>i. obj_get (tabToGroupMap (env_groups e)) i \<noteq> Some [])"

lemma modify_map [simp]: "tabToGroupMap (modify_tab s i f) = tabToGroupMap s"
  by (simp add: modify_tab_def Let_def split: option.split)

lemma status_lookup:
  assumes "restorable e"
  shows "tab_lookup (terminalGroupReducer (env_groups e) (UPDATE_TAB_STATUS i st)) j =
    map_option (if j = i then (\<lambda>t. t\<lparr>connectionStatus := st\<rparr>) else id) (tab_lookup (env_groups e) j)"
  using modify_lookup [of "env_groups e" "\<lambda>t. t\<lparr>connectionStatus := st\<rparr>" i j] assms
  by (simp add: restorable_def update_tab_status_def)

lemma status_restorable:
  assumes "restorable e"
  shows "restorable (e\<lparr>env_store := s, env_groups := terminalGroupReducer (env_groups e) (UPDATE_TAB_STATUS i st)\<rparr>)"
  using assms modify_tab_ok [of "env_groups e" "\<lambda>t. t\<lparr>connectionStatus := st\<rparr>" i]
  by (simp add: restorable_def update_tab_status_def)

lemma connect_cases:
  "connectRestoredTab unseal backend now t e =
      (False, e\<lparr>failedPendingTabIds := List.insert (tab_id t) (failedPendingTabIds e)\<rparr>) \<or>
    (\<exists>s st. st \<in> {Connecting, Connected} \<and> connectRestoredTab unseal backend now t e =
      (True, e\<lparr>env_store := s, env_groups := terminalGroupReducer (env_groups e) (UPDATE_TAB_STATUS (tab_id t) st)\<rparr>))"
proof (cases "getConnection (env_store e) (case or_null (originalConnectionId t) of Some i \<Rightarrow> i | None \<Rightarrow> tab_id t)")
  case None
  then show ?thesis by (simp add: connectRestoredTab_def Let_def)
next
  case (Some stored)
  let ?c = "openConnectionSecrets unseal stored"
  let ?s = "if or_null (originalConnectionId t) = None
    then updateLastConnected now (conn_id ?c) (env_store e) else env_store e"
  let ?st = "if connect_call_for t ?c = SshConnect then Connecting else Connected"
  show ?thesis
  proof (cases "connectionHasCredentials ?c \<and> backend (connect_call_for t ?c) t ?c")
    case True
    then have "connectRestoredTab unseal backend now t e =
      (True, e\<lparr>env_store := ?s, env_groups := terminalGroupReducer (env_groups e) (UPDATE_TAB_STATUS (tab_id t) ?st)\<rparr>)"
      by (simp add: connectRestoredTab_def Let_def Some)
    moreover have "?st \<in> {Connecting, Connected}" by simp
    ultimately show ?thesis by blast
  next
    case False
    then show ?thesis by (auto simp: connectRestoredTab_def Let_def Some)
  qed
qed

lemma connect_restored:
  assumes e: "restorable e" and t: "tab_lookup (env_groups e) (tab_id t) \<noteq> None"
    and c: "connectRestoredTab unseal backend now t e = (ok, e')"
  shows "restorable e'" "set (failedPendingTabIds e) \<subseteq> set (failedPendingTabIds e')"
    "live_tabs (env_groups e) \<subseteq> live_tabs (env_groups e')"
    "ok \<Longrightarrow> tab_id t \<in> live_tabs (env_groups e')" "\<not> ok \<Longrightarrow> tab_id t \<in> set (failedPendingTabIds e')"
    "\<And>i. tab_lookup (env_groups e') i = None \<longleftrightarrow> tab_lookup (env_groups e) i = None"
proof -
  consider (bad) "\<not> ok" "e' = e\<lparr>failedPendingTabIds := List.insert (tab_id t) (failedPendingTabIds e)\<rparr>"
    | (good) s st where "ok" "st \<in> {Connecting, Connected}"
      "e' = e\<lparr>env_store := s, env_groups := terminalGroupReducer (env_groups e) (UPDATE_TAB_STATUS (tab_id t) st)\<rparr>"
    using connect_cases [of unseal backend now t e] unfolding c prod.inject by blast
  then have "restorable e' \<and> set (failedPendingTabIds e) \<subseteq> set (failedPendingTabIds e') \<and>
    live_tabs (env_groups e) \<subseteq> live_tabs (env_groups e') \<and>
    (ok \<longrightarrow> tab_id t \<in> live_tabs (env_groups e')) \<and> (\<not> ok \<longrightarrow> tab_id t \<in> set (failedPendingTabIds e')) \<and>
    (\<forall>i. tab_lookup (env_groups e') i = None \<longleftrightarrow> tab_lookup (env_groups e) i = None)"
  proof cases
    case bad
    then show ?thesis using e by (auto simp: restorable_def)
  next
    case good
    have g: "tab_lookup (env_groups e') j =
        map_option (if j = tab_id t then (\<lambda>t. t\<lparr>connectionStatus := st\<rparr>) else id) (tab_lookup (env_groups e) j)" for j
      using status_lookup [OF e, of "tab_id t" st j] by (subst good(3)) simp
    have "live_tabs (env_groups e) \<subseteq> live_tabs (env_groups e')" "tab_id t \<in> live_tabs (env_groups e')"
      using good(2) t by (auto simp: live_tabs_def g)
    moreover have "restorable e'" by (subst good(3)) (rule status_restorable [OF e])
    moreover have "failedPendingTabIds e' = failedPendingTabIds e" by (subst good(3)) simp
    ultimately show ?thesis using good(1) by (simp add: g)
  qed
  then show "restorable e'" "set (failedPendingTabIds e) \<subseteq> set (failedPendingTabIds e')"
    "live_tabs (env_groups e) \<subseteq> live_tabs (env_groups e')"
    "ok \<Longrightarrow> tab_id t \<in> live_tabs (env_groups e')" "\<not> ok \<Longrightarrow> tab_id t \<in> set (failedPendingTabIds e')"
    "\<And>i. tab_lookup (env_groups e') i = None \<longleftrightarrow> tab_lookup (env_groups e) i = None" by blast+
qed

lemma fold_insert_set: "set (fold List.insert xs ys) = set xs \<union> set ys"
  by (induction xs arbitrary: ys) auto

lemma restore_loop_accounts:
  fixes r :: restore_result
  assumes "restorable (res_env r)" "\<forall>t \<in> set ts. tab_lookup (env_groups (res_env r)) (tab_id t) \<noteq> None"
    and "restore_loop unseal backend now cancelled i ts r = r'"
  shows "(\<forall>t \<in> set ts. tab_id t \<in> set (lazyTabIds r') \<or> tab_id t \<in> set (failedPendingTabIds (res_env r')) \<or>
      restoredCount r < restoredCount r' \<and> tab_id t \<in> live_tabs (env_groups (res_env r'))) \<and>
    set (lazyTabIds r) \<subseteq> set (lazyTabIds r') \<and>
    set (failedPendingTabIds (res_env r)) \<subseteq> set (failedPendingTabIds (res_env r')) \<and>
    live_tabs (env_groups (res_env r)) \<subseteq> live_tabs (env_groups (res_env r')) \<and> restoredCount r \<le> restoredCount r'"
  using assms
proof (induction unseal backend now cancelled i ts r rule: restore_loop.induct)
  case (2 unseal backend now cancelled i t ts r)
  show ?case
  proof (cases "cancelled i")
    case True
    then have "r' = r\<lparr>lazyTabIds := fold List.insert (map tab_id (t # ts)) (lazyTabIds r)\<rparr>" using "2.prems"(3) by simp
    then show ?thesis by (auto simp: fold_insert_set simp del: fold_simps)
  next
    case False
    obtain ok e where c: "connectRestoredTab unseal backend now t (res_env r) = (ok, e)" by fastforce
    note st = connect_restored [OF "2.prems"(1) _ c]
    have pres: "tab_lookup (env_groups (res_env r)) (tab_id t) \<noteq> None" using "2.prems"(2) by simp
    have ts: "\<forall>t \<in> set ts. tab_lookup (env_groups e) (tab_id t) \<noteq> None" using "2.prems"(2) st(6) [OF pres] by auto
    show ?thesis
    proof (cases ok)
      case True
      let ?r = "r\<lparr>res_env := e, restoredCount := restoredCount r + 1\<rparr>"
      have "restore_loop unseal backend now cancelled (Suc i) ts ?r = r'" using "2.prems"(3) False c True by simp
      with "2.IH"(1) [OF False c [symmetric] eq_True [THEN iffD2, OF True]] st(1) [OF pres] ts
      show ?thesis using st(2,3) [OF pres] st(4) [OF pres True] by auto
    next
      case fail: False
      let ?r = "r\<lparr>res_env := e, failedCount := failedCount r + 1\<rparr>"
      have "restore_loop unseal backend now cancelled (Suc i) ts ?r = r'" using "2.prems"(3) False c fail by simp
      with "2.IH"(2) [OF False c [symmetric] eq_False [THEN iffD2, OF fail]] st(1) [OF pres] ts
      show ?thesis using st(2,3) [OF pres] st(5) [OF pres fail] by auto
    qed
  qed
qed simp

lemma restore_split_present:
  assumes g: "state_ok g" and t: "t \<in> set (fst (restore_split g acs))"
  shows "tab_lookup g (tab_id t) \<noteq> None"
proof -
  have ok: "obj_ok (groups g)" using g by (simp add: state_ok_def groups_ok_def)
  from t have "\<exists>a :: active_connection. find (\<lambda>t. tab_id t = ac_connectionId a) (rev (concat (map tabs (obj_values (groups g))))) = Some t"
    by (auto simp: restore_split_def Let_def List.map_filter_def)
  then obtain a :: active_connection where "find (\<lambda>t. tab_id t = ac_connectionId a) (rev (concat (map tabs (obj_values (groups g))))) = Some t" ..
  from find_Some_mem [OF this] obtain h where h: "h \<in> set (obj_values (groups g))" "t \<in> set (tabs h)" by auto
  then obtain k where "obj_get (groups g) k = Some h" using obj_values_set [OF ok] by blast
  from tab_lookup_in [OF g this h(2)] show ?thesis by simp
qed

text \<open>
  (C38) The restore at the start accounts for every tab: each tab that is to be reconnected at once ends up
  connecting, or marked as failed, or among those that reconnect when activated; those that wait for that
  still do; and the list of active connections is cleared only if every one of them failed and none waits.
\<close>

theorem restore_accounts_for_tabs:
  assumes g: "state_ok (env_groups e)" "\<forall>i. obj_get (tabToGroupMap (env_groups e)) i \<noteq> Some []"
    and split: "restore_split (env_groups e) acs = (eager, lazy)"
    and run: "restoreActiveSessions unseal backend now enabled cancelled late acs e = Some (r, toast, cleared)"
  shows "(\<forall>t \<in> set eager. tab_id t \<in> set (lazyTabIds r) \<or> tab_id t \<in> set (failedPendingTabIds (res_env r)) \<or>
      (\<exists>t'. tab_lookup (env_groups (res_env r)) (tab_id t) = Some t' \<and> connectionStatus t' \<in> {Connecting, Connected})) \<and>
    set lazy \<subseteq> set (lazyTabIds r) \<and>
    (cleared \<longrightarrow> lazyTabIds r = [] \<and> (\<forall>t \<in> set eager. tab_id t \<in> set (failedPendingTabIds (res_env r))))"
proof -
  let ?r0 = "\<lparr>res_env = e, lazyTabIds = lazy, restoredCount = 0, failedCount = 0\<rparr>"
  have l: "restore_loop unseal backend now cancelled 0 eager ?r0 = r"
    and o: "restore_outcome late r = (toast, cleared)"
    using run split by (auto simp: restoreActiveSessions_def Let_def split: if_splits)
  have "\<forall>t \<in> set eager. tab_lookup (env_groups (res_env ?r0)) (tab_id t) \<noteq> None"
    using restore_split_present [OF g(1), of _ acs] split by simp
  from restore_loop_accounts [OF _ this l] g
  have a: "\<forall>t \<in> set eager. tab_id t \<in> set (lazyTabIds r) \<or> tab_id t \<in> set (failedPendingTabIds (res_env r)) \<or>
      0 < restoredCount r \<and> tab_id t \<in> live_tabs (env_groups (res_env r))"
    and b: "set lazy \<subseteq> set (lazyTabIds r)" by (simp_all add: restorable_def)
  have "cleared \<longrightarrow> restoredCount r = 0 \<and> lazyTabIds r = []"
    using o by (auto simp: restore_outcome_def split: if_splits)
  with a b show ?thesis unfolding live_tabs_def by auto
qed

text \<open>A tab of a saved connection with a password, restored.\<close>

definition demo_tab :: terminal_tab where
  "demo_tab = \<lparr>tab_id = ''i'', tab_name = ''n'',
       tabType = None, protocol = Some ''SSH'', host = None, username = None, originalConnectionId = None,
       connectionStatus = Pending, reconnectCount = None, hasUnreadOutput = None, editorFilePath = None,
       editorConnectionId = None\<rparr>"

definition demo_env :: restore_env where
  "demo_env = \<lparr>env_store = empty_store\<lparr>conns := Stored [demo_conn]\<rparr>,
     env_groups = terminalGroupReducer createDefaultState (ADD_TAB ''1'' demo_tab), failedPendingTabIds = []\<rparr>"

lemma restore_accounts_for_tabs_witness:
  "\<exists>r toast. restoreActiveSessions (\<lambda>_. None) (\<lambda>_ _ _. False) ''t'' True (\<lambda>_. False) False
      [\<lparr>ac_tabId = ''i'', ac_connectionId = ''i'', ac_order = 0, ac_originalConnectionId = None\<rparr>] demo_env =
    Some (r, toast, True) \<and> lazyTabIds r = []"
proof -
  let ?acs = "[\<lparr>ac_tabId = ''i'', ac_connectionId = ''i'', ac_order = 0, ac_originalConnectionId = None\<rparr>]"
  have g: "env_groups demo_env = terminalGroupReducer createDefaultState (ADD_TAB ''1'' demo_tab)"
    by (simp add: demo_env_def)
  have st: "groups (env_groups demo_env) = [(''1'', \<lparr>group_id = ''1'', tabs = [demo_tab], activeTabId = Some ''i''\<rparr>)]"
    "tabToGroupMap (env_groups demo_env) = [(''i'', ''1'')]"
    by (simp_all add: g createDefaultState_def add_tab_def obj_get_def obj_set_def obj_values_def obj_entries_def demo_tab_def)
  have k: "set (obj_keys (tabToGroupMap (env_groups demo_env))) = {''i''}"
    "obj_get (tabToGroupMap (env_groups demo_env)) ''i'' = Some ''1''"
    by (simp_all add: st obj_get_def)
  have m: "\<forall>i. obj_get (tabToGroupMap (env_groups demo_env)) i \<noteq> Some []"
  proof (intro allI notI)
    fix i
    assume a: "obj_get (tabToGroupMap (env_groups demo_env)) i = Some []"
    then have "i \<in> set (obj_keys (tabToGroupMap (env_groups demo_env)))" unfolding obj_keys_get by simp
    then have "i = ''i''" using k by simp
    with a k show False by simp
  qed
  have ok: "state_ok (env_groups demo_env)" unfolding g
    by (rule grp.step_inv [OF createDefaultState_ok]) simp
  have v: "obj_values (groups (env_groups demo_env)) = [\<lparr>group_id = ''1'', tabs = [demo_tab], activeTabId = Some ''i''\<rparr>]"
    by (simp add: st obj_values_def obj_entries_def)
  have sp: "restore_split (env_groups demo_env) ?acs = ([demo_tab], [])"
    by (simp add: restore_split_def Let_def v List.map_filter_def or_null_def demo_tab_def)
  have "connectRestoredTab unseal (\<lambda>_ _ _. False) now t e =
      (False, e\<lparr>failedPendingTabIds := List.insert (tab_id t) (failedPendingTabIds e)\<rparr>)" for unseal now t e
    by (simp add: connectRestoredTab_def Let_def split: option.split)
  then have "\<exists>r toast. restoreActiveSessions (\<lambda>_. None) (\<lambda>_ _ _. False) ''t'' True
      (\<lambda>_. False) False ?acs demo_env = Some (r, toast, True)"
    by (simp add: restoreActiveSessions_def sp restore_outcome_def)
  then obtain r toast where run: "restoreActiveSessions (\<lambda>_. None) (\<lambda>_ _ _. False) ''t'' True
      (\<lambda>_. False) False ?acs demo_env = Some (r, toast, True)" by blast
  show ?thesis using restore_accounts_for_tabs [OF ok m sp run] run by blast
qed

end
