(* ===== verification/SyncCompare.thy ===== *)
theory SyncCompare
  imports Main Prelude
begin

text \<open>
  Directory synchronisation: \<open>src/src/lib/sync-types.ts\<close> and the recursive comparison, its sort and the
  execution order of \<open>src/src/components/sync-dialog.tsx\<close>.

  Parameters of the model: \<open>date_ms\<close>, the milliseconds \<open>new Date(s).getTime()\<close> reads from a timestamp
  (\<open>None\<close> is NaN), and \<open>lc\<close>, the sign of \<open>localeCompare\<close>, whose order depends on the user's locale.
  File sizes are integers.
\<close>

section \<open>Data\<close>

datatype sync_criteria = Size | Modified | SizeModified

datatype sync_direction = LocalToRemote | RemoteToLocal

datatype sync_action = UploadFile | DownloadFile | CreateDir | DeleteRemote | Skip | Conflict

record dir_entry =
  de_path :: string
  de_size :: int
  de_modified :: "string option"
  de_type :: string

text \<open>
  \<open>de_path\<close> is the \<open>name\<close> of an entry of a flat listing, the \<open>relative_path\<close> of an entry of a
  recursive one.
\<close>

record sync_entry =
  relativePath :: string
  sync_action :: sync_action
  isDirectory :: bool
  localSize :: "int option"
  remoteSize :: "int option"
  localModified :: "string option option"
  remoteModified :: "string option option"
  checked :: bool

record sync_config =
  sync_direction :: sync_direction
  criteria :: sync_criteria
  deleteOrphaned :: bool
  recursive :: bool
  excludePatterns :: "string list"

definition DEFAULT_SYNC_CONFIG :: sync_config where
  "DEFAULT_SYNC_CONFIG = \<lparr>sync_direction = LocalToRemote, criteria = SizeModified,
     deleteOrphaned = False, recursive = True,
     excludePatterns = [''.git'', ''.DS_Store'', ''node_modules'', ''Thumbs.db'']\<rparr>"

record sync_summary =
  toUpload :: nat
  toDownload :: nat
  toCreateDir :: nat
  toDelete :: nat
  skipped :: nat
  conflicts :: nat
  summaryBytes :: int

section \<open>Comparing\<close>

definition computeSyncSummary :: "sync_entry list \<Rightarrow> sync_summary" where
  "computeSyncSummary es =
     (let ch = filter checked es;
          count = (\<lambda>a xs. length (filter (\<lambda>e. sync_action e = a) xs))
      in \<lparr>toUpload = count UploadFile ch, toDownload = count DownloadFile ch,
          toCreateDir = count CreateDir ch, toDelete = count DeleteRemote ch,
          skipped = count Skip es, conflicts = count Conflict es,
          summaryBytes = foldl (\<lambda>sum e. sum +
            (case localSize e of Some n \<Rightarrow> n
             | None \<Rightarrow> (case remoteSize e of Some n \<Rightarrow> n | None \<Rightarrow> 0))) 0 ch\<rparr>)"

fun matchesExcludePattern :: "string \<Rightarrow> string list \<Rightarrow> bool" where
  "matchesExcludePattern name [] = False"
| "matchesExcludePattern name (pat # pats) =
     (if starts_with pat ''*.''
      then (if ends_with name (drop 1 pat) then True else matchesExcludePattern name pats)
      else (if name = pat then True else matchesExcludePattern name pats))"

text \<open>A timestamp is truthy when it is present and not empty. A comparison with NaN is false.\<close>

definition differ :: "(string \<Rightarrow> int option) \<Rightarrow> sync_criteria \<Rightarrow> dir_entry \<Rightarrow> dir_entry \<Rightarrow> bool" where
  "differ date_ms crit local remote =
     ((crit \<noteq> Modified \<and> de_size local \<noteq> de_size remote) \<or>
      (crit \<noteq> Size \<and>
       (case (or_null (de_modified local), or_null (de_modified remote)) of
          (Some a, Some b) \<Rightarrow>
            (case (date_ms a, date_ms b) of
               (Some x, Some y) \<Rightarrow> \<bar>x - y\<bar> > 2000 | _ \<Rightarrow> False)
        | _ \<Rightarrow> de_modified local \<noteq> de_modified remote)))"

definition compareFiles ::
  "(string \<Rightarrow> int option) \<Rightarrow> dir_entry \<Rightarrow> dir_entry \<Rightarrow> sync_criteria \<Rightarrow> sync_direction \<Rightarrow> sync_action" where
  "compareFiles date_ms local remote crit dir =
     (if \<not> differ date_ms crit local remote then Skip
      else if dir = LocalToRemote then UploadFile else DownloadFile)"

text \<open>\<open>new Map(entries.map((e) => [e.name, e]))\<close>: of several entries with a name the last counts.\<close>

definition entry_map :: "dir_entry list \<Rightarrow> string \<Rightarrow> dir_entry option" where
  "entry_map es n = find (\<lambda>e. de_path e = n) (rev es)"

definition is_dir :: "dir_entry \<Rightarrow> bool" where
  "is_dir e \<longleftrightarrow> de_type e = ''Directory''"

definition rel_path :: "string \<Rightarrow> dir_entry \<Rightarrow> string" where
  "rel_path pre e = (if pre \<noteq> [] then pre @ ''/'' @ de_path e else de_path e)"

text \<open>What the comparison yields for one local entry: nothing or one line of the plan.\<close>

definition local_line ::
  "(string \<Rightarrow> int option) \<Rightarrow> sync_config \<Rightarrow> string \<Rightarrow> dir_entry list \<Rightarrow> dir_entry \<Rightarrow> sync_entry list" where
  "local_line date_ms cfg pre remotes local =
     (let relPath = rel_path pre local; isDir = is_dir local in
      case entry_map remotes (de_path local) of
        None \<Rightarrow>
          (if sync_direction cfg = LocalToRemote then
             [\<lparr>relativePath = relPath, sync_action = (if isDir then CreateDir else UploadFile),
               isDirectory = isDir, localSize = Some (de_size local), remoteSize = None,
               localModified = Some (de_modified local), remoteModified = None, checked = True\<rparr>]
           else [])
      | Some remote \<Rightarrow>
          (if \<not> isDir \<and> \<not> is_dir remote then
             (let action = compareFiles date_ms local remote (criteria cfg) (sync_direction cfg) in
              [\<lparr>relativePath = relPath, sync_action = action, isDirectory = False,
                localSize = Some (de_size local), remoteSize = Some (de_size remote),
                localModified = Some (de_modified local), remoteModified = Some (de_modified remote),
                checked = (action \<noteq> Skip)\<rparr>])
           else if isDir \<and> is_dir remote then []
           else
             [\<lparr>relativePath = relPath, sync_action = Conflict, isDirectory = isDir,
               localSize = Some (de_size local), remoteSize = Some (de_size remote),
               localModified = Some (de_modified local), remoteModified = Some (de_modified remote),
               checked = False\<rparr>]))"

definition orphan_line :: "string \<Rightarrow> dir_entry list \<Rightarrow> dir_entry \<Rightarrow> sync_entry list" where
  "orphan_line pre locals remote =
     (if entry_map locals (de_path remote) = None then
        [\<lparr>relativePath = rel_path pre remote, sync_action = DeleteRemote, isDirectory = is_dir remote,
          localSize = None, remoteSize = Some (de_size remote), localModified = None,
          remoteModified = Some (de_modified remote), checked = False\<rparr>]
      else [])"

definition compareDirectories ::
  "(string \<Rightarrow> int option) \<Rightarrow> dir_entry list \<Rightarrow> dir_entry list \<Rightarrow> string \<Rightarrow> sync_config \<Rightarrow> sync_entry list" where
  "compareDirectories date_ms locals remotes pre cfg =
     concat (map (local_line date_ms cfg pre remotes)
       (filter (\<lambda>e. \<not> matchesExcludePattern (de_path e) (excludePatterns cfg)) locals)) @
     (if deleteOrphaned cfg \<and> sync_direction cfg = LocalToRemote
      then concat (map (orphan_line pre locals)
        (filter (\<lambda>e. \<not> matchesExcludePattern (de_path e) (excludePatterns cfg)) remotes))
      else [])"

section \<open>The recursive comparison of the dialog\<close>

text \<open>
  \<open>compareRecursiveEntries\<close> repeats the comparison over relative paths (the backend has applied the
  excludes); its conflict lines carry no timestamps.
\<close>

definition compareFilesHelper ::
  "(string \<Rightarrow> int option) \<Rightarrow> dir_entry \<Rightarrow> dir_entry \<Rightarrow> sync_config \<Rightarrow> sync_action" where
  [simp]: "compareFilesHelper date_ms local remote cfg =
     (if \<not> differ date_ms (criteria cfg) local remote then Skip
      else if sync_direction cfg = LocalToRemote then UploadFile else DownloadFile)"

definition recursive_line ::
  "(string \<Rightarrow> int option) \<Rightarrow> sync_config \<Rightarrow> dir_entry list \<Rightarrow> dir_entry \<Rightarrow> sync_entry list" where
  "recursive_line date_ms cfg remotes local =
     (let isDir = is_dir local in
      case entry_map remotes (de_path local) of
        None \<Rightarrow>
          (if sync_direction cfg = LocalToRemote then
             [\<lparr>relativePath = de_path local, sync_action = (if isDir then CreateDir else UploadFile),
               isDirectory = isDir, localSize = Some (de_size local), remoteSize = None,
               localModified = Some (de_modified local), remoteModified = None, checked = True\<rparr>]
           else [])
      | Some remote \<Rightarrow>
          (if \<not> isDir \<and> \<not> is_dir remote then
             (let action = compareFilesHelper date_ms local remote cfg in
              [\<lparr>relativePath = de_path local, sync_action = action, isDirectory = False,
                localSize = Some (de_size local), remoteSize = Some (de_size remote),
                localModified = Some (de_modified local), remoteModified = Some (de_modified remote),
                checked = (action \<noteq> Skip)\<rparr>])
           else if isDir \<and> is_dir remote then []
           else
             [\<lparr>relativePath = de_path local, sync_action = Conflict, isDirectory = isDir,
               localSize = Some (de_size local), remoteSize = Some (de_size remote),
               localModified = None, remoteModified = None, checked = False\<rparr>]))"

fun action_rank :: "sync_action \<Rightarrow> int" where
  "action_rank CreateDir = 0"
| "action_rank UploadFile = 1"
| "action_rank DownloadFile = 1"
| "action_rank Conflict = 2"
| "action_rank Skip = 3"
| "action_rank DeleteRemote = 4"

definition plan_compare :: "(string \<Rightarrow> string \<Rightarrow> int) \<Rightarrow> sync_entry \<Rightarrow> sync_entry \<Rightarrow> int" where
  "plan_compare lc a b =
     (let diff = action_rank (sync_action a) - action_rank (sync_action b) in
      if diff \<noteq> 0 then diff else lc (relativePath a) (relativePath b))"

definition compareRecursiveEntries ::
  "(string \<Rightarrow> int option) \<Rightarrow> (string \<Rightarrow> string \<Rightarrow> int) \<Rightarrow> dir_entry list \<Rightarrow> dir_entry list \<Rightarrow> sync_config \<Rightarrow>
     sync_entry list" where
  "compareRecursiveEntries date_ms lc locals remotes cfg =
     sort_by (\<lambda>a b. plan_compare lc a b \<le> 0)
       (concat (map (recursive_line date_ms cfg remotes) locals) @
        (if deleteOrphaned cfg \<and> sync_direction cfg = LocalToRemote
         then concat (map (orphan_line [] locals) remotes) else []))"

text \<open>The comparator with which \<open>handleSync\<close> orders the checked lines before executing them.\<close>

definition exec_compare :: "(string \<Rightarrow> string \<Rightarrow> int) \<Rightarrow> sync_entry \<Rightarrow> sync_entry \<Rightarrow> int" where
  "exec_compare lc a b =
     (if sync_action a = CreateDir \<and> sync_action b \<noteq> CreateDir then - 1
      else if sync_action a \<noteq> CreateDir \<and> sync_action b = CreateDir then 1
      else if sync_action a = DeleteRemote \<and> sync_action b = DeleteRemote
        then int (length (relativePath b)) - int (length (relativePath a))
      else lc (relativePath a) (relativePath b))"

end
