(* ===== verification/SyncPlan.thy ===== *)
theory SyncPlan
  imports SyncCompare
begin

text \<open>
  What a synchronisation plan does: executing it makes the remote match the local directory, deletions
  are opt-in, the order of the recursive plan, and where the code departs from its comments.
\<close>

section \<open>Executing a plan\<close>

text \<open>
  The contract of the comparison, over abstract directories (partial maps from names to entries):
  uploading and creating copy the local entry, deleting removes the remote one.
\<close>

type_synonym dir = "string \<Rightarrow> dir_entry option"

fun exec_line :: "dir \<Rightarrow> dir \<Rightarrow> sync_entry \<Rightarrow> dir" where
  "exec_line L R e =
     (case sync_action e of
        UploadFile \<Rightarrow> R(relativePath e := L (relativePath e))
      | CreateDir \<Rightarrow> R(relativePath e := L (relativePath e))
      | DeleteRemote \<Rightarrow> R(relativePath e := None)
      | _ \<Rightarrow> R)"

definition execute :: "dir \<Rightarrow> dir \<Rightarrow> sync_entry list \<Rightarrow> dir" where
  "execute L R es = foldl (exec_line L) R es"

fun in_sync :: "(string \<Rightarrow> int option) \<Rightarrow> sync_criteria \<Rightarrow> dir_entry option \<Rightarrow> dir_entry option \<Rightarrow> bool" where
  "in_sync d c None None = True"
| "in_sync d c (Some a) (Some b) =
     ((is_dir a \<and> is_dir b) \<or> (\<not> is_dir a \<and> \<not> is_dir b \<and> \<not> differ d c a b))"
| "in_sync d c _ _ = False"

fun kinds_clash :: "dir_entry option \<Rightarrow> dir_entry option \<Rightarrow> bool" where
  "kinds_clash (Some a) (Some b) = (is_dir a \<noteq> is_dir b)"
| "kinds_clash _ _ = False"

lemma differ_refl [simp]: "\<not> differ d c e e"
  by (simp add: differ_def split: option.split)

lemma execute_other: "\<forall>e \<in> set es. relativePath e \<noteq> n \<Longrightarrow> execute L R es n = R n"
  unfolding execute_def
proof (induction es arbitrary: R)
  case Nil
  then show ?case by simp
next
  case (Cons e es)
  then show ?case by (auto split: sync_action.split)
qed

lemma execute_filter: "execute L R es n = execute L R (filter (\<lambda>e. relativePath e = n) es) n"
  unfolding execute_def
proof -
  have "S n = R n \<Longrightarrow> foldl (exec_line L) R es n =
      foldl (exec_line L) S (filter (\<lambda>e. relativePath e = n) es) n" for R S
  proof (induction es arbitrary: R S)
    case Nil
    then show ?case by simp
  next
    case (Cons e es)
    show ?case
    proof (cases "relativePath e = n")
      case True
      with Cons.prems have "exec_line L S e n = exec_line L R e n" by (simp split: sync_action.split)
      with Cons.IH [of "exec_line L S e" "exec_line L R e"] True show ?thesis by simp
    next
      case False
      with Cons.prems have "S n = exec_line L R e n" by (simp split: sync_action.split)
      with Cons.IH [of S "exec_line L R e"] False show ?thesis by simp
    qed
  qed
  then show "foldl (exec_line L) R es n =
      foldl (exec_line L) R (filter (\<lambda>e. relativePath e = n) es) n" by blast
qed

lemma filter_concat_key:
  "(\<And>x e. e \<in> set (f x) \<Longrightarrow> key e = k x) \<Longrightarrow>
     filter (\<lambda>e. key e = n) (concat (map f xs)) = concat (map f (filter (\<lambda>x. k x = n) xs))"
proof (induction xs)
  case Nil
  then show ?case by simp
next
  case (Cons x xs)
  have "filter (\<lambda>e. key e = n) (f x) = (if k x = n then f x else [])"
    using Cons.prems [of _ x] by (auto simp: filter_id_conv filter_empty_conv)
  with Cons show ?case by simp
qed

lemma entry_map_Some:
  assumes "distinct (map de_path es)"
  shows "entry_map es n = Some e \<longleftrightarrow> e \<in> set es \<and> de_path e = n"
proof
  assume "entry_map es n = Some e"
  then show "e \<in> set es \<and> de_path e = n" by (auto simp: entry_map_def dest: find_Some_mem)
next
  assume e: "e \<in> set es \<and> de_path e = n"
  then obtain e' where e': "entry_map es n = Some e'"
    by (cases "entry_map es n") (auto simp: entry_map_def find_None_iff)
  then have "e' \<in> set es \<and> de_path e' = n" by (auto simp: entry_map_def dest: find_Some_mem)
  with e assms have "e' = e" by (simp add: distinct_map inj_on_def)
  with e' show "entry_map es n = Some e" by simp
qed

lemma entry_map_None: "entry_map es n = None \<longleftrightarrow> n \<notin> set (map de_path es)"
  by (auto simp: entry_map_def find_None_iff)

lemma the_entry:
  assumes "distinct (map de_path es)" "e \<in> set es" "de_path e = n" "P e"
  shows "filter (\<lambda>e. P e \<and> de_path e = n) es = [e]"
  using assms
proof (induction es)
  case Nil
  then show ?case by simp
next
  case (Cons x xs)
  show ?case
  proof (cases "x = e")
    case True
    with Cons.prems have "filter (\<lambda>e. P e \<and> de_path e = n) xs = []"
      by (auto simp: filter_empty_conv) (metis image_eqI)
    with True Cons.prems show ?thesis by simp
  next
    case False
    with Cons show ?thesis by auto
  qed
qed

lemma local_line_path: "e \<in> set (local_line d cfg [] rs l) \<Longrightarrow> relativePath e = de_path l"
  by (auto simp: local_line_def Let_def rel_path_def split: option.splits if_splits)

lemma orphan_line_path: "e \<in> set (orphan_line [] ls r) \<Longrightarrow> relativePath e = de_path r"
  by (auto simp: orphan_line_def rel_path_def split: if_splits)

text \<open>The lines of the plan that concern one name.\<close>

lemma plan_lines:
  "filter (\<lambda>e. relativePath e = n) (compareDirectories d ls rs [] cfg) =
     concat (map (local_line d cfg [] rs)
       (filter (\<lambda>e. \<not> matchesExcludePattern (de_path e) (excludePatterns cfg) \<and> de_path e = n) ls)) @
     (if deleteOrphaned cfg \<and> sync_direction cfg = LocalToRemote then
       concat (map (orphan_line [] ls)
         (filter (\<lambda>e. \<not> matchesExcludePattern (de_path e) (excludePatterns cfg) \<and> de_path e = n) rs))
      else [])"
  by (simp add: compareDirectories_def
      filter_concat_key [where k = de_path, OF local_line_path]
      filter_concat_key [where k = de_path, OF orphan_line_path] conj_commute)


definition demo_entry :: "string \<Rightarrow> int \<Rightarrow> dir_entry" where
  "demo_entry n sz = \<lparr>de_path = n, de_size = sz, de_modified = None, de_type = ''File''\<rparr>"


section \<open>Deletions\<close>

lemma local_line_actions:
  "e \<in> set (local_line d cfg pre rs l) \<Longrightarrow> sync_action e \<noteq> DeleteRemote \<and> relativePath e = rel_path pre l"
  by (auto simp: local_line_def Let_def compareFiles_def split: option.splits if_splits)

lemma recursive_line_actions:
  "e \<in> set (recursive_line d cfg rs l) \<Longrightarrow> sync_action e \<noteq> DeleteRemote \<and> relativePath e = de_path l"
  by (auto simp: recursive_line_def Let_def compareFiles_def split: option.splits if_splits)

text \<open>
  Deletions are opt-in twice and never hit what the user has: a line that deletes exists only
  in the local-to-remote direction with orphan deletion on, is for a remote entry whose name (in the
  recursive plan, whose path) does not exist locally and is not excluded, and starts unchecked.
\<close>

theorem deletions_are_safe:
  "(\<forall>e \<in> set (compareDirectories d ls rs pre cfg). sync_action e = DeleteRemote \<longrightarrow>
      \<not> checked e \<and> deleteOrphaned cfg \<and> sync_direction cfg = LocalToRemote \<and>
      (\<exists>r \<in> set rs. relativePath e = rel_path pre r \<and> de_path r \<notin> set (map de_path ls) \<and>
         \<not> matchesExcludePattern (de_path r) (excludePatterns cfg))) \<and>
   (\<forall>e \<in> set (compareRecursiveEntries d lc ls rs cfg). sync_action e = DeleteRemote \<longrightarrow>
      \<not> checked e \<and> deleteOrphaned cfg \<and> sync_direction cfg = LocalToRemote \<and>
      (\<exists>r \<in> set rs. relativePath e = de_path r \<and> de_path r \<notin> set (map de_path ls)))"
proof -
  have orph: "e \<in> set (orphan_line p ls r) \<Longrightarrow>
      \<not> checked e \<and> relativePath e = rel_path p r \<and> de_path r \<notin> set (map de_path ls)" for e p r
    by (auto simp: orphan_line_def entry_map_None split: if_splits)
  have flat: "\<not> checked e \<and> deleteOrphaned cfg \<and> sync_direction cfg = LocalToRemote \<and>
      (\<exists>r \<in> set rs. relativePath e = rel_path pre r \<and> de_path r \<notin> set (map de_path ls) \<and>
         \<not> matchesExcludePattern (de_path r) (excludePatterns cfg))"
    if a: "sync_action e = DeleteRemote" and e: "e \<in> set (compareDirectories d ls rs pre cfg)" for e
  proof -
    obtain r where "deleteOrphaned cfg" "sync_direction cfg = LocalToRemote" "r \<in> set rs"
      "\<not> matchesExcludePattern (de_path r) (excludePatterns cfg)" "e \<in> set (orphan_line pre ls r)"
      using a e local_line_actions by (auto simp: compareDirectories_def split: if_splits)
    then show ?thesis using orph [of e pre r] by blast
  qed
  have deep: "\<not> checked e \<and> deleteOrphaned cfg \<and> sync_direction cfg = LocalToRemote \<and>
      (\<exists>r \<in> set rs. relativePath e = de_path r \<and> de_path r \<notin> set (map de_path ls))"
    if a: "sync_action e = DeleteRemote" and e: "e \<in> set (compareRecursiveEntries d lc ls rs cfg)" for e
  proof -
    obtain r where "deleteOrphaned cfg" "sync_direction cfg = LocalToRemote" "r \<in> set rs"
      "e \<in> set (orphan_line [] ls r)"
      using a e recursive_line_actions by (auto simp: compareRecursiveEntries_def split: if_splits)
    then show ?thesis using orph [of e "[]" r] by (auto simp: rel_path_def)
  qed
  show ?thesis using flat deep by blast
qed

lemma deletions_are_safe_witness:
  "\<not> checked (hd (compareDirectories (\<lambda>_. None) [] [demo_entry ''a'' 1] []
       (DEFAULT_SYNC_CONFIG\<lparr>deleteOrphaned := True\<rparr>)))"
proof -
  let ?p = "compareDirectories (\<lambda>_. None) [] [demo_entry ''a'' 1] [] (DEFAULT_SYNC_CONFIG\<lparr>deleteOrphaned := True\<rparr>)"
  have "?p \<noteq> [] \<and> sync_action (hd ?p) = DeleteRemote" by code_simp
  then show ?thesis
    using deletions_are_safe [of "\<lambda>_. None" "[]" "[demo_entry ''a'' 1]" "[]"
        "DEFAULT_SYNC_CONFIG\<lparr>deleteOrphaned := True\<rparr>" code_unit_compare] hd_in_set by blast
qed

section \<open>The other direction\<close>

text \<open>
  In the remote-to-local direction the plan has no line for a file or folder that exists only on
  the remote: every line is for a local entry, so nothing new is ever fetched. (The comment on the
  action \<open>download\<close> reads ``File exists remotely but not locally''.)
\<close>

theorem remote_only_never_fetched:
  assumes "sync_direction cfg = RemoteToLocal"
  shows "(\<forall>e \<in> set (compareDirectories d ls rs pre cfg). \<exists>l \<in> set ls. relativePath e = rel_path pre l \<and>
      entry_map rs (de_path l) \<noteq> None) \<and>
    (\<forall>e \<in> set (compareRecursiveEntries d lc ls rs cfg). \<exists>l \<in> set ls. relativePath e = de_path l \<and>
      entry_map rs (de_path l) \<noteq> None)"
proof -
  have "e \<in> set (local_line d cfg p rs l) \<Longrightarrow> relativePath e = rel_path p l \<and> entry_map rs (de_path l) \<noteq> None"
    "e \<in> set (recursive_line d cfg rs l) \<Longrightarrow> relativePath e = de_path l \<and> entry_map rs (de_path l) \<noteq> None"
    for e p l
    using assms by (auto simp: local_line_def recursive_line_def Let_def split: option.splits if_splits)
  then show ?thesis
    using assms by (auto simp: compareDirectories_def compareRecursiveEntries_def)
qed

lemma remote_only_never_fetched_witness:
  "compareDirectories (\<lambda>_. None) [] [demo_entry ''a'' 1] [] (DEFAULT_SYNC_CONFIG\<lparr>sync_direction := RemoteToLocal\<rparr>) = []"
  using remote_only_never_fetched [of "DEFAULT_SYNC_CONFIG\<lparr>sync_direction := RemoteToLocal\<rparr>" "\<lambda>_. None" "[]"
    "[demo_entry ''a'' 1]" "[]" code_unit_compare] by (auto simp: DEFAULT_SYNC_CONFIG_def)

section \<open>The order of the recursive plan\<close>

lemma plan_order:
  assumes "collates lc" shows "preference (\<lambda>a b. plan_compare lc a b \<le> 0)"
  unfolding plan_compare_def Let_def
  by (rule preference_rank_then_collate [OF assms, where r = "\<lambda>e. action_rank (sync_action e)" and key = relativePath])

text \<open>
  The recursive plan creates folders before it uploads into them: in its order every CreateDir line
  precedes every other line, uploads precede deletions, and a folder is created before the folders
  inside it, provided the locale sorts a path before its extensions.
\<close>

theorem recursive_plan_order:
  assumes lc: "collates lc" "prefix_first lc"
    and ij: "i < j" "j < length (compareRecursiveEntries d lc ls rs cfg)"
  shows "action_rank (sync_action (compareRecursiveEntries d lc ls rs cfg ! i)) \<le>
      action_rank (sync_action (compareRecursiveEntries d lc ls rs cfg ! j)) \<and>
    (sync_action (compareRecursiveEntries d lc ls rs cfg ! i) =
       sync_action (compareRecursiveEntries d lc ls rs cfg ! j) \<longrightarrow>
     \<not> strict_prefix (relativePath (compareRecursiveEntries d lc ls rs cfg ! j))
        (relativePath (compareRecursiveEntries d lc ls rs cfg ! i)))"
proof -
  let ?p = "compareRecursiveEntries d lc ls rs cfg"
  have "sorted_wrt (\<lambda>a b. plan_compare lc a b \<le> 0) ?p"
    unfolding compareRecursiveEntries_def by (rule preference.sort_by_sorted [OF plan_order [OF lc(1)]])
  then have le: "plan_compare lc (?p ! i) (?p ! j) \<le> 0" using ij by (simp add: sorted_wrt_iff_nth_less)
  have "\<not> strict_prefix (relativePath (?p ! j)) (relativePath (?p ! i))"
    if "sync_action (?p ! i) = sync_action (?p ! j)"
  proof
    assume "strict_prefix (relativePath (?p ! j)) (relativePath (?p ! i))"
    then have "lc (relativePath (?p ! j)) (relativePath (?p ! i)) < 0" using lc(2) by (simp add: prefix_first_def)
    then have "0 < lc (relativePath (?p ! i)) (relativePath (?p ! j))" by (rule collates_neg [OF lc(1)])
    with le that show False by (simp add: plan_compare_def)
  qed
  with le show ?thesis by (auto simp: plan_compare_def Let_def split: if_splits)
qed

definition demo_dir :: "string \<Rightarrow> dir_entry" where
  "demo_dir n = \<lparr>de_path = n, de_size = 0, de_modified = None, de_type = ''Directory''\<rparr>"

lemma recursive_plan_order_witness:
  "\<not> strict_prefix
     (relativePath (compareRecursiveEntries (\<lambda>_. None) code_unit_compare [demo_dir ''a/b'', demo_dir ''a''] [] DEFAULT_SYNC_CONFIG ! 1))
     (relativePath (compareRecursiveEntries (\<lambda>_. None) code_unit_compare [demo_dir ''a/b'', demo_dir ''a''] [] DEFAULT_SYNC_CONFIG ! 0))"
proof -
  let ?p = "compareRecursiveEntries (\<lambda>_. None) code_unit_compare [demo_dir ''a/b'', demo_dir ''a''] [] DEFAULT_SYNC_CONFIG"
  have "length ?p = 2 \<and> sync_action (?p ! 0) = sync_action (?p ! 1)" by code_simp
  then show ?thesis
    using recursive_plan_order [OF code_unit_collates code_unit_prefix_first, of 0 1] by simp
qed

text \<open>
  The same order lists deletions of a folder before those of its contents, the opposite of
  ``deepest first'' in the comment above the sort (\<open>handleSync\<close> sorts the checked lines again).
\<close>

theorem recursive_plan_deletes_parents_first:
  assumes lc: "collates lc" "prefix_first lc"
    and i: "i < length (compareRecursiveEntries d lc ls rs cfg)"
      "sync_action (compareRecursiveEntries d lc ls rs cfg ! i) = DeleteRemote"
    and j: "j < length (compareRecursiveEntries d lc ls rs cfg)"
      "sync_action (compareRecursiveEntries d lc ls rs cfg ! j) = DeleteRemote"
    and p: "strict_prefix (relativePath (compareRecursiveEntries d lc ls rs cfg ! i))
      (relativePath (compareRecursiveEntries d lc ls rs cfg ! j))"
  shows "i < j"
proof (rule ccontr)
  assume "\<not> i < j"
  with p have "j < i" by (metis linorder_cases prefix_order.less_irrefl)
  moreover have "sorted_wrt (\<lambda>a b. plan_compare lc a b \<le> 0) (compareRecursiveEntries d lc ls rs cfg)"
    unfolding compareRecursiveEntries_def by (rule preference.sort_by_sorted [OF plan_order [OF lc(1)]])
  ultimately have "plan_compare lc (compareRecursiveEntries d lc ls rs cfg ! j)
      (compareRecursiveEntries d lc ls rs cfg ! i) \<le> 0"
    using i(1) by (simp add: sorted_wrt_iff_nth_less)
  moreover have "lc (relativePath (compareRecursiveEntries d lc ls rs cfg ! i))
      (relativePath (compareRecursiveEntries d lc ls rs cfg ! j)) < 0"
    using p lc(2) by (simp add: prefix_first_def)
  ultimately show False
    using collates_neg [OF lc(1)] i(2) j(2) by (fastforce simp: plan_compare_def)
qed

definition delete_config :: sync_config where
  "delete_config = DEFAULT_SYNC_CONFIG\<lparr>deleteOrphaned := True\<rparr>"

lemma recursive_plan_deletes_parents_first_witness:
  "let p = compareRecursiveEntries (\<lambda>_. None) code_unit_compare [] [demo_entry ''a/b'' 1, demo_dir ''a''] delete_config
   in relativePath (p ! 0) = ''a'' \<and> relativePath (p ! 1) = ''a/b'' \<and> (0::nat) < 1"
proof -
  let ?p = "compareRecursiveEntries (\<lambda>_. None) code_unit_compare [] [demo_entry ''a/b'' 1, demo_dir ''a''] delete_config"
  have "length ?p = 2 \<and> sync_action (?p ! 0) = DeleteRemote \<and> sync_action (?p ! 1) = DeleteRemote \<and>
      relativePath (?p ! 0) = ''a'' \<and> relativePath (?p ! 1) = ''a/b''" by code_simp
  then show ?thesis
    using recursive_plan_deletes_parents_first [OF code_unit_collates code_unit_prefix_first, of 0 "\<lambda>_. None"
        "[]" "[demo_entry ''a/b'' 1, demo_dir ''a'']" delete_config 1]
    by (simp add: Let_def)
qed

section \<open>The order of execution\<close>

text \<open>
  The comparator by which \<open>handleSync\<close> orders the checked lines is no order: with deletions and
  uploads together it runs in circles. Wherever the locale sorts \<open>p\<close> before \<open>p-a\<close> before \<open>p/q\<close>,
  deleting the folder \<open>p\<close> comes before uploading \<open>p-a\<close>, that before deleting \<open>p/q\<close>, and that before
  deleting \<open>p\<close>. A sort by it need not put the deepest deletions first.
\<close>

theorem execution_order_is_circular:
  assumes "lc ''p'' ''p-a'' < 0" "lc ''p-a'' ''p/q'' < 0"
    and a: "sync_action a = DeleteRemote" "relativePath a = ''p''"
    and b: "sync_action b = UploadFile" "relativePath b = ''p-a''"
    and c: "sync_action c = DeleteRemote" "relativePath c = ''p/q''"
  shows "exec_compare lc a b < 0 \<and> exec_compare lc b c < 0 \<and> exec_compare lc c a < 0"
  using assms by (simp add: exec_compare_def)

definition demo_line :: "sync_action \<Rightarrow> string \<Rightarrow> sync_entry" where
  "demo_line a p = \<lparr>relativePath = p, sync_action = a, isDirectory = False, localSize = None,
     remoteSize = None, localModified = None, remoteModified = None, checked = True\<rparr>"

lemma execution_order_is_circular_witness:
  "exec_compare code_unit_compare (demo_line DeleteRemote ''p'') (demo_line UploadFile ''p-a'') < 0 \<and>
   exec_compare code_unit_compare (demo_line UploadFile ''p-a'') (demo_line DeleteRemote ''p/q'') < 0 \<and>
   exec_compare code_unit_compare (demo_line DeleteRemote ''p/q'') (demo_line DeleteRemote ''p'') < 0"
  by (rule execution_order_is_circular) (simp_all add: demo_line_def)

section \<open>The two comparisons agree\<close>

definition without_times :: "sync_entry \<Rightarrow> sync_entry" where
  "without_times e = e\<lparr>localModified := None, remoteModified := None\<rparr>"

lemma lines_agree: "map without_times (recursive_line d cfg rs l) =
    map without_times (local_line d (cfg\<lparr>excludePatterns := ps\<rparr>) [] rs l)"
  by (simp add: recursive_line_def local_line_def Let_def rel_path_def without_times_def compareFiles_def
      split: option.split)

text \<open>
  The recursive comparison of the dialog, written a second time, plans the same lines as the flat
  comparison without excludes on the same listings, up to their order and the timestamps shown.
\<close>

theorem recursive_agrees_with_flat:
  "mset (map without_times (compareRecursiveEntries d lc ls rs cfg)) =
   mset (map without_times (compareDirectories d ls rs [] (cfg\<lparr>excludePatterns := []\<rparr>)))"
proof -
  have "map without_times (concat (map (recursive_line d cfg rs) ls)) =
      map without_times (concat (map (local_line d (cfg\<lparr>excludePatterns := []\<rparr>) [] rs) ls))"
    by (simp add: map_concat comp_def lines_agree [where ps = "[]"])
  then show ?thesis
    unfolding compareRecursiveEntries_def compareDirectories_def mset_map mset_sort_by
    by (simp flip: mset_map)
qed

end
