(* ===== verification/Paths.thy ===== *)
theory Paths
  imports Main Prelude
begin

text \<open>
  Paths: the upload planner of \<open>src/src/lib/upload-paths.ts\<close> and the path helpers of
  \<open>src/src/lib/file-entry-types.tsx\<close>. Regular-expression replacements are written out as list
  functions. \<open>lc\<close> is \<open>localeCompare\<close>. A JavaScript \<open>Set\<close> is the list of its elements in insertion
  order.
\<close>

section \<open>Separators\<close>

definition backslash :: char where
  "backslash = CHR 0x5C"

definition slash :: char where
  "slash = CHR ''/''"

definition is_sep :: "char \<Rightarrow> bool" where
  "is_sep c \<longleftrightarrow> c = slash \<or> c = backslash"

text \<open>\<open>path.replace(/\\/g, "/")\<close>\<close>

definition to_slashes :: "string \<Rightarrow> string" where
  "to_slashes s = map (\<lambda>c. if c = backslash then slash else c) s"

text \<open>\<open>s.replace(/P+$/, "")\<close> and \<open>s.replace(/^P+/, "")\<close>\<close>

definition strip_end :: "(char \<Rightarrow> bool) \<Rightarrow> string \<Rightarrow> string" where
  "strip_end P s = rev (dropWhile P (rev s))"

text \<open>\<open>s.replace(/[\\/]+/g, sep)\<close>\<close>

fun collapse_seps :: "char \<Rightarrow> string \<Rightarrow> string" where
  "collapse_seps sep [] = []"
| "collapse_seps sep (c # cs) =
     (if is_sep c then
        (case cs of d # _ \<Rightarrow> if is_sep d then collapse_seps sep cs else sep # collapse_seps sep cs
         | [] \<Rightarrow> [sep])
      else c # collapse_seps sep cs)"

text \<open>\<open>p.split("/").filter(Boolean)\<close>\<close>

definition segments :: "string \<Rightarrow> string list" where
  "segments p = filter_truthy (js_split slash p)"

section \<open>Upload paths\<close>

definition getLocalPathBasename :: "string \<Rightarrow> string" where
  "getLocalPathBasename path =
     (let trimmed = strip_end is_sep path;
          parts = segments (to_slashes trimmed)
      in if parts = [] then trimmed else last parts)"

definition normalizeRelativeUploadPath :: "string \<Rightarrow> string" where
  "normalizeRelativeUploadPath path = js_join [slash] (segments (to_slashes path))"

definition joinRemotePath :: "string \<Rightarrow> string \<Rightarrow> string" where
  "joinRemotePath base relativePath =
     (let cleanBase = strip_end (\<lambda>c. c = slash) (to_slashes base);
          cleanRelative = normalizeRelativeUploadPath relativePath
      in if cleanRelative = [] then (if cleanBase = [] then [slash] else cleanBase)
         else if cleanBase = [] \<or> cleanBase = [slash] then slash # cleanRelative
         else cleanBase @ slash # cleanRelative)"

definition is_letter :: "char \<Rightarrow> bool" where
  "is_letter c = (let n = of_char c :: nat in (65 \<le> n \<and> n \<le> 90) \<or> (97 \<le> n \<and> n \<le> 122))"

definition joinLocalPath :: "string \<Rightarrow> string \<Rightarrow> string" where
  "joinLocalPath base relativePath =
     (let cleanBase = strip_end is_sep base;
          separator = (if backslash \<in> set base \<or>
             (case base of a # b # _ \<Rightarrow> is_letter a \<and> b = CHR '':'' | _ \<Rightarrow> False)
             then backslash else slash);
          cleanRelative = dropWhile is_sep (collapse_seps separator relativePath)
      in if cleanRelative = [] then (if cleanBase = [] then base else cleanBase)
         else if cleanBase = [] then cleanRelative
         else cleanBase @ separator # cleanRelative)"

definition remotePathDepth :: "string \<Rightarrow> nat" where
  "remotePathDepth path = length (segments path)"

record recursive_entry =
  relative_path :: string
  entry_name :: string
  entry_size :: int
  file_type :: string

record upload_input =
  up_fileName :: string
  up_sourcePath :: string
  up_destinationPath :: string
  up_totalBytes :: int

text \<open>Every input has \<open>direction: "upload"\<close>.\<close>

record upload_plan =
  directories :: "string list"
  plan_items :: "upload_input list"

definition buildFileUploadItems :: "string list \<Rightarrow> string \<Rightarrow> upload_input list" where
  "buildFileUploadItems localPaths remoteDirectory =
     map (\<lambda>localPath. let fileName = getLocalPathBasename localPath in
       \<lparr>up_fileName = fileName, up_sourcePath = localPath,
        up_destinationPath = joinRemotePath remoteDirectory fileName, up_totalBytes = 0\<rparr>) localPaths"

definition set_add :: "'a \<Rightarrow> 'a list \<Rightarrow> 'a list" where
  "set_add x xs = (if x \<in> set xs then xs else xs @ [x])"

definition depth_compare :: "(string \<Rightarrow> string \<Rightarrow> int) \<Rightarrow> string \<Rightarrow> string \<Rightarrow> int" where
  "depth_compare lc a b =
     (let depthDelta = int (remotePathDepth a) - int (remotePathDepth b)
      in if depthDelta = 0 then lc a b else depthDelta)"

definition plan_entry :: "string \<Rightarrow> string \<Rightarrow> upload_plan \<Rightarrow> recursive_entry \<Rightarrow> upload_plan" where
  "plan_entry sourceDirectory remoteRoot p e =
     (let rel = normalizeRelativeUploadPath (relative_path e) in
      if rel = [] then p
      else if file_type e = ''Directory'' then
        p\<lparr>directories := set_add (joinRemotePath remoteRoot rel) (directories p)\<rparr>
      else
        p\<lparr>plan_items := plan_items p @
          [\<lparr>up_fileName = (if getLocalPathBasename rel = [] then entry_name e else getLocalPathBasename rel),
            up_sourcePath = joinLocalPath sourceDirectory rel,
            up_destinationPath = joinRemotePath remoteRoot rel,
            up_totalBytes = entry_size e\<rparr>]\<rparr>)"

definition buildDirectoryUploadPlan ::
  "(string \<Rightarrow> string \<Rightarrow> int) \<Rightarrow> string \<Rightarrow> string \<Rightarrow> recursive_entry list \<Rightarrow> upload_plan" where
  "buildDirectoryUploadPlan lc sourceDirectory remoteParentDirectory entries =
     (let rootName = getLocalPathBasename sourceDirectory;
          remoteRoot = joinRemotePath remoteParentDirectory rootName;
          p = foldl (plan_entry sourceDirectory remoteRoot)
                \<lparr>directories = [remoteRoot], plan_items = []\<rparr> entries
      in p\<lparr>directories := sort_by (\<lambda>a b. depth_compare lc a b \<le> 0) (directories p)\<rparr>)"

record dropped_path =
  drop_path :: string
  stat_exists :: bool
  stat_is_directory :: bool
  stat_size :: int
  drop_entries :: "recursive_entry list option"

record mixed_plan =
  mix_directories :: "string list"
  mix_items :: "upload_input list"
  mix_skipped :: "string list"

definition mixed_step :: "(string \<Rightarrow> string \<Rightarrow> int) \<Rightarrow> string \<Rightarrow> mixed_plan \<Rightarrow> dropped_path \<Rightarrow> mixed_plan" where
  "mixed_step lc remoteDirectory m d =
     (if \<not> stat_exists d then m\<lparr>mix_skipped := mix_skipped m @ [drop_path d]\<rparr>
      else if stat_is_directory d then
        (let sub = buildDirectoryUploadPlan lc (drop_path d) remoteDirectory
               (case drop_entries d of Some es \<Rightarrow> es | None \<Rightarrow> [])
         in m\<lparr>mix_directories := foldl (\<lambda>ds x. set_add x ds) (mix_directories m) (directories sub),
              mix_items := mix_items m @ plan_items sub\<rparr>)
      else
        m\<lparr>mix_items := mix_items m @
          map (\<lambda>fi. fi\<lparr>up_totalBytes := stat_size d\<rparr>)
            (buildFileUploadItems [drop_path d] remoteDirectory)\<rparr>)"

definition buildMixedDropUploadPlan ::
  "(string \<Rightarrow> string \<Rightarrow> int) \<Rightarrow> dropped_path list \<Rightarrow> string \<Rightarrow> mixed_plan" where
  "buildMixedDropUploadPlan lc dropped remoteDirectory =
     (let m = foldl (mixed_step lc remoteDirectory)
            \<lparr>mix_directories = [], mix_items = [], mix_skipped = []\<rparr> dropped
      in m\<lparr>mix_directories := sort_by (\<lambda>a b. depth_compare lc a b \<le> 0) (mix_directories m)\<rparr>)"

section \<open>Panel paths\<close>

definition pathJoin :: "string \<Rightarrow> string \<Rightarrow> string" where
  "pathJoin base name = (if base = [slash] then slash # name else base @ slash # name)"

definition parentPath :: "string \<Rightarrow> string" where
  "parentPath p =
     (if p = [slash] \<or> p = [] then [slash]
      else let parts = butlast (segments p)
           in if parts = [] then [slash] else slash # js_join [slash] parts)"

text \<open>The path accumulated over the segments: \<open>acc += "/" + part\<close>.\<close>

fun crumbs :: "char \<Rightarrow> string \<Rightarrow> string list \<Rightarrow> (string \<times> string) list" where
  "crumbs sep acc [] = []"
| "crumbs sep acc (part # parts) =
     (let acc' = acc @ sep # part in (part, acc') # crumbs sep acc' parts)"

definition breadcrumbSegments :: "string \<Rightarrow> (string \<times> string) list" where
  "breadcrumbSegments p = ([slash], [slash]) # crumbs slash [] (segments p)"

text \<open>\<open>/^[A-Za-z]:$/\<close>\<close>

definition is_drive :: "string \<Rightarrow> bool" where
  "is_drive s = (case s of [a, b] \<Rightarrow> is_letter a \<and> b = CHR '':'' | _ \<Rightarrow> False)"

definition localParentPath :: "string \<Rightarrow> string" where
  "localParentPath p =
     (if p = [] \<or> p = [slash] \<or> p = [backslash] then p
      else
        let parts = segments (to_slashes p) in
        if parts \<noteq> [] \<and> is_drive (hd parts) then
          (if length parts \<le> 1 then hd parts @ [backslash]
           else
             let parts' = butlast parts in
             if length parts' = 1 then hd parts' @ [backslash]
             else hd parts' @ backslash # js_join [backslash] (tl parts'))
        else
          let parts' = butlast parts in
          if parts' = [] then [slash] else slash # js_join [slash] parts')"

definition localBreadcrumbSegments :: "string \<Rightarrow> (string \<times> string) list" where
  "localBreadcrumbSegments p =
     (let parts = segments (to_slashes p) in
      if parts \<noteq> [] \<and> is_drive (hd parts)
      then (hd parts @ [backslash], hd parts @ [backslash]) # crumbs backslash (hd parts) (tl parts)
      else ([slash], [slash]) # crumbs slash [] parts)"

end
