(* ===== verification/PathProps.thy ===== *)
theory PathProps
  imports Paths
begin

text \<open>
  Properties of the path helpers and the upload planner.
\<close>

section \<open>Segments\<close>

lemma segments_append: "segments (a @ slash # b) = segments a @ segments b"
  by (simp add: segments_def js_split_append2)

lemma segments_Nil [simp]: "segments [] = []"
  by (simp add: segments_def filter_truthy_def)

lemma segments_slashes: "\<forall>c \<in> set s. c = slash \<Longrightarrow> segments s = []"
proof (induction s)
  case Nil
  then show ?case by simp
next
  case (Cons c s)
  then show ?case using segments_append [of "[]" s] by simp
qed

lemma segments_append_slashes:
  assumes "\<forall>c \<in> set t. c = slash" shows "segments (a @ t) = segments a"
proof (cases t)
  case (Cons c t')
  then show ?thesis using assms segments_append [of a t'] segments_slashes [of t'] by simp
qed simp

lemma strip_end_append: "\<exists>t. s = strip_end P s @ t \<and> (\<forall>c \<in> set t. P c)"
proof -
  have "s = strip_end P s @ rev (takeWhile P (rev s))"
    unfolding strip_end_def by (metis rev_append rev_rev_ident takeWhile_dropWhile_id)
  then show ?thesis using set_takeWhileD [of _ P "rev s"] by (metis set_rev)
qed

lemma segments_strip_end [simp]: "segments (strip_end (\<lambda>c. c = slash) s) = segments s"
proof -
  obtain t where t: "s = strip_end (\<lambda>c. c = slash) s @ t" "\<forall>c \<in> set t. c = slash"
    using strip_end_append [of s "\<lambda>c. c = slash"] by auto
  then show ?thesis using segments_append_slashes [OF t(2)] by metis
qed

lemma segments_good: "w \<in> set (segments p) \<Longrightarrow> w \<noteq> [] \<and> slash \<notin> set w"
  using js_split_no_sep [of w slash p] by (auto simp: segments_def filter_truthy_def)

lemma segments_join:
  assumes "\<And>w. w \<in> set ws \<Longrightarrow> w \<noteq> [] \<and> slash \<notin> set w"
  shows "segments (js_join [slash] ws) = ws"
proof (cases "ws = []")
  case False
  then show ?thesis
    using assms js_split_join [of ws slash] by (auto simp: segments_def filter_truthy_id)
qed simp

lemma segments_join_segments [simp]: "segments (js_join [slash] (segments p)) = segments p"
  by (rule segments_join) (rule segments_good)

lemma segments_slash_Cons [simp]: "segments (slash # s) = segments s"
  using segments_append [of "[]" s] by simp

lemma segments_single: "n \<noteq> [] \<Longrightarrow> slash \<notin> set n \<Longrightarrow> segments n = [n]"
  using segments_join [of "[n]"] by simp

lemma join_eq_Nil: "(\<And>w. w \<in> set ws \<Longrightarrow> w \<noteq> []) \<Longrightarrow> js_join sep ws = [] \<longleftrightarrow> ws = []"
  by (cases "(sep, ws)" rule: js_join.cases) auto

lemma normalize_segments: "segments (normalizeRelativeUploadPath p) = segments (to_slashes p)"
  by (simp add: normalizeRelativeUploadPath_def)

lemma normalize_Nil: "normalizeRelativeUploadPath p = [] \<longleftrightarrow> segments (to_slashes p) = []"
  unfolding normalizeRelativeUploadPath_def by (rule join_eq_Nil) (use segments_good in blast)

lemma to_slashes_id: "backslash \<notin> set p \<Longrightarrow> to_slashes p = p"
  unfolding to_slashes_def by (induction p) auto

lemma to_slashes_clean [simp]: "backslash \<notin> set (to_slashes p)"
  by (auto simp: to_slashes_def slash_def backslash_def)

lemma set_join: "set (js_join sep ws) \<subseteq> set sep \<union> \<Union> (set ` set ws)"
  by (induction sep ws rule: js_join.induct) auto

lemma set_split: "set (js_join [c] (js_split c s)) = set s"
  by simp

lemma segments_chars: "w \<in> set (segments p) \<Longrightarrow> set w \<subseteq> set p"
proof -
  assume "w \<in> set (segments p)"
  then have "w \<in> set (js_split slash p)" by (simp add: segments_def filter_truthy_def)
  moreover have "v \<in> set (js_split c s) \<Longrightarrow> set v \<subseteq> set s" for v c and s :: string
    by (induction s arbitrary: v) (auto split: if_splits list.splits, force+)
  ultimately show ?thesis by blast
qed

lemma normalize_clean: "backslash \<notin> set (normalizeRelativeUploadPath p)"
proof
  assume "backslash \<in> set (normalizeRelativeUploadPath p)"
  then have "backslash \<in> {slash} \<union> \<Union> (set ` set (segments (to_slashes p)))"
    using set_join [of "[slash]" "segments (to_slashes p)"] by (auto simp: normalizeRelativeUploadPath_def)
  then show False
    using segments_chars [of _ "to_slashes p"] to_slashes_clean [of p]
    by (auto simp: slash_def backslash_def)
qed

lemma normalize_idem: "normalizeRelativeUploadPath (normalizeRelativeUploadPath p) = normalizeRelativeUploadPath p"
  using normalize_segments [of p] to_slashes_id [OF normalize_clean [of p]]
  by (simp add: normalizeRelativeUploadPath_def)

lemma strip_end_subset: "set (strip_end P s) \<subseteq> set s"
  using set_dropWhileD [of _ P "rev s"] by (auto simp: strip_end_def)

lemma joinRemotePath_segments:
  "segments (joinRemotePath base rel) = segments (to_slashes base) @ segments (to_slashes rel) \<and>
   backslash \<notin> set (joinRemotePath base rel) \<and> joinRemotePath base rel \<noteq> []"
proof -
  let ?b = "strip_end (\<lambda>c. c = slash) (to_slashes base)" and ?r = "normalizeRelativeUploadPath rel"
  have b: "segments ?b = segments (to_slashes base)" by simp
  have clean: "backslash \<notin> set ?b" "backslash \<notin> set ?r" "backslash \<noteq> slash"
    using strip_end_subset [of "\<lambda>c. c = slash" "to_slashes base"] to_slashes_clean [of base]
      normalize_clean [of rel] by (auto simp: slash_def backslash_def)
  have "segments (joinRemotePath base rel) = segments ?b @ segments ?r"
    using normalize_Nil [of rel] normalize_segments [of rel]
    by (auto simp: joinRemotePath_def Let_def segments_append simp del: segments_strip_end)
  then show ?thesis
    using clean by (simp add: b normalize_segments) (simp add: joinRemotePath_def Let_def)
qed

text \<open>
  Remote upload paths are built correctly whatever separators the local system uses: the result
  never contains a backslash, names exactly the components of the base followed by those of the
  relative path (empty ones dropped), and is never empty.
\<close>

theorem joinRemotePath_correct:
  "segments (joinRemotePath base rel) = segments (to_slashes base) @ segments (to_slashes rel) \<and>
   backslash \<notin> set (joinRemotePath base rel) \<and> joinRemotePath base rel \<noteq> []"
  by (rule joinRemotePath_segments)

section \<open>Directory plans\<close>

lemma depth_preference: "collates lc \<Longrightarrow> preference (\<lambda>a b. depth_compare lc a b \<le> 0)"
proof -
  assume lc: "collates lc"
  let ?r = "\<lambda>x. int (remotePathDepth x)"
  have "depth_compare lc = (\<lambda>a b. if ?r a - ?r b \<noteq> 0 then ?r a - ?r b else lc a b)"
    by (intro ext) (simp add: depth_compare_def Let_def)
  then show ?thesis using preference_rank_then_collate [OF lc, of ?r "\<lambda>x. x"] by simp
qed

lemma depth_le: "depth_compare lc a b \<le> 0 \<Longrightarrow> remotePathDepth a \<le> remotePathDepth b"
  by (auto simp: depth_compare_def Let_def split: if_splits)

lemma sorted_depth:
  assumes "collates lc" "i < j" "j < length xs"
  shows "remotePathDepth (sort_by (\<lambda>a b. depth_compare lc a b \<le> 0) xs ! i) \<le>
    remotePathDepth (sort_by (\<lambda>a b. depth_compare lc a b \<le> 0) xs ! j)"
proof -
  have "sorted_wrt (\<lambda>a b. depth_compare lc a b \<le> 0) (sort_by (\<lambda>a b. depth_compare lc a b \<le> 0) xs)"
    by (rule preference.sort_by_sorted [OF depth_preference [OF assms(1)]])
  then have "depth_compare lc (sort_by (\<lambda>a b. depth_compare lc a b \<le> 0) xs ! i)
      (sort_by (\<lambda>a b. depth_compare lc a b \<le> 0) xs ! j) \<le> 0"
    using assms(2,3) by (simp add: sorted_wrt_iff_nth_less)
  then show ?thesis by (rule depth_le)
qed

lemma set_add_simps [simp]: "set (set_add x xs) = insert x (set xs)" "distinct (set_add x xs) = distinct xs"
  by (auto simp: set_add_def)

text \<open>Lying below a remote root: the components of the path extend those of the root.\<close>

definition below :: "string \<Rightarrow> string \<Rightarrow> bool" where
  "below root p \<longleftrightarrow> prefix (segments (to_slashes root)) (segments p)"

lemma below_join: "below root (joinRemotePath root rel)"
  using joinRemotePath_segments by (simp add: below_def)

lemma plan_fold:
  assumes "distinct (directories p)" "\<forall>d \<in> set (directories p). below root d"
    "\<forall>x \<in> set (plan_items p). below root (up_destinationPath x)"
  shows "distinct (directories (foldl (plan_entry src root) p es)) \<and>
    set (directories p) \<subseteq> set (directories (foldl (plan_entry src root) p es)) \<and>
    (\<forall>d \<in> set (directories (foldl (plan_entry src root) p es)). below root d) \<and>
    (\<forall>x \<in> set (plan_items (foldl (plan_entry src root) p es)). below root (up_destinationPath x))"
  using assms
proof (induction es arbitrary: p)
  case Nil
  then show ?case by simp
next
  case (Cons e es)
  have "distinct (directories (plan_entry src root p e))"
    "\<forall>d \<in> set (directories (plan_entry src root p e)). below root d"
    "\<forall>x \<in> set (plan_items (plan_entry src root p e)). below root (up_destinationPath x)"
    "set (directories p) \<subseteq> set (directories (plan_entry src root p e))"
    using Cons.prems below_join by (auto simp: plan_entry_def Let_def)
  with Cons.IH [of "plan_entry src root p e"] show ?case by auto
qed

text \<open>
  The plan for uploading a folder: the remote folder itself is among the directories to create,
  each directory once; a directory is created only after every directory above it; every directory
  and every uploaded file lies below the remote folder.
\<close>

theorem directory_plan_correct:
  assumes lc: "collates lc"
  shows "let p = buildDirectoryUploadPlan lc src parent es;
             root = joinRemotePath parent (getLocalPathBasename src)
    in root \<in> set (directories p) \<and> distinct (directories p) \<and>
       (\<forall>j < length (directories p). \<forall>i < j.
          remotePathDepth (directories p ! i) \<le> remotePathDepth (directories p ! j)) \<and>
       (\<forall>d \<in> set (directories p). below root d) \<and>
       (\<forall>x \<in> set (plan_items p). below root (up_destinationPath x))"
proof -
  let ?root = "joinRemotePath parent (getLocalPathBasename src)"
  let ?f = "foldl (plan_entry src ?root) \<lparr>directories = [?root], plan_items = []\<rparr> es"
  have root: "below ?root ?root"
    using joinRemotePath_segments [of parent "getLocalPathBasename src"]
    by (simp add: below_def to_slashes_id)
  have "distinct (directories ?f) \<and>
    set (directories \<lparr>directories = [?root], plan_items = []\<rparr>) \<subseteq> set (directories ?f) \<and>
    (\<forall>d \<in> set (directories ?f). below ?root d) \<and>
    (\<forall>x \<in> set (plan_items ?f). below ?root (up_destinationPath x))"
    by (rule plan_fold) (simp_all add: root)
  then have f: "distinct (directories ?f)" "?root \<in> set (directories ?f)"
    "\<forall>d \<in> set (directories ?f). below ?root d"
    "\<forall>x \<in> set (plan_items ?f). below ?root (up_destinationPath x)"
    by simp_all
  let ?p = "buildDirectoryUploadPlan lc src parent es"
  have d: "directories ?p = sort_by (\<lambda>a b. depth_compare lc a b \<le> 0) (directories ?f)"
    and x: "plan_items ?p = plan_items ?f"
    by (simp_all add: buildDirectoryUploadPlan_def Let_def)
  have "\<forall>j < length (directories ?p). \<forall>i < j.
      remotePathDepth (directories ?p ! i) \<le> remotePathDepth (directories ?p ! j)"
    unfolding d length_sort_by using sorted_depth [OF lc] by blast
  moreover have "set (directories ?p) = set (directories ?f)" "distinct (directories ?p) = distinct (directories ?f)"
    unfolding d by simp_all
  ultimately show ?thesis unfolding Let_def x using f by blast
qed

lemma directory_plan_correct_witness:
  "distinct (directories (buildDirectoryUploadPlan code_unit_compare ''/home/u/d'' ''/srv''
     [\<lparr>relative_path = ''x'', entry_name = ''x'', entry_size = 0, file_type = ''Directory''\<rparr>]))"
  using directory_plan_correct [OF code_unit_collates] by (simp add: Let_def)

section \<open>Mixed drops\<close>

lemma fold_set_add:
  "set (foldl (\<lambda>ds x. set_add x ds) ds xs) = set ds \<union> set xs"
  "distinct (foldl (\<lambda>ds x. set_add x ds) ds xs) = distinct ds"
  by (induction xs arbitrary: ds) auto

text \<open>What one dropped path contributes.\<close>

fun mixed_skip :: "dropped_path \<Rightarrow> string list" where
  "mixed_skip d = (if stat_exists d then [] else [drop_path d])"

definition mixed_files :: "(string \<Rightarrow> string \<Rightarrow> int) \<Rightarrow> string \<Rightarrow> dropped_path \<Rightarrow> upload_input list" where
  "mixed_files lc remote d =
     (if \<not> stat_exists d then []
      else if stat_is_directory d then
        plan_items (buildDirectoryUploadPlan lc (drop_path d) remote (case drop_entries d of Some es \<Rightarrow> es | None \<Rightarrow> []))
      else [\<lparr>up_fileName = getLocalPathBasename (drop_path d), up_sourcePath = drop_path d,
             up_destinationPath = joinRemotePath remote (getLocalPathBasename (drop_path d)),
             up_totalBytes = stat_size d\<rparr>])"

definition mixed_dirs :: "(string \<Rightarrow> string \<Rightarrow> int) \<Rightarrow> string \<Rightarrow> dropped_path \<Rightarrow> string list" where
  "mixed_dirs lc remote d =
     (if stat_exists d \<and> stat_is_directory d then
        directories (buildDirectoryUploadPlan lc (drop_path d) remote (case drop_entries d of Some es \<Rightarrow> es | None \<Rightarrow> []))
      else [])"

lemma mixed_step_parts:
  "mix_skipped (mixed_step lc r m d) = mix_skipped m @ mixed_skip d"
  "mix_items (mixed_step lc r m d) = mix_items m @ mixed_files lc r d"
  "set (mix_directories (mixed_step lc r m d)) = set (mix_directories m) \<union> set (mixed_dirs lc r d)"
  "distinct (mix_directories (mixed_step lc r m d)) = distinct (mix_directories m)"
  by (simp_all add: mixed_step_def mixed_files_def mixed_dirs_def buildFileUploadItems_def Let_def fold_set_add)

lemma mixed_fold:
  "mix_skipped (foldl (mixed_step lc r) m ds) = mix_skipped m @ concat (map mixed_skip ds)"
  "mix_items (foldl (mixed_step lc r) m ds) = mix_items m @ concat (map (mixed_files lc r) ds)"
  "set (mix_directories (foldl (mixed_step lc r) m ds)) =
     set (mix_directories m) \<union> (\<Union>d \<in> set ds. set (mixed_dirs lc r d))"
  "distinct (mix_directories (foldl (mixed_step lc r) m ds)) = distinct (mix_directories m)"
  by (induction ds arbitrary: m) (auto simp: mixed_step_parts simp del: mixed_skip.simps)

text \<open>
  A mixed drop loses nothing: paths that vanished are exactly the skipped ones; every file yields
  one upload under its base name with its size, every folder the uploads of its own plan, in the
  order of the drop; the directories to create are exactly those of the folders' plans, each once,
  parents before children.
\<close>

theorem mixed_plan_correct:
  assumes lc: "collates lc"
  shows "let p = buildMixedDropUploadPlan lc ds remote
    in mix_skipped p = map drop_path (filter (\<lambda>d. \<not> stat_exists d) ds) \<and>
       mix_items p = concat (map (mixed_files lc remote) ds) \<and>
       set (mix_directories p) = (\<Union>d \<in> set ds. set (mixed_dirs lc remote d)) \<and>
       distinct (mix_directories p) \<and>
       (\<forall>j < length (mix_directories p). \<forall>i < j.
          remotePathDepth (mix_directories p ! i) \<le> remotePathDepth (mix_directories p ! j))"
proof -
  have "concat (map mixed_skip ds) = map drop_path (filter (\<lambda>d. \<not> stat_exists d) ds)"
    by (induction ds) auto
  then show ?thesis
    unfolding buildMixedDropUploadPlan_def Let_def
    by (intro conjI allI impI) (simp_all add: mixed_fold sorted_depth [OF lc] del: mixed_skip.simps)
qed

lemma mixed_plan_correct_witness:
  "mix_skipped (buildMixedDropUploadPlan code_unit_compare
     [\<lparr>drop_path = ''/a'', stat_exists = False, stat_is_directory = False, stat_size = 0, drop_entries = None\<rparr>] ''/srv'')
   = [''/a'']"
  using mixed_plan_correct [OF code_unit_collates] by (simp add: Let_def)

section \<open>Panel paths\<close>

text \<open>The canonical form of an absolute path.\<close>

definition canonical :: "string \<Rightarrow> string" where
  "canonical p = slash # js_join [slash] (segments p)"

lemma parent_canonical:
  "parentPath p = slash # js_join [slash] (butlast (segments p))"
  by (auto simp: parentPath_def Let_def)

lemma segments_pathJoin: "segments (pathJoin base n) = segments base @ segments n"
  by (auto simp: pathJoin_def segments_append)

text \<open>The first \<open>k\<close> segments as a path, one segment at a time.\<close>

lemma crumbs_length [simp]: "length (crumbs sep acc ws) = length ws"
  by (induction sep acc ws rule: crumbs.induct) (auto simp: Let_def)

lemma join_Cons_acc: "ws \<noteq> [] \<Longrightarrow> sep @ js_join sep ws = concat (map (\<lambda>w. sep @ w) ws)"
  by (induction sep ws rule: js_join.induct) auto

lemma crumbs_nth:
  "i < length ws \<Longrightarrow> crumbs sep acc ws ! i = (ws ! i, acc @ concat (map (\<lambda>w. sep # w) (take (Suc i) ws)))"
proof (induction sep acc ws arbitrary: i rule: crumbs.induct)
  case (2 sep acc w ws)
  then show ?case by (cases i) (auto simp: Let_def)
qed simp

lemma crumb_path:
  assumes "i < length (segments p)"
  shows "breadcrumbSegments p ! Suc i = (segments p ! i, slash # js_join [slash] (take (Suc i) (segments p)))"
proof -
  have ne: "take (Suc i) (segments p) \<noteq> []" using assms by auto
  have "concat (map (\<lambda>w. slash # w) (take (Suc i) (segments p))) =
      slash # js_join [slash] (take (Suc i) (segments p))"
    using join_Cons_acc [OF ne, of "[slash]"] by simp
  then show ?thesis using assms by (simp add: breadcrumbSegments_def crumbs_nth)
qed

text \<open>
  Navigation is consistent: the parent of a joined path is the canonical base; along the breadcrumb
  trail of a path each crumb's parent is the crumb before it, the trail starts at the root, has one
  crumb per component and ends at the path itself.
\<close>

theorem panel_navigation:
  assumes "n \<noteq> []" "slash \<notin> set n"
  shows "parentPath (pathJoin base n) = canonical base \<and>
    length (breadcrumbSegments p) = Suc (length (segments p)) \<and>
    snd (last (breadcrumbSegments p)) = canonical p \<and>
    (\<forall>i < length (segments p). parentPath (snd (breadcrumbSegments p ! Suc i)) = snd (breadcrumbSegments p ! i))"
proof (intro conjI allI impI)
  show "parentPath (pathJoin base n) = canonical base"
    by (simp add: parent_canonical segments_pathJoin segments_single [OF assms] canonical_def)
  show len: "length (breadcrumbSegments p) = Suc (length (segments p))"
    by (simp add: breadcrumbSegments_def)
  show "snd (last (breadcrumbSegments p)) = canonical p"
  proof (cases "segments p = []")
    case True
    then show ?thesis by (simp add: breadcrumbSegments_def canonical_def)
  next
    case False
    then have "last (breadcrumbSegments p) = breadcrumbSegments p ! Suc (length (segments p) - 1)"
      using len by (metis One_nat_def Suc_pred diff_Suc_1 last_conv_nth length_0_conv length_greater_0_conv nat.simps(3))
    then show ?thesis using False crumb_path [of "length (segments p) - 1" p] by (simp add: canonical_def)
  qed
  show "parentPath (snd (breadcrumbSegments p ! Suc i)) = snd (breadcrumbSegments p ! i)"
    if i: "i < length (segments p)" for i
  proof -
    have good: "w \<noteq> [] \<and> slash \<notin> set w" if "w \<in> set (take (Suc i) (segments p))" for w
      using that segments_good in_set_takeD by fast
    have "segments (snd (breadcrumbSegments p ! Suc i)) = take (Suc i) (segments p)"
      using crumb_path [OF i] segments_join [OF good] by simp
    then have "parentPath (snd (breadcrumbSegments p ! Suc i)) = slash # js_join [slash] (take i (segments p))"
      using i by (simp add: parent_canonical take_Suc_conv_app_nth)
    also have "\<dots> = snd (breadcrumbSegments p ! i)"
    proof (cases i)
      case 0
      then show ?thesis by (simp add: breadcrumbSegments_def)
    next
      case (Suc k)
      then show ?thesis using crumb_path [of k p] i by simp
    qed
    finally show ?thesis .
  qed
qed

lemma panel_navigation_witness: "parentPath (pathJoin ''/srv'' ''www'') = canonical ''/srv''"
  using panel_navigation [of "''www''" "''/srv''" "''/''"] by (simp add: slash_def)

text \<open>
  Windows drives: going up from a path below a drive letter stays on that drive, and at the top of
  the drive stays there; the trail of such a path starts at the drive. On paths without a drive or
  backslashes the local helpers agree with the remote ones.
\<close>

theorem local_parent_correct:
  "(segments (to_slashes p) \<noteq> [] \<and> is_drive (hd (segments (to_slashes p))) \<longrightarrow>
      (\<exists>rest. localParentPath p = hd (segments (to_slashes p)) @ backslash # rest) \<and>
      snd (hd (localBreadcrumbSegments p)) = hd (segments (to_slashes p)) @ [backslash]) \<and>
   (backslash \<notin> set p \<and> p \<noteq> [] \<and> (segments p = [] \<or> \<not> is_drive (hd (segments p))) \<longrightarrow>
      localParentPath p = parentPath p \<and> localBreadcrumbSegments p = breadcrumbSegments p)"
proof (intro conjI impI)
  assume d: "segments (to_slashes p) \<noteq> [] \<and> is_drive (hd (segments (to_slashes p)))"
  have "p \<noteq> []" "p \<noteq> [slash]" "p \<noteq> [backslash]"
    using d by (auto simp: to_slashes_def)
  moreover have "hd (butlast (segments (to_slashes p))) = hd (segments (to_slashes p))"
    if "\<not> length (segments (to_slashes p)) \<le> 1"
    using that by (cases "segments (to_slashes p)") auto
  ultimately show "\<exists>rest. localParentPath p = hd (segments (to_slashes p)) @ backslash # rest"
    using d by (auto simp: localParentPath_def Let_def)
  show "snd (hd (localBreadcrumbSegments p)) = hd (segments (to_slashes p)) @ [backslash]"
    using d by (simp add: localBreadcrumbSegments_def Let_def)
next
  assume a: "backslash \<notin> set p \<and> p \<noteq> [] \<and> (segments p = [] \<or> \<not> is_drive (hd (segments p)))"
  then have p: "to_slashes p = p" "p \<noteq> [backslash]" by (auto simp: to_slashes_id)
  then show "localParentPath p = parentPath p"
    using a by (auto simp: localParentPath_def parentPath_def Let_def)
  show "localBreadcrumbSegments p = breadcrumbSegments p"
    using a p by (auto simp: localBreadcrumbSegments_def breadcrumbSegments_def Let_def)
qed

definition demo_windows :: string where
  "demo_windows = ''C:'' @ backslash # ''u''"

lemma local_parent_correct_witness:
  "snd (hd (localBreadcrumbSegments demo_windows)) = ''C:'' @ [backslash]"
proof -
  have "segments (to_slashes demo_windows) \<noteq> [] \<and> is_drive (hd (segments (to_slashes demo_windows)))"
    "hd (segments (to_slashes demo_windows)) = ''C:''" by code_simp+
  then show ?thesis using local_parent_correct [of demo_windows] by simp
qed

end
