(* ===== verification/AsyncRetry.thy ===== *)
theory AsyncRetry
  imports Prelude
begin

text \<open>
  Retry with exponential backoff and cancellation: \<open>src/src/lib/async-retry.ts\<close>.

  Time is in milliseconds. The environment is given by two functions: \<open>fn n t\<close>, what the \<open>n\<close>-th call
  of \<open>fn\<close>, started at \<open>t\<close>, comes to and how long it takes, and \<open>canc t\<close>, the value of \<open>isCancelled()\<close>
  at \<open>t\<close>. The log records the calls of \<open>fn\<close> and of \<open>onRetry\<close>.
\<close>

section \<open>The loop\<close>

datatype ('a, 'e) attempt = Value 'a | Error 'e | CancelledErr

datatype ('a, 'e) retry_result = Returned 'a | Rethrown "'e option" | CancelledError

datatype 'e retry_event = Attempt nat int | OnRetry nat 'e int

text \<open>
  \<open>cancellableSleep\<close>: the time at which it resolves, the first poll (every 200 ms) that sees the
  cancellation, else the end of the delay.
\<close>

definition cancellableSleep :: "int \<Rightarrow> (int \<Rightarrow> bool) \<Rightarrow> int \<Rightarrow> int" where
  "cancellableSleep ms canc t =
     (case find (\<lambda>k. canc (t + 200 * k)) [1..ms div 200] of
        Some k \<Rightarrow> t + 200 * k
      | None \<Rightarrow> t + max 0 ms)"

text \<open>Re-throwing \<open>lastError\<close>, which is undefined when the loop made no attempt.\<close>

function retry_loop ::
  "(nat \<Rightarrow> int \<Rightarrow> ('a, 'e) attempt \<times> int) \<Rightarrow> (int \<Rightarrow> bool) \<Rightarrow> int \<Rightarrow> int \<Rightarrow> nat \<Rightarrow> int \<Rightarrow> 'e option \<Rightarrow>
     ('a, 'e) retry_result \<times> 'e retry_event list" where
  "retry_loop fn canc maxRetries base attempt t lastError =
     (if \<not> int attempt \<le> maxRetries then (Rethrown lastError, [])
      else if canc t then (CancelledError, [])
      else
        (case fn attempt t of
           (Value v, d) \<Rightarrow>
             ((if canc (t + d) then CancelledError else Returned v), [Attempt attempt t])
         | (CancelledErr, d) \<Rightarrow> (CancelledError, [Attempt attempt t])
         | (Error e, d) \<Rightarrow>
             if int attempt = maxRetries then (Rethrown (Some e), [Attempt attempt t])
             else
               let delay = base * 2 ^ attempt;
                   t' = cancellableSleep delay canc (t + d);
                   r = retry_loop fn canc maxRetries base (Suc attempt) t' (Some e)
               in (fst r, Attempt attempt t # OnRetry (attempt + 1) e delay # snd r)))"
  by pat_completeness auto
termination
  by (relation "measure (\<lambda>(fn, canc, maxRetries, base, attempt, t, e). nat (maxRetries + 1 - int attempt))")
    auto

declare retry_loop.simps [simp del]

definition withRetry ::
  "(nat \<Rightarrow> int \<Rightarrow> ('a, 'e) attempt \<times> int) \<Rightarrow> (int \<Rightarrow> bool) \<Rightarrow> int option \<Rightarrow> int option \<Rightarrow> int \<Rightarrow>
     ('a, 'e) retry_result \<times> 'e retry_event list" where
  "withRetry fn canc maxRetries baseDelayMs t =
     retry_loop fn canc (case maxRetries of Some n \<Rightarrow> n | None \<Rightarrow> 3)
       (case baseDelayMs of Some n \<Rightarrow> n | None \<Rightarrow> 1000) 0 t None"

section \<open>Properties\<close>

text \<open>The calls of \<open>fn\<close> and of \<open>onRetry\<close> in a log.\<close>

fun attempts :: "'e retry_event list \<Rightarrow> (nat \<times> int) list" where
  "attempts [] = []"
| "attempts (Attempt n t # es) = (n, t) # attempts es"
| "attempts (OnRetry n e d # es) = attempts es"

fun retries :: "'e retry_event list \<Rightarrow> (nat \<times> int) list" where
  "retries [] = []"
| "retries (Attempt n t # es) = retries es"
| "retries (OnRetry n e d # es) = (n, d) # retries es"

lemma loop_numbers:
  "map fst (attempts (snd (retry_loop fn canc m b a t e))) =
     [a..<a + length (attempts (snd (retry_loop fn canc m b a t e)))] \<and>
   int (a + length (attempts (snd (retry_loop fn canc m b a t e)))) \<le> max (int a) (m + 1) \<and>
   retries (snd (retry_loop fn canc m b a t e)) =
     map (\<lambda>k. (k + 1, b * 2 ^ k)) [a..<a + length (retries (snd (retry_loop fn canc m b a t e)))]"
proof (induction fn canc m b a t e rule: retry_loop.induct)
  case (1 fn canc m b a t e)
  show ?case
  proof (cases "int a \<le> m \<and> \<not> canc t \<and> (\<exists>x d. fn a t = (Error x, d)) \<and> int a \<noteq> m")
    case True
    then obtain x d where f: "fn a t = (Error x, d)" by blast
    let ?t = "cancellableSleep (b * 2 ^ a) canc (t + d)"
    let ?r = "retry_loop fn canc m b (Suc a) ?t (Some x)"
    have r: "retry_loop fn canc m b a t e =
        (fst ?r, Attempt a t # OnRetry (a + 1) x (b * 2 ^ a) # snd ?r)"
      using True f by (subst retry_loop.simps) (simp add: Let_def)
    have ih: "map fst (attempts (snd ?r)) = [Suc a..<Suc a + length (attempts (snd ?r))]"
      "int (Suc a + length (attempts (snd ?r))) \<le> max (int (Suc a)) (m + 1)"
      "retries (snd ?r) = map (\<lambda>k. (k + 1, b * 2 ^ k)) [Suc a..<Suc a + length (retries (snd ?r))]"
      using "1.IH" True f by auto
    have u: "[a..<a + Suc n] = a # [Suc a..<Suc a + n]" for n
      by (simp add: upt_conv_Cons)
    show ?thesis
      unfolding r snd_conv attempts.simps retries.simps list.map list.size(4) fst_conv add_0_right
        add_Suc_right add_Suc_shift [symmetric]
      using ih u [of "length (attempts (snd ?r))"] u [of "length (retries (snd ?r))"] True
      by simp
  next
    case False
    then have "snd (retry_loop fn canc m b a t e) = [] \<or>
        int a \<le> m \<and> snd (retry_loop fn canc m b a t e) = [Attempt a t]"
      by (auto simp: retry_loop.simps [of fn canc m b a t e] split: prod.split attempt.split)
    then show ?thesis by (elim disjE) auto
  qed
qed

text \<open>
  The retry discipline: \<open>withRetry\<close> calls \<open>fn\<close> at most \<open>maxRetries + 1\<close> times (4 by default), numbers
  its attempts in order, and announces each retry \<open>k + 1\<close> with the delay \<open>baseDelayMs * 2^k\<close>.
\<close>

theorem retry_bounded:
  "let log = snd (withRetry fn canc maxRetries baseDelayMs t);
       m = (case maxRetries of Some n \<Rightarrow> n | None \<Rightarrow> 3);
       b = (case baseDelayMs of Some n \<Rightarrow> n | None \<Rightarrow> 1000)
   in map fst (attempts log) = [0..<length (attempts log)] \<and>
      int (length (attempts log)) \<le> max 0 (m + 1) \<and>
      retries log = map (\<lambda>k. (k + 1, b * 2 ^ k)) [0..<length (retries log)]"
  unfolding withRetry_def Let_def
  using loop_numbers [of fn canc _ _ 0] by simp

text \<open>What the outcome says about the attempts; \<open>lastError\<close> is what the loop starts with.\<close>

definition outcome_ok ::
  "(nat \<Rightarrow> int \<Rightarrow> ('a, 'e) attempt \<times> int) \<Rightarrow> (int \<Rightarrow> bool) \<Rightarrow> int \<Rightarrow> nat \<Rightarrow> 'e option \<Rightarrow>
     ('a, 'e) retry_result \<times> 'e retry_event list \<Rightarrow> bool" where
  "outcome_ok fn canc m a lastError r \<longleftrightarrow>
     (let as = attempts (snd r) in
      (\<forall>(n, t) \<in> set as. \<not> canc t) \<and>
      (\<forall>(n, t) \<in> set (butlast as). \<exists>e d. fn n t = (Error e, d)) \<and>
      (case fst r of
         Returned v \<Rightarrow> as \<noteq> [] \<and> (\<exists>d. fn (fst (last as)) (snd (last as)) = (Value v, d) \<and>
            \<not> canc (snd (last as) + d))
       | Rethrown e \<Rightarrow>
           (if as = [] then m < int a \<and> e = lastError
            else int a + int (length as) = m + 1 \<and>
              (\<exists>x d. e = Some x \<and> fn (fst (last as)) (snd (last as)) = (Error x, d)))
       | CancelledError \<Rightarrow> (\<exists>t. canc t) \<or>
           (as \<noteq> [] \<and> (\<exists>d. fn (fst (last as)) (snd (last as)) = (CancelledErr, d)))))"

lemma loop_outcome: "outcome_ok fn canc m a e (retry_loop fn canc m b a t e)"
proof (induction fn canc m b a t e rule: retry_loop.induct)
  case (1 fn canc m b a t e)
  show ?case
  proof (cases "int a \<le> m \<and> \<not> canc t \<and> (\<exists>x d. fn a t = (Error x, d)) \<and> int a \<noteq> m")
    case True
    then obtain x d where f: "fn a t = (Error x, d)" by blast
    let ?t = "cancellableSleep (b * 2 ^ a) canc (t + d)"
    let ?r = "retry_loop fn canc m b (Suc a) ?t (Some x)"
    have r: "retry_loop fn canc m b a t e =
        (fst ?r, Attempt a t # OnRetry (a + 1) x (b * 2 ^ a) # snd ?r)"
      using True f by (subst retry_loop.simps) (simp add: Let_def)
    have ih: "outcome_ok fn canc m (Suc a) (Some x) ?r" using "1.IH" True f by auto
    obtain res log where rl: "?r = (res, log)" by (cases ?r)
    have "\<not> (attempts log = [] \<and> m < int (Suc a) \<and> int a < m)" by linarith
    then show ?thesis
      unfolding r using ih True f
      by (cases "attempts log = []"; cases res)
        (auto simp: outcome_ok_def rl Let_def)
  next
    case False
    then show ?thesis
      by (auto simp: outcome_ok_def retry_loop.simps [of fn canc m b a t e] Let_def
          split: prod.split attempt.split)
  qed
qed

text \<open>
  The outcome of \<open>withRetry\<close> is accounted for: no call of \<open>fn\<close> starts once the caller is stale;
  every call but the last failed with a genuine error; a value returned is the last call's, and the
  caller was not stale when it came; an error re-thrown is the last call's, after exactly
  \<open>maxRetries + 1\<close> calls; \<open>CancelledError\<close> means the caller was stale or \<open>fn\<close> was cancelled itself.
\<close>

theorem retry_outcome:
  "outcome_ok fn canc (case maxRetries of Some n \<Rightarrow> n | None \<Rightarrow> 3) 0 None
     (withRetry fn canc maxRetries baseDelayMs t)"
  unfolding withRetry_def by (rule loop_outcome)

lemma find_upto_first:
  assumes "find P [1..n] = Some k"
  shows "1 \<le> k \<and> k \<le> n \<and> P k \<and> (\<forall>j. 1 \<le> j \<longrightarrow> j < k \<longrightarrow> \<not> P j)"
proof -
  obtain i where i: "i < length [1..n]" "P ([1..n] ! i)" "k = [1..n] ! i" "\<forall>j < i. \<not> P ([1..n] ! j)"
    using assms unfolding find_Some_iff by blast
  then have k: "k = 1 + int i" "1 + int i \<le> n" by (auto simp: nth_upto)
  have "\<not> P j" if "1 \<le> j" "j < k" for j
  proof -
    have "[1..n] ! nat (j - 1) = j" "nat (j - 1) < i" using that k by (simp_all add: nth_upto)
    with i(4) show ?thesis by metis
  qed
  with i k show ?thesis by auto
qed

text \<open>
  A stale caller does not wait out a long backoff: if \<open>isCancelled()\<close> turns true at time \<open>T\<close> and stays
  true, the sleep begun at \<open>t \<le> T\<close> is over within 200 ms of \<open>T\<close>; it never lasts longer than
  the delay.
\<close>

theorem sleep_notices_cancellation:
  assumes ms: "0 \<le> ms" and T: "t \<le> T" "\<And>s. canc s \<longleftrightarrow> T \<le> s"
  shows "t \<le> cancellableSleep ms canc t \<and> cancellableSleep ms canc t \<le> t + ms \<and>
         cancellableSleep ms canc t \<le> T + 200"
proof (cases "find (\<lambda>k. canc (t + 200 * k)) [1..ms div 200]")
  case None
  then have no: "\<not> canc (t + 200 * k)" if "1 \<le> k" "k \<le> ms div 200" for k
    using that by (auto simp: find_None_iff)
  have "t + 200 * (ms div 200) < T \<or> ms div 200 = 0"
    using no [of "ms div 200"] T(2) ms pos_imp_zdiv_nonneg_iff [of 200 ms]
    by (metis int_one_le_iff_zero_less linorder_not_le order.order_iff_strict order_refl zero_less_numeral)
  moreover have "ms < 200 * (ms div 200) + 200"
    using pos_mod_bound [of 200 ms] mult_div_mod_eq [of 200 ms] by linarith
  ultimately show ?thesis using None ms T(1) by (auto simp: cancellableSleep_def)
next
  case (Some k)
  note k = find_upto_first [OF Some]
  have "k \<le> ms div 200" using k by blast
  then have "200 * k \<le> ms"
    using pos_mod_sign [of 200 ms] mult_div_mod_eq [of 200 ms] by linarith
  moreover have "t + 200 * k \<le> T + 200"
  proof (cases "k = 1")
    case False
    have "1 \<le> k" and first: "\<forall>j. 1 \<le> j \<longrightarrow> j < k \<longrightarrow> \<not> canc (t + 200 * j)" using k by blast+
    with False have "1 \<le> k - 1" "k - 1 < k" by linarith+
    with first have "\<not> canc (t + 200 * (k - 1))" by blast
    then show ?thesis using T(2) by (simp add: algebra_simps)
  qed (use T(1) in simp)
  ultimately show ?thesis using Some k by (simp add: cancellableSleep_def)
qed

lemma sleep_notices_cancellation_witness: "cancellableSleep 4000 (\<lambda>s. 500 \<le> s) 0 \<le> 500 + 200"
  using sleep_notices_cancellation [of 4000 0 500 "\<lambda>s. 500 \<le> s"] by simp

end
