(* ===== verification/FolderTree.thy ===== *)
theory FolderTree
  imports ConnectionProps
begin

text \<open>
  The folder hierarchy: when it is well formed, that the tree shows every folder and connection, and
  what moving a folder does.
\<close>

section \<open>Well-formed hierarchies\<close>

definition paths :: "folder list \<Rightarrow> string set" where
  "paths fs = folder_path ` set fs"

text \<open>
  A folder's path is its parent's path and its name, names are not empty and have no slash, parents
  exist, paths are unique.
\<close>

definition hierarchy_ok :: "folder list \<Rightarrow> bool" where
  "hierarchy_ok fs \<longleftrightarrow> distinct (map folder_path fs) \<and>
     (\<forall>f \<in> set fs. folder_path f = child_path (parentPath f) (folder_name f) \<and>
        folder_name f \<noteq> [] \<and> CHR ''/'' \<notin> set (folder_name f) \<and>
        (\<forall>p. parentPath f = Some p \<longrightarrow> p \<noteq> [] \<and> p \<in> paths fs))"

lemma child_path_simps:
  "child_path None n = n" "p \<noteq> [] \<Longrightarrow> child_path (Some p) n = p @ ''/'' @ n"
  by (simp_all add: child_path_def or_null_def)

lemma hierarchy_path:
  assumes "hierarchy_ok fs" "f \<in> set fs"
  shows "parentPath f = None \<Longrightarrow> folder_path f = folder_name f"
    "parentPath f = Some p \<Longrightarrow> folder_path f = p @ ''/'' @ folder_name f \<and> p \<in> paths fs \<and> p \<noteq> []"
    "folder_name f \<noteq> []" "CHR ''/'' \<notin> set (folder_name f)"
  using assms by (auto simp: hierarchy_ok_def child_path_simps)

section \<open>The recursion over the hierarchy\<close>

lemma those_None: "those xs = None \<longleftrightarrow> None \<in> set xs"
proof (induction xs)
  case (Cons x xs)
  then show ?case by (cases x) auto
qed simp

lemma those_map_Some [simp]: "those (map Some ys) = Some ys"
  by (induction ys) auto

lemma those_SomeD: "those xs = Some ys \<Longrightarrow> xs = map Some ys"
proof (induction xs arbitrary: ys)
  case (Cons x xs)
  then show ?case by (cases x; cases "those xs") auto
qed simp

lemma those_Some: "those xs = Some ys \<longleftrightarrow> xs = map Some ys"
  using those_SomeD by auto

definition depth_of :: "string option \<Rightarrow> nat" where
  "depth_of p = (case p of None \<Rightarrow> 0 | Some q \<Rightarrow> length q)"

lemma child_longer:
  "hierarchy_ok fs \<Longrightarrow> f \<in> set fs \<Longrightarrow> depth_of (parentPath f) < length (folder_path f)"
  using hierarchy_path(1-3) [of fs f]
  by (cases "parentPath f") (auto simp: depth_of_def)

lemma collect_returns:
  assumes "hierarchy_ok fs" "\<forall>f \<in> set fs. length (folder_path f) < n + depth_of p" "0 < n"
  shows "collectValidPaths n fs p \<noteq> None"
  using assms(2,3)
proof (induction n arbitrary: p)
  case 0
  then show ?case by simp
next
  case (Suc n)
  have k: "collectValidPaths n fs (Some (folder_path c)) \<noteq> None" if c: "c \<in> set fs" "parentPath c = p" for c
  proof -
    have d: "depth_of p < length (folder_path c)" "length (folder_path c) < Suc n + depth_of p"
      using child_longer [OF assms(1) c(1)] c Suc.prems(1) by auto
    have "\<forall>f \<in> set fs. length (folder_path f) < n + depth_of (Some (folder_path c))"
      using Suc.prems(1) d(1) by (fastforce simp: depth_of_def)
    moreover have "0 < n" using d by linarith
    ultimately show ?thesis by (rule Suc.IH)
  qed
  have "None \<notin> set (map (\<lambda>c. map_option (\<lambda>sub. folder_path c # sub)
      (collectValidPaths n fs (Some (folder_path c)))) (filter (\<lambda>f. parentPath f = p) fs))"
  proof
    assume "None \<in> set (map (\<lambda>c. map_option (\<lambda>sub. folder_path c # sub)
      (collectValidPaths n fs (Some (folder_path c)))) (filter (\<lambda>f. parentPath f = p) fs))"
    then obtain c where "c \<in> set fs" "parentPath c = p" "collectValidPaths n fs (Some (folder_path c)) = None"
      by (auto simp: eq_commute [of None])
    with k show False by blast
  qed
  then show ?case unfolding collectValidPaths.simps by (simp add: those_None)
qed

lemma collect_closed:
  "collectValidPaths n fs p = Some vs \<Longrightarrow> f \<in> set fs \<Longrightarrow>
     parentPath f = p \<or> (\<exists>q \<in> set vs. parentPath f = Some q) \<Longrightarrow> folder_path f \<in> set vs"
proof (induction n arbitrary: p vs)
  case 0
  then show ?case by simp
next
  case (Suc n)
  let ?kids = "filter (\<lambda>f. parentPath f = p) fs"
  obtain vss where vss: "map (\<lambda>c. map_option (\<lambda>sub. folder_path c # sub)
      (collectValidPaths n fs (Some (folder_path c)))) ?kids = map Some vss" "vs = concat vss"
    using Suc.prems(1) by (auto simp: those_Some)
  have kid: "\<exists>sub. collectValidPaths n fs (Some (folder_path c)) = Some sub \<and>
      folder_path c # sub \<in> set vss" if "c \<in> set ?kids" for c
  proof -
    have "map_option (\<lambda>sub. folder_path c # sub) (collectValidPaths n fs (Some (folder_path c))) \<in> Some ` set vss"
      using that vss(1) by (metis (mono_tags, lifting) image_eqI image_set)
    then show ?thesis by auto
  qed
  show ?case
  proof (cases "parentPath f = p")
    case True
    then show ?thesis using kid [of f] Suc.prems(2) vss(2) by force
  next
    case False
    then obtain q where q: "q \<in> set vs" "parentPath f = Some q" using Suc.prems(3) by blast
    then obtain ws where ws: "ws \<in> set vss" "q \<in> set ws" using vss(2) by auto
    then have "Some ws \<in> set (map (\<lambda>c. map_option (\<lambda>sub. folder_path c # sub)
        (collectValidPaths n fs (Some (folder_path c)))) ?kids)" using vss(1) by simp
    then obtain c :: folder and sub where c: "collectValidPaths n fs (Some (folder_path c)) = Some sub"
      "ws = folder_path c # sub" unfolding set_map image_iff map_option_case by (auto split: option.splits)
    have "parentPath f = Some (folder_path c) \<or> (\<exists>q \<in> set sub. parentPath f = Some q)"
      using q(2) ws(2) c(2) by auto
    from Suc.IH [OF c(1) Suc.prems(2) this] have "folder_path f \<in> set ws" using c(2) by simp
    then show ?thesis using ws(1) vss(2) by (metis UN_I set_concat)
  qed
qed

lemma collect_all:
  assumes ok: "hierarchy_ok fs" and vs: "collectValidPaths n fs None = Some vs" and f: "f \<in> set fs"
  shows "folder_path f \<in> set vs"
  using f
proof (induction "length (folder_path f)" arbitrary: f rule: less_induct)
  case less
  show ?case
  proof (cases "parentPath f")
    case None
    then show ?thesis using collect_closed [OF vs less.prems] by simp
  next
    case (Some p)
    then obtain g where g: "g \<in> set fs" "folder_path g = p"
      using hierarchy_path(2) [OF ok less.prems] by (auto simp: paths_def)
    have "length (folder_path g) < length (folder_path f)"
      using child_longer [OF ok less.prems] Some g by (simp add: depth_of_def)
    then have "p \<in> set vs" using less.hyps g by blast
    then show ?thesis using collect_closed [OF vs less.prems] Some by blast
  qed
qed

fun node_connections :: "tree_node \<Rightarrow> connection list" where
  "node_connections (FolderNode i n p kids) = concat (map node_connections kids)"
| "node_connections (ConnectionNode c act) = [c]"

fun node_paths :: "tree_node \<Rightarrow> string list" where
  "node_paths (FolderNode i n p kids) = p # concat (map node_paths kids)"
| "node_paths (ConnectionNode c act) = []"

lemma tree_collect:
  "buildFolderTree n fs cs act p = Some ts \<Longrightarrow>
     \<exists>vs. collectValidPaths n fs p = Some vs \<and> set (concat (map node_paths ts)) = set vs \<and>
       set (concat (map node_connections ts)) = {c \<in> set cs. \<exists>q \<in> set vs. conn_folder c = Some q}"
proof (induction n arbitrary: p ts)
  case 0
  then show ?case by simp
next
  case (Suc n)
  let ?kids = "filter (\<lambda>f. parentPath f = p) fs"
  let ?sorted = "sort_by (\<lambda>a b. so_le (folder_sortOrder a) (folder_sortOrder b)) ?kids"
  let ?node = "\<lambda>f sub. FolderNode (folder_id f) (folder_name f) (folder_path f)
      (sub @ map (\<lambda>c. ConnectionNode c (conn_id c \<in> set act))
        (sort_by (\<lambda>a b. so_le (sortOrder a) (sortOrder b)) (filter (\<lambda>c. conn_folder c = Some (folder_path f)) cs)))"
  have ts: "map (\<lambda>f. map_option (?node f) (buildFolderTree n fs cs act (Some (folder_path f)))) ?sorted = map Some ts"
    using Suc.prems by (simp add: those_Some)
  have sub: "\<exists>sub. buildFolderTree n fs cs act (Some (folder_path f)) = Some sub" if "f \<in> set ?kids" for f
  proof -
    have "map_option (?node f) (buildFolderTree n fs cs act (Some (folder_path f))) \<in> set (map Some ts)"
      unfolding ts [symmetric] using that by simp
    then show ?thesis by auto
  qed
  define subt :: "folder \<Rightarrow> tree_node list" where "subt f = the (buildFolderTree n fs cs act (Some (folder_path f)))" for f
  define vsub :: "folder \<Rightarrow> string list" where "vsub f = the (collectValidPaths n fs (Some (folder_path f)))" for f
  have st: "buildFolderTree n fs cs act (Some (folder_path f)) = Some (subt f)" if "f \<in> set ?kids" for f
    using sub [OF that] by (auto simp: subt_def)
  have vt: "collectValidPaths n fs (Some (folder_path f)) = Some (vsub f)"
    "set (concat (map node_paths (subt f))) = set (vsub f)"
    "set (concat (map node_connections (subt f))) = {c \<in> set cs. \<exists>q \<in> set (vsub f). conn_folder c = Some q}"
    if f: "f \<in> set ?kids" for f
  proof -
    obtain vs where v: "collectValidPaths n fs (Some (folder_path f)) = Some vs"
      "set (concat (map node_paths (subt f))) = set vs"
      "set (concat (map node_connections (subt f))) = {c \<in> set cs. \<exists>q \<in> set vs. conn_folder c = Some q}"
      using Suc.IH [OF st [OF f]] by blast
    then have "vsub f = vs" by (simp add: vsub_def)
    with v show "collectValidPaths n fs (Some (folder_path f)) = Some (vsub f)"
      "set (concat (map node_paths (subt f))) = set (vsub f)"
      "set (concat (map node_connections (subt f))) = {c \<in> set cs. \<exists>q \<in> set (vsub f). conn_folder c = Some q}"
      by (simp_all only:)
  qed
  have ts': "ts = map (\<lambda>f. ?node f (subt f)) ?sorted"
  proof -
    have "map Some ts = map Some (map (\<lambda>f. ?node f (subt f)) ?sorted)"
      unfolding ts [symmetric] by (simp add: st)
    then show ?thesis by (simp only: inj_map_eq_map [OF inj_Some])
  qed
  have vs: "collectValidPaths (Suc n) fs p = Some (concat (map (\<lambda>f. folder_path f # vsub f) ?kids))"
  proof -
    have "map (\<lambda>c. map_option (\<lambda>sub. folder_path c # sub) (collectValidPaths n fs (Some (folder_path c)))) ?kids =
        map Some (map (\<lambda>f. folder_path f # vsub f) ?kids)" by (simp add: vt(1))
    then show ?thesis by (simp only: collectValidPaths.simps those_Some [THEN iffD2] option.map)
  qed
  have np: "set (concat (map node_paths ts)) = set (concat (map (\<lambda>f. folder_path f # vsub f) ?kids))"
    using vt(2) by (simp add: ts' comp_def)
  have nc: "set (concat (map node_connections ts)) =
      {c \<in> set cs. \<exists>q \<in> set (concat (map (\<lambda>f. folder_path f # vsub f) ?kids)). conn_folder c = Some q}"
    using vt(3) by (simp add: ts' comp_def) fastforce
  show ?case using vs np nc by blast
qed

lemma collect_paths: "collectValidPaths n fs p = Some vs \<Longrightarrow> set vs \<subseteq> paths fs"
proof (induction n arbitrary: p vs)
  case 0
  then show ?case by simp
next
  case (Suc n)
  obtain vss where vss: "map (\<lambda>c. map_option (\<lambda>sub. folder_path c # sub)
      (collectValidPaths n fs (Some (folder_path c)))) (filter (\<lambda>f. parentPath f = p) fs) = map Some vss"
    "vs = concat vss" using Suc.prems by (auto simp: those_Some)
  have "set ws \<subseteq> paths fs" if "ws \<in> set vss" for ws
  proof -
    have "Some ws \<in> set (map Some vss)" using that by simp
    then obtain c :: folder and sub where c: "c \<in> set fs" "ws = folder_path c # sub"
      "collectValidPaths n fs (Some (folder_path c)) = Some sub"
      unfolding vss(1) [symmetric] set_map image_iff map_option_case by (auto split: option.splits)
    then show ?thesis using Suc.IH [OF c(3)] by (auto simp: paths_def)
  qed
  then show ?case using vss(2) by auto
qed

lemma tree_returns:
  "collectValidPaths n fs p \<noteq> None \<Longrightarrow> buildFolderTree n fs cs act p \<noteq> None"
proof (induction n arbitrary: p)
  case 0
  then show ?case by simp
next
  case (Suc n)
  have "buildFolderTree n fs cs act (Some (folder_path f)) \<noteq> None"
    if f: "f \<in> set (filter (\<lambda>f. parentPath f = p) fs)" for f
  proof (rule Suc.IH)
    have "None \<notin> set (map (\<lambda>c. map_option (\<lambda>sub. folder_path c # sub)
      (collectValidPaths n fs (Some (folder_path c)))) (filter (\<lambda>f. parentPath f = p) fs))"
      using Suc.prems by (simp add: those_None)
    then have "map_option (\<lambda>sub. folder_path f # sub) (collectValidPaths n fs (Some (folder_path f))) \<noteq> None"
      using f by (metis (mono_tags, lifting) image_eqI set_map)
    then show "collectValidPaths n fs (Some (folder_path f)) \<noteq> None" by simp
  qed
  then have "None \<notin> (\<lambda>f. map_option (h f) (buildFolderTree n fs cs act (Some (folder_path f)))) `
      set (filter (\<lambda>f. parentPath f = p) fs)" for h :: "folder \<Rightarrow> tree_node list \<Rightarrow> tree_node"
    by (metis (no_types, lifting) imageE option.map_disc_iff)
  then show ?case by (simp add: those_None del: set_filter)
qed

definition folder_list :: "store \<Rightarrow> folder list" where
  "folder_list s = (case folders s of Stored fs \<Rightarrow> fs | _ \<Rightarrow> [])"

lemma read_both_lists: "read_both s = (fs, cs, s1) \<Longrightarrow> fs = folder_list s \<and> cs = listed s"
  using read_both_state by (simp add: folder_list_def listed_def)

lemma getFolders_list: "fst (getFolders s) = folder_list s"
  by (simp add: getFolders_def folder_list_def split: stored.split)

text \<open>
  The connection tree is complete: over a well-formed folder hierarchy the recursions return, with fuel
  for the longest path; every folder is valid; the tree shows every folder, and exactly the
  connections whose folder exists.
\<close>

theorem tree_is_complete:
  assumes ok: "hierarchy_ok (folder_list s)"
    and fuel: "\<forall>f \<in> set (folder_list s). length (folder_path f) < fuel" "0 < fuel"
  shows "getValidFolders fuel s = Some (folder_list s) \<and>
    (\<exists>ts. buildConnectionTree fuel s act = Some ts \<and>
       set (concat (map node_paths ts)) = paths (folder_list s) \<and>
       set (concat (map node_connections ts)) =
         {c \<in> set (listed s). \<exists>p \<in> paths (folder_list s). conn_folder c = Some p})"
proof -
  let ?fs = "folder_list s"
  have "collectValidPaths fuel ?fs None \<noteq> None"
    by (rule collect_returns [OF ok]) (use fuel in \<open>auto simp: depth_of_def\<close>)
  then obtain vs where vs: "collectValidPaths fuel ?fs None = Some vs" by auto
  have all: "set vs = paths ?fs"
    using collect_paths [OF vs] collect_all [OF ok vs] by (auto simp: paths_def)
  then have "filter (\<lambda>f. folder_path f \<in> set vs) ?fs = ?fs"
    by (auto simp: paths_def filter_id_conv)
  then have valid: "getValidFolders fuel s = Some ?fs"
    by (simp add: getValidFolders_def getFolders_list vs)
  have "buildFolderTree fuel ?fs (listed s) act None \<noteq> None"
    by (rule tree_returns) (simp add: vs)
  then obtain ts where ts: "buildFolderTree fuel ?fs (listed s) act None = Some ts" by auto
  obtain fs cs s1 where r: "read_both s = (fs, cs, s1)" by (cases "read_both s")
  have "buildConnectionTree fuel s act = Some ts"
    using read_both_lists [OF r] ts by (simp add: buildConnectionTree_def r)
  moreover have "set (concat (map node_paths ts)) = paths ?fs"
    "set (concat (map node_connections ts)) = {c \<in> set (listed s). \<exists>p \<in> paths ?fs. conn_folder c = Some p}"
    using tree_collect [OF ts] vs all by auto
  ultimately show ?thesis using valid by blast
qed

definition demo_folder :: "string \<Rightarrow> string option \<Rightarrow> string \<Rightarrow> folder" where
  "demo_folder n p path = \<lparr>folder_id = path, folder_name = n, folder_path = path, parentPath = p,
     folder_createdAt = [], folder_sortOrder = None\<rparr>"

definition demo_store :: store where
  "demo_store = empty_store\<lparr>
     folders := Stored [demo_folder ''W'' None ''W'', demo_folder ''P'' (Some ''W'') ''W/P''],
     conns := Stored [demo_conn\<lparr>conn_folder := Some ''W/P'', secrets := []\<rparr>]\<rparr>"

lemma demo_hierarchy: "hierarchy_ok (folder_list demo_store)"
  by (simp add: hierarchy_ok_def demo_store_def folder_list_def demo_folder_def empty_store_def
      child_path_def or_null_def paths_def)

lemma tree_is_complete_witness: "getValidFolders 9 demo_store = Some (folder_list demo_store)"
proof -
  have "\<forall>f \<in> set (folder_list demo_store). length (folder_path f) < 9" by code_simp
  then show ?thesis using tree_is_complete [OF demo_hierarchy, of 9] by simp
qed

section \<open>Paths below a folder\<close>

lemma under_child:
  assumes "CHR ''/'' \<notin> set n" "under old (p @ ''/'' @ n)"
  shows "p = old \<or> under old p"
proof -
  obtain r where r: "p @ ''/'' @ n = old @ ''/'' @ r" using assms(2) by (auto simp: under_def prefix_def)
  then obtain u where u: "p @ u = old \<and> ''/'' @ n = u @ ''/'' @ r \<or> p = old @ u \<and> u @ ''/'' @ n = ''/'' @ r"
    by (auto simp: append_eq_append_conv2)
  then show ?thesis
  proof
    assume "p @ u = old \<and> ''/'' @ n = u @ ''/'' @ r"
    with assms(1) show ?thesis by (cases u) auto
  next
    assume "p = old @ u \<and> u @ ''/'' @ n = ''/'' @ r"
    then show ?thesis by (cases u) (auto simp: under_def prefix_def)
  qed
qed

lemma under_root_name: "CHR ''/'' \<notin> set n \<Longrightarrow> \<not> under old n"
  by (auto simp: under_def prefix_def)

lemma under_shape: "under old p \<longleftrightarrow> (\<exists>r. p = old @ ''/'' @ r)"
  by (auto simp: under_def prefix_def)

lemma under_trans: "under a b \<Longrightarrow> under b c \<Longrightarrow> under a c"
  by (auto simp: under_shape)

lemma not_under_self: "\<not> under p p"
  by (auto simp: under_shape)

text \<open>Every path above a folder's path belongs to a folder.\<close>

lemma ancestors_exist:
  assumes ok: "hierarchy_ok fs" and f: "f \<in> set fs" and u: "under q (folder_path f)"
  shows "q \<in> paths fs"
  using f u
proof (induction "length (folder_path f)" arbitrary: f rule: less_induct)
  case less
  show ?case
  proof (cases "parentPath f")
    case None
    then show ?thesis
      using hierarchy_path(1) [OF ok less.prems(1) None] hierarchy_path(4) [OF ok less.prems(1)]
        under_root_name less.prems(2) by metis
  next
    case (Some p)
    have fp: "folder_path f = p @ ''/'' @ folder_name f" "p \<in> paths fs"
      using hierarchy_path(2) [OF ok less.prems(1) Some] by auto
    then obtain g where g: "g \<in> set fs" "folder_path g = p" by (auto simp: paths_def)
    have "p = q \<or> under q p"
      using under_child [OF hierarchy_path(4) [OF ok less.prems(1)]] less.prems(2) fp(1) by metis
    then show ?thesis
    proof
      assume "under q p"
      then show ?thesis using less.hyps [of g] g fp(1) by simp
    qed (use fp(2) in simp)
  qed
qed

section \<open>Moving a folder\<close>

text \<open>Where a path goes when the folder \<open>old\<close> becomes \<open>new\<close>.\<close>

definition relocate :: "string \<Rightarrow> string \<Rightarrow> string \<Rightarrow> string" where
  "relocate old new p = (if p = old then new else if under old p then rebase old new p else p)"

lemma relocate_child:
  assumes "CHR ''/'' \<notin> set n" "p @ ''/'' @ n \<noteq> old"
  shows "relocate old new (p @ ''/'' @ n) = relocate old new p @ ''/'' @ n"
proof -
  consider "p = old" | "p \<noteq> old" "under old p" | "p \<noteq> old" "\<not> under old p" by blast
  then show ?thesis
  proof cases
    case 1
    then show ?thesis by (simp add: relocate_def under_shape rebase_def)
  next
    case 2
    then have "under old (p @ ''/'' @ n)" by (auto simp: under_shape)
    with 2 assms(2) show ?thesis by (auto simp: relocate_def rebase_def under_shape)
  next
    case 3
    then have "\<not> under old (p @ ''/'' @ n)" using under_child [OF assms(1)] by blast
    with 3 assms(2) show ?thesis by (simp add: relocate_def)
  qed
qed

lemma rebase_under: "under old p \<Longrightarrow> under new (rebase old new p)"
  by (auto simp: under_shape rebase_def)

lemma relocate_inj:
  assumes new: "new \<notin> P" "\<And>p. p \<in> P \<Longrightarrow> \<not> under new p" and pq: "p \<in> P" "q \<in> P"
    and e: "relocate old new p = relocate old new q"
  shows "p = q"
proof -
  have inside: "relocate old new x = new \<or> under new (relocate old new x)" if "x = old \<or> under old x" for x
    using that rebase_under by (auto simp: relocate_def)
  have outside: "relocate old new x \<noteq> new \<and> \<not> under new (relocate old new x)"
    if "x \<in> P" "\<not> (x = old \<or> under old x)" for x
    using that new by (auto simp: relocate_def)
  show ?thesis
  proof (cases "p = old \<or> under old p")
    case True
    then have q: "q = old \<or> under old q" using inside [OF True] outside [OF pq(2)] e by auto
    have "relocate old new x = new @ drop (length old) x" if "x = old \<or> under old x" for x
      using that by (auto simp: relocate_def rebase_def)
    then have "drop (length old) p = drop (length old) q" using e True q by simp
    moreover have "x = old @ drop (length old) x" if "x = old \<or> under old x" for x
      using that by (auto simp: under_shape)
    ultimately show ?thesis using True q by metis
  next
    case False
    then have "\<not> (q = old \<or> under old q)" using inside outside [OF pq(1)] e by metis
    with False e show ?thesis by (simp add: relocate_def)
  qed
qed

lemma move_entry_fields [simp]:
  "folder_path (move_folder_entry old new np f) = relocate old new (folder_path f)"
  "folder_name (move_folder_entry old new np f) = folder_name f"
  "folder_id (move_folder_entry old new np f) = folder_id f"
  by (auto simp: move_folder_entry_def relocate_def)

lemma move_entry_parent:
  assumes ok: "hierarchy_ok fs" and g: "g \<in> set fs" "folder_path g \<noteq> old"
  shows "parentPath (move_folder_entry old new np g) = map_option (relocate old new) (parentPath g)"
proof (cases "parentPath g")
  case None
  then show ?thesis using g(2) by (simp add: move_folder_entry_def)
next
  case (Some p)
  have fp: "folder_path g = p @ ''/'' @ folder_name g" using hierarchy_path(2) [OF ok g(1) Some] by simp
  have "under old (folder_path g) \<longleftrightarrow> p = old \<or> under old p"
    using under_child [OF hierarchy_path(4) [OF ok g(1)], of old p] by (auto simp: fp under_shape)
  with Some g(2) show ?thesis by (auto simp: move_folder_entry_def relocate_def)
qed

lemma move_hierarchy:
  assumes ok: "hierarchy_ok fs" and f: "f \<in> set fs" "folder_path f = old"
    and np: "case np of None \<Rightarrow> True | Some p \<Rightarrow> p \<in> paths fs \<and> p \<noteq> old \<and> \<not> under old p"
    and new: "new = child_path np (folder_name f)" "new \<notin> paths fs"
  shows "hierarchy_ok (map (move_folder_entry old new np) fs) \<and>
    paths (map (move_folder_entry old new np) fs) = relocate old new ` paths fs"
proof -
  let ?fs = "map (move_folder_entry old new np) fs"
  have P: "paths ?fs = relocate old new ` paths fs" by (auto simp: paths_def image_image)
  have nu: "\<not> under new p" if "p \<in> paths fs" for p
    using that ancestors_exist [OF ok] new(2) by (auto simp: paths_def)
  have "inj_on (relocate old new) (paths fs)"
    by (rule inj_onI) (rule relocate_inj [OF new(2) nu], assumption+)
  then have d: "distinct (map folder_path ?fs)"
    using ok by (simp add: hierarchy_ok_def distinct_map paths_def comp_def inj_on_def)
  have ne: "p \<noteq> []" if "p \<in> paths fs" for p
    using that child_longer [OF ok] by (fastforce simp: paths_def)
  have new_np: "new = (case np of None \<Rightarrow> folder_name f | Some p \<Rightarrow> p @ ''/'' @ folder_name f)"
    using new(1) np ne by (auto simp: child_path_simps split: option.splits)
  have entry: "folder_path (move_folder_entry old new np g) =
      child_path (parentPath (move_folder_entry old new np g)) (folder_name g) \<and>
    (\<forall>p. parentPath (move_folder_entry old new np g) = Some p \<longrightarrow> p \<noteq> [] \<and> p \<in> paths ?fs)"
    if g: "g \<in> set fs" for g
  proof (cases "folder_path g = old")
    case True
    then have "g = f" using ok f g by (auto simp: hierarchy_ok_def distinct_map inj_on_def)
    have pp: "parentPath (move_folder_entry old new np g) = np" using True by (simp add: move_folder_entry_def)
    have "p \<in> paths ?fs \<and> p \<noteq> []" if "np = Some p" for p
    proof -
      have "relocate old new p = p" "p \<in> paths fs" using np that by (auto simp: relocate_def)
      then show ?thesis using P ne by (metis image_eqI)
    qed
    then show ?thesis using True \<open>g = f\<close> new(1) pp by (simp add: relocate_def)
  next
    case False
    note mp = move_entry_parent [OF ok g False]
    show ?thesis
    proof (cases "parentPath g")
      case None
      have "folder_path g = folder_name g" using hierarchy_path(1) [OF ok g None] .
      then have "relocate old new (folder_path g) = folder_name g"
        using False under_root_name [OF hierarchy_path(4) [OF ok g]] by (simp add: relocate_def)
      then show ?thesis using mp None by (simp add: child_path_simps)
    next
      case (Some p)
      have fp: "folder_path g = p @ ''/'' @ folder_name g" "p \<in> paths fs"
        using hierarchy_path(2) [OF ok g Some] by auto
      have "relocate old new (folder_path g) = relocate old new p @ ''/'' @ folder_name g"
        using relocate_child [OF hierarchy_path(4) [OF ok g]] False fp(1) by metis
      moreover have "relocate old new p \<in> paths ?fs" using P fp(2) by simp
      moreover have "relocate old new p \<noteq> []"
        using ne [OF fp(2)] new_np hierarchy_path(3) [OF ok f(1)]
        by (auto simp: relocate_def rebase_def split: option.splits)
      ultimately show ?thesis using mp Some by (simp add: child_path_simps)
    qed
  qed
  have "hierarchy_ok ?fs"
    unfolding hierarchy_ok_def using d entry hierarchy_path(3,4) [OF ok] by auto
  with P show ?thesis by blast
qed

lemma move_conn_folder [simp]:
  "conn_folder (move_connection_entry old new c) = map_option (relocate old new) (conn_folder c)"
  "conn_id (move_connection_entry old new c) = conn_id c"
  "secrets (move_connection_entry old new c) = secrets c"
  by (cases "conn_folder c"; simp add: move_connection_entry_def relocate_def)+



end
