(* ===== verification/FolderRename.thy ===== *)
theory FolderRename
  imports FolderTree
begin

text \<open>
  \<open>handleRenameFolder\<close>, which renames by creating the new folders, moving the connections one by one and
  deleting the old folder: what each of the three steps does, what they do together, and the two
  cases of a new and of an unchanged name.
\<close>

section \<open>Renaming a folder\<close>

abbreviation inside :: "string \<Rightarrow> connection \<Rightarrow> bool" where
  "inside p c \<equiv> conn_folder c = Some p \<or> (case conn_folder c of Some f \<Rightarrow> under p f | None \<Rightarrow> False)"

definition sound_store :: "store \<Rightarrow> bool" where
  "sound_store s \<longleftrightarrow> secrets_ok s \<and> (\<forall>x. conns s \<noteq> Unreadable x) \<and> (\<forall>x. folders s \<noteq> Unreadable x) \<and>
     distinct (map conn_id (listed s))"

lemma update_by_id:
  "distinct (map conn_id cs) \<Longrightarrow> find_index (\<lambda>c. conn_id c = i) cs = Some k \<Longrightarrow>
    cs[k := g (cs ! k)] = map (\<lambda>c. if conn_id c = i then g c else c) cs"
proof -
  assume d: "distinct (map conn_id cs)" and k: "find_index (\<lambda>c. conn_id c = i) cs = Some k"
  have k': "k < length cs" "conn_id (cs ! k) = i" using find_index_Some [OF k] by auto
  show ?thesis
  proof (rule nth_equalityI)
    fix j assume j: "j < length (cs[k := g (cs ! k)])"
    have "conn_id (cs ! j) = i \<longleftrightarrow> j = k"
      using d j k' by (auto simp: distinct_conv_nth)
    then show "cs[k := g (cs ! k)] ! j = map (\<lambda>c. if conn_id c = i then g c else c) cs ! j"
      using j by auto
  qed simp
qed

lemma secret_ok_folder: "secret_ok failed (c\<lparr>conn_folder := p\<rparr>) = secret_ok failed c"
  by (simp add: secret_ok_def split: option.splits)

lemma strip_folder: "secret_ok failed c \<Longrightarrow> stripUnencryptedSecrets failed (c\<lparr>conn_folder := p\<rparr>) = c\<lparr>conn_folder := p\<rparr>"
  using strip_id secret_ok_folder by blast

lemma move_connection_sound:
  assumes "sound_store s"
  shows "listed (snd (moveConnection i p s)) =
      map (\<lambda>c. if conn_id c = i then c\<lparr>conn_folder := Some p\<rparr> else c) (listed s) \<and>
    folder_list (snd (moveConnection i p s)) = folder_list s \<and> sound_store (snd (moveConnection i p s))"
proof -
  obtain cs s1 where r: "getConnections s = (cs, s1)" by (cases "getConnections s")
  have cs: "cs = listed s" "\<not> conns_corrupt s1" "sealFailedIds s1 = sealFailedIds s" "folders s1 = folders s"
    "conns s1 = conns s"
    using read_conns [OF r] assms by (auto simp: listed_def sound_store_def)
  have sec: "secret_ok (sealFailedIds s) c" if "c \<in> set (listed s)" for c
    using that assms by (auto simp: listed_def secrets_ok_def sound_store_def split: stored.splits)
  have ok: "secrets_ok (snd (moveConnection i p s))" using move_secrets assms by (simp add: sound_store_def)
  show ?thesis
  proof (cases "find_index (\<lambda>c. conn_id c = i) cs")
    case None
    then have "\<forall>c \<in> set cs. conn_id c \<noteq> i" by (auto simp: find_index_None)
    then have "map (\<lambda>c. if conn_id c = i then c\<lparr>conn_folder := Some p\<rparr> else c) (listed s) = listed s"
      using cs by (auto intro!: map_idI)
    moreover have "listed s1 = listed s" using cs by (simp add: listed_def)
    moreover have "snd (moveConnection i p s) = s1"
      by (simp only: moveConnection_def updateConnection_def r prod.case None option.case snd_conv)
    ultimately show ?thesis
      using cs ok assms by (simp add: sound_store_def folder_list_def)
  next
    case (Some k)
    let ?new = "map (\<lambda>c. if conn_id c = i then c\<lparr>conn_folder := Some p\<rparr> else c) (listed s)"
    have d: "distinct (map conn_id (listed s))" using assms by (simp add: sound_store_def)
    have e: "snd (moveConnection i p s) = persistConnections ?new s1"
      using Some r update_by_id [OF d, of i k "\<lambda>c. c\<lparr>conn_folder := Some p\<rparr>"] cs
      by (simp add: moveConnection_def updateConnection_def)
    have "map (stripUnencryptedSecrets (sealFailedIds s1)) ?new = ?new"
      using sec by (auto intro!: map_idI simp: cs strip_folder strip_id)
    then have "listed (persistConnections ?new s1) = ?new" using cs by (simp add: listed_persist)
    moreover have "map conn_id ?new = map conn_id (listed s)" by simp
    then have "distinct (map conn_id ?new)" using d by (simp only:)
    ultimately show ?thesis
      using ok assms cs unfolding e by (simp add: sound_store_def folder_list_def del: map_map)
  qed
qed

lemma rename_connection_step:
  assumes "sound_store s"
  shows "sound_store (rename_connection old new s c) \<and>
    folder_list (rename_connection old new s c) = folder_list s \<and>
    listed (rename_connection old new s c) = map (\<lambda>x. if conn_id x = conn_id c
      then x\<lparr>conn_folder := Some (if conn_folder c = Some old then new
        else new @ ''/'' @ drop (length old + 1) (the (conn_folder c)))\<rparr> else x) (listed s)"
  using move_connection_sound [OF assms] by (simp add: rename_connection_def)

lemma rename_target:
  "inside old c \<Longrightarrow> (if conn_folder c = Some old then new
     else new @ ''/'' @ drop (length old + 1) (the (conn_folder c))) = relocate old new (the (conn_folder c))"
  by (cases "conn_folder c") (auto simp: relocate_def rebase_def under_shape)

text \<open>Moving the connections one by one moves each to the new path.\<close>

lemma rename_connections:
  assumes "sound_store s" "\<forall>c \<in> set cs. inside old c"
  shows "sound_store (foldl (rename_connection old new) s cs) \<and>
    folder_list (foldl (rename_connection old new) s cs) = folder_list s \<and>
    listed (foldl (rename_connection old new) s cs) = map (\<lambda>x.
      case find (\<lambda>c. conn_id c = conn_id x) (rev cs) of
        Some c \<Rightarrow> x\<lparr>conn_folder := Some (relocate old new (the (conn_folder c)))\<rparr>
      | None \<Rightarrow> x) (listed s)"
  using assms(2)
proof (induction cs rule: rev_induct)
  case Nil
  then show ?case using assms(1) by simp
next
  case (snoc c cs)
  let ?s = "foldl (rename_connection old new) s cs"
  have IH: "sound_store ?s" "folder_list ?s = folder_list s"
    "listed ?s = map (\<lambda>x. case find (\<lambda>c. conn_id c = conn_id x) (rev cs) of
        Some c \<Rightarrow> x\<lparr>conn_folder := Some (relocate old new (the (conn_folder c)))\<rparr>
      | None \<Rightarrow> x) (listed s)"
    using snoc by auto
  have c: "inside old c" using snoc.prems by simp
  show ?case
    using rename_connection_step [OF IH(1), of old new c] IH(2)
    by (auto simp: rename_target [OF c] IH(3) split: option.split)
qed

lemma find_in_filter:
  assumes d: "distinct (map conn_id xs)" and x: "x \<in> set xs"
  shows "find (\<lambda>c. conn_id c = conn_id x) (rev (filter P xs)) = (if P x then Some x else None)"
proof -
  have "c = x" if "c \<in> set xs" "conn_id c = conn_id x" for c
    using that x d by (auto simp: distinct_map inj_on_def)
  then have "y = x \<and> P x" if "find (\<lambda>c. conn_id c = conn_id x) (rev (filter P xs)) = Some y" for y
    using find_Some_mem [OF that] by auto
  moreover have "find (\<lambda>c. conn_id c = conn_id x) (rev (filter P xs)) \<noteq> None" if "P x"
    using that x by (auto simp: find_None_iff)
  ultimately show ?thesis
    by (cases "find (\<lambda>c. conn_id c = conn_id x) (rev (filter P xs))") auto
qed

text \<open>Creating the folders adds their paths.\<close>

lemma createFolder_sound:
  assumes "sound_store s"
  shows "sound_store (snd (createFolder u t n p s)) \<and> listed (snd (createFolder u t n p s)) = listed s \<and>
    paths (folder_list (snd (createFolder u t n p s))) = insert (child_path p n) (paths (folder_list s))"
proof -
  obtain fs s1 where r: "getFolders s = (fs, s1)" by (cases "getFolders s")
  have s1: "fs = folder_list s" "\<not> folders_corrupt s1" "conns s1 = conns s" "folders s1 = folders s"
    using read_folders [OF r] assms by (auto simp: folder_list_def sound_store_def)
  have ok: "secrets_ok (snd (createFolder u t n p s))"
    using createFolder_secrets assms by (simp add: sound_store_def)
  show ?thesis
  proof (cases "find (\<lambda>f. folder_path f = child_path p n) fs")
    case None
    then show ?thesis
      using ok assms r s1
      by (auto simp: createFolder_def Let_def sound_store_def listed_def folder_list_def paths_def)
  next
    case (Some f)
    then have "f \<in> set fs" "folder_path f = child_path p n" using find_Some_mem [OF Some] by auto
    then have "child_path p n \<in> paths (folder_list s)" using s1 unfolding paths_def by (metis imageI)
    then show ?thesis
      using ok assms r s1 Some
      by (auto simp: createFolder_def Let_def sound_store_def listed_def folder_list_def)
  qed
qed

lemma split_last:
  "js_split c r = ws \<Longrightarrow> (if length ws > 1 then js_join [c] (butlast ws) @ [c] else []) @ last ws = r"
proof -
  assume ws: "js_split c r = ws"
  then have e: "js_join [c] ws = r" "ws \<noteq> []" by auto
  show ?thesis
  proof (cases "length ws > 1")
    case True
    then have "butlast ws \<noteq> []" by (cases ws) auto
    then have "js_join [c] (butlast ws @ [last ws]) = js_join [c] (butlast ws) @ [c] @ last ws"
      by (rule join_snoc)
    with True e show ?thesis by simp
  next
    case False
    with e have "ws = [last ws]" by (cases ws) auto
    then have "js_join [c] ws = last ws" by (metis js_join.simps(2))
    with False e show ?thesis by simp
  qed
qed

lemma rename_subfolder_step:
  assumes s: "sound_store (snd ns)" and new: "new \<noteq> []" and u: "under old (folder_path g)"
  shows "sound_store (snd (rename_subfolder u t old new ns g)) \<and>
    listed (snd (rename_subfolder u t old new ns g)) = listed (snd ns) \<and>
    paths (folder_list (snd (rename_subfolder u t old new ns g))) =
      insert (relocate old new (folder_path g)) (paths (folder_list (snd ns)))"
proof -
  obtain r where r: "folder_path g = old @ ''/'' @ r" using u by (auto simp: under_shape)
  let ?ws = "js_split (CHR ''/'') r"
  let ?p = "if length ?ws > 1 then new @ ''/'' @ js_join ''/'' (butlast ?ws) else new"
  have "child_path (Some ?p) (last ?ws) = ?p @ ''/'' @ last ?ws"
    by (rule child_path_simps) (simp add: new)
  also have "\<dots> = new @ ''/'' @ r" using split_last [OF refl, of "CHR ''/''" r] by (auto split: if_splits)
  also have "\<dots> = relocate old new (folder_path g)"
    using u by (auto simp: relocate_def rebase_def r)
  finally have "child_path (Some ?p) (last ?ws) = relocate old new (folder_path g)" .
  then show ?thesis
    using createFolder_sound [OF s, of "u (fst ns)" t "last ?ws" "Some ?p"]
    by (simp add: rename_subfolder_def Let_def r)
qed

lemma rename_subfolders:
  assumes "sound_store (snd ns)" "new \<noteq> []" "\<forall>g \<in> set gs. under old (folder_path g)"
  shows "sound_store (snd (foldl (rename_subfolder u t old new) ns gs)) \<and>
    listed (snd (foldl (rename_subfolder u t old new) ns gs)) = listed (snd ns) \<and>
    paths (folder_list (snd (foldl (rename_subfolder u t old new) ns gs))) =
      relocate old new ` paths gs \<union> paths (folder_list (snd ns))"
  using assms(1,3)
proof (induction gs arbitrary: ns)
  case Nil
  then show ?case by (simp add: paths_def)
next
  case (Cons g gs)
  have st: "sound_store (snd (rename_subfolder u t old new ns g))"
    using rename_subfolder_step [OF Cons.prems(1) assms(2)] Cons.prems(2) by simp
  show ?case
    using Cons.IH [OF st] rename_subfolder_step [OF Cons.prems(1) assms(2)] Cons.prems(2)
    by (auto simp: paths_def)
qed

lemma deleteFolder_sound:
  assumes s: "sound_store s" and p: "p \<in> paths (folder_list s)" "p \<noteq> root_folder"
  shows "listed (snd (deleteFolder p True s)) = filter (\<lambda>c. \<not> inside p c) (listed s) \<and>
    paths (folder_list (snd (deleteFolder p True s))) =
      {q \<in> paths (folder_list s). q \<noteq> p \<and> \<not> under p q}"
proof -
  obtain fs cs s1 where r: "read_both s = (fs, cs, s1)" by (cases "read_both s")
  note l = read_both_lists [OF r]
  have s1: "\<not> conns_corrupt s1" "\<not> folders_corrupt s1" "sealFailedIds s1 = sealFailedIds s"
    using read_both_state [OF r] s by (auto simp: sound_store_def)
  let ?fs = "filter (\<lambda>f. \<not> (folder_path f = p \<or> under p (folder_path f))) (folder_list s)"
  let ?cs = "filter (\<lambda>c. \<not> inside p c) (listed s)"
  have "\<exists>f \<in> set (folder_list s). folder_path f = p" using p(1) by (auto simp: paths_def)
  then have "length ?fs < length (folder_list s)"
    by (metis (mono_tags, lifting) length_filter_less)
  then have e: "deleteFolder p True s = (True, persistConnections ?cs (writeFolders ?fs s1))"
    using p(2) r l s1 by (simp add: deleteFolder_def corrupted_def)
  have "secret_ok (sealFailedIds s) c" if "c \<in> set (listed s)" for c
    using that s by (auto simp: listed_def secrets_ok_def sound_store_def split: stored.splits)
  then have "map (stripUnencryptedSecrets (sealFailedIds s)) ?cs = ?cs"
    by (auto intro!: map_idI simp: strip_id)
  then show ?thesis
    using s1 unfolding e by (auto simp: listed_persist folder_list_def paths_def)
qed

lemma relocate_outside: "\<not> inside old c \<Longrightarrow> map_option (relocate old new) (conn_folder c) = conn_folder c"
  by (cases "conn_folder c") (auto simp: relocate_def)

lemma rename_folder_effect:
  assumes s: "sound_store s" and f: "f \<in> set (folder_list s)" "folder_path f \<noteq> root_folder"
    and name: "js_trim input \<noteq> []" and new: "new = child_path (parentPath f) (js_trim input)"
    and old: "old = folder_path f"
  shows "listed (renameFolder u t f input s) = filter (\<lambda>c. \<not> inside old c)
      (map (\<lambda>c. c\<lparr>conn_folder := map_option (relocate old new) (conn_folder c)\<rparr>) (listed s)) \<and>
    paths (folder_list (renameFolder u t f input s)) =
      {q. (q = new \<or> q \<in> relocate old new ` paths (folder_list s)) \<and> q \<noteq> old \<and> \<not> under old q}"
proof -
  obtain fs cs s1 where r: "read_both s = (fs, cs, s1)" by (cases "read_both s")
  have s1: "\<not> corrupted s1" "listed s1 = listed s" "folder_list s1 = folder_list s"
    using read_both_state [OF r] s by (auto simp: sound_store_def corrupted_def listed_def folder_list_def)
  have ok1: "sound_store s1"
    using s read_both_state [OF r] by (auto simp: sound_store_def secrets_ok_def listed_def split: stored.splits)
  let ?cs = "filter (inside old) (listed s)" and ?gs = "filter (\<lambda>g. under old (folder_path g)) (folder_list s)"
  define s2 where "s2 = snd (createFolder (u 0) t (js_trim input) (parentPath f) s1)"
  define s3 where "s3 = snd (foldl (rename_subfolder u t old new) (1, s2) ?gs)"
  define s4 where "s4 = foldl (rename_connection old new) s3 ?cs"
  have cs: "getConnectionsByFolderRecursive s old = ?cs"
    by (simp add: getConnectionsByFolderRecursive_def getConnections_def listed_def split: stored.split)
  have gs: "getSubfoldersRecursive s old = ?gs"
    by (simp add: getSubfoldersRecursive_def getFolders_list)
  have e: "renameFolder u t f input s = snd (deleteFolder old True s4)"
    unfolding s2_def s3_def s4_def cs [symmetric] gs [symmetric]
    using name s1(1) by (simp add: renameFolder_def Let_def r new old)
  have s2: "sound_store s2" "listed s2 = listed s"
      "paths (folder_list s2) = insert new (paths (folder_list s))"
    using createFolder_sound [OF ok1, of "u 0" t "js_trim input" "parentPath f"] s1
    by (simp_all add: s2_def new)
  have "new \<noteq> []" using name by (auto simp: new child_path_def or_null_def split: option.splits)
  then have s3: "sound_store s3" "listed s3 = listed s"
      "paths (folder_list s3) = relocate old new ` paths ?gs \<union> insert new (paths (folder_list s))"
    using rename_subfolders [of "(1, s2)" new ?gs old u t] s2 by (simp_all add: s3_def)
  have in_all: "\<forall>c \<in> set ?cs. inside old c" by simp
  have d: "distinct (map conn_id (listed s))" using s by (simp add: sound_store_def)
  note folds = rename_connections [OF s3(1) in_all, of new, folded s4_def]
  have s4: "sound_store s4" "folder_list s4 = folder_list s3"
    "listed s4 = map (\<lambda>c. c\<lparr>conn_folder := map_option (relocate old new) (conn_folder c)\<rparr>) (listed s)"
  proof -
    have "(case find (\<lambda>c. conn_id c = conn_id x) (rev ?cs) of
        Some c \<Rightarrow> x\<lparr>conn_folder := Some (relocate old new (the (conn_folder c)))\<rparr> | None \<Rightarrow> x) =
      x\<lparr>conn_folder := map_option (relocate old new) (conn_folder x)\<rparr>" if x: "x \<in> set (listed s)" for x
    proof (cases "inside old x")
      case True
      then obtain p where "conn_folder x = Some p" by (cases "conn_folder x") auto
      then show ?thesis using find_in_filter [OF d x, of "inside old"] True by simp
    next
      case False
      then show ?thesis
        using find_in_filter [OF d x, of "inside old"] relocate_outside [OF False, of new] by simp
    qed
    then show "listed s4 = map (\<lambda>c. c\<lparr>conn_folder := map_option (relocate old new) (conn_folder c)\<rparr>) (listed s)"
      using folds s3(2) by (simp cong: map_cong)
  qed (use folds in auto)
  have p: "old \<in> paths (folder_list s4)" "old \<noteq> root_folder"
    using f s3(3) s4(2) by (auto simp: old paths_def)
  have "q \<in> relocate old new ` paths (folder_list s)"
    if "q \<in> paths (folder_list s)" "q \<noteq> old" "\<not> under old q" for q
    using that by (metis imageI relocate_def)
  moreover have "q \<in> relocate old new ` paths ?gs \<or> q = new \<or> q \<in> paths (folder_list s)"
    if "q \<in> relocate old new ` paths (folder_list s)" for q
  proof -
    obtain g where g: "g \<in> set (folder_list s)" "q = relocate old new (folder_path g)"
      using \<open>q \<in> relocate old new ` paths (folder_list s)\<close> by (auto simp: paths_def)
    show ?thesis
    proof (cases "under old (folder_path g)")
      case True
      then have "folder_path g \<in> paths ?gs" using g(1) by (auto simp: paths_def)
      then show ?thesis using g(2) by blast
    next
      case False
      then show ?thesis using g by (auto simp: relocate_def paths_def)
    qed
  qed
  moreover have "paths ?gs \<subseteq> paths (folder_list s)" by (auto simp: paths_def)
  ultimately have "{q \<in> paths (folder_list s4). q \<noteq> old \<and> \<not> under old q} =
      {q. (q = new \<or> q \<in> relocate old new ` paths (folder_list s)) \<and> q \<noteq> old \<and> \<not> under old q}"
    unfolding s4(2) s3(3) by blast
  then show ?thesis unfolding e using deleteFolder_sound [OF s4(1) p] s4(3) by simp
qed


lemma sibling_separate:
  assumes "CHR ''/'' \<notin> set n" "child_path p n \<noteq> child_path p m" "CHR ''/'' \<notin> set m"
  shows "\<not> under (child_path p m) (child_path p n)"
proof (cases "or_null p")
  case None
  then show ?thesis using under_root_name [OF assms(1)] by (simp add: child_path_def)
next
  case (Some q)
  show ?thesis
  proof
    assume "under (child_path p m) (child_path p n)"
    then have "under (q @ ''/'' @ m) (q @ ''/'' @ n)" by (simp add: child_path_def Some)
    then have "q = q @ ''/'' @ m \<or> under (q @ ''/'' @ m) q" using under_child [OF assms(1)] by blast
    then show False by (auto simp: under_shape)
  qed
qed

lemma relocated_elsewhere:
  assumes "new \<noteq> old" "\<not> under old new" "\<not> under new old"
  shows "relocate old new q \<noteq> old \<and> \<not> under old (relocate old new q)"
proof (cases "under old q")
  case True
  then obtain r where r: "q = old @ ''/'' @ r" by (auto simp: under_shape)
  have e: "relocate old new q = new @ ''/'' @ r" using True by (auto simp: relocate_def rebase_def r)
  have "\<not> under old (new @ ''/'' @ r)"
  proof
    assume "under old (new @ ''/'' @ r)"
    then obtain t where "new @ ''/'' @ r = old @ ''/'' @ t" by (auto simp: under_shape)
    then consider us where "new = old @ us" "us @ ''/'' @ r = ''/'' @ t"
      | us where "old = new @ us" "us @ ''/'' @ t = ''/'' @ r"
      by (auto simp: append_eq_append_conv2)
    then show False
    proof cases
      case (1 us)
      then show ?thesis using assms(1,2) by (cases us) (auto simp: under_shape)
    next
      case (2 us)
      then show ?thesis using assms(1,3) by (cases us) (auto simp: under_shape)
    qed
  qed
  moreover have "new @ ''/'' @ r \<noteq> old" using assms(3) by (auto simp: under_shape)
  ultimately show ?thesis by (simp add: e)
next
  case False
  then show ?thesis using assms by (simp add: relocate_def)
qed


lemma demo_sound: "sound_store demo_store" "demo_folder ''W'' None ''W'' \<in> set (folder_list demo_store)"
  by (simp_all add: sound_store_def listed_def secrets_ok_def secret_ok_def demo_store_def demo_conn_def
      obj_get_def folder_list_def)


text \<open>
  Renaming a folder to the name it already has deletes it: the folder, its subfolders and every
  connection in them are gone, though the operation only meant to move them.
\<close>

theorem rename_same_name_deletes:
  assumes s: "sound_store s" and f: "f \<in> set (folder_list s)" "folder_path f \<noteq> root_folder"
    and same: "js_trim input \<noteq> []" "child_path (parentPath f) (js_trim input) = folder_path f"
  shows "listed (renameFolder u t f input s) = filter (\<lambda>c. \<not> inside (folder_path f) c) (listed s) \<and>
    paths (folder_list (renameFolder u t f input s)) =
      {q \<in> paths (folder_list s). q \<noteq> folder_path f \<and> \<not> under (folder_path f) q}"
proof -
  have id: "relocate p p q = q" for p q by (auto simp: relocate_def rebase_def under_shape)
  have "map_option (relocate p p) x = x" for p x using id by (cases x) auto
  then show ?thesis
    using rename_folder_effect [OF s f same(1) same(2) [symmetric] refl, of u t]
    by (auto simp: id)
qed

lemma rename_same_name_deletes_witness:
  "listed demo_store \<noteq> [] \<and>
   listed (renameFolder (\<lambda>_. ''u'') ''t'' (demo_folder ''W'' None ''W'') ''W'' demo_store) = []"
proof -
  have "js_trim ''W'' = ''W''" by code_simp
  moreover have "listed demo_store \<noteq> [] \<and> filter (\<lambda>c. \<not> inside ''W'' c) (listed demo_store) = []"
    by (simp add: listed_def demo_store_def under_def)
  moreover have w: "folder_path (demo_folder ''W'' None ''W'') = ''W''" "parentPath (demo_folder ''W'' None ''W'') = None"
    by (simp_all add: demo_folder_def)
  ultimately show ?thesis
    using rename_same_name_deletes [OF demo_sound, of "''W''" "\<lambda>_. ''u''" "''t''", unfolded w]
    by (simp add: root_folder_def child_path_simps)
qed

end
