(* ===== verification/Json.thy ===== *)
theory Json
  imports Complex_Main JsObject
begin

text \<open>
  JSON values and what the code does to them: \<open>typeof\<close>, property access, spreading. A stored text is
  modelled by the value it parses to, \<open>None\<close> when it does not parse, so that \<open>JSON.stringify\<close> and
  \<open>JSON.parse\<close> are inverse by construction. Numbers are exact. \<open>undefined\<close> is \<open>None\<close> of \<open>json option\<close>.
\<close>

datatype json = JNull | JBool bool | JNum rat | JStr string | JArr "json list" | JObj "(string \<times> json) list"

text \<open>\<open>typeof v === 'object' && v !== null\<close>\<close>

fun is_object :: "json \<Rightarrow> bool" where
  "is_object (JArr _) = True"
| "is_object (JObj _) = True"
| "is_object _ = False"

fun is_string :: "json option \<Rightarrow> bool" where
  "is_string (Some (JStr _)) = True"
| "is_string _ = False"

fun is_number :: "json option \<Rightarrow> bool" where
  "is_number (Some (JNum _)) = True"
| "is_number _ = False"

text \<open>
  \<open>v.k\<close> for a \<open>v\<close> that is not \<open>null\<close> and a \<open>k\<close> that is no index and no property of the prototypes.
\<close>

fun js_prop :: "json \<Rightarrow> string \<Rightarrow> json option" where
  "js_prop (JObj o1) k = obj_get o1 k"
| "js_prop _ k = None"

definition indexed :: "'v list \<Rightarrow> (string \<times> 'v) list" where
  "indexed xs = zip (map string_of_nat [0..<length xs]) xs"

text \<open>\<open>Object.entries\<close>, and \<open>{...v}\<close>.\<close>

fun entries :: "json \<Rightarrow> (string \<times> json) list" where
  "entries (JObj o1) = obj_entries o1"
| "entries (JArr xs) = indexed xs"
| "entries (JStr s) = indexed (map (\<lambda>c. JStr [c]) s)"
| "entries _ = []"

definition spread_with :: "json \<Rightarrow> string \<Rightarrow> json \<Rightarrow> json" where
  "spread_with v k w = JObj (obj_set k w (entries v))"

text \<open>
  The property key a value is turned into; \<open>key_text\<close> is the text of a number, an array or an object.
\<close>

fun property_key :: "(json \<Rightarrow> string) \<Rightarrow> json option \<Rightarrow> string" where
  "property_key key_text None = ''undefined''"
| "property_key key_text (Some JNull) = ''null''"
| "property_key key_text (Some (JBool b)) = (if b then ''true'' else ''false'')"
| "property_key key_text (Some (JStr s)) = s"
| "property_key key_text (Some v) = key_text v"

text \<open>\<open>===\<close> of values read at different places: two objects are never the same one.\<close>

definition strict_eq :: "json option \<Rightarrow> json option \<Rightarrow> bool" where
  "strict_eq v w \<longleftrightarrow> v = w \<and> (case v of Some x \<Rightarrow> \<not> is_object x | None \<Rightarrow> True)"

section \<open>Facts\<close>

lemma sort_key_filter_done: "sort_key f (sort_key f xs) = sort_key f xs"
  by (simp add: sort_key_id_if_sorted)

lemma obj_entries_entries [simp]: "obj_entries (obj_entries o1) = obj_entries o1"
proof -
  have "filter P (sort_key f (filter P xs)) = sort_key f (filter P xs)"
    for P :: "'x \<Rightarrow> bool" and f :: "'x \<Rightarrow> 'y::linorder" and xs
    by (rule filter_True) simp
  moreover have "filter (\<lambda>x. \<not> P x) (sort_key f (filter P xs)) = []"
    for P :: "'x \<Rightarrow> bool" and f :: "'x \<Rightarrow> 'y::linorder" and xs
    by (rule filter_False) simp
  ultimately show ?thesis by (simp add: obj_entries_def comp_def sort_key_filter_done)
qed

lemma obj_entries_ok [simp]: "obj_ok (obj_entries o1) = obj_ok o1"
  unfolding obj_ok_def by (metis mset_eq_imp_distinct_iff mset_map obj_entries_mset)

lemma map_of_by_key: "map_of xs k = map_of (filter (\<lambda>p. fst p = k) xs) k"
  by (induction xs) auto

lemma sort_key_by_key:
  "filter (\<lambda>p. fst p = k) (sort_key (f \<circ> fst) xs) = filter (\<lambda>p. fst p = k) xs"
proof -
  have "filter (\<lambda>p. fst p = k) ys = filter (\<lambda>p. fst p = k) (filter (\<lambda>p. (f \<circ> fst) p = f k) ys)" for ys
    by (induction ys) auto
  then show ?thesis by (metis sort_key_stable)
qed

lemma by_key_filter:
  "filter (\<lambda>p. fst p = k) (filter (P \<circ> fst) xs) = (if P k then filter (\<lambda>p. fst p = k) xs else [])"
  by (induction xs) auto

lemma obj_get_entries [simp]: "obj_get (obj_entries o1) k = obj_get o1 k"
proof -
  have "filter (\<lambda>p. fst p = k) (obj_entries o1) =
      filter (\<lambda>p. fst p = k) (filter (is_index_key \<circ> fst) o1) @
      filter (\<lambda>p. fst p = k) (filter (\<lambda>p. \<not> is_index_key (fst p)) o1)"
    by (simp add: obj_entries_def sort_key_by_key del: filter_filter)
  also have "\<dots> = filter (\<lambda>p. fst p = k) o1"
    using by_key_filter [of k is_index_key o1] by_key_filter [of k "\<lambda>i. \<not> is_index_key i" o1]
    by (simp add: comp_def del: filter_filter)
  finally have e: "filter (\<lambda>p. fst p = k) (obj_entries o1) = filter (\<lambda>p. fst p = k) o1" .
  show ?thesis
    unfolding obj_get_def map_of_by_key [of "obj_entries o1" k] e by (rule map_of_by_key [symmetric])
qed

lemma obj_entries_keys_map: "obj_entries (map (\<lambda>(k, v). (k, f k v)) o1) = map (\<lambda>(k, v). (k, f k v)) (obj_entries o1)"
proof -
  have "filter (P \<circ> fst) (map (\<lambda>(k, v). (k, f k v)) xs) = map (\<lambda>(k, v). (k, f k v)) (filter (P \<circ> fst) xs)" for P xs
    by (induction xs) auto
  moreover have "sort_key (g \<circ> fst) (map (\<lambda>(k, v). (k, f k v)) xs) = map (\<lambda>(k, v). (k, f k v)) (sort_key (g \<circ> fst) xs)"
    for g :: "string \<Rightarrow> nat" and xs
  proof (induction xs)
    case (Cons x xs)
    have "insort_key (\<lambda>p. g (fst p)) (k, f k v) (map (\<lambda>(k, v). (k, f k v)) ys) =
        map (\<lambda>(k, v). (k, f k v)) (insort_key (\<lambda>p. g (fst p)) (k, v) ys)" for k v ys
      by (induction ys) auto
    with Cons show ?case by (cases x) (simp add: comp_def)
  qed simp
  ultimately show ?thesis by (simp add: obj_entries_def comp_def)
qed

lemma obj_entries_obj_map [simp]: "obj_entries (obj_map f o1) = obj_map f o1"
  by (simp add: obj_map_def obj_entries_keys_map)

lemma size_member: "(k, v) \<in> set o1 \<Longrightarrow> size v < size (JObj o1)"
  by (induction o1) auto

lemma size_prop: "js_prop v k = Some w \<Longrightarrow> size w < size v"
  by (cases v) (auto simp: obj_get_def dest!: map_of_SomeD size_member)

lemma size_arr: "v \<in> set xs \<Longrightarrow> size v < size (JArr xs)"
  by (induction xs) auto

end
