(* ===== verification/LayoutStore.thy ===== *)
theory LayoutStore
  imports Json TabGroups
begin

text \<open>
  Saving and restoring the terminal layout: \<open>src/src/lib/terminal-group-serializer.ts\<close>,
  \<open>isRestoreSessionsOnStartupEnabled\<close> of \<open>src/src/lib/startup-restore.ts\<close> and \<open>initializeState\<close> of
  \<open>src/src/lib/terminal-group-context.tsx\<close>. The saving side works on the typed state of
  \<open>TabGroups\<close>; what comes back from local storage is JSON of any shape, and everything up to the
  initial state is done on JSON. A local storage item is \<open>None\<close> or a text, which is
  \<open>None\<close> when it does not parse. \<open>Unchecked\<close> ids of tabs (not strings) become keys by \<open>key_text\<close>.
\<close>

type_synonym stored_text = "json option option"

section \<open>Saving\<close>

definition encode_opt :: "string \<Rightarrow> ('a \<Rightarrow> json) \<Rightarrow> 'a option \<Rightarrow> (string \<times> json) list" where
  "encode_opt k f v = (case v of Some x \<Rightarrow> [(k, f x)] | None \<Rightarrow> [])"

fun encode_num :: "jsnum \<Rightarrow> json" where
  "encode_num (Num a) = JNum a"
| "encode_num NaN = JNull"

fun encode_grid :: "grid_node \<Rightarrow> json" where
  "encode_grid (Leaf g) = JObj [(''type'', JStr ''leaf''), (''groupId'', JStr g)]"
| "encode_grid (Branch d cs sz) = JObj [(''type'', JStr ''branch''),
     (''direction'', JStr (if d = Horizontal then ''horizontal'' else ''vertical'')),
     (''children'', JArr (map encode_grid cs)), (''sizes'', JArr (map encode_num sz))]"

fun encode_tab_type :: "tab_type \<Rightarrow> json" where
  "encode_tab_type Terminal = JStr ''terminal''"
| "encode_tab_type FileBrowser = JStr ''file-browser''"
| "encode_tab_type Desktop = JStr ''desktop''"
| "encode_tab_type Editor = JStr ''editor''"

fun encode_status :: "conn_status \<Rightarrow> json" where
  "encode_status Connected = JStr ''connected''"
| "encode_status Connecting = JStr ''connecting''"
| "encode_status Disconnected = JStr ''disconnected''"
| "encode_status Pending = JStr ''pending''"

definition encode_tab :: "terminal_tab \<Rightarrow> json" where
  "encode_tab t = JObj ([(''id'', JStr (tab_id t)), (''name'', JStr (tab_name t))] @
     encode_opt ''tabType'' encode_tab_type (tabType t) @
     encode_opt ''protocol'' JStr (protocol t) @ encode_opt ''host'' JStr (host t) @
     encode_opt ''username'' JStr (username t) @
     encode_opt ''originalConnectionId'' JStr (originalConnectionId t) @
     [(''connectionStatus'', encode_status (connectionStatus t))] @
     encode_opt ''reconnectCount'' (\<lambda>n. JNum (of_nat n)) (reconnectCount t) @
     encode_opt ''hasUnreadOutput'' JBool (hasUnreadOutput t) @
     encode_opt ''editorFilePath'' JStr (editorFilePath t) @
     encode_opt ''editorConnectionId'' JStr (editorConnectionId t))"

definition encode_group :: "terminal_group \<Rightarrow> json" where
  "encode_group g = JObj [(''id'', JStr (group_id g)), (''tabs'', JArr (map encode_tab (tabs g))),
     (''activeTabId'', case activeTabId g of Some a \<Rightarrow> JStr a | None \<Rightarrow> JNull)]"

text \<open>\<open>JSON.stringify\<close> writes the properties of an object in the order of \<open>Object.keys\<close>.\<close>

definition encode_state :: "group_state \<Rightarrow> json" where
  "encode_state s = JObj [
     (''groups'', JObj (obj_map (\<lambda>_ g. encode_group g) (groups s))),
     (''activeGroupId'', JStr (activeGroupId s)),
     (''gridLayout'', encode_grid (gridLayout s)),
     (''nextGroupId'', JNum (of_nat (nextGroupId s))),
     (''tabToGroupMap'', JObj (obj_map (\<lambda>_ g. JStr g) (tabToGroupMap s)))]"

definition STATE_VERSION :: json where
  "STATE_VERSION = JNum 1"

definition serialize :: "group_state \<Rightarrow> json" where
  "serialize s =
     (let gs = obj_map (\<lambda>_ g. g\<lparr>tabs := map (\<lambda>t. t\<lparr>hasUnreadOutput := None\<rparr>) (tabs g)\<rparr>) (groups s)
      in JObj [(''version'', STATE_VERSION), (''data'', encode_state (s\<lparr>groups := gs\<rparr>))])"

definition saved_group :: "terminal_group \<Rightarrow> terminal_group" where
  "saved_group g =
     (let ts = filter (\<lambda>t. tabType t \<noteq> Some Editor) (tabs g)
      in g\<lparr>tabs := ts,
           activeTabId := (if \<exists>t \<in> set ts. Some (tab_id t) = activeTabId g then activeTabId g
                           else case ts of t # _ \<Rightarrow> Some (tab_id t) | [] \<Rightarrow> None)\<rparr>)"

definition saved_state :: "group_state \<Rightarrow> group_state" where
  "saved_state s = s\<lparr>
     groups := obj_map (\<lambda>_. saved_group) (groups s),
     tabToGroupMap := filter (\<lambda>(tabId, groupId).
       case obj_get (groups s) groupId of
         None \<Rightarrow> True
       | Some g \<Rightarrow> (case find (\<lambda>t. tab_id t = tabId) (tabs g) of
           Some t \<Rightarrow> tabType t \<noteq> Some Editor | None \<Rightarrow> True)) (obj_entries (tabToGroupMap s))\<rparr>"

text \<open>\<open>writable\<close>: whether \<open>localStorage.setItem\<close> succeeds.\<close>

definition saveState :: "bool \<Rightarrow> group_state \<Rightarrow> stored_text \<Rightarrow> stored_text" where
  "saveState writable s old = (if writable then Some (Some (serialize (saved_state s))) else old)"

section \<open>Validation\<close>

definition isSerializedState :: "json \<Rightarrow> bool" where
  "isSerializedState v \<longleftrightarrow> is_object v \<and> is_number (js_prop v ''version'') \<and>
     (case js_prop v ''data'' of Some d \<Rightarrow> is_object d | None \<Rightarrow> False)"

function isValidGridNode :: "json \<Rightarrow> bool" where
  "isValidGridNode v \<longleftrightarrow> is_object v \<and>
     (if js_prop v ''type'' = Some (JStr ''leaf'') then is_string (js_prop v ''groupId'')
      else if js_prop v ''type'' = Some (JStr ''branch'') then
        js_prop v ''direction'' \<in> {Some (JStr ''horizontal''), Some (JStr ''vertical'')} \<and>
        (case js_prop v ''children'' of
           Some (JArr cs) \<Rightarrow>
             (case js_prop v ''sizes'' of
                Some (JArr ss) \<Rightarrow> length cs = length ss \<and> (\<forall>c \<in> set cs. isValidGridNode c)
              | _ \<Rightarrow> False)
         | _ \<Rightarrow> False)
      else False)"
  by pat_completeness auto
termination
  by (relation "measure size") (auto dest!: size_prop size_arr intro: less_trans)

declare isValidGridNode.simps [simp del]

definition isValidGroup :: "json \<Rightarrow> bool" where
  "isValidGroup g \<longleftrightarrow> is_object g \<and> is_string (js_prop g ''id'') \<and>
     (case js_prop g ''tabs'' of Some (JArr _) \<Rightarrow> True | _ \<Rightarrow> False) \<and>
     (js_prop g ''activeTabId'' = Some JNull \<or> is_string (js_prop g ''activeTabId''))"

definition isValidState :: "json \<Rightarrow> bool" where
  "isValidState v \<longleftrightarrow> is_object v \<and>
     (case js_prop v ''groups'' of
        Some gs \<Rightarrow> is_object gs \<and> is_string (js_prop v ''activeGroupId'') \<and>
          is_number (js_prop v ''nextGroupId'') \<and>
          (case js_prop v ''gridLayout'' of Some n \<Rightarrow> isValidGridNode n | None \<Rightarrow> False) \<and>
          (case js_prop v ''tabToGroupMap'' of
             None \<Rightarrow> True | Some m \<Rightarrow> is_object m \<or> m = JNull) \<and>
          (\<forall>(k, g) \<in> set (entries gs). isValidGroup g)
      | None \<Rightarrow> False)"

section \<open>Loading\<close>

text \<open>For a state that has been validated: its groups, and the tabs of a group.\<close>

definition groups_of :: "json \<Rightarrow> (string \<times> json) list" where
  "groups_of v = (case js_prop v ''groups'' of Some gs \<Rightarrow> entries gs | None \<Rightarrow> [])"

definition tabs_of :: "json \<Rightarrow> json list" where
  "tabs_of g = (case js_prop g ''tabs'' of Some (JArr ts) \<Rightarrow> ts | _ \<Rightarrow> [])"

text \<open>
  \<open>every(tab => tab.hasUnreadOutput === false)\<close> over all groups: it stops at the first tab with another
  value; a \<open>null\<close> tab before that is a TypeError (\<open>None\<close>).
\<close>

fun all_read :: "json list \<Rightarrow> bool option" where
  "all_read [] = Some True"
| "all_read (t # ts) =
     (if t = JNull then None
      else if js_prop t ''hasUnreadOutput'' = Some (JBool False) then all_read ts
      else Some False)"

definition reset_json :: "json \<Rightarrow> json option" where
  "reset_json st =
     map_option (\<lambda>r. if r then st
       else spread_with st ''groups'' (JObj (map (\<lambda>(k, g). (k, spread_with g ''tabs''
         (JArr (map (\<lambda>t. spread_with t ''hasUnreadOutput'' (JBool False)) (tabs_of g))))) (groups_of st))))
       (all_read (concat (map (\<lambda>(_, g). tabs_of g) (groups_of st))))"

definition seen_before :: "json option list \<Rightarrow> json option \<Rightarrow> bool" where
  "seen_before seen v \<longleftrightarrow> (\<exists>w \<in> set seen. strict_eq w v)"

fun keep_new :: "json option list \<Rightarrow> json list \<Rightarrow> json list \<times> json option list" where
  "keep_new seen [] = ([], seen)"
| "keep_new seen (t # ts) =
     (if seen_before seen (js_prop t ''id'') then keep_new seen ts
      else case keep_new (js_prop t ''id'' # seen) ts of (kept, seen') \<Rightarrow> (t # kept, seen'))"

definition deduped_group :: "json \<Rightarrow> json list \<Rightarrow> json" where
  "deduped_group g ts =
     JObj (obj_set ''activeTabId''
       (if \<exists>t \<in> set ts. strict_eq (js_prop t ''id'') (js_prop g ''activeTabId'')
        then (case js_prop g ''activeTabId'' of Some a \<Rightarrow> a | None \<Rightarrow> JNull)
        else case ts of t # _ \<Rightarrow> (case js_prop t ''id'' of Some i \<Rightarrow> i | None \<Rightarrow> JNull) | [] \<Rightarrow> JNull)
       (obj_set ''tabs'' (JArr ts) (entries g)))"

fun dedupe_groups :: "json option list \<Rightarrow> (string \<times> json) list \<Rightarrow> (string \<times> json) list" where
  "dedupe_groups seen [] = []"
| "dedupe_groups seen ((k, g) # gs) =
     (case keep_new seen (tabs_of g) of
        (ts, seen') \<Rightarrow> (k, deduped_group g ts) # dedupe_groups seen' gs)"

definition map_of_groups :: "(json \<Rightarrow> string) \<Rightarrow> (string \<times> json) list \<Rightarrow> json obj" where
  "map_of_groups key_text gs =
     fold (\<lambda>(k, g). fold (\<lambda>t. obj_set (property_key key_text (js_prop t ''id'')) (JStr k)) (tabs_of g)) gs []"

definition dedupeDuplicateTabs :: "(json \<Rightarrow> string) \<Rightarrow> json \<Rightarrow> json" where
  "dedupeDuplicateTabs key_text st =
     (let gs = dedupe_groups [] (groups_of st);
          next = spread_with st ''groups'' (JObj gs)
      in if js_prop st ''tabToGroupMap'' = None then next
         else spread_with next ''tabToGroupMap'' (JObj (map_of_groups key_text (obj_entries gs))))"

definition deserialize :: "(json \<Rightarrow> string) \<Rightarrow> json option \<Rightarrow> json option" where
  "deserialize key_text text =
     (case text of
        None \<Rightarrow> None
      | Some parsed \<Rightarrow>
          if \<not> isSerializedState parsed then None
          else if js_prop parsed ''version'' \<noteq> Some STATE_VERSION then None
          else
            (case js_prop parsed ''data'' of
               None \<Rightarrow> None
             | Some d \<Rightarrow>
                 if \<not> isValidState d then None
                 else map_option (dedupeDuplicateTabs key_text) (reset_json d)))"

definition loadState :: "(json \<Rightarrow> string) \<Rightarrow> stored_text \<Rightarrow> json option" where
  "loadState key_text item = (case item of None \<Rightarrow> None | Some raw \<Rightarrow> deserialize key_text raw)"

text \<open>\<open>migrateFromLegacy\<close> on the item of the layout; the other key it clears is read by nothing else.\<close>

definition migrateFromLegacy :: "stored_text \<Rightarrow> stored_text" where
  "migrateFromLegacy item =
     (case item of
        Some (Some v) \<Rightarrow> if \<not> is_object v \<or> js_prop v ''version'' = None then None else item
      | Some None \<Rightarrow> None
      | None \<Rightarrow> None)"

definition isRestoreSessionsOnStartupEnabled :: "stored_text \<Rightarrow> bool" where
  "isRestoreSessionsOnStartupEnabled settings =
     (case settings of
        Some (Some v) \<Rightarrow> \<not> is_object v \<or> js_prop v ''restoreSessionsOnStartup'' \<noteq> Some (JBool False)
      | _ \<Rightarrow> True)"

definition pending_group :: "json \<Rightarrow> json" where
  "pending_group g = spread_with g ''tabs''
     (JArr (map (\<lambda>t. spread_with t ''connectionStatus'' (JStr ''pending'')) (tabs_of g)))"

definition initializeState :: "(json \<Rightarrow> string) \<Rightarrow> stored_text \<Rightarrow> stored_text \<Rightarrow> json \<times> stored_text" where
  "initializeState key_text settings item0 =
     (let item = migrateFromLegacy item0 in
      if \<not> isRestoreSessionsOnStartupEnabled settings then (encode_state createDefaultState, None)
      else
        (case loadState key_text item of
           None \<Rightarrow> (encode_state createDefaultState, item)
         | Some loaded \<Rightarrow>
             let gs = fold (\<lambda>(k, g). obj_set k (pending_group g)) (groups_of loaded) [];
                 m = map_of_groups key_text (groups_of loaded)
             in (spread_with (spread_with loaded ''groups'' (JObj gs)) ''tabToGroupMap'' (JObj m), item)))"

end
