(* ===== verification/LayoutRestart.thy ===== *)
theory LayoutRestart
  imports LayoutStore TabGroupsProps
begin

text \<open>
  When a JSON value is a given typed state, whatever the order of its properties; the groups are in the
  order in which \<open>Object.entries\<close> lists them.
\<close>

section \<open>JSON values of typed states\<close>

fun is_record :: "json \<Rightarrow> bool" where
  "is_record (JObj o1) = obj_ok o1"
| "is_record _ = False"

definition rep_tab :: "json \<Rightarrow> terminal_tab \<Rightarrow> bool" where
  "rep_tab j t \<longleftrightarrow> is_record j \<and> js_prop j ''id'' = Some (JStr (tab_id t)) \<and>
     js_prop j ''name'' = Some (JStr (tab_name t)) \<and>
     js_prop j ''tabType'' = map_option encode_tab_type (tabType t) \<and>
     js_prop j ''protocol'' = map_option JStr (protocol t) \<and>
     js_prop j ''host'' = map_option JStr (host t) \<and>
     js_prop j ''username'' = map_option JStr (username t) \<and>
     js_prop j ''originalConnectionId'' = map_option JStr (originalConnectionId t) \<and>
     js_prop j ''connectionStatus'' = Some (encode_status (connectionStatus t)) \<and>
     js_prop j ''reconnectCount'' = map_option (\<lambda>n. JNum (of_nat n)) (reconnectCount t) \<and>
     js_prop j ''hasUnreadOutput'' = map_option JBool (hasUnreadOutput t) \<and>
     js_prop j ''editorFilePath'' = map_option JStr (editorFilePath t) \<and>
     js_prop j ''editorConnectionId'' = map_option JStr (editorConnectionId t)"

definition rep_group :: "json \<Rightarrow> terminal_group \<Rightarrow> bool" where
  "rep_group j g \<longleftrightarrow> is_record j \<and> js_prop j ''id'' = Some (JStr (group_id g)) \<and>
     js_prop j ''activeTabId'' = Some (case activeTabId g of Some a \<Rightarrow> JStr a | None \<Rightarrow> JNull) \<and>
     (case js_prop j ''tabs'' of Some (JArr ts) \<Rightarrow> list_all2 rep_tab ts (tabs g) | _ \<Rightarrow> False)"

definition rep_groups :: "(string \<times> json) list \<Rightarrow> terminal_group obj \<Rightarrow> bool" where
  "rep_groups js gs \<longleftrightarrow> obj_entries js = js \<and> list_all2 (rel_prod (=) rep_group) js gs"

definition rep_state :: "json \<Rightarrow> group_state \<Rightarrow> bool" where
  "rep_state j s \<longleftrightarrow> is_record j \<and>
     (case js_prop j ''groups'' of Some (JObj js) \<Rightarrow> rep_groups js (groups s) | _ \<Rightarrow> False) \<and>
     js_prop j ''activeGroupId'' = Some (JStr (activeGroupId s)) \<and>
     js_prop j ''gridLayout'' = Some (encode_grid (gridLayout s)) \<and>
     js_prop j ''nextGroupId'' = Some (JNum (of_nat (nextGroupId s))) \<and>
     js_prop j ''tabToGroupMap'' = Some (JObj (map (\<lambda>(k, v). (k, JStr v)) (tabToGroupMap s)))"

lemma spread_record [simp]:
  "is_record j \<Longrightarrow> is_record (spread_with j k v)"
  "is_record j \<Longrightarrow> js_prop (spread_with j k v) n = (if n = k then Some v else js_prop j n)"
  by (cases j; simp add: spread_with_def)+

lemma get_append: "obj_get (xs @ ys) k = (case obj_get xs k of Some v \<Rightarrow> Some v | None \<Rightarrow> obj_get ys k)"
  by (simp add: obj_get_def map_add_def split: option.split)

lemma get_Cons: "obj_get ((k, v) # xs) n = (if n = k then Some v else obj_get xs n)"
  by (simp add: obj_get_def)

lemma get_encode_opt: "obj_get (encode_opt k f v) n = (if n = k then map_option f v else None)"
  by (cases v) (auto simp: encode_opt_def get_Cons)

lemma ok_append: "obj_ok (xs @ ys) \<longleftrightarrow> obj_ok xs \<and> obj_ok ys \<and> fst ` set xs \<inter> fst ` set ys = {}"
  by (auto simp: obj_ok_def)

lemma ok_Cons: "obj_ok ((k, v) # xs) \<longleftrightarrow> k \<notin> fst ` set xs \<and> obj_ok xs"
  by (simp add: obj_ok_def)

lemma ok_encode_opt: "obj_ok (encode_opt k f v)" "fst ` set (encode_opt k f v) \<subseteq> {k}"
  by (cases v; simp add: encode_opt_def obj_ok_def)+

lemma keys_encode_opt: "fst ` set (encode_opt k f v) = (if v = None then {} else {k})"
  by (cases v) (simp_all add: encode_opt_def)

lemma subseq_encode_opt: "subseq (map fst (encode_opt k f v)) [k]"
  by (cases v) (simp_all add: encode_opt_def)

lemma encode_tab_record: "is_record (encode_tab t)"
proof -
  obtain o1 where o1: "encode_tab t = JObj o1" by (simp add: encode_tab_def)
  have "subseq (map fst o1) ([''id'', ''name''] @ [''tabType''] @ [''protocol''] @ [''host''] @ [''username''] @
      [''originalConnectionId''] @ [''connectionStatus''] @ [''reconnectCount''] @ [''hasUnreadOutput''] @
      [''editorFilePath''] @ [''editorConnectionId''])" (is "subseq _ ?keys")
    using o1 unfolding encode_tab_def json.inject
    by (auto simp only: map_append list.map fst_conv intro!: list_emb_append_mono subseq_encode_opt
        subseq_order.order_refl)
  moreover have "distinct ?keys" by code_simp
  ultimately have "distinct (map fst o1)" by (metis subseq_conv_nths distinct_nthsI)
  then show ?thesis by (simp add: o1 obj_ok_def)
qed

lemma encode_tab_rep: "rep_tab (encode_tab t) t"
  using encode_tab_record unfolding rep_tab_def
  by (simp add: encode_tab_def get_append get_Cons get_encode_opt split: option.split)

lemma encode_group_rep: "rep_group (encode_group g) g"
  by (simp add: rep_group_def encode_group_def get_Cons ok_Cons list_all2_conv_all_nth encode_tab_rep
      split: option.split)

lemma obj_get_mapped: "obj_get (map (\<lambda>(k, v). (k, f v)) xs) n = map_option f (obj_get xs n)"
  by (induction xs) (auto simp: get_Cons)

section \<open>The order of the groups\<close>

definition ordered_keys :: "string list \<Rightarrow> bool" where
  "ordered_keys ks \<longleftrightarrow> sorted (map nat_of_digits (filter is_index_key ks)) \<and>
     ks = filter is_index_key ks @ filter (\<lambda>k. \<not> is_index_key k) ks"

lemma take_drop_mapped:
  "map f xs = map f ys @ map f zs \<Longrightarrow> take (length ys) (map f xs) = map f ys \<and> drop (length ys) (map f xs) = map f zs"
  by simp

lemma filter_split_id:
  "ys @ zs = xs \<Longrightarrow> \<forall>p \<in> set ys. P (f p) \<Longrightarrow> \<forall>p \<in> set zs. \<not> P (f p) \<Longrightarrow>
    filter (P \<circ> f) xs @ filter (\<lambda>p. \<not> P (f p)) xs = xs"
  by (auto simp: filter_id_conv filter_empty_conv)

lemma entries_ordered: "obj_entries o1 = o1 \<longleftrightarrow> ordered_keys (map fst o1)"
proof -
  let ?i = "filter (is_index_key \<circ> fst) o1" and ?r = "filter (\<lambda>p. \<not> is_index_key (fst p)) o1"
  let ?f = "nat_of_digits \<circ> fst"
  have fk: "map fst ?i = filter is_index_key (map fst o1)" "map fst ?r = filter (\<lambda>k. \<not> is_index_key k) (map fst o1)"
    by (simp_all add: filter_map comp_def)
  show ?thesis
  proof
    assume e: "obj_entries o1 = o1"
    then have o1: "sort_key ?f ?i @ ?r = o1" by (simp add: obj_entries_def)
    have "?i = filter (is_index_key \<circ> fst) (sort_key ?f ?i @ ?r)" unfolding o1 by (rule refl)
    also have "\<dots> = sort_key ?f ?i"
    proof -
      have "filter (is_index_key \<circ> fst) (sort_key ?f ?i) = sort_key ?f ?i" by (rule filter_True) simp
      moreover have "filter (is_index_key \<circ> fst) ?r = []" by (rule filter_False) simp
      ultimately show ?thesis by simp
    qed
    finally have i: "?i = sort_key ?f ?i" .
    then have "sorted (map ?f ?i)" using sorted_sort_key [of ?f ?i] by (simp only: i [symmetric])
    moreover have "?i @ ?r = o1" using o1 unfolding i [symmetric] .
    then have "map fst ?i @ map fst ?r = map fst o1" by (simp only: map_append [symmetric])
    ultimately show "ordered_keys (map fst o1)"
      unfolding ordered_keys_def fk [symmetric] by (simp add: comp_def)
  next
    assume k: "ordered_keys (map fst o1)"
    note k' = k [unfolded ordered_keys_def, folded fk]
    have "sorted (map ?f ?i)" using k' [THEN conjunct1] by (simp add: comp_def)
    then have "sort_key ?f ?i = ?i" by (rule sort_key_id_if_sorted)
    moreover have "?i @ ?r = o1"
    proof -
      have t: "take (length ?i) (map fst o1) = map fst ?i" "drop (length ?i) (map fst o1) = map fst ?r"
        by (rule take_drop_mapped [OF k' [THEN conjunct2], THEN conjunct1], rule take_drop_mapped [OF k' [THEN conjunct2], THEN conjunct2])
      have "\<forall>p \<in> set (take (length ?i) o1). is_index_key (fst p)"
      proof
        fix p assume "p \<in> set (take (length ?i) o1)"
        then have "fst p \<in> set (map fst (take (length ?i) o1))" by (simp only: set_map imageI)
        then have "fst p \<in> set (map fst ?i)" unfolding take_map [symmetric] t(1) .
        then show "is_index_key (fst p)" by auto
      qed
      moreover have "\<forall>p \<in> set (drop (length ?i) o1). \<not> is_index_key (fst p)"
      proof
        fix p assume "p \<in> set (drop (length ?i) o1)"
        then have "fst p \<in> set (map fst (drop (length ?i) o1))" by (simp only: set_map imageI)
        then have "fst p \<in> set (map fst ?r)" unfolding drop_map [symmetric] t(2) .
        then show "\<not> is_index_key (fst p)" by auto
      qed
      ultimately show ?thesis by (rule filter_split_id [OF append_take_drop_id])
    qed
    ultimately show "obj_entries o1 = o1" by (simp add: obj_entries_def)
  qed
qed

lemma entries_same_keys: "map fst xs = map fst ys \<Longrightarrow> obj_entries xs = xs \<Longrightarrow> obj_entries ys = ys"
  unfolding entries_ordered by simp

lemma rep_groups_keys: "rep_groups js gs \<Longrightarrow> map fst js = map fst gs"
  unfolding rep_groups_def list_all2_conv_all_nth
  by (intro nth_equalityI) (auto simp: rel_prod_sel)

lemma rep_groups_map:
  assumes r: "rep_groups js gs" and F: "\<And>k j g. (k, g) \<in> set gs \<Longrightarrow> rep_group j g \<Longrightarrow> rep_group (F k j) (G k g)"
  shows "rep_groups (map (\<lambda>(k, j). (k, F k j)) js) (map (\<lambda>(k, g). (k, G k g)) gs)"
proof -
  have "obj_entries (map (\<lambda>(k, j). (k, F k j)) js) = map (\<lambda>(k, j). (k, F k j)) js"
    by (rule entries_same_keys [of js]) (use r in \<open>auto simp: rep_groups_def\<close>)
  moreover have "list_all2 (rel_prod (=) rep_group) (map (\<lambda>(k, j). (k, F k j)) js) (map (\<lambda>(k, g). (k, G k g)) gs)"
    using r F unfolding rep_groups_def list_all2_conv_all_nth
    by (auto simp: rel_prod_sel split_beta)
  ultimately show ?thesis by (simp add: rep_groups_def)
qed

section \<open>Each step on a typed state\<close>

lemma rep_state_groups:
  assumes "rep_state j s" obtains js where "js_prop j ''groups'' = Some (JObj js)" "groups_of j = js" "rep_groups js (groups s)"
  using assms unfolding rep_state_def groups_of_def rep_groups_def
  by (auto split: option.splits json.splits)

lemma rep_tabs: "rep_group j g \<Longrightarrow> list_all2 rep_tab (tabs_of j) (tabs g)"
  by (auto simp: rep_group_def tabs_of_def split: option.splits json.splits)

lemma rep_group_tabs:
  assumes j: "rep_group j g" and T: "list_all2 rep_tab ts ts'"
  shows "rep_group (spread_with j ''tabs'' (JArr ts)) (g\<lparr>tabs := ts'\<rparr>)"
  using assms by (auto simp: rep_group_def split: option.splits)

lemma rep_tab_spread:
  "rep_tab j t \<Longrightarrow> rep_tab (spread_with j ''hasUnreadOutput'' (JBool b)) (t\<lparr>hasUnreadOutput := Some b\<rparr>)"
  "rep_tab j t \<Longrightarrow> rep_tab (spread_with j ''connectionStatus'' (JStr ''pending'')) (t\<lparr>connectionStatus := Pending\<rparr>)"
  by (simp_all add: rep_tab_def)

lemma rep_tabs_map:
  assumes "list_all2 rep_tab js ts" "\<And>j t. rep_tab j t \<Longrightarrow> rep_tab (F j) (G t)"
  shows "list_all2 rep_tab (map F js) (map G ts)"
  using assms by (simp add: list_all2_conv_all_nth)

lemma rep_state_replace:
  assumes "rep_state j s" "rep_groups js gs"
  shows "rep_state (spread_with j ''groups'' (JObj js)) (s\<lparr>groups := gs\<rparr>)"
  using assms by (auto simp: rep_state_def split: option.splits)

lemma all_read_rep:
  "list_all2 rep_tab js ts \<Longrightarrow> all_read js = Some (\<forall>t \<in> set ts. hasUnreadOutput t = Some False)"
proof (induction rule: list_all2_induct)
  case (Cons j js t ts)
  then show ?case by (cases "hasUnreadOutput t") (auto simp: rep_tab_def)
qed simp

lemma concat_rep: "list_all2 (list_all2 R) xss yss \<Longrightarrow> list_all2 R (concat xss) (concat yss)"
  by (induction rule: list_all2_induct) (auto intro: list_all2_appendI)

lemma rep_all_tabs:
  assumes "rep_groups js gs"
  shows "list_all2 rep_tab (concat (map (\<lambda>(_, g). tabs_of g) js)) (concat (map (\<lambda>(_, g). tabs g) gs))"
proof (rule concat_rep)
  show "list_all2 (list_all2 rep_tab) (map (\<lambda>(_, g). tabs_of g) js) (map (\<lambda>(_, g). tabs g) gs)"
    using assms unfolding rep_groups_def list_all2_conv_all_nth
    by (auto simp: rel_prod_sel split_beta dest: rep_tabs)
      (metis list_all2_conv_all_nth rep_tabs)+
qed

lemma reset_refines:
  assumes j: "rep_state j s" and e: "obj_entries (groups s) = groups s"
  shows "\<exists>j'. reset_json j = Some j' \<and> rep_state j' (resetUnreadOutput s)"
proof -
  obtain js where js: "js_prop j ''groups'' = Some (JObj js)" "groups_of j = js" "rep_groups js (groups s)"
    using rep_state_groups [OF j] .
  let ?all = "\<forall>t \<in> set (concat (map (\<lambda>(_, g). tabs g) (groups s))). hasUnreadOutput t = Some False"
  have r: "all_read (concat (map (\<lambda>(_, g). tabs_of g) js)) = Some ?all"
    using all_read_rep [OF rep_all_tabs [OF js(3)]] .
  have c: "?all \<longleftrightarrow> (\<forall>g \<in> set (obj_values (groups s)). \<forall>t \<in> set (tabs g). hasUnreadOutput t = Some False)"
    by (force simp: obj_values_def)
  show ?thesis
  proof (cases ?all)
    case True
    then have "resetUnreadOutput s = s" using c by (simp add: resetUnreadOutput_def)
    moreover have "reset_json j = Some j" using True r js(2) by (simp add: reset_json_def)
    ultimately show ?thesis using j by simp
  next
    case False
    then have nc: "\<not> (\<forall>g \<in> set (obj_values (groups s)). \<forall>t \<in> set (tabs g). hasUnreadOutput t = Some False)"
      using c by blast
    let ?F = "\<lambda>(k::string) g. spread_with g ''tabs'' (JArr (map (\<lambda>t. spread_with t ''hasUnreadOutput'' (JBool False)) (tabs_of g)))"
    let ?G = "\<lambda>(k::string) g. g\<lparr>tabs := map (\<lambda>t. t\<lparr>hasUnreadOutput := Some False\<rparr>) (tabs g)\<rparr>"
    have "rep_groups (map (\<lambda>(k, g). (k, ?F k g)) js) (map (\<lambda>(k, g). (k, ?G k g)) (groups s))"
      by (rule rep_groups_map [OF js(3)]) (intro rep_group_tabs rep_tabs_map rep_tabs rep_tab_spread)
    then have "rep_state (spread_with j ''groups'' (JObj (map (\<lambda>(k, g). (k, ?F k g)) js)))
        (s\<lparr>groups := map (\<lambda>(k, g). (k, ?G k g)) (groups s)\<rparr>)"
      by (rule rep_state_replace [OF j])
    moreover have "resetUnreadOutput s = s\<lparr>groups := map (\<lambda>(k, g). (k, ?G k g)) (groups s)\<rparr>"
      using nc by (simp only: resetUnreadOutput_def if_False obj_map_def e)
    moreover have "reset_json j = Some (spread_with j ''groups'' (JObj (map (\<lambda>(k, g). (k, ?F k g)) js)))"
    proof -
      have "all_read (concat (map (\<lambda>(_, g). tabs_of g) (groups_of j))) = Some False" using r False js(2) by (simp only:)
      then show ?thesis unfolding reset_json_def js(2) by (simp only: option.map if_False)
    qed
    ultimately show ?thesis by simp
  qed
qed

text \<open>The map from tab ids to groups that the code rebuilds from the groups.\<close>

definition typed_map :: "terminal_group obj \<Rightarrow> string obj" where
  "typed_map gs = fold (\<lambda>(k, g). fold (\<lambda>t. obj_set (tab_id t) k) (tabs g)) gs []"

definition same_tabs_once :: "terminal_group obj \<Rightarrow> bool" where
  "same_tabs_once gs \<longleftrightarrow> distinct (concat (map (\<lambda>(_, g). group_ids g) gs)) \<and> (\<forall>(k, g) \<in> set gs. group_ok g)"

lemma strict_eq_str [simp]: "strict_eq w (Some (JStr x)) \<longleftrightarrow> w = Some (JStr x)"
  by (auto simp: strict_eq_def)

lemma rep_tab_id: "rep_tab j t \<Longrightarrow> js_prop j ''id'' = Some (JStr (tab_id t))"
  by (simp add: rep_tab_def)

lemma keep_new_all:
  assumes "list_all2 rep_tab js ts" "distinct (map tab_id ts)"
    "\<forall>t \<in> set ts. Some (JStr (tab_id t)) \<notin> set seen"
  shows "keep_new seen js = (js, rev (map (\<lambda>t. Some (JStr (tab_id t))) ts) @ seen)"
  using assms
proof (induction arbitrary: seen rule: list_all2_induct)
  case (Cons j js t ts)
  have "\<not> seen_before seen (js_prop j ''id'')"
    using Cons.prems Cons.hyps by (auto simp: seen_before_def rep_tab_id)
  moreover have "keep_new (Some (JStr (tab_id t)) # seen) js =
      (js, rev (map (\<lambda>t. Some (JStr (tab_id t))) ts) @ Some (JStr (tab_id t)) # seen)"
    using Cons.prems by (intro Cons.IH) (auto simp: image_iff)
  ultimately show ?case using Cons.hyps by (simp add: rep_tab_id)
qed simp

lemma deduped_record:
  "is_record g \<Longrightarrow> is_record (deduped_group g ts)"
  "is_record g \<Longrightarrow> js_prop (deduped_group g ts) ''tabs'' = Some (JArr ts)"
  "is_record g \<Longrightarrow> n \<noteq> ''tabs'' \<Longrightarrow> n \<noteq> ''activeTabId'' \<Longrightarrow> js_prop (deduped_group g ts) n = js_prop g n"
  by (cases g; simp add: deduped_group_def)+

lemma deduped_rep:
  assumes j: "rep_group j g" and g: "group_ok g"
  shows "rep_group (deduped_group j (tabs_of j)) g"
proof -
  have r: "is_record j" using j by (simp add: rep_group_def)
  obtain ts where ts: "js_prop j ''tabs'' = Some (JArr ts)" "list_all2 rep_tab ts (tabs g)" "tabs_of j = ts"
    using j by (auto simp: rep_group_def tabs_of_def split: option.splits json.splits)
  have a: "js_prop j ''activeTabId'' = Some (case activeTabId g of Some a \<Rightarrow> JStr a | None \<Rightarrow> JNull)"
    using j by (simp add: rep_group_def)
  have "js_prop (deduped_group j ts) ''activeTabId'' = js_prop j ''activeTabId''"
  proof (cases "activeTabId g")
    case None
    then have "ts = []" using g ts(2) by (simp add: group_ok_def)
    with r a None show ?thesis by (cases j) (simp_all add: deduped_group_def)
  next
    case (Some i)
    then have "i \<in> set (group_ids g)" using g by (simp add: group_ok_def)
    then obtain n where n: "n < length (tabs g)" "tab_id (tabs g ! n) = i"
      by (metis in_set_conv_nth length_map nth_map)
    then have "rep_tab (ts ! n) (tabs g ! n)" "ts ! n \<in> set ts" using ts(2) by (auto simp: list_all2_conv_all_nth)
    then have "\<exists>t \<in> set ts. js_prop t ''id'' = Some (JStr i)" using n(2) rep_tab_id by blast
    with r a Some show ?thesis by (cases j) (simp_all add: deduped_group_def)
  qed
  moreover have "js_prop (deduped_group j ts) ''id'' = js_prop j ''id''"
    by (rule deduped_record(3) [OF r]) simp_all
  ultimately show ?thesis using j deduped_record [OF r] ts a by (simp add: rep_group_def)
qed

lemma dedupe_groups_all:
  assumes "list_all2 (rel_prod (=) rep_group) js gs" "same_tabs_once gs"
    "\<forall>i \<in> set (concat (map (\<lambda>(_, g). group_ids g) gs)). Some (JStr i) \<notin> set seen"
  shows "dedupe_groups seen js = map (\<lambda>(k, j). (k, deduped_group j (tabs_of j))) js"
  using assms
proof (induction arbitrary: seen rule: list_all2_induct)
  case (Cons x js y gs)
  obtain k j g where xy: "x = (k, j)" "y = (k, g)" "rep_group j g"
    using Cons.hyps(1) by (cases x; cases y) (auto simp: rel_prod_sel)
  have "keep_new seen (tabs_of j) = (tabs_of j, rev (map (\<lambda>t. Some (JStr (tab_id t))) (tabs g)) @ seen)"
    using Cons.prems xy by (intro keep_new_all rep_tabs) (auto simp: same_tabs_once_def group_ok_def)
  moreover have "dedupe_groups (rev (map (\<lambda>t. Some (JStr (tab_id t))) (tabs g)) @ seen) js =
      map (\<lambda>(k, j). (k, deduped_group j (tabs_of j))) js"
  proof (rule Cons.IH)
    show "same_tabs_once gs" using Cons.prems(1) xy by (simp add: same_tabs_once_def)
    show "\<forall>i \<in> set (concat (map (\<lambda>(_, g). group_ids g) gs)).
        Some (JStr i) \<notin> set (rev (map (\<lambda>t. Some (JStr (tab_id t))) (tabs g)) @ seen)"
      using Cons.prems xy by (fastforce simp: same_tabs_once_def)
  qed
  ultimately show ?case using xy by simp
qed simp

lemma obj_set_mapped: "obj_set k (f v) (map (\<lambda>(k, v). (k, f v)) m) = map (\<lambda>(k, v). (k, f v)) (obj_set k v m)"
  by (induction m) (auto simp: obj_set_def)

lemma inner_map_rep:
  assumes "list_all2 rep_tab js ts"
  shows "fold (\<lambda>t. obj_set (property_key key_text (js_prop t ''id'')) (JStr k)) js (map (\<lambda>(k, v). (k, JStr v)) m) =
    map (\<lambda>(k, v). (k, JStr v)) (fold (\<lambda>t. obj_set (tab_id t) k) ts m)"
  using assms by (induction arbitrary: m rule: list_all2_induct) (simp_all add: rep_tab_id obj_set_mapped)

lemma map_of_groups_rep:
  assumes "list_all2 (rel_prod (=) rep_group) js gs"
  shows "map_of_groups key_text js = map (\<lambda>(k, v). (k, JStr v)) (typed_map gs)"
proof -
  have "fold (\<lambda>(k, g). fold (\<lambda>t. obj_set (property_key key_text (js_prop t ''id'')) (JStr k)) (tabs_of g)) js
      (map (\<lambda>(k, v). (k, JStr v)) m) =
    map (\<lambda>(k, v). (k, JStr v)) (fold (\<lambda>(k, g). fold (\<lambda>t. obj_set (tab_id t) k) (tabs g)) gs m)" for m
    using assms
  proof (induction arbitrary: m rule: list_all2_induct)
    case (Cons x js y gs)
    then obtain k j g where "x = (k, j)" "y = (k, g)" "rep_group j g"
      by (cases x; cases y) (auto simp: rel_prod_sel)
    then show ?case using Cons.IH by (simp add: inner_map_rep [OF rep_tabs])
  qed simp
  from this [of "[]"] show ?thesis by (simp add: map_of_groups_def typed_map_def)
qed

lemma rep_state_map:
  assumes "rep_state j s"
  shows "rep_state (spread_with j ''tabToGroupMap'' (JObj (map (\<lambda>(k, v). (k, JStr v)) m))) (s\<lparr>tabToGroupMap := m\<rparr>)"
proof -
  have r: "is_record j" using assms by (simp add: rep_state_def)
  show ?thesis using assms unfolding rep_state_def spread_record(2) [OF r]
    by (auto simp: r split: option.splits json.splits)
qed

lemma dedupe_refines:
  assumes j: "rep_state j s" and once: "same_tabs_once (groups s)"
  shows "rep_state (dedupeDuplicateTabs key_text j) (s\<lparr>tabToGroupMap := typed_map (groups s)\<rparr>)"
proof -
  obtain js where js: "js_prop j ''groups'' = Some (JObj js)" "groups_of j = js" "rep_groups js (groups s)"
    using rep_state_groups [OF j] .
  let ?D = "map (\<lambda>(k, j). (k, deduped_group j (tabs_of j))) js"
  have d: "dedupe_groups [] js = ?D"
    by (rule dedupe_groups_all [OF _ once]) (use js(3) in \<open>auto simp: rep_groups_def\<close>)
  have "rep_groups ?D (map (\<lambda>(k, g). (k, g)) (groups s))"
    by (rule rep_groups_map [OF js(3), where F = "\<lambda>_ j. deduped_group j (tabs_of j)" and G = "\<lambda>_ g. g"])
      (use once in \<open>auto simp: same_tabs_once_def intro: deduped_rep\<close>)
  then have r: "rep_groups ?D (groups s)" by simp
  have m: "map_of_groups key_text (obj_entries ?D) = map (\<lambda>(k, v). (k, JStr v)) (typed_map (groups s))"
    using r map_of_groups_rep [of ?D "groups s" key_text] unfolding rep_groups_def by (simp only:)
  have "rep_state (spread_with j ''groups'' (JObj ?D)) s"
    using rep_state_replace [OF j r] by simp
  then have "rep_state (spread_with (spread_with j ''groups'' (JObj ?D)) ''tabToGroupMap''
      (JObj (map (\<lambda>(k, v). (k, JStr v)) (typed_map (groups s))))) (s\<lparr>tabToGroupMap := typed_map (groups s)\<rparr>)"
    by (rule rep_state_map)
  moreover have "(js_prop j ''tabToGroupMap'' = None) = False" using j by (simp add: rep_state_def)
  then have "dedupeDuplicateTabs key_text j = spread_with (spread_with j ''groups'' (JObj ?D)) ''tabToGroupMap''
      (JObj (map (\<lambda>(k, v). (k, JStr v)) (typed_map (groups s))))"
    by (simp only: dedupeDuplicateTabs_def Let_def js(2) d m if_False)
  ultimately show ?thesis by simp
qed

section \<open>Through a restart\<close>

definition restored_tab :: "terminal_tab \<Rightarrow> terminal_tab" where
  "restored_tab t = t\<lparr>hasUnreadOutput := Some False, connectionStatus := Pending\<rparr>"

text \<open>The state as it is after saving, quitting and starting again.\<close>

definition restored_group :: "terminal_group \<Rightarrow> terminal_group" where
  "restored_group g = g\<lparr>tabs := map restored_tab (filter (\<lambda>t. tabType t \<noteq> Some Editor) (tabs g)),
     activeTabId := (if \<exists>t \<in> set (tabs g). tabType t \<noteq> Some Editor \<and> Some (tab_id t) = activeTabId g
                     then activeTabId g
                     else map_option tab_id (find (\<lambda>t. tabType t \<noteq> Some Editor) (tabs g)))\<rparr>"

definition restored_state :: "group_state \<Rightarrow> group_state" where
  "restored_state s =
     (let gs = obj_map (\<lambda>_. restored_group) (groups s)
      in s\<lparr>groups := gs, tabToGroupMap := typed_map gs\<rparr>)"

lemma restored_group_saved: "restored_group g = (saved_group g)\<lparr>tabs := map restored_tab (tabs (saved_group g))\<rparr>"
proof -
  have f: "(case filter P ts of t # _ \<Rightarrow> Some (tab_id t) | [] \<Rightarrow> None) = map_option tab_id (find P ts)" for P ts
    by (induction ts) auto
  show ?thesis by (cases g) (auto simp: restored_group_def saved_group_def Let_def f)
qed

lemma restored_state_saved:
  "restored_state s =
     (let gs = obj_map (\<lambda>_ g. (saved_group g)\<lparr>tabs := map restored_tab (tabs (saved_group g))\<rparr>) (groups s)
      in s\<lparr>groups := gs, tabToGroupMap := typed_map gs\<rparr>)"
  by (simp add: restored_state_def restored_group_saved [abs_def])

lemma reset_unread_map:
  assumes "obj_entries (groups s) = groups s"
  shows "resetUnreadOutput s = s\<lparr>groups := map (\<lambda>(k, g).
    (k, g\<lparr>tabs := map (\<lambda>t. t\<lparr>hasUnreadOutput := Some False\<rparr>) (tabs g)\<rparr>)) (groups s)\<rparr>"
proof (cases "\<forall>g \<in> set (obj_values (groups s)). \<forall>t \<in> set (tabs g). hasUnreadOutput t = Some False")
  case True
  have "map (\<lambda>t. t\<lparr>hasUnreadOutput := Some False\<rparr>) (tabs g) = tabs g" if "(k, g) \<in> set (groups s)" for k g
  proof (rule map_idI)
    fix t assume "t \<in> set (tabs g)"
    moreover have "g \<in> set (obj_values (groups s))" using that by (force simp: obj_values_def)
    ultimately have "hasUnreadOutput t = Some False" using True by blast
    then show "t\<lparr>hasUnreadOutput := Some False\<rparr> = t" by (cases t) simp
  qed
  then have "map (\<lambda>(k, g). (k, g\<lparr>tabs := map (\<lambda>t. t\<lparr>hasUnreadOutput := Some False\<rparr>) (tabs g)\<rparr>)) (groups s) = groups s"
    by (intro map_idI) auto
  with True show ?thesis by (simp add: resetUnreadOutput_def)
next
  case False
  then show ?thesis by (simp only: resetUnreadOutput_def if_False obj_map_def assms)
qed

lemma encode_state_rep:
  assumes "obj_ok (groups s)"
  shows "rep_state (encode_state s)
    (s\<lparr>groups := obj_entries (groups s), tabToGroupMap := obj_entries (tabToGroupMap s)\<rparr>)"
proof -
  have "obj_entries (obj_map (\<lambda>_ g. encode_group g) (groups s)) = obj_map (\<lambda>_ g. encode_group g) (groups s)" by simp
  then have "rep_groups (obj_map (\<lambda>_ g. encode_group g) (groups s)) (obj_entries (groups s))"
    by (auto simp: rep_groups_def list_all2_conv_all_nth rel_prod_sel obj_map_def split_beta encode_group_rep)
  then show ?thesis
    by (simp add: rep_state_def encode_state_def get_Cons ok_Cons obj_map_def split_beta obj_ok_def)
qed

lemma valid_grid: "grid_ok n \<Longrightarrow> isValidGridNode (encode_grid n)"
proof (induction n rule: grid_ok.induct)
  case (1 g)
  show ?case by (subst isValidGridNode.simps) (simp add: get_Cons)
next
  case (2 d cs sz)
  then have "length cs = length sz" by (simp add: sizes_ok_def)
  with 2 show ?case by (subst isValidGridNode.simps) (simp add: get_Cons)
qed

lemma valid_group: "rep_group j g \<Longrightarrow> isValidGroup j"
  by (cases j) (auto simp: rep_group_def isValidGroup_def split: option.splits json.splits)

lemma valid_state:
  assumes j: "rep_state j s" and g: "grid_ok (gridLayout s)"
  shows "isValidState j"
proof -
  obtain js where js: "js_prop j ''groups'' = Some (JObj js)" "groups_of j = js" "rep_groups js (groups s)"
    using rep_state_groups [OF j] .
  have "\<forall>(k, x) \<in> set js. isValidGroup x"
    using js(3) valid_group unfolding rep_groups_def list_all2_conv_all_nth
    by (auto simp: in_set_conv_nth rel_prod_sel) (metis snd_conv)
  moreover have "is_object j" using j by (cases j) (auto simp: rep_state_def)
  moreover have "obj_entries js = js" using js(3) by (simp add: rep_groups_def)
  ultimately show ?thesis
    using j valid_grid [OF g] by (simp add: isValidState_def js(1)) (simp add: rep_state_def)
qed

lemma fold_obj_set: "obj_ok (xs @ ys) \<Longrightarrow>
  fold (\<lambda>(k, v). obj_set k (f k v)) ys xs = xs @ map (\<lambda>(k, v). (k, f k v)) ys"
proof (induction ys arbitrary: xs)
  case (Cons y ys)
  obtain k v where y: "y = (k, v)" by (cases y)
  have k: "k \<notin> fst ` set xs" using Cons.prems y by (auto simp: obj_ok_def)
  then have "obj_set k (f k v) xs = xs @ [(k, f k v)]"
    by (induction xs) (auto simp: obj_set_def)
  moreover have "obj_ok ((xs @ [(k, f k v)]) @ ys)" using Cons.prems y by (simp add: obj_ok_def)
  ultimately show ?case using Cons.IH y by simp
qed simp

lemma pending_rep: "rep_group j g \<Longrightarrow>
  rep_group (pending_group j) (g\<lparr>tabs := map (\<lambda>t. t\<lparr>connectionStatus := Pending\<rparr>) (tabs g)\<rparr>)"
  unfolding pending_group_def by (intro rep_group_tabs rep_tabs_map rep_tabs rep_tab_spread)

lemma fold_tabs_get:
  "obj_get (fold (\<lambda>t. obj_set (tab_id t) k) ts m) x = (if x \<in> tab_id ` set ts then Some k else obj_get m x)"
  by (induction ts arbitrary: m) auto

lemma typed_map_get_fold:
  "obj_get (fold (\<lambda>(k, g). fold (\<lambda>t. obj_set (tab_id t) k) (tabs g)) gs m) x =
    (case find (\<lambda>(k, g). x \<in> set (group_ids g)) (rev gs) of Some (k, g) \<Rightarrow> Some k | None \<Rightarrow> obj_get m x)"
proof (induction gs arbitrary: m)
  case (Cons y gs)
  obtain k g where "y = (k, g)" by (cases y)
  then show ?case using Cons by (simp add: fold_tabs_get find_append split: option.split)
qed simp

text \<open>A tab id occurs under one key only.\<close>

definition unique_tabs :: "terminal_group obj \<Rightarrow> bool" where
  "unique_tabs gs \<longleftrightarrow> obj_ok gs \<and> (\<forall>k g. (k, g) \<in> set gs \<longrightarrow> group_ok g) \<and>
     (\<forall>k g j h t. (k, g) \<in> set gs \<longrightarrow> (j, h) \<in> set gs \<longrightarrow> t \<in> set (group_ids g) \<longrightarrow>
        t \<in> set (group_ids h) \<longrightarrow> k = j)"

lemma unique_tabs_key:
  "unique_tabs gs \<Longrightarrow> (k, g) \<in> set gs \<Longrightarrow> (j, h) \<in> set gs \<Longrightarrow> t \<in> set (group_ids g) \<Longrightarrow> t \<in> set (group_ids h) \<Longrightarrow> k = j"
  unfolding unique_tabs_def by blast

lemma unique_tabs_group: "unique_tabs gs \<Longrightarrow> (k, g) \<in> set gs \<Longrightarrow> group_ok g"
  unfolding unique_tabs_def by blast

lemma typed_map_get:
  assumes u: "unique_tabs gs"
  shows "obj_get (typed_map gs) t = Some k \<longleftrightarrow> (\<exists>g. (k, g) \<in> set gs \<and> t \<in> set (group_ids g))"
proof -
  obtain r where r: "find (\<lambda>(k, g). t \<in> set (group_ids g)) (rev gs) = r" by simp
  have e: "obj_get (typed_map gs) t = (case r of Some (k, g) \<Rightarrow> Some k | None \<Rightarrow> None)"
    unfolding typed_map_def typed_map_get_fold r by (cases r) auto
  show ?thesis
  proof (cases r)
    case None
    with r have "\<forall>p \<in> set gs. \<not> (case p of (k, g) \<Rightarrow> t \<in> set (group_ids g))" by (simp add: find_None_iff_all)
    with None e show ?thesis by auto
  next
    case (Some p)
    obtain j h where p: "p = (j, h)" by (cases p)
    with r Some find_Some_mem [of _ "rev gs" p] have jh: "(j, h) \<in> set gs" "t \<in> set (group_ids h)" by auto
    then have "(\<exists>g. (k, g) \<in> set gs \<and> t \<in> set (group_ids g)) \<longleftrightarrow> k = j"
      using unique_tabs_key [OF u] by blast
    with Some p e show ?thesis by auto
  qed
qed

lemma typed_map_ok: "obj_ok (typed_map gs)"
proof -
  have inner: "obj_ok m \<Longrightarrow> obj_ok (fold (\<lambda>t. obj_set (tab_id t) k) ts m)" for ts k m
    by (induction ts arbitrary: m) auto
  have "obj_ok m \<Longrightarrow> obj_ok (fold (\<lambda>(k, g). fold (\<lambda>t. obj_set (tab_id t) k) (tabs g)) gs m)" for m
    by (induction gs arbitrary: m) (auto simp: inner)
  then show ?thesis by (simp add: typed_map_def)
qed

lemma unique_once: "unique_tabs gs \<Longrightarrow> same_tabs_once gs"
proof (induction gs)
  case (Cons y gs)
  obtain k g where y: "y = (k, g)" by (cases y)
  have u: "unique_tabs gs"
    using Cons.prems unfolding unique_tabs_def obj_ok_def list.map distinct.simps list.set insert_iff by blast
  have "distinct (map fst (y # gs))" using Cons.prems unfolding unique_tabs_def obj_ok_def by blast
  then have k: "(k, h) \<notin> set gs" for h using y by (force simp: image_iff)
  have "t \<notin> set (group_ids h)" if "(j, h) \<in> set gs" "t \<in> set (group_ids g)" for j h t
    using unique_tabs_key [OF Cons.prems, of k g j h t] that k y by auto
  then have "set (group_ids g) \<inter> set (concat (map (\<lambda>(_, g). group_ids g) gs)) = {}" by fastforce
  moreover have "group_ok g" using unique_tabs_group [OF Cons.prems] y by auto
  moreover have "distinct (group_ids g)" using \<open>group_ok g\<close> by (simp add: group_ok_def)
  ultimately show ?case using Cons.IH [OF u] unfolding y same_tabs_once_def
    by (simp del: set_concat set_map)
qed (simp add: same_tabs_once_def)

lemma state_unique: "state_ok s \<Longrightarrow> unique_tabs (obj_entries (groups s))"
proof -
  assume s: "state_ok s"
  have ok: "obj_ok (groups s)" using s by (simp add: state_ok_def groups_ok_def)
  have mem: "(k, g) \<in> set (obj_entries (groups s)) \<longleftrightarrow> obj_get (groups s) k = Some g" for k g
    using obj_get_mem [OF ok] by simp
  have "k = j" if "obj_get (groups s) k = Some g" "obj_get (groups s) j = Some h"
    "t \<in> set (group_ids g)" "t \<in> set (group_ids h)" for k j g h t
    using that tab_in_unique [OF s, of j t k] by (simp add: tab_in_def)
  moreover have "group_ok g" if "obj_get (groups s) k = Some g" for k g
    using state_ok_group [OF s that] by simp
  moreover have "obj_ok (obj_entries (groups s))" using ok by simp
  ultimately show ?thesis unfolding unique_tabs_def mem by blast
qed

lemma saved_group_ok: "group_ok g \<Longrightarrow> group_ok (saved_group g)"
  by (auto simp: group_ok_def saved_group_def Let_def distinct_map inj_on_def filter_empty_conv
      split: list.split option.splits)

lemma saved_ids: "set (group_ids (saved_group g)) \<subseteq> set (group_ids g)" "group_id (saved_group g) = group_id g"
  by (auto simp: saved_group_def Let_def)

text \<open>Changing groups without adding tabs.\<close>

lemma unique_tabs_map:
  assumes u: "unique_tabs gs" and G: "\<And>g. group_ok g \<Longrightarrow> group_ok (G g)"
    and ids: "\<And>g. set (group_ids (G g)) \<subseteq> set (group_ids g)"
  shows "unique_tabs (map (\<lambda>(k, g). (k, G g)) gs)"
proof -
  have "k = j" if "(k, g) \<in> set gs" "(j, h) \<in> set gs" "t \<in> set (group_ids (G g))" "t \<in> set (group_ids (G h))"
    for k g j h t
    using unique_tabs_key [OF u that(1,2)] that(3,4) ids by blast
  moreover have "group_ok (G g)" if "(k, g) \<in> set gs" for k g using unique_tabs_group [OF u that] G by blast
  moreover have mem: "(k, x) \<in> set (map (\<lambda>(k, g). (k, G g)) gs) \<longleftrightarrow> (\<exists>g. (k, g) \<in> set gs \<and> x = G g)" for k x by auto
  moreover have "map fst (map (\<lambda>(k, g). (k, G g)) gs) = map fst gs" by auto
  then have "obj_ok (map (\<lambda>(k, g). (k, G g)) gs)" using u unfolding unique_tabs_def obj_ok_def by (simp only:)
  ultimately show ?thesis unfolding unique_tabs_def mem by blast
qed

definition back_group :: "terminal_group \<Rightarrow> terminal_group" where
  "back_group g = (saved_group g)\<lparr>tabs := map restored_tab (tabs (saved_group g))\<rparr>"

lemma back_ids: "group_ids (back_group g) = group_ids (saved_group g)" "group_id (back_group g) = group_id g"
  "activeTabId (back_group g) = activeTabId (saved_group g)"
  using saved_ids by (simp_all add: back_group_def restored_tab_def)

lemma back_group_ok: "group_ok g \<Longrightarrow> group_ok (back_group g)"
proof -
  assume "group_ok g"
  from saved_group_ok [OF this] show ?thesis
    unfolding group_ok_def back_ids by (auto simp: back_group_def split: option.splits)
qed

lemma restored_groups: "groups (restored_state s) = map (\<lambda>(k, g). (k, back_group g)) (obj_entries (groups s))"
  by (simp add: restored_state_saved Let_def obj_map_def back_group_def split_beta)

lemma restored_unique: "state_ok s \<Longrightarrow> unique_tabs (groups (restored_state s))"
  unfolding restored_groups
  by (rule unique_tabs_map [OF state_unique]) (use back_group_ok saved_ids in \<open>auto simp: back_ids simp del: set_map\<close>)

lemma restored_get: "obj_ok (groups s) \<Longrightarrow>
  obj_get (groups (restored_state s)) k = map_option back_group (obj_get (groups s) k)"
  by (cases "obj_get (groups s) k") (simp_all add: restored_state_saved Let_def back_group_def)

lemma restored_ok:
  assumes s: "state_ok s" shows "state_ok (restored_state s)"
proof -
  let ?r = "restored_state s"
  have ok: "obj_ok (groups s)" using s by (simp add: state_ok_def groups_ok_def)
  have okr: "obj_ok (groups ?r)" using obj_map_ok [OF ok] by (simp add: restored_state_saved Let_def)
  note get = restored_get [OF ok]
  have "groups_ok (groups ?r)"
    using okr state_ok_group [OF s] back_group_ok by (auto simp: groups_ok_def get back_ids)
  moreover have "map_ok (groups ?r) (tabToGroupMap ?r)"
  proof -
    have "tabToGroupMap ?r = typed_map (groups ?r)" by (simp add: restored_state_saved Let_def)
    then show ?thesis
      using typed_map_get [OF restored_unique [OF s]] typed_map_ok okr
      by (simp add: map_ok_def tab_in_def obj_get_mem)
  qed
  moreover have "layout_ok (groups ?r) (gridLayout ?r)" "ids_fresh (groups ?r) (nextGroupId ?r)"
    "obj_get (groups ?r) (activeGroupId ?r) \<noteq> None"
    using s by (auto simp: state_ok_def layout_ok_def ids_fresh_def get)
      (simp_all add: restored_state_saved Let_def)
  ultimately show ?thesis by (simp add: state_ok_def)
qed

lemma typed_map_same_ids:
  assumes "\<And>g. group_ids (G g) = group_ids g"
  shows "typed_map (map (\<lambda>(k, g). (k, G g)) gs) = typed_map gs"
proof -
  have inner: "fold (\<lambda>t. obj_set (tab_id t) k) ts m = fold (\<lambda>i. obj_set i k) (map tab_id ts) m" for k ts m
    by (induction ts arbitrary: m) auto
  have "fold (\<lambda>(k, g). fold (\<lambda>t. obj_set (tab_id t) k) (tabs g)) (map (\<lambda>(k, g). (k, G g)) gs) m =
      fold (\<lambda>(k, g). fold (\<lambda>t. obj_set (tab_id t) k) (tabs g)) gs m" for m
    by (induction gs arbitrary: m) (auto simp: inner assms)
  then show ?thesis by (simp add: typed_map_def)
qed

abbreviation clear_unread :: "terminal_group \<Rightarrow> terminal_group" where
  "clear_unread g \<equiv> g\<lparr>tabs := map (\<lambda>t. t\<lparr>hasUnreadOutput := None\<rparr>) (tabs g)\<rparr>"

abbreviation mark_read :: "terminal_group \<Rightarrow> terminal_group" where
  "mark_read g \<equiv> g\<lparr>tabs := map (\<lambda>t. t\<lparr>hasUnreadOutput := Some False\<rparr>) (tabs g)\<rparr>"

abbreviation mark_pending :: "terminal_group \<Rightarrow> terminal_group" where
  "mark_pending g \<equiv> g\<lparr>tabs := map (\<lambda>t. t\<lparr>connectionStatus := Pending\<rparr>) (tabs g)\<rparr>"

lemma back_group_steps: "mark_pending (mark_read (clear_unread (saved_group g))) = back_group g"
  by (simp add: back_group_def restored_tab_def comp_def)

lemma pending_refines:
  assumes j: "rep_state j s" and item: "loadState key_text item = Some j"
    and m: "migrateFromLegacy item = item" and on: "isRestoreSessionsOnStartupEnabled settings"
    and ok: "obj_ok (groups s)"
  shows "\<exists>r. initializeState key_text settings item = (r, item) \<and>
    rep_state r (s\<lparr>groups := map (\<lambda>(k, g). (k, mark_pending g)) (groups s), tabToGroupMap := typed_map (groups s)\<rparr>)"
proof -
  obtain js where js: "js_prop j ''groups'' = Some (JObj js)" "groups_of j = js" "rep_groups js (groups s)"
    using rep_state_groups [OF j] .
  have "obj_ok ([] @ js)" using rep_groups_keys [OF js(3)] ok by (simp add: obj_ok_def)
  from fold_obj_set [OF this, of "\<lambda>_ g. pending_group g"]
  have f: "fold (\<lambda>(k, g). obj_set k (pending_group g)) js [] = map (\<lambda>(k, g). (k, pending_group g)) js" by simp
  have mp: "map_of_groups key_text js = map (\<lambda>(k, v). (k, JStr v)) (typed_map (groups s))"
    by (rule map_of_groups_rep) (use js(3) in \<open>simp add: rep_groups_def\<close>)
  have "rep_groups (map (\<lambda>(k, g). (k, pending_group g)) js) (map (\<lambda>(k, g). (k, mark_pending g)) (groups s))"
    by (rule rep_groups_map [OF js(3), where F = "\<lambda>_. pending_group"]) (rule pending_rep)
  from rep_state_map [OF rep_state_replace [OF j this], of "typed_map (groups s)"]
  show ?thesis
    using item m on by (simp add: initializeState_def Let_def js(2) f mp)
qed

lemma load_saved:
  assumes s: "state_ok s"
  shows "\<exists>j. loadState key_text (saveState True s old) = Some j \<and>
    rep_state j (s\<lparr>groups := map (\<lambda>(k, g). (k, mark_read (clear_unread (saved_group g)))) (obj_entries (groups s)),
      tabToGroupMap := typed_map (map (\<lambda>(k, g). (k, mark_read (clear_unread (saved_group g)))) (obj_entries (groups s)))\<rparr>)"
proof -
  let ?E = "obj_entries (groups s)"
  have ok: "obj_ok (groups s)" using s by (simp add: state_ok_def groups_ok_def)
  define s1 where "s1 = (saved_state s)\<lparr>groups := obj_map (\<lambda>_ g. clear_unread g) (groups (saved_state s))\<rparr>"
  have g1: "groups s1 = map (\<lambda>(k, g). (k, clear_unread (saved_group g))) ?E"
    by (simp add: s1_def saved_state_def obj_map_def obj_entries_keys_map split_beta)
  have e1: "obj_entries (groups s1) = groups s1" by (simp add: s1_def)
  have ok1: "obj_ok (groups s1)" by (simp add: s1_def saved_state_def obj_map_ok ok)
  define s2 where "s2 = s1\<lparr>groups := obj_entries (groups s1), tabToGroupMap := obj_entries (tabToGroupMap s1)\<rparr>"
  have r2: "rep_state (encode_state s1) s2" unfolding s2_def by (rule encode_state_rep [OF ok1])
  have e2: "obj_entries (groups s2) = groups s2" by (simp add: s2_def)
  have gs2: "groups s2 = map (\<lambda>(k, g). (k, clear_unread (saved_group g))) ?E"
    unfolding g1 [symmetric] using e1 by (simp add: s2_def)
  obtain j2 where j2: "reset_json (encode_state s1) = Some j2" "rep_state j2 (resetUnreadOutput s2)"
    using reset_refines [OF r2 e2] by blast
  have g2: "groups (resetUnreadOutput s2) = map (\<lambda>(k, g). (k, mark_read (clear_unread (saved_group g)))) ?E"
    by (simp add: reset_unread_map [OF e2] gs2 split_beta comp_def)
  have u: "unique_tabs (groups (resetUnreadOutput s2))"
    unfolding g2
  proof (rule unique_tabs_map [OF state_unique [OF s]])
    show "set (group_ids (mark_read (clear_unread (saved_group g)))) \<subseteq> set (group_ids g)" for g
      using saved_ids(1) by (simp add: comp_def)
    show "group_ok (mark_read (clear_unread (saved_group g)))" if "group_ok g" for g
      using saved_group_ok [OF that] by (auto simp: group_ok_def comp_def image_iff split: option.splits)
  qed
  have r3: "rep_state (dedupeDuplicateTabs key_text j2)
      ((resetUnreadOutput s2)\<lparr>tabToGroupMap := typed_map (groups (resetUnreadOutput s2))\<rparr>)"
    by (rule dedupe_refines [OF j2(2) unique_once [OF u]])
  have "(resetUnreadOutput s2)\<lparr>tabToGroupMap := x\<rparr> = s\<lparr>groups := groups (resetUnreadOutput s2), tabToGroupMap := x\<rparr>" for x
    by (simp add: reset_unread_map [OF e2]) (simp add: s2_def s1_def saved_state_def)
  with r3 have r4: "rep_state (dedupeDuplicateTabs key_text j2) (s\<lparr>groups := groups (resetUnreadOutput s2),
      tabToGroupMap := typed_map (groups (resetUnreadOutput s2))\<rparr>)" by simp
  have grid: "grid_ok (gridLayout s2)"
    using s by (simp add: s2_def s1_def saved_state_def state_ok_def layout_ok_def)
  have d: "serialize (saved_state s) = JObj [(''version'', STATE_VERSION), (''data'', encode_state s1)]"
    by (simp add: serialize_def Let_def s1_def)
  have "is_object (encode_state s1)" by (simp add: encode_state_def)
  then have "loadState key_text (saveState True s old) = Some (dedupeDuplicateTabs key_text j2)"
    using valid_state [OF r2 grid] j2(1)
    by (simp add: loadState_def saveState_def deserialize_def d isSerializedState_def get_Cons STATE_VERSION_def)
  with r4 show ?thesis unfolding g2 by blast
qed

text \<open>
  (C14) The layout survives a restart: the state saved by any consistent state and read back at the next start
  is that state without its editor tabs, every tab pending and without unread output, with the map of tabs
  rebuilt, and it is consistent again.
\<close>

theorem layout_survives_restart:
  assumes s: "state_ok s" and on: "isRestoreSessionsOnStartupEnabled settings"
  shows "(\<exists>j. initializeState key_text settings (saveState True s old) = (j, saveState True s old) \<and>
      rep_state j (restored_state s)) \<and> state_ok (restored_state s)"
proof -
  let ?gs = "map (\<lambda>(k, g). (k, mark_read (clear_unread (saved_group g)))) (obj_entries (groups s))"
  obtain j where j: "loadState key_text (saveState True s old) = Some j"
      "rep_state j (s\<lparr>groups := ?gs, tabToGroupMap := typed_map ?gs\<rparr>)"
    using load_saved [OF s] by blast
  have ok: "obj_ok (groups s)" using s by (simp add: state_ok_def groups_ok_def)
  have "map fst ?gs = map fst (obj_entries (groups s))" by auto
  then have okg: "obj_ok ?gs" using ok obj_entries_ok unfolding obj_ok_def by (metis obj_keys_def obj_keys_mset mset_eq_imp_distinct_iff)
  have m: "migrateFromLegacy (saveState True s old) = saveState True s old"
    by (simp add: migrateFromLegacy_def saveState_def serialize_def Let_def get_Cons)
  have gs: "map (\<lambda>(k, g). (k, mark_pending g)) ?gs = groups (restored_state s)"
    unfolding restored_groups by (simp add: split_beta back_group_steps [symmetric] comp_def)
  have "typed_map ?gs = typed_map (map (\<lambda>(k, g). (k, mark_pending g)) ?gs)"
    by (rule typed_map_same_ids [symmetric]) simp
  then have "typed_map ?gs = tabToGroupMap (restored_state s)"
    unfolding gs by (simp add: restored_state_saved Let_def)
  then have "s\<lparr>groups := map (\<lambda>(k, g). (k, mark_pending g)) ?gs, tabToGroupMap := typed_map ?gs\<rparr> = restored_state s"
    unfolding gs by (simp add: restored_state_saved Let_def)
  then show ?thesis
    using pending_refines [OF j(2,1) m on] okg restored_ok [OF s] by simp
qed

lemma layout_survives_restart_witness:
  "(\<exists>j. initializeState (\<lambda>_. []) None (saveState True createDefaultState None) =
      (j, saveState True createDefaultState None) \<and> rep_state j (restored_state createDefaultState)) \<and>
    state_ok (restored_state createDefaultState)"
  by (rule layout_survives_restart [OF createDefaultState_ok]) (simp add: isRestoreSessionsOnStartupEnabled_def)

section \<open>Whatever is in storage\<close>

abbreviation ids_of :: "json \<Rightarrow> json option list" where
  "ids_of g \<equiv> map (\<lambda>t. js_prop t ''id'') (tabs_of g)"

lemma keep_new_distinct:
  "keep_new seen ts = (kept, seen') \<Longrightarrow> set seen' = set (map (\<lambda>t. js_prop t ''id'') kept) \<union> set seen \<and>
    distinct (filter is_string (map (\<lambda>t. js_prop t ''id'') kept)) \<and>
    (\<forall>v \<in> set (map (\<lambda>t. js_prop t ''id'') kept). is_string v \<longrightarrow> v \<notin> set seen)"
proof (induction seen ts arbitrary: kept seen' rule: keep_new.induct)
  case (2 seen t ts)
  let ?v = "js_prop t ''id''"
  have seen: "seen_before seen ?v \<longleftrightarrow> ?v \<in> set seen" if "is_string ?v"
    using that by (cases "?v" rule: is_string.cases) (auto simp: seen_before_def)
  show ?case
  proof (cases "seen_before seen ?v")
    case True
    with 2 show ?thesis by simp
  next
    case False
    then obtain k where k: "keep_new (?v # seen) ts = (k, seen')" "kept = t # k"
      using "2.prems" by (auto split: prod.splits)
    from "2.IH"(2) [OF False k(1)] False seen show ?thesis by (auto simp: k(2))
  qed
qed simp

lemma deduped_parts:
  "js_prop (deduped_group g ts) ''tabs'' = Some (JArr ts)" "tabs_of (deduped_group g ts) = ts"
  by (simp_all add: deduped_group_def tabs_of_def)

lemma dedupe_distinct:
  "distinct (filter is_string (concat (map (\<lambda>(_, g). ids_of g) (dedupe_groups seen gs)))) \<and>
   (\<forall>v \<in> set (concat (map (\<lambda>(_, g). ids_of g) (dedupe_groups seen gs))). is_string v \<longrightarrow> v \<notin> set seen)"
proof (induction seen gs rule: dedupe_groups.induct)
  case (2 seen k g gs)
  obtain ts seen' where n: "keep_new seen (tabs_of g) = (ts, seen')" by (cases "keep_new seen (tabs_of g)")
  note kd = keep_new_distinct [OF n]
  let ?A = "map (\<lambda>t. js_prop t ''id'') ts"
  let ?R = "concat (map (\<lambda>(_, g). ids_of g) (dedupe_groups seen' gs))"
  have IH: "distinct (filter is_string ?R)" "\<forall>v \<in> set ?R. is_string v \<longrightarrow> v \<notin> set seen'"
    using "2.IH" [OF n [symmetric]] by blast+
  have e: "concat (map (\<lambda>(_, g). ids_of g) (dedupe_groups seen ((k, g) # gs))) = ?A @ ?R"
    by (simp add: n deduped_parts)
  have "distinct (filter is_string (?A @ ?R))"
    unfolding filter_append distinct_append using kd IH by (auto simp del: set_map set_concat)
  moreover have "\<forall>v \<in> set (?A @ ?R). is_string v \<longrightarrow> v \<notin> set seen"
    unfolding set_append using kd IH(2) by blast
  ultimately show ?case unfolding e by blast
qed simp

text \<open>The active tab of a restored group is one of its tabs.\<close>

lemma deduped_active:
  assumes "js_prop (deduped_group g ts) ''activeTabId'' = Some (JStr a)"
  shows "Some (JStr a) \<in> set (ids_of (deduped_group g ts))"
proof (cases "\<exists>t \<in> set ts. strict_eq (js_prop t ''id'') (js_prop g ''activeTabId'')")
  case True
  then have "(case js_prop g ''activeTabId'' of Some a \<Rightarrow> a | None \<Rightarrow> JNull) = JStr a"
    using assms by (simp add: deduped_group_def)
  then have "js_prop g ''activeTabId'' = Some (JStr a)" by (auto split: option.splits)
  with True show ?thesis by (auto simp: deduped_parts image_iff) metis
next
  case False
  then have e: "(case ts of t # _ \<Rightarrow> (case js_prop t ''id'' of Some i \<Rightarrow> i | None \<Rightarrow> JNull) | [] \<Rightarrow> JNull) = JStr a"
    using assms by (simp add: deduped_group_def)
  then show ?thesis by (cases ts) (auto simp: deduped_parts split: option.splits)
qed

lemma dedupe_members:
  "(k, g) \<in> set (dedupe_groups seen gs) \<Longrightarrow> \<exists>g0 ts. g = deduped_group g0 ts"
  by (induction seen gs rule: dedupe_groups.induct) (auto split: prod.splits)


text \<open>A stored layout whose two groups hold a tab of the same id.\<close>

definition twin_tab :: json where
  "twin_tab = JObj [(''id'', JStr ''t''), (''hasUnreadOutput'', JBool False)]"

definition twin_group :: "string \<Rightarrow> json" where
  "twin_group i = JObj [(''id'', JStr i), (''tabs'', JArr [twin_tab]), (''activeTabId'', JStr ''t'')]"

definition twin_layout :: json where
  "twin_layout = JObj [(''version'', JNum 1), (''data'', JObj [
     (''groups'', JObj [(''1'', twin_group ''1''), (''2'', twin_group ''2'')]),
     (''activeGroupId'', JStr ''1''), (''nextGroupId'', JNum 3),
     (''gridLayout'', JObj [(''type'', JStr ''leaf''), (''groupId'', JStr ''1'')])])]"

lemma all_read_returns: "JNull \<notin> set ts \<Longrightarrow> all_read ts \<noteq> None"
  by (induction ts) auto

lemma twin_loads: "loadState (\<lambda>_. []) (Some (Some twin_layout)) \<noteq> None"
proof -
  let ?d = "JObj [(''groups'', JObj [(''1'', twin_group ''1''), (''2'', twin_group ''2'')]),
     (''activeGroupId'', JStr ''1''), (''nextGroupId'', JNum 3),
     (''gridLayout'', JObj [(''type'', JStr ''leaf''), (''groupId'', JStr ''1'')])]"
  have g: "isValidGroup (twin_group i)" for i
    by (simp add: isValidGroup_def twin_group_def get_Cons)
  have n: "isValidGridNode (JObj [(''type'', JStr ''leaf''), (''groupId'', JStr ''1'')])"
    by (subst isValidGridNode.simps) (simp add: get_Cons)
  have "isValidState ?d" using g n by (simp add: isValidState_def get_Cons)
  moreover have "JNull \<notin> set (concat (map (\<lambda>(_, g). tabs_of g) (groups_of ?d)))"
    by (auto simp: groups_of_def get_Cons tabs_of_def twin_group_def twin_tab_def)
  then have "reset_json ?d \<noteq> None" using all_read_returns by (simp add: reset_json_def)
  ultimately show ?thesis
    by (simp add: loadState_def deserialize_def twin_layout_def isSerializedState_def STATE_VERSION_def get_Cons)
qed


text \<open>
  (C37) A start never fails on what is stored: with the restore switched off, and with no layout, one that does not
  parse, is not an object, has another version or fails the validation, the app starts with the default
  state; with the restore switched off or an unreadable text the stored layout is removed.
\<close>

theorem startup_falls_back:
  "let r = initializeState key_text settings item in
   (\<not> isRestoreSessionsOnStartupEnabled settings \<longrightarrow> r = (encode_state createDefaultState, None)) \<and>
   (item = None \<or> item = Some None \<longrightarrow> r = (encode_state createDefaultState, None)) \<and>
   (\<forall>v. item = Some (Some v) \<and> (\<not> is_object v \<or> js_prop v ''version'' \<noteq> Some (JNum 1) \<or>
        (case js_prop v ''data'' of Some d \<Rightarrow> \<not> isValidState d | None \<Rightarrow> True)) \<longrightarrow>
      fst r = encode_state createDefaultState)"
  by (auto simp: Let_def initializeState_def migrateFromLegacy_def loadState_def deserialize_def
      isSerializedState_def STATE_VERSION_def split: option.splits if_splits)

lemma startup_falls_back_witness:
  "fst (initializeState (\<lambda>_. []) None (Some (Some JNull))) = encode_state createDefaultState"
  using startup_falls_back [of "\<lambda>_. []" None "Some (Some JNull)"] by (simp add: Let_def)

end
