(* ===== verification/SocksProxies.thy ===== *)
theory SocksProxies
  imports Json
begin

text \<open>
  The SOCKS proxies of a session: \<open>src/src/lib/socks-proxy-store.ts\<close>, their restart after a connection has
  been restored (\<open>restoreSocksProxies\<close> of \<open>src/src/App.tsx\<close>), and what the backend does for it
  (\<open>start_socks_proxy\<close> of \<open>src/src-tauri/src/connection_manager.rs\<close>): the list of running proxies, reported
  with an event on each change, which is handled before the call returns. \<open>binds p\<close> says whether the port of \<open>p\<close> can be bound on that start; a port
  given as 0 is not modelled, so the actual port is the one asked for.
\<close>

record socks_proxy =
  proxy_id :: string
  proxy_connection :: string
  bind_address :: string
  bind_port :: nat

text \<open>\<open>saved\<close>: the stored list, \<open>None\<close> when there is none that parses to an array; \<open>write_ok\<close>: the quota.\<close>

record proxy_state =
  running :: "socks_proxy list"
  currentList :: "socks_proxy list"
  saved :: "socks_proxy list option"

definition setList :: "bool \<Rightarrow> socks_proxy list \<Rightarrow> bool \<Rightarrow> proxy_state \<Rightarrow> proxy_state" where
  "setList write_ok next persist s =
     s\<lparr>currentList := next, saved := (if persist \<and> write_ok then Some next else saved s)\<rparr>"

definition initSocksProxyStore :: "bool \<Rightarrow> proxy_state \<Rightarrow> proxy_state" where
  "initSocksProxyStore reachable s = (if reachable then setList True (running s) False s else s)"

definition socksProxyId :: "string \<Rightarrow> nat \<Rightarrow> string" where
  "socksProxyId connectionId bindPort = ''socks-'' @ connectionId @ '':'' @ string_of_nat bindPort"

definition savedProxiesFor :: "proxy_state \<Rightarrow> string \<Rightarrow> socks_proxy list" where
  "savedProxiesFor s connectionId =
     (case saved s of None \<Rightarrow> [] | Some ps \<Rightarrow> filter (\<lambda>p. proxy_connection p = connectionId) ps)"

text \<open>The backend: an entry of the same id is stopped first, and every change is reported.\<close>

definition backend_start :: "(socks_proxy \<Rightarrow> bool) \<Rightarrow> socks_proxy \<Rightarrow> socks_proxy list \<Rightarrow> socks_proxy list" where
  "backend_start binds p ps = filter (\<lambda>q. proxy_id q \<noteq> proxy_id p) ps @ (if binds p then [p] else [])"

definition startSocksProxy ::
  "(socks_proxy \<Rightarrow> bool) \<Rightarrow> string \<Rightarrow> string \<Rightarrow> nat \<Rightarrow> proxy_state \<Rightarrow> bool \<times> proxy_state" where
  "startSocksProxy binds connectionId bindAddress bindPort s =
     (let p = \<lparr>proxy_id = socksProxyId connectionId bindPort, proxy_connection = connectionId,
               bind_address = bindAddress, bind_port = bindPort\<rparr>;
          next = backend_start binds p (running s); s1 = s\<lparr>running := next\<rparr>
      in (binds p, if next = running s then s1 else setList True next True s1))"

definition stopSocksProxy :: "string \<Rightarrow> proxy_state \<Rightarrow> proxy_state" where
  "stopSocksProxy i s =
     (let next = filter (\<lambda>q. proxy_id q \<noteq> i) (running s)
      in if next = running s then s else setList True next True (s\<lparr>running := next\<rparr>))"

definition restoreSocksProxies :: "(socks_proxy \<Rightarrow> bool) \<Rightarrow> string \<Rightarrow> proxy_state \<Rightarrow> proxy_state" where
  "restoreSocksProxies binds connectionId s =
     fold (\<lambda>p. snd \<circ> startSocksProxy binds connectionId (bind_address p) (bind_port p))
       (savedProxiesFor s connectionId) s"

section \<open>Restoring\<close>

lemma restore_fold:
  fixes s :: proxy_state
  assumes "\<forall>q \<in> set (running s). proxy_connection q = a"
    and "s' = fold (\<lambda>p. snd \<circ> startSocksProxy binds a (bind_address p) (bind_port p)) ps s"
  shows "(\<forall>q \<in> set (running s'). proxy_connection q = a) \<and> (saved s' = saved s \<or> saved s' = Some (running s')) \<and>
    (saved s = Some (running s) \<longrightarrow> saved s' = Some (running s'))"
  using assms
proof (induction ps arbitrary: s)
  case (Cons p ps)
  let ?s = "snd (startSocksProxy binds a (bind_address p) (bind_port p) s)"
  have r: "\<forall>q \<in> set (running ?s). proxy_connection q = a"
    using Cons.prems(1) by (auto simp: startSocksProxy_def Let_def setList_def backend_start_def)
  have "saved ?s = Some (running ?s) \<or> saved ?s = saved s \<and> running ?s = running s"
    by (auto simp: startSocksProxy_def Let_def setList_def)
  moreover note Cons.IH [OF r, of]
  ultimately show ?case using Cons.prems(2) by auto
qed simp

text \<open>
  Restoring the proxies of one connection forgets those of the others: the first proxy that starts makes the
  backend report its list, which is saved at once over the list of the previous session, so that the next
  connection finds none of its own to restart.
\<close>

theorem first_restored_proxy_erases_the_rest:
  assumes s: "running s = []" and p: "p \<in> set (savedProxiesFor s a)"
    and ok: "\<And>q. proxy_connection q = a \<Longrightarrow> binds q" and ab: "a \<noteq> b"
  shows "savedProxiesFor (restoreSocksProxies binds a s) b = []"
proof -
  obtain q qs where q: "savedProxiesFor s a = q # qs" using p by (cases "savedProxiesFor s a") auto
  let ?s = "snd (startSocksProxy binds a (bind_address q) (bind_port q) s)"
  have r: "\<forall>x \<in> set (running ?s). proxy_connection x = a" "saved ?s = Some (running ?s)"
    using ok by (auto simp: startSocksProxy_def Let_def setList_def backend_start_def s)
  have e: "restoreSocksProxies binds a s = fold (\<lambda>p. snd \<circ> startSocksProxy binds a (bind_address p) (bind_port p)) qs ?s"
    by (simp add: restoreSocksProxies_def q)
  from restore_fold [OF r(1) e] r(2)
  have "\<forall>x \<in> set (running (restoreSocksProxies binds a s)). proxy_connection x = a"
    "saved (restoreSocksProxies binds a s) = Some (running (restoreSocksProxies binds a s))" by blast+
  then show ?thesis using ab by (auto simp: savedProxiesFor_def filter_empty_conv)
qed

lemma first_restored_proxy_erases_the_rest_witness:
  "let p = \<lparr>proxy_id = ''socks-a:1080'', proxy_connection = ''a'', bind_address = ''127.0.0.1'', bind_port = 1080\<rparr>;
       q = \<lparr>proxy_id = ''socks-b:1081'', proxy_connection = ''b'', bind_address = ''127.0.0.1'', bind_port = 1081\<rparr>;
       s = \<lparr>running = [], currentList = [], saved = Some [p, q]\<rparr>
   in savedProxiesFor s ''b'' = [q] \<and> savedProxiesFor (restoreSocksProxies (\<lambda>_. True) ''a'' s) ''b'' = []"
  unfolding Let_def
proof
  let ?p = "\<lparr>proxy_id = ''socks-a:1080'', proxy_connection = ''a'', bind_address = ''127.0.0.1'', bind_port = 1080\<rparr>"
  let ?q = "\<lparr>proxy_id = ''socks-b:1081'', proxy_connection = ''b'', bind_address = ''127.0.0.1'', bind_port = 1081\<rparr>"
  let ?s = "\<lparr>running = [], currentList = [], saved = Some [?p, ?q]\<rparr>"
  show "savedProxiesFor ?s ''b'' = [?q]" by (simp add: savedProxiesFor_def)
  show "savedProxiesFor (restoreSocksProxies (\<lambda>_. True) ''a'' ?s) ''b'' = []"
    by (rule first_restored_proxy_erases_the_rest [where p = ?p]) (simp_all add: savedProxiesFor_def)
qed

end
