(* ===== verification/Storage.thy ===== *)
theory Storage
  imports Json
begin

text \<open>
  Lists of records that the local storage keeps under one key, read as a whole and written as a whole by each
  operation. \<open>keyed_store\<close> is what their clients rely on: seen through look-ups by key, storing and deleting are the
  update and the removal of a map. A stored item is \<open>None\<close> when there is none, \<open>Some None\<close> when its text does not
  parse, and otherwise its value.
\<close>

type_synonym item = "json option option"

definition js_truthy :: "json option \<Rightarrow> bool" where
  "js_truthy v = (case v of None \<Rightarrow> False | Some JNull \<Rightarrow> False | Some (JBool b) \<Rightarrow> b
     | Some (JNum q) \<Rightarrow> q \<noteq> 0 | Some (JStr s) \<Rightarrow> s \<noteq> [] | Some _ \<Rightarrow> True)"

definition js_number :: "(json \<Rightarrow> rat option) \<Rightarrow> json option \<Rightarrow> rat option" where
  "js_number number_of v = (case v of None \<Rightarrow> None | Some JNull \<Rightarrow> Some 0
     | Some (JBool b) \<Rightarrow> Some (if b then 1 else 0) | Some (JNum q) \<Rightarrow> Some q | Some w \<Rightarrow> number_of w)"

text \<open>\<open>{...a, ...v}\<close>\<close>

definition spread_over :: "json obj \<Rightarrow> json \<Rightarrow> json obj" where
  "spread_over a v = fold (\<lambda>(k, w). obj_set k w) (entries v) a"

text \<open>An array of strings, an optional property, \<open>hay.includes(needle)\<close> of texts.\<close>

definition strings :: "string list \<Rightarrow> json" where
  "strings ts = JArr (map JStr ts)"

definition set_opt :: "string \<Rightarrow> 'v option \<Rightarrow> 'v obj \<Rightarrow> 'v obj" where
  "set_opt k v o1 = (case v of Some w \<Rightarrow> obj_set k w o1 | None \<Rightarrow> o1)"

definition js_includes :: "string \<Rightarrow> string \<Rightarrow> bool" where
  "js_includes hay needle \<longleftrightarrow> list_ex (\<lambda>n. starts_with (drop n hay) needle) [0..<Suc (length hay)]"

section \<open>The contract\<close>

datatype ('k, 'v) store_command = Put 'v | Del 'k

fun map_command :: "('v \<Rightarrow> 'k) \<Rightarrow> ('k, 'v) store_command \<Rightarrow> ('k \<rightharpoonup> 'v) \<Rightarrow> ('k \<rightharpoonup> 'v)" where
  "map_command ident (Put v) m = m(ident v \<mapsto> v)"
| "map_command ident (Del k) m = m(k := None)"

definition find_by :: "('v \<Rightarrow> 'k) \<Rightarrow> 'v list \<Rightarrow> 'k \<Rightarrow> 'v option" where
  "find_by ident xs k = find (\<lambda>v. ident v = k) xs"

fun fit_command :: "('v \<Rightarrow> bool) \<Rightarrow> ('k, 'v) store_command \<Rightarrow> bool" where
  "fit_command fit (Put v) = fit v"
| "fit_command fit (Del k) = True"

fun run_command :: "('v \<Rightarrow> 's \<Rightarrow> 's) \<Rightarrow> ('k \<Rightarrow> 's \<Rightarrow> 's) \<Rightarrow> ('k, 'v) store_command \<Rightarrow> 's \<Rightarrow> 's" where
  "run_command put del (Put v) s = put v s"
| "run_command put del (Del k) s = del k s"

locale keyed_store =
  fixes items :: "'s \<Rightarrow> 'v list" and ident :: "'v \<Rightarrow> 'k"
    and put :: "'v \<Rightarrow> 's \<Rightarrow> 's" and del :: "'k \<Rightarrow> 's \<Rightarrow> 's" and fit :: "'v \<Rightarrow> bool"
  assumes find_put: "fit v \<Longrightarrow> find_by ident (items (put v s)) = (find_by ident (items s))(ident v \<mapsto> v)"
    and find_del: "find_by ident (items (del k s)) = (find_by ident (items s))(k := None)"
begin

lemma find_command:
  "fit_command fit c \<Longrightarrow> find_by ident (items (run_command put del c s)) = map_command ident c (find_by ident (items s))"
  by (cases c) (simp_all add: find_put find_del)

lemma find_run:
  "list_all (fit_command fit) cs \<Longrightarrow>
   find_by ident (items (fold (run_command put del) cs s)) = fold (map_command ident) cs (find_by ident (items s))"
  by (induction cs arbitrary: s) (simp_all add: find_command)

lemma last_put_wins:
  "fit v \<Longrightarrow> list_all (\<lambda>c. c \<noteq> Del (ident v) \<and> (\<forall>w. c = Put w \<longrightarrow> fit w \<and> ident w \<noteq> ident v)) cs \<Longrightarrow>
   find_by ident (items (fold (run_command put del) cs (put v s))) (ident v) = Some v"
proof (induction cs rule: rev_induct)
  case Nil
  then show ?case by (simp add: find_put)
next
  case (snoc c cs)
  then have "fit_command fit c" by (cases c) simp_all
  with snoc show ?case by (cases c) (auto simp: find_put find_del)
qed

end

section \<open>Arrays of records\<close>

lemma filter_length_same: "length (filter P xs) = length xs \<Longrightarrow> filter P xs = xs"
  by (metis filter_True length_filter_less linorder_not_less order_refl)

definition replace_by :: "('v \<Rightarrow> 'k) \<Rightarrow> 'v \<Rightarrow> 'v list \<Rightarrow> 'v list" where
  "replace_by ident v xs =
     (case find_index (\<lambda>w. ident w = ident v) xs of Some i \<Rightarrow> xs[i := v] | None \<Rightarrow> xs @ [v])"

lemma find_by_append: "find_by ident (xs @ [v]) k = (case find_by ident xs k of Some w \<Rightarrow> Some w | None \<Rightarrow> if ident v = k then Some v else None)"
  by (auto simp: find_by_def find_append split: option.split)

lemma find_by_replace: "find_by ident (replace_by ident v xs) = (find_by ident xs)(ident v \<mapsto> v)"
proof (induction xs)
  case Nil
  then show ?case by (rule ext) (simp add: replace_by_def find_by_def)
next
  case (Cons x xs)
  show ?case
  proof (cases "ident x = ident v")
    case True
    then show ?thesis by (intro ext) (simp add: replace_by_def find_by_def)
  next
    case False
    then have "replace_by ident v (x # xs) = x # replace_by ident v xs"
      by (cases "find_index (\<lambda>w. ident w = ident v) xs") (simp_all add: replace_by_def del: find_index_None)
    with Cons.IH False show ?thesis by (auto simp: find_by_def fun_eq_iff)
  qed
qed

lemma find_by_filter: "find_by ident (filter (\<lambda>v. ident v \<noteq> k) xs) = (find_by ident xs)(k := None)"
  by (induction xs) (auto simp: find_by_def fun_eq_iff)

lemma find_by_distinct: "distinct (map ident xs) \<Longrightarrow> r \<in> set xs \<Longrightarrow> find_by ident xs (ident r) = Some r"
  by (induction xs) (auto simp: find_by_def)

lemma set_replace_by: "set (replace_by ident v xs) \<subseteq> insert v (set xs)"
  by (auto simp: replace_by_def dest: set_update_subset_insert [THEN subsetD] split: option.splits)

lemma obj_entries_append:
  assumes "obj_entries o1 = o1" and k: "\<not> is_index_key k"
  shows "obj_entries (obj_set k v o1) = obj_set k v o1"
proof -
  let ?a = "sort_key (nat_of_digits \<circ> fst) (filter (is_index_key \<circ> fst) o1)"
  let ?b = "filter (\<lambda>p. \<not> is_index_key (fst p)) o1"
  have o1: "o1 = ?a @ ?b" using assms(1) unfolding obj_entries_def by (rule sym)
  have n: "k \<notin> fst ` set ?a" using k by auto
  have u: "AList.update k v (xs @ ys) = xs @ AList.update k v ys" if "k \<notin> fst ` set xs" for xs ys
    using that by (induction xs) auto
  have p: "list_all (\<lambda>p. \<not> is_index_key (fst p)) (AList.update k v ys)" if "list_all (\<lambda>p. \<not> is_index_key (fst p)) ys" for ys
    using that k by (induction ys) auto
  have b: "list_all (\<lambda>p. \<not> is_index_key (fst p)) (AList.update k v ?b)" by (rule p) (simp add: list_all_iff)
  have a: "filter (is_index_key \<circ> fst) ?a = ?a" "filter (\<lambda>p. \<not> is_index_key (fst p)) ?a = []"
    by (auto intro: filter_True filter_False)
  have b': "filter (is_index_key \<circ> fst) (AList.update k v ?b) = []"
    "filter (\<lambda>p. \<not> is_index_key (fst p)) (AList.update k v ?b) = AList.update k v ?b"
    using b unfolding list_all_iff by (simp_all only: filter_empty_conv comp_def filter_id_conv)
  have e: "obj_set k v o1 = ?a @ AList.update k v ?b"
    unfolding obj_set_def by (subst o1) (rule u [OF n])
  show ?thesis unfolding e
    by (simp only: obj_entries_def filter_append a b' append_Nil2 append_Nil sort_key_filter_done)
qed

lemma obj_set_same: "obj_get o1 k = Some v \<Longrightarrow> obj_set k v o1 = o1"
  by (simp add: obj_get_def obj_set_def update_triv)

section \<open>Spreading\<close>

lemma obj_get_spread_pairs:
  "distinct (map fst ps) \<Longrightarrow>
   obj_get (fold (\<lambda>(k, w). obj_set k w) ps a) k = (case map_of ps k of Some w \<Rightarrow> Some w | None \<Rightarrow> obj_get a k)"
  by (induction ps arbitrary: a) (force split: option.splits simp: map_of_eq_None_iff image_iff)+

lemma spread_over_ok [simp, intro]: "obj_ok a \<Longrightarrow> obj_ok (spread_over a v)"
proof -
  have "obj_ok a \<Longrightarrow> obj_ok (fold (\<lambda>(k, w). obj_set k w) ps a)" for ps a
    by (induction ps arbitrary: a) auto
  then show "obj_ok a \<Longrightarrow> obj_ok (spread_over a v)" by (simp add: spread_over_def)
qed

lemma spread_over_keeps: "obj_get (spread_over a v) k = None \<Longrightarrow> obj_get a k = None"
proof -
  have "obj_get a k \<noteq> None \<Longrightarrow> obj_get (fold (\<lambda>(k, w). obj_set k w) ps a) k \<noteq> None" for ps a
    by (induction ps arbitrary: a) auto
  then show "obj_get (spread_over a v) k = None \<Longrightarrow> obj_get a k = None" by (metis spread_over_def)
qed

lemma obj_get_spread:
  assumes "obj_ok s"
  shows "obj_get (spread_over a (JObj s)) k = (case obj_get s k of Some w \<Rightarrow> Some w | None \<Rightarrow> obj_get a k)"
proof -
  have "distinct (map fst (obj_entries s))" using assms obj_entries_ok [of s] by (simp only: obj_ok_def)
  then show ?thesis
    using obj_get_spread_pairs [of "obj_entries s" a k] obj_get_entries [of s k]
    by (simp only: spread_over_def entries.simps obj_get_def)
qed

end
