(* ===== verification/Snippets.thy ===== *)
theory Snippets
  imports Storage
begin

text \<open>
  The command snippets: \<open>src/src/lib/snippet-storage.ts\<close>, and the search and order of the panel that lists them
  (\<open>src/src/components/quick-commands-panel.tsx\<close>). A snippet is the object it is stored as; a field that is
  \<open>undefined\<close> is left out, as \<open>JSON.stringify\<close> does.
\<close>

section \<open>Tags\<close>

type_synonym snippet = "json obj"

fun add_tags :: "string list \<Rightarrow> json list \<Rightarrow> string list" where
  "add_tags result [] = result"
| "add_tags result (JStr tag # tags) =
     (let trimmed = js_trim tag
      in add_tags (if trimmed = [] \<or> trimmed \<in> set result then result else result @ [trimmed]) tags)"
| "add_tags result (v # tags) = add_tags result tags"

definition normalizeTags :: "json option \<Rightarrow> string list" where
  "normalizeTags tags = (case tags of Some (JArr vs) \<Rightarrow> add_tags [] vs | _ \<Rightarrow> [])"

definition parseTagInput :: "string \<Rightarrow> string list" where
  "parseTagInput input = normalizeTags (Some (strings (js_split (CHR '','') input)))"

section \<open>The store\<close>

definition isValidSnippet :: "json \<Rightarrow> bool" where
  "isValidSnippet v \<longleftrightarrow> is_object v \<and> is_string (js_prop v ''id'') \<and> is_string (js_prop v ''name'') \<and>
     is_string (js_prop v ''command'')"

definition load_snippet :: "json \<Rightarrow> snippet" where
  "load_snippet v =
     obj_set ''usageCount'' (case js_prop v ''usageCount'' of Some (JNum q) \<Rightarrow> JNum q | _ \<Rightarrow> JNum 0)
       (obj_set ''tags'' (strings (normalizeTags (js_prop v ''tags''))) (entries v))"

definition getSnippets :: "item \<Rightarrow> snippet list" where
  "getSnippets it = (case it of Some (Some (JArr vs)) \<Rightarrow> map load_snippet (filter isValidSnippet vs) | _ \<Rightarrow> [])"

definition persist :: "bool \<Rightarrow> snippet list \<Rightarrow> item \<Rightarrow> item" where
  "persist write_ok ss it = (if write_ok then Some (Some (JArr (map JObj ss))) else it)"

definition snippet_id :: "snippet \<Rightarrow> string" where
  "snippet_id s = (case obj_get s ''id'' of Some (JStr i) \<Rightarrow> i | _ \<Rightarrow> [])"

definition getSnippet :: "item \<Rightarrow> string \<Rightarrow> snippet option" where
  "getSnippet it i = find (\<lambda>s. snippet_id s = i) (getSnippets it)"

record snippet_input =
  in_id :: string
  in_name :: string
  in_command :: string
  in_description :: "string option"
  in_tags :: "string list"
  in_createdAt :: "string option"
  in_usageCount :: "rat option"
  in_lastUsedAt :: "string option"

text \<open>The record that \<open>saveSnippet\<close> stores; \<open>old\<close> is the snippet of the same id.\<close>

definition snippet_of :: "string \<Rightarrow> string \<Rightarrow> snippet option \<Rightarrow> snippet_input \<Rightarrow> snippet" where
  "snippet_of newId now old i =
     (let s1 = [(''id'', JStr (if in_id i = [] then newId else in_id i)), (''name'', JStr (js_trim (in_name i))),
                (''command'', JStr (js_trim (in_command i)))];
          s2 = set_opt ''description'' (map_option JStr (or_null (map_option js_trim (in_description i)))) s1;
          s3 = obj_set ''tags'' (strings (normalizeTags (Some (strings (in_tags i))))) s2;
          s4 = set_opt ''createdAt'' (case old of Some s \<Rightarrow> obj_get s ''createdAt''
                 | None \<Rightarrow> Some (JStr (case in_createdAt i of Some t \<Rightarrow> t | None \<Rightarrow> now))) s3;
          s5 = obj_set ''updatedAt'' (JStr now) s4
      in set_opt ''usageCount'' (case old of Some s \<Rightarrow> obj_get s ''usageCount''
           | None \<Rightarrow> Some (JNum (case in_usageCount i of Some q \<Rightarrow> q | None \<Rightarrow> 0))) s5)"

definition saveSnippet :: "string \<Rightarrow> string \<Rightarrow> bool \<Rightarrow> snippet_input \<Rightarrow> item \<Rightarrow> snippet option \<times> item" where
  "saveSnippet newId now write_ok i it =
     (if js_trim (in_name i) = [] \<or> js_trim (in_command i) = [] then (None, it)
      else
        let snippets = getSnippets it;
            existing = (if in_id i = [] then None else find_index (\<lambda>s. snippet_id s = in_id i) snippets);
            snippet = snippet_of newId now (map_option (\<lambda>k. snippets ! k) existing) i
        in (Some snippet,
            persist write_ok (case existing of Some k \<Rightarrow> snippets[k := snippet] | None \<Rightarrow> snippets @ [snippet]) it))"

definition deleteSnippet :: "bool \<Rightarrow> string \<Rightarrow> item \<Rightarrow> bool \<times> item" where
  "deleteSnippet write_ok i it =
     (let snippets = getSnippets it; next = filter (\<lambda>s. snippet_id s \<noteq> i) snippets
      in if length next = length snippets then (False, it) else (True, persist write_ok next it))"

definition used :: "string \<Rightarrow> snippet \<Rightarrow> snippet" where
  "used now s = obj_set ''lastUsedAt'' (JStr now)
     (obj_set ''usageCount'' (case obj_get s ''usageCount'' of Some (JNum q) \<Rightarrow> JNum (q + 1) | v \<Rightarrow> JNum 1) s)"

definition recordSnippetUsage :: "string \<Rightarrow> bool \<Rightarrow> string \<Rightarrow> item \<Rightarrow> item" where
  "recordSnippetUsage now write_ok i it =
     (let snippets = getSnippets it
      in case find_index (\<lambda>s. snippet_id s = i) snippets of
           None \<Rightarrow> it
         | Some k \<Rightarrow> persist write_ok (snippets[k := used now (snippets ! k)]) it)"

section \<open>The panel\<close>

definition text_field :: "snippet \<Rightarrow> string \<Rightarrow> string" where
  "text_field s k = (case obj_get s k of Some (JStr t) \<Rightarrow> t | _ \<Rightarrow> [])"

definition snippet_tags :: "snippet \<Rightarrow> string list" where
  "snippet_tags s = (case obj_get s ''tags'' of Some (JArr vs) \<Rightarrow> map (\<lambda>v. case v of JStr t \<Rightarrow> t | _ \<Rightarrow> []) vs | _ \<Rightarrow> [])"

definition matchesQuery :: "snippet \<Rightarrow> string \<Rightarrow> bool" where
  "matchesQuery s query = js_includes (js_lower (js_join [CHR 0x0A] [text_field s ''name'', text_field s ''command'',
     text_field s ''description'', js_join '' '' (snippet_tags s)])) query"

datatype snippet_sort = MostUsed | RecentlyUsed | ByName

definition usage_of :: "snippet \<Rightarrow> rat" where
  "usage_of s = (case obj_get s ''usageCount'' of Some (JNum q) \<Rightarrow> q | _ \<Rightarrow> 0)"

definition last_use :: "snippet \<Rightarrow> string" where
  "last_use s = (case obj_get s ''lastUsedAt'' of Some (JStr t) \<Rightarrow> t | _ \<Rightarrow> text_field s ''createdAt'')"

fun snippet_le :: "(string \<Rightarrow> string \<Rightarrow> int) \<Rightarrow> snippet_sort \<Rightarrow> snippet \<Rightarrow> snippet \<Rightarrow> bool" where
  "snippet_le lc MostUsed a b =
     (if usage_of a = usage_of b then lc (text_field b ''updatedAt'') (text_field a ''updatedAt'') \<le> 0
      else usage_of b \<le> usage_of a)"
| "snippet_le lc RecentlyUsed a b = (lc (last_use b) (last_use a) \<le> 0)"
| "snippet_le lc ByName a b = (lc (text_field a ''name'') (text_field b ''name'') \<le> 0)"

definition sortSnippets :: "(string \<Rightarrow> string \<Rightarrow> int) \<Rightarrow> snippet_sort \<Rightarrow> snippet list \<Rightarrow> snippet list" where
  "sortSnippets lc by ss = sort_by (snippet_le lc by) ss"

definition visibleSnippets :: "(string \<Rightarrow> string \<Rightarrow> int) \<Rightarrow> string \<Rightarrow> snippet_sort \<Rightarrow> snippet list \<Rightarrow> snippet list" where
  "visibleSnippets lc search by ss =
     (let query = js_lower (js_trim search)
      in sortSnippets lc by (if query = [] then ss else filter (\<lambda>s. matchesQuery s query) ss))"

text \<open>The input the edit dialog passes on (\<open>src/src/components/snippet-edit-dialog.tsx\<close>) when the form is left as opened.\<close>

definition form_tags :: "snippet \<Rightarrow> string" where
  "form_tags s = js_join '', '' (snippet_tags s)"

section \<open>Tags\<close>

lemma dropWhile_idem: "dropWhile P (dropWhile P xs) = dropWhile P xs"
  by (induction xs) auto

lemma dropWhile_rev_dropWhile:
  "dropWhile P (rev (dropWhile P (rev (dropWhile P xs)))) = rev (dropWhile P (rev (dropWhile P xs)))"
proof (cases "dropWhile P xs")
  case (Cons y ys)
  then have y: "\<not> P y" by (metis hd_dropWhile list.distinct(1) list.sel(1))
  then have "rev (dropWhile P (rev (y # ys))) = y # rev (dropWhile P (rev ys))"
    by (simp add: dropWhile_append) 
  with Cons y show ?thesis by simp
next
  case Nil
  then show ?thesis by (simp only: rev.simps dropWhile.simps)
qed

lemma js_trim_idem [simp]: "js_trim (js_trim s) = js_trim s"
  by (simp add: js_trim_def dropWhile_rev_dropWhile dropWhile_idem)

definition tags_ok :: "string list \<Rightarrow> bool" where
  "tags_ok ts \<longleftrightarrow> distinct ts \<and> list_all (\<lambda>t. t \<noteq> [] \<and> js_trim t = t) ts"

lemma add_tags_ok: "tags_ok result \<Longrightarrow> tags_ok (add_tags result vs)"
  by (induction result vs rule: add_tags.induct) (auto simp: Let_def tags_ok_def)

lemma normalizeTags_ok: "tags_ok (normalizeTags v)"
proof -
  have "tags_ok (add_tags [] vs)" for vs by (rule add_tags_ok) (simp add: tags_ok_def)
  then show ?thesis by (auto simp: normalizeTags_def tags_ok_def split: option.split json.split)
qed

lemma add_tags_same: "tags_ok (result @ ts) \<Longrightarrow> add_tags result (map JStr ts) = result @ ts"
  by (induction ts arbitrary: result) (auto simp: Let_def tags_ok_def)

lemma normalizeTags_same: "tags_ok ts \<Longrightarrow> normalizeTags (Some (strings ts)) = ts"
  by (simp add: normalizeTags_def strings_def add_tags_same)

lemma add_tags_trim:
  "add_tags result (map JStr (map js_trim ts)) = add_tags result (map JStr ts)"
  by (induction ts arbitrary: result) (auto simp: Let_def)

section \<open>Snippets as they are loaded\<close>

definition snippet_fit :: "snippet \<Rightarrow> bool" where
  "snippet_fit s \<longleftrightarrow> isValidSnippet (JObj s) \<and> obj_entries s = s \<and>
     (\<exists>ts q. obj_get s ''tags'' = Some (strings ts) \<and> tags_ok ts \<and> obj_get s ''usageCount'' = Some (JNum q))"

lemma plain_keys [simp]:
  "\<not> is_index_key ''tags''" "\<not> is_index_key ''usageCount''" "\<not> is_index_key ''id''" "\<not> is_index_key ''name''"
  "\<not> is_index_key ''command''" "\<not> is_index_key ''description''" "\<not> is_index_key ''createdAt''"
  "\<not> is_index_key ''updatedAt''" "\<not> is_index_key ''lastUsedAt''"
  by code_simp+

lemma load_fit:
  assumes "snippet_fit s" shows "load_snippet (JObj s) = s"
proof -
  obtain ts q where "obj_entries s = s" "obj_get s ''tags'' = Some (strings ts)" "tags_ok ts"
    "obj_get s ''usageCount'' = Some (JNum q)" using assms by (auto simp: snippet_fit_def)
  then show ?thesis by (simp add: load_snippet_def normalizeTags_same obj_set_same)
qed

lemma loaded_fit:
  assumes "isValidSnippet v" shows "snippet_fit (load_snippet v)"
proof -
  obtain o1 where v: "v = JObj o1" using assms by (cases v) (auto simp: isValidSnippet_def)
  then show ?thesis using assms normalizeTags_ok [of "obj_get o1 ''tags''"]
    by (auto simp: snippet_fit_def load_snippet_def isValidSnippet_def obj_entries_append split: option.split json.split)
qed

lemma getSnippets_fit: "list_all snippet_fit (getSnippets it)"
  by (auto simp: getSnippets_def list_all_iff loaded_fit split: option.split json.split)

lemma getSnippets_persist: "list_all snippet_fit ss \<Longrightarrow> getSnippets (persist True ss it) = ss"
  by (induction ss) (auto simp: getSnippets_def persist_def load_fit snippet_fit_def)

lemma set_opt_entries:
  "obj_entries s = s \<Longrightarrow> \<not> is_index_key k \<Longrightarrow> obj_entries (set_opt k v s) = set_opt k v s"
  by (simp add: set_opt_def obj_entries_append split: option.split)

lemma set_opt_get: "obj_get (set_opt k v s) j = (if j = k \<and> v \<noteq> None then v else obj_get s j)"
  by (simp add: set_opt_def split: option.split)

lemma snippet_of_get:
  "obj_get (snippet_of n now old i) ''id'' = Some (JStr (if in_id i = [] then n else in_id i))"
  "obj_get (snippet_of n now old i) ''name'' = Some (JStr (js_trim (in_name i)))"
  "obj_get (snippet_of n now old i) ''command'' = Some (JStr (js_trim (in_command i)))"
  "obj_get (snippet_of n now old i) ''tags'' = Some (strings (normalizeTags (Some (strings (in_tags i)))))"
  "obj_get (snippet_of n now old i) ''lastUsedAt'' = None"
  by (simp_all add: snippet_of_def Let_def set_opt_get obj_get_def [of "_ # _"])

lemma snippet_of_fit:
  assumes "\<And>s. old = Some s \<Longrightarrow> snippet_fit s" shows "snippet_fit (snippet_of n now old i)"
proof -
  have e: "obj_entries [(''id'', a), (''name'', b), (''command'', c)] = [(''id'', a), (''name'', b), (''command'', c)]" for a b c :: json
    by (simp add: obj_entries_def)
  have "\<exists>q. obj_get (snippet_of n now old i) ''usageCount'' = Some (JNum q)"
  proof (cases old)
    case (Some s)
    from assms [OF this] obtain q where "obj_get s ''usageCount'' = Some (JNum q)" by (auto simp: snippet_fit_def)
    with Some show ?thesis by (simp add: snippet_of_def Let_def set_opt_get)
  qed (simp add: snippet_of_def Let_def set_opt_get)
  moreover have "obj_entries (snippet_of n now old i) = snippet_of n now old i"
    by (simp add: snippet_of_def Let_def set_opt_entries obj_entries_append e)
  ultimately show ?thesis
    using normalizeTags_ok by (auto simp: snippet_fit_def snippet_of_get isValidSnippet_def)
qed

section \<open>The store is a map\<close>

definition put_snippet :: "snippet \<Rightarrow> item \<Rightarrow> item" where
  "put_snippet s it = persist True (replace_by snippet_id s (getSnippets it)) it"

definition drop_snippet :: "string \<Rightarrow> item \<Rightarrow> item" where
  "drop_snippet i it = snd (deleteSnippet True i it)"

interpretation snippets: keyed_store getSnippets snippet_id put_snippet drop_snippet snippet_fit
proof unfold_locales
  fix v it
  assume "snippet_fit v"
  then have "list_all snippet_fit (replace_by snippet_id v (getSnippets it))"
    using getSnippets_fit [of it] set_replace_by [of snippet_id v "getSnippets it"] by (auto simp: list_all_iff)
  then show "find_by snippet_id (getSnippets (put_snippet v it)) = (find_by snippet_id (getSnippets it))(snippet_id v \<mapsto> v)"
    by (simp add: put_snippet_def getSnippets_persist find_by_replace)
next
  fix k it
  have "list_all snippet_fit (filter (\<lambda>s. snippet_id s \<noteq> k) (getSnippets it))"
    using getSnippets_fit [of it] by (auto simp: list_all_iff)
  then show "find_by snippet_id (getSnippets (drop_snippet k it)) = (find_by snippet_id (getSnippets it))(k := None)"
    using filter_length_same [of "\<lambda>s. snippet_id s \<noteq> k" "getSnippets it"] find_by_filter [of snippet_id k "getSnippets it"]
    by (auto simp: drop_snippet_def deleteSnippet_def Let_def getSnippets_persist)
qed

section \<open>What the operations do\<close>

lemma getSnippet_find_by: "getSnippet it = find_by snippet_id (getSnippets it)"
  by (rule ext) (simp add: getSnippet_def find_by_def)

lemma snippet_of_id: "snippet_id (snippet_of n now old i) = (if in_id i = [] then n else in_id i)"
  by (simp add: snippet_id_def snippet_of_get)

definition stored_as :: "string \<Rightarrow> string \<Rightarrow> snippet_input \<Rightarrow> item \<Rightarrow> snippet" where
  "stored_as n now i it = snippet_of n now (if in_id i = [] then None else getSnippet it (in_id i)) i"

lemma saveSnippet_put:
  assumes "js_trim (in_name i) \<noteq> []" "js_trim (in_command i) \<noteq> []"
    and fresh: "in_id i \<noteq> [] \<or> n \<notin> snippet_id ` set (getSnippets it)"
  shows "saveSnippet n now True i it = (Some (stored_as n now i it), put_snippet (stored_as n now i it) it)"
proof (cases "in_id i = []")
  case True
  with fresh have "find_index (\<lambda>w. snippet_id w = n) (getSnippets it) = None" by auto
  with True assms show ?thesis
    by (simp add: saveSnippet_def Let_def stored_as_def put_snippet_def replace_by_def snippet_of_id del: find_index_None)
next
  case False
  note d = saveSnippet_def Let_def stored_as_def put_snippet_def replace_by_def snippet_of_id
  show ?thesis
  proof (cases "find_index (\<lambda>s. snippet_id s = in_id i) (getSnippets it)")
    case None
    then have "getSnippet it (in_id i) = None" by (simp add: getSnippet_def find_None_iff_all)
    with None False assms show ?thesis by (simp add: d del: find_index_None)
  next
    case (Some k)
    then have "getSnippet it (in_id i) = Some (getSnippets it ! k)" by (simp add: getSnippet_def find_index_find)
    with Some False assms show ?thesis by (simp add: d)
  qed
qed

lemma getSnippet_fit: "getSnippet it k = Some s \<Longrightarrow> snippet_fit s"
  using getSnippets_fit [of it] by (auto simp: getSnippet_def list_all_iff dest: find_Some_mem)

lemma stored_as_fit: "snippet_fit (stored_as n now i it)"
  unfolding stored_as_def by (rule snippet_of_fit) (auto split: if_splits dest: getSnippet_fit)

lemma used_fit: "snippet_fit s \<Longrightarrow> snippet_fit (used now s)"
  by (auto simp: snippet_fit_def used_def isValidSnippet_def obj_entries_append)

lemma used_id [simp]: "snippet_id (used now s) = snippet_id s"
  by (simp add: snippet_id_def used_def)

lemma recordUsage_put:
  "getSnippet it k = Some s \<Longrightarrow> recordSnippetUsage now True k it = put_snippet (used now s) it"
  "getSnippet it k = None \<Longrightarrow> recordSnippetUsage now True k it = it"
proof -
  assume s: "getSnippet it k = Some s"
  then have "snippet_id s = k" by (auto simp: getSnippet_def dest: find_Some_mem)
  moreover obtain j where "find_index (\<lambda>s. snippet_id s = k) (getSnippets it) = Some j"
    using s find_index_exists [of "getSnippets it" "\<lambda>s. snippet_id s = k"] by (auto simp: getSnippet_def dest!: find_Some_mem)
  ultimately show "recordSnippetUsage now True k it = put_snippet (used now s) it"
    using s find_index_find by (fastforce simp: recordSnippetUsage_def Let_def put_snippet_def replace_by_def getSnippet_def)
next
  assume "getSnippet it k = None"
  then have "find_index (\<lambda>s. snippet_id s = k) (getSnippets it) = None" by (simp add: getSnippet_def find_None_iff_all)
  then show "recordSnippetUsage now True k it = it" by (simp add: recordSnippetUsage_def Let_def del: find_index_None)
qed

lemma snippet_operations:
  assumes "js_trim (in_name i) \<noteq> []" "js_trim (in_command i) \<noteq> []"
    and "in_id i \<noteq> [] \<or> n \<notin> snippet_id ` set (getSnippets it)"
  shows "\<exists>s. fst (saveSnippet n now True i it) = Some s \<and>
      getSnippet (snd (saveSnippet n now True i it)) = (getSnippet it)(snippet_id s \<mapsto> s)"
    and "getSnippet (snd (deleteSnippet True k it)) = (getSnippet it)(k := None)"
    and "getSnippet (recordSnippetUsage now True k it) =
      (getSnippet it)(k := map_option (\<lambda>s. obj_set ''lastUsedAt'' (JStr now)
         (obj_set ''usageCount'' (JNum (usage_of s + 1)) s)) (getSnippet it k))"
proof -
  show "\<exists>s. fst (saveSnippet n now True i it) = Some s \<and>
      getSnippet (snd (saveSnippet n now True i it)) = (getSnippet it)(snippet_id s \<mapsto> s)"
    unfolding saveSnippet_put [OF assms]
    using snippets.find_put [OF stored_as_fit, of n now i it it] by (simp add: getSnippet_find_by)
  show "getSnippet (snd (deleteSnippet True k it)) = (getSnippet it)(k := None)"
    using snippets.find_del [of k it] by (simp add: getSnippet_find_by drop_snippet_def)
  show "getSnippet (recordSnippetUsage now True k it) =
      (getSnippet it)(k := map_option (\<lambda>s. obj_set ''lastUsedAt'' (JStr now)
         (obj_set ''usageCount'' (JNum (usage_of s + 1)) s)) (getSnippet it k))"
  proof (cases "getSnippet it k")
    case None
    then show ?thesis using recordUsage_put(2) [OF None, of now] by auto
  next
    case (Some s)
    have f: "snippet_fit s" and k: "snippet_id s = k"
      using Some getSnippet_fit by (auto simp: getSnippet_def dest: find_Some_mem)
    have "used now s = obj_set ''lastUsedAt'' (JStr now) (obj_set ''usageCount'' (JNum (usage_of s + 1)) s)"
      using f by (auto simp: used_def usage_of_def snippet_fit_def)
    moreover have "getSnippet (recordSnippetUsage now True k it) = (getSnippet it)(k \<mapsto> used now s)"
      using snippets.find_put [OF used_fit [OF f], of now it] k
      by (simp only: recordUsage_put(1) [OF Some] getSnippet_find_by used_id)
    ultimately show ?thesis by (simp add: Some)
  qed
qed

text \<open>
  The snippets are a map from ids to snippets: what \<open>saveSnippet\<close> returns is found under its id, a deleted one
  is not, a use counts once and is dated, and every other snippet is as it was, whatever the storage held before.
\<close>

theorem snippets_are_a_map:
  assumes "js_trim (in_name i) \<noteq> []" "js_trim (in_command i) \<noteq> []"
    and "in_id i \<noteq> [] \<or> n \<notin> snippet_id ` set (getSnippets it)"
  shows "(\<exists>s. fst (saveSnippet n now True i it) = Some s \<and>
      getSnippet (snd (saveSnippet n now True i it)) = (getSnippet it)(snippet_id s \<mapsto> s)) \<and>
    getSnippet (snd (deleteSnippet True k it)) = (getSnippet it)(k := None) \<and>
    getSnippet (recordSnippetUsage now True k it) =
      (getSnippet it)(k := map_option (\<lambda>s. obj_set ''lastUsedAt'' (JStr now)
         (obj_set ''usageCount'' (JNum (usage_of s + 1)) s)) (getSnippet it k))"
  using snippet_operations [OF assms] by blast

definition demo_snippet_input :: snippet_input where
  "demo_snippet_input = \<lparr>in_id = ''s1'', in_name = ''logs'', in_command = ''tail'', in_description = None,
     in_tags = [''docker'', ''logs''], in_createdAt = None, in_usageCount = None, in_lastUsedAt = Some ''t1''\<rparr>"

definition demo_snippet :: snippet where
  "demo_snippet = snippet_of ''s1'' ''t0'' None demo_snippet_input"

lemma demo_stored: "snippet_fit s \<Longrightarrow> getSnippets (persist True [s] None) = [s]"
  by (simp add: getSnippets_persist)

lemma demo_fit: "snippet_fit demo_snippet"
  unfolding demo_snippet_def by (rule snippet_of_fit) simp

lemma demo_names: "js_trim (in_name demo_snippet_input) \<noteq> []" "js_trim (in_command demo_snippet_input) \<noteq> []"
  by (simp_all add: demo_snippet_input_def) code_simp+

lemma snippets_are_a_map_witness:
  "\<exists>s. fst (saveSnippet ''s2'' ''t2'' True demo_snippet_input None) = Some s \<and>
     getSnippet (snd (saveSnippet ''s2'' ''t2'' True demo_snippet_input None)) = (getSnippet None)(snippet_id s \<mapsto> s)"
  using snippets_are_a_map [of demo_snippet_input "''s2''" None "''t2''"] demo_names by (simp add: demo_snippet_input_def)

section \<open>Editing\<close>

lemma js_join_Cons: "js_join sep ((c # w) # ws) = c # js_join sep (w # ws)"
  by (cases ws) simp_all

lemma js_join_spaced: "js_join '', '' (t # ts) = js_join '','' (t # map (\<lambda>x. '' '' @ x) ts)"
  by (induction ts arbitrary: t) (simp_all add: js_join_Cons)

lemma js_trim_space: "js_trim ('' '' @ s) = js_trim s"
proof -
  have "is_space (CHR '' '')" by code_simp
  then show ?thesis by (simp add: js_trim_def)
qed

text \<open>
  Opening a snippet in the edit dialog and saving it keeps its tags: the text shown for tags without a comma
  reads back as the same tags, in their order.
\<close>

theorem edited_tags_survive:
  assumes s: "getSnippet it k = Some s" and c: "list_all (\<lambda>t. CHR '','' \<notin> set t) (snippet_tags s)"
  shows "parseTagInput (form_tags s) = snippet_tags s"
proof -
  obtain ts where ts: "snippet_tags s = ts" "tags_ok ts"
    using getSnippet_fit [OF s] by (auto simp: snippet_fit_def snippet_tags_def strings_def comp_def)
  show ?thesis
  proof (cases ts)
    case Nil
    then show ?thesis using ts by (simp add: form_tags_def parseTagInput_def normalizeTags_def strings_def js_trim_def)
  next
    case (Cons u us)
    let ?ws = "u # map (\<lambda>x. '' '' @ x) us"
    have "js_split (CHR '','') (form_tags s) = ?ws"
      unfolding form_tags_def ts Cons js_join_spaced using c ts Cons
      by (intro js_split_join) (auto simp: list_all_iff)
    moreover have "map js_trim ?ws = map js_trim ts" using Cons js_trim_space by auto
    ultimately have "parseTagInput (form_tags s) = add_tags [] (map JStr (map js_trim ts))"
      using add_tags_trim [of "[]" ?ws] by (simp only: parseTagInput_def normalizeTags_def strings_def option.case json.case)
    then have "parseTagInput (form_tags s) = normalizeTags (Some (strings ts))"
      by (simp only: add_tags_trim normalizeTags_def strings_def option.case json.case)
    then show ?thesis using ts by (simp add: normalizeTags_same)
  qed
qed

lemma edited_tags_survive_witness:
  "parseTagInput (form_tags demo_snippet) = snippet_tags demo_snippet \<and> snippet_tags demo_snippet = [''docker'', ''logs'']"
proof
  have "normalizeTags (Some (strings [''docker'', ''logs''])) = [''docker'', ''logs'']" by code_simp
  then show t: "snippet_tags demo_snippet = [''docker'', ''logs'']"
    by (simp add: demo_snippet_def snippet_tags_def snippet_of_get demo_snippet_input_def) (simp add: strings_def)
  have "snippet_id demo_snippet = ''s1''" by (simp add: demo_snippet_def snippet_of_id demo_snippet_input_def)
  then show "parseTagInput (form_tags demo_snippet) = snippet_tags demo_snippet"
    by (intro edited_tags_survive [of "persist True [demo_snippet] None" "''s1''"])
      (simp_all add: getSnippet_def demo_stored [OF demo_fit] t)
qed

text \<open>
  Saving an edited snippet forgets when it was used last, although the dialog hands the time over: the list by
  last use then ranks it by the time of its creation.
\<close>

theorem edit_forgets_last_use:
  assumes "getSnippet it (in_id i) = Some old" "in_id i \<noteq> []" "obj_get old ''lastUsedAt'' = Some (JStr t)"
    and "in_lastUsedAt i = Some t" "js_trim (in_name i) \<noteq> []" "js_trim (in_command i) \<noteq> []"
  shows "\<exists>s. getSnippet (snd (saveSnippet n now True i it)) (in_id i) = Some s \<and>
    obj_get s ''lastUsedAt'' = None \<and> last_use s = text_field old ''createdAt''"
proof -
  have p: "saveSnippet n now True i it = (Some (stored_as n now i it), put_snippet (stored_as n now i it) it)"
    by (rule saveSnippet_put) (use assms in auto)
  let ?s = "stored_as n now i it"
  have "snippet_id ?s = in_id i" using assms by (simp add: stored_as_def snippet_of_id)
  then have "getSnippet (snd (saveSnippet n now True i it)) (in_id i) = Some ?s"
    using snippets.find_put [OF stored_as_fit, of n now i it it] by (simp add: p getSnippet_find_by)
  moreover have "obj_get ?s ''lastUsedAt'' = None" by (simp add: stored_as_def snippet_of_get)
  moreover have "text_field ?s ''createdAt'' = text_field old ''createdAt''"
    using assms by (simp add: stored_as_def snippet_of_def Let_def set_opt_get text_field_def obj_get_def [of "_ # _"] split: option.split)
  ultimately show ?thesis by (simp add: last_use_def)
qed


lemma edit_forgets_last_use_witness:
  "\<exists>s. getSnippet (snd (saveSnippet ''s2'' ''t2'' True demo_snippet_input (persist True [used ''t1'' demo_snippet] None))) ''s1'' = Some s \<and>
    obj_get s ''lastUsedAt'' = None \<and> last_use s = ''t0''"
proof -
  let ?u = "used ''t1'' demo_snippet"
  have i: "snippet_id ?u = ''s1''" by (simp add: demo_snippet_def snippet_of_id demo_snippet_input_def)
  have g: "getSnippet (persist True [?u] None) ''s1'' = Some ?u"
    by (simp add: getSnippet_def demo_stored [OF used_fit [OF demo_fit]] i del: used_id)
  have "text_field ?u ''createdAt'' = ''t0''"
    by (simp add: text_field_def used_def demo_snippet_def snippet_of_def Let_def set_opt_get demo_snippet_input_def)
  then show ?thesis
    using edit_forgets_last_use [of "persist True [?u] None" demo_snippet_input ?u "''t1''" "''s2''" "''t2''"] g demo_names
    by (simp add: demo_snippet_input_def used_def)
qed

end
