(* ===== verification/Profiles.thy ===== *)
theory Profiles
  imports SecretMigration Storage
begin

text \<open>
  The connection profiles: \<open>ConnectionProfileManager\<close> of \<open>src/src/lib/connection-profiles.ts\<close>, and the sealing of
  their passwords when the application starts (\<open>src/src/App.tsx\<close>). A profile is the object it is stored as. The store
  is \<open>Absent\<close>, \<open>Unreadable\<close> (the text does not parse) or \<open>Stored\<close>; a text that parses to something other than an
  array of objects, which the code never writes and on which its array methods throw, is not modelled. Unlike the
  connections, an unreadable store is overwritten by the next write. A write that exceeds the quota throws: \<open>None\<close>.
\<close>

type_synonym profile = "json obj"

definition getProfiles :: "profile stored \<Rightarrow> profile list" where
  "getProfiles it = (case it of Stored ps \<Rightarrow> ps | _ \<Rightarrow> [])"

definition profile_id :: "profile \<Rightarrow> json option" where
  "profile_id p = obj_get p ''id''"

definition getProfile :: "profile stored \<Rightarrow> string \<Rightarrow> profile option" where
  "getProfile it i = find (\<lambda>p. profile_id p = Some (JStr i)) (getProfiles it)"

text \<open>\<open>{ ...o, id, createdAt, updatedAt }\<close>\<close>

definition stamped :: "string \<Rightarrow> string \<Rightarrow> string \<Rightarrow> json obj \<Rightarrow> profile" where
  "stamped uuid created updated o1 =
     obj_set ''updatedAt'' (JStr updated) (obj_set ''createdAt'' (JStr created) (obj_set ''id'' (JStr uuid) o1))"

definition saveProfile ::
  "string \<Rightarrow> string \<Rightarrow> string \<Rightarrow> bool \<Rightarrow> json obj \<Rightarrow> profile stored \<Rightarrow> profile option \<times> profile stored" where
  "saveProfile uuid created updated write_ok p it =
     (let newProfile = stamped uuid created updated (obj_entries p)
      in if write_ok then (Some newProfile, Stored (getProfiles it @ [newProfile])) else (None, it))"

definition updated_profile :: "string \<Rightarrow> json obj \<Rightarrow> profile \<Rightarrow> profile" where
  "updated_profile now updates p = obj_set ''updatedAt'' (JStr now) (spread_over (obj_entries p) (JObj updates))"

text \<open>The result \<open>Some None\<close> is \<open>null\<close>: there is no such profile.\<close>

definition updateProfile ::
  "string \<Rightarrow> bool \<Rightarrow> string \<Rightarrow> json obj \<Rightarrow> profile stored \<Rightarrow> profile option option \<times> profile stored" where
  "updateProfile now write_ok i updates it =
     (let profiles = getProfiles it
      in case find_index (\<lambda>p. profile_id p = Some (JStr i)) profiles of
           None \<Rightarrow> (Some None, it)
         | Some k \<Rightarrow>
             let p = updated_profile now updates (profiles ! k)
             in if write_ok then (Some (Some p), Stored (profiles[k := p])) else (None, it))"

definition deleteProfile :: "bool \<Rightarrow> string \<Rightarrow> profile stored \<Rightarrow> bool option \<times> profile stored" where
  "deleteProfile write_ok i it =
     (let profiles = getProfiles it; filtered = filter (\<lambda>p. profile_id p \<noteq> Some (JStr i)) profiles
      in if length filtered = length profiles then (Some False, it)
         else if write_ok then (Some True, Stored filtered) else (None, it))"

definition exportProfiles :: "profile stored \<Rightarrow> json" where
  "exportProfiles it = JArr (map JObj (getProfiles it))"

definition without_secrets :: "json obj \<Rightarrow> json obj" where
  "without_secrets o1 = fold obj_del SECRET_FIELDS o1"

definition imported_profile :: "string \<Rightarrow> string \<Rightarrow> string \<Rightarrow> json \<Rightarrow> profile" where
  "imported_profile uuid created updated v =
     stamped uuid created updated (obj_entries (without_secrets (entries v)))"

text \<open>\<open>text\<close>: what the text parses to, \<open>None\<close> when it does not; \<open>uuid n\<close> is the n-th id drawn.\<close>

definition importProfiles ::
  "(nat \<Rightarrow> string) \<Rightarrow> string \<Rightarrow> string \<Rightarrow> bool \<Rightarrow> json option \<Rightarrow> bool \<Rightarrow> profile stored \<Rightarrow> nat option \<times> profile stored" where
  "importProfiles uuid created updated write_ok text merge it =
     (case text of
        Some (JArr imported) \<Rightarrow>
          let profiles = (if merge then getProfiles it else []) @
                map2 (\<lambda>n v. imported_profile (uuid n) created updated v) [0..<length imported] imported
          in if write_ok then (Some (length imported), Stored profiles) else (None, it)
      | _ \<Rightarrow> (None, it))"

definition getFavorites :: "profile stored \<Rightarrow> profile list" where
  "getFavorites it = filter (\<lambda>p. js_truthy (obj_get p ''favorite'')) (getProfiles it)"

text \<open>\<open>tags\<close>, where it is present, is an array of texts.\<close>

definition profile_tags :: "profile \<Rightarrow> string list" where
  "profile_tags p = (case obj_get p ''tags'' of
     Some (JArr vs) \<Rightarrow> map (\<lambda>v. case v of JStr t \<Rightarrow> t | _ \<Rightarrow> []) vs | _ \<Rightarrow> [])"

definition getProfilesByTag :: "profile stored \<Rightarrow> string \<Rightarrow> profile list" where
  "getProfilesByTag it tag = filter (\<lambda>p. tag \<in> set (profile_tags p)) (getProfiles it)"

definition getAllTags :: "profile stored \<Rightarrow> string list" where
  "getAllTags it = sort_by (\<lambda>a b. code_unit_compare a b \<le> 0)
     (rev (fold List.insert (concat (map profile_tags (getProfiles it))) []))"

definition clearProfiles :: "profile stored \<Rightarrow> profile stored" where
  "clearProfiles it = Absent"

section \<open>Sealing at the start\<close>

text \<open>
  \<open>seal n v\<close> is the answer to the n-th call of the backend, \<open>None\<close> a rejection. A password that is no text is never
  legacy plaintext. A write that fails throws out of \<open>updateProfile\<close> and is caught like a rejection.
\<close>

definition password_of :: "profile \<Rightarrow> string option" where
  "password_of p = (case obj_get p ''password'' of Some (JStr v) \<Rightarrow> Some v | _ \<Rightarrow> None)"

fun seal_profiles ::
  "(nat \<Rightarrow> string \<Rightarrow> string option) \<Rightarrow> string \<Rightarrow> bool \<Rightarrow> nat \<Rightarrow> profile list \<Rightarrow> profile stored \<Rightarrow> profile stored" where
  "seal_profiles seal now write_ok n [] it = it"
| "seal_profiles seal now write_ok n (p # ps) it =
     (case (password_of p, profile_id p) of
        (Some v, Some (JStr i)) \<Rightarrow>
          if \<not> isLegacyPlaintext v then seal_profiles seal now write_ok n ps it
          else (case seal n v of
                  None \<Rightarrow> seal_profiles seal now write_ok (Suc n) ps it
                | Some w \<Rightarrow> seal_profiles seal now write_ok (Suc n) ps
                    (snd (updateProfile now write_ok i [(''password'', JStr w)] it)))
      | _ \<Rightarrow> seal_profiles seal now write_ok n ps it)"

definition migrateProfiles :: "(nat \<Rightarrow> string \<Rightarrow> string option) \<Rightarrow> string \<Rightarrow> bool \<Rightarrow> profile stored \<Rightarrow> profile stored" where
  "migrateProfiles seal now write_ok it = seal_profiles seal now write_ok 0 (getProfiles it) it"

section \<open>The store is a map\<close>

definition put_profile :: "profile \<Rightarrow> profile stored \<Rightarrow> profile stored" where
  "put_profile p it = Stored (replace_by profile_id p (getProfiles it))"

definition drop_profile :: "json option \<Rightarrow> profile stored \<Rightarrow> profile stored" where
  "drop_profile k it = Stored (filter (\<lambda>p. profile_id p \<noteq> k) (getProfiles it))"

lemma getProfiles_Stored [simp]: "getProfiles (Stored ps) = ps"
  by (simp add: getProfiles_def)

interpretation profiles: keyed_store getProfiles profile_id put_profile drop_profile "\<lambda>_. True"
  by unfold_locales (simp_all add: put_profile_def drop_profile_def find_by_replace find_by_filter)

lemma getProfile_find_by: "getProfile it i = find_by profile_id (getProfiles it) (Some (JStr i))"
  by (simp add: getProfile_def find_by_def)

lemma stamped_id [simp]: "profile_id (stamped u c t o1) = Some (JStr u)"
  by (simp add: profile_id_def stamped_def)

lemma saveProfile_put:
  assumes "getProfile it u = None"
  shows "saveProfile u c t True p it = (Some (stamped u c t (obj_entries p)), put_profile (stamped u c t (obj_entries p)) it)"
proof -
  have "find_index (\<lambda>w. profile_id w = Some (JStr u)) (getProfiles it) = None"
    using assms by (simp add: getProfile_def find_None_iff_all)
  then show ?thesis by (simp add: saveProfile_def Let_def put_profile_def replace_by_def del: find_index_None)
qed

lemma updated_profile_get:
  assumes "obj_ok updates"
  shows "obj_get (updated_profile now updates p) k =
    (if k = ''updatedAt'' then Some (JStr now) else case obj_get updates k of Some v \<Rightarrow> Some v | None \<Rightarrow> obj_get p k)"
  using assms by (simp add: updated_profile_def obj_get_spread split: option.split)

lemma updateProfile_put:
  assumes "getProfile it i = Some p" and "obj_ok updates" and "obj_get updates ''id'' = None"
  shows "updateProfile now True i updates it =
    (Some (Some (updated_profile now updates p)), put_profile (updated_profile now updates p) it)"
    and "profile_id (updated_profile now updates p) = Some (JStr i)"
proof -
  have i: "profile_id p = Some (JStr i)" using assms(1) by (auto simp: getProfile_def dest: find_Some_mem)
  then show u: "profile_id (updated_profile now updates p) = Some (JStr i)"
    using assms by (simp add: profile_id_def updated_profile_get)
  obtain k where k: "find_index (\<lambda>p. profile_id p = Some (JStr i)) (getProfiles it) = Some k"
    using assms(1) find_index_exists [of "getProfiles it" "\<lambda>p. profile_id p = Some (JStr i)"]
    by (auto simp: getProfile_def dest!: find_Some_mem)
  have "getProfiles it ! k = p" using find_index_find [OF k] assms(1) by (simp add: getProfile_def)
  then show "updateProfile now True i updates it =
    (Some (Some (updated_profile now updates p)), put_profile (updated_profile now updates p) it)"
    using k u by (simp add: updateProfile_def Let_def put_profile_def replace_by_def)
qed

lemma updateProfile_missing:
  "getProfile it i = None \<Longrightarrow> updateProfile now w i updates it = (Some None, it)"
  by (simp add: updateProfile_def getProfile_def find_None_iff_all find_index_None [THEN iffD2])

lemma deleteProfile_drop: "getProfiles (snd (deleteProfile True i it)) = getProfiles (drop_profile (Some (JStr i)) it)"
  using filter_length_same [of "\<lambda>p. profile_id p \<noteq> Some (JStr i)" "getProfiles it"]
  by (auto simp: deleteProfile_def Let_def drop_profile_def)

text \<open>
  The profiles are a map from ids to profiles: a new profile is found under its id with the fields it was given,
  an update changes the given fields and the date of that profile only, a deleted profile is gone, and nothing else
  changes.
\<close>

theorem profiles_are_a_map:
  assumes "getProfile it u = None" and "obj_ok updates" and "obj_get updates ''id'' = None"
  shows "getProfile (snd (saveProfile u c t True p it)) =
      (getProfile it)(u \<mapsto> obj_set ''updatedAt'' (JStr t) (obj_set ''createdAt'' (JStr c) (obj_set ''id'' (JStr u) (obj_entries p)))) \<and>
    (\<forall>j k. map_option (\<lambda>q. obj_get q k) (getProfile (snd (updateProfile t True i updates it)) j) =
       map_option (\<lambda>q. if j = i \<and> k = ''updatedAt'' then Some (JStr t)
         else if j = i \<and> obj_get updates k \<noteq> None then obj_get updates k else obj_get q k) (getProfile it j)) \<and>
    getProfile (snd (deleteProfile True i it)) = (getProfile it)(i := None)"
proof (intro conjI)
  show "getProfile (snd (saveProfile u c t True p it)) =
      (getProfile it)(u \<mapsto> obj_set ''updatedAt'' (JStr t) (obj_set ''createdAt'' (JStr c) (obj_set ''id'' (JStr u) (obj_entries p))))"
    by (rule ext) (simp add: saveProfile_put [OF assms(1)] getProfile_find_by profiles.find_put stamped_def [symmetric])
  show "getProfile (snd (deleteProfile True i it)) = (getProfile it)(i := None)"
    by (rule ext) (simp add: getProfile_find_by deleteProfile_drop profiles.find_del)
  show "\<forall>j k. map_option (\<lambda>q. obj_get q k) (getProfile (snd (updateProfile t True i updates it)) j) =
       map_option (\<lambda>q. if j = i \<and> k = ''updatedAt'' then Some (JStr t)
         else if j = i \<and> obj_get updates k \<noteq> None then obj_get updates k else obj_get q k) (getProfile it j)"
  proof (cases "getProfile it i")
    case None
    have "map_option (\<lambda>q. obj_get q k) (getProfile it j) =
       map_option (\<lambda>q. if j = i \<and> k = ''updatedAt'' then Some (JStr t)
         else if j = i \<and> obj_get updates k \<noteq> None then obj_get updates k else obj_get q k) (getProfile it j)" for j k
      using None by (cases "j = i") simp_all
    then show ?thesis by (simp only: updateProfile_missing [OF None] snd_conv) blast
  next
    case (Some q)
    note u = updateProfile_put [OF Some assms(2,3), of t]
    have "getProfile (snd (updateProfile t True i updates it)) = (getProfile it)(i \<mapsto> updated_profile t updates q)"
      by (rule ext) (simp add: u getProfile_find_by profiles.find_put)
    then show ?thesis using Some by (auto simp: updated_profile_get [OF assms(2)] split: option.split)
  qed
qed

lemma profiles_are_a_map_witness:
  "getProfile (snd (saveProfile ''p1'' ''t0'' ''t0'' True [(''name'', JStr ''web'')] Absent)) ''p1'' \<noteq> None \<and>
   getProfile (snd (deleteProfile True ''p1'' Absent)) ''p1'' = None"
  using profiles_are_a_map [of Absent "''p1''" "[]" "''t0''" "''t0''" "[(''name'', JStr ''web'')]" "''p1''"]
  by (simp add: getProfile_def getProfiles_def obj_ok_def)

section \<open>Import and export\<close>

lemma obj_get_dels: "obj_get (fold obj_del ks o1) k = (if k \<in> set ks then None else obj_get o1 k)"
  by (induction ks arbitrary: o1) auto

lemma imported_get:
  "obj_get (imported_profile u c t v) k =
    (if k = ''updatedAt'' then Some (JStr t) else if k = ''createdAt'' then Some (JStr c) else if k = ''id'' then Some (JStr u)
     else if k \<in> set SECRET_FIELDS then None else map_of (entries v) k)"
  by (simp add: imported_profile_def stamped_def without_secrets_def obj_get_dels) (simp add: obj_get_def)

text \<open>
  What is imported brings no secret into the store, whatever the file holds, and merging keeps the profiles that
  are there; an exported list read back gives every profile again, with a new id, new dates and without its secrets.
\<close>

theorem import_brings_no_secret:
  assumes "importProfiles uuid c t True source merge it = (Some n, it')"
  shows "\<exists>new. getProfiles it' = (if merge then getProfiles it else []) @ new \<and> length new = n \<and>
    list_all (\<lambda>p. list_all (\<lambda>f. obj_get p f = None)
      [''password'', ''passphrase'', ''proxyPassword'', ''vncPassword'', ''tunnelPassword'', ''tunnelPassphrase'']) new \<and>
    (source = Some (exportProfiles old) \<longrightarrow>
      list_all2 (\<lambda>p q. \<forall>k. k \<notin> {''id'', ''createdAt'', ''updatedAt''} \<union> set SECRET_FIELDS \<longrightarrow> obj_get q k = obj_get p k)
        (getProfiles old) new)"
proof -
  obtain vs where src: "source = Some (JArr vs)" and n: "n = length vs" and
    it': "it' = Stored ((if merge then getProfiles it else []) @
      map2 (\<lambda>n v. imported_profile (uuid n) c t v) [0..<length vs] vs)"
    using assms by (auto simp: importProfiles_def Let_def split: option.splits json.splits)
  let ?new = "map2 (\<lambda>n v. imported_profile (uuid n) c t v) [0..<length vs] vs"
  have "list_all (\<lambda>p. list_all (\<lambda>f. obj_get p f = None)
      [''password'', ''passphrase'', ''proxyPassword'', ''vncPassword'', ''tunnelPassword'', ''tunnelPassphrase'']) ?new"
    by (auto simp: list_all_iff imported_get SECRET_FIELDS_def)
  moreover have "list_all2 (\<lambda>p q. \<forall>k. k \<notin> {''id'', ''createdAt'', ''updatedAt''} \<union> set SECRET_FIELDS \<longrightarrow> obj_get q k = obj_get p k)
        (getProfiles old) ?new" if "source = Some (exportProfiles old)"
  proof -
    have vs: "vs = map JObj (getProfiles old)" using that src by (simp add: exportProfiles_def)
    have e: "map_of (obj_entries p) k = obj_get p k" for p :: profile and k
      using obj_get_entries [of p k] by (simp only: obj_get_def)
    show ?thesis unfolding vs by (auto simp: list_all2_conv_all_nth imported_get e)
  qed
  ultimately show ?thesis using it' n by (intro exI [of _ ?new]) simp
qed

lemma import_brings_no_secret_witness:
  "\<exists>new. getProfiles (snd (importProfiles (\<lambda>_. ''n1'') ''t'' ''t'' True
      (Some (exportProfiles (Stored [[(''id'', JStr ''p1''), (''password'', JStr ''pw'')]]))) False Absent)) = new \<and>
    length new = 1 \<and> list_all (\<lambda>p. obj_get p ''password'' = None) new"
proof -
  let ?src = "Some (exportProfiles (Stored [[(''id'', JStr ''p1''), (''password'', JStr ''pw'')]]))"
  have "importProfiles (\<lambda>_. ''n1'') ''t'' ''t'' True ?src False Absent =
    (Some 1, snd (importProfiles (\<lambda>_. ''n1'') ''t'' ''t'' True ?src False Absent))"
    by (simp add: importProfiles_def exportProfiles_def Let_def)
  from import_brings_no_secret [OF this] show ?thesis by (auto simp: list_all_iff)
qed

section \<open>Sealing at the start\<close>

definition sealed_from :: "(nat \<Rightarrow> string \<Rightarrow> string option) \<Rightarrow> profile \<Rightarrow> profile \<Rightarrow> bool" where
  "sealed_from seal p q \<longleftrightarrow> (\<forall>k. k \<notin> {''password'', ''updatedAt''} \<longrightarrow> obj_get q k = obj_get p k) \<and>
     (obj_get q ''password'' = obj_get p ''password'' \<or>
      (\<exists>v n s. obj_get p ''password'' = Some (JStr v) \<and> seal n v = Some s \<and> obj_get q ''password'' = Some (JStr s)))"

lemma updateProfile_get:
  "getProfile (snd (updateProfile now w i [(''password'', JStr v)] it)) j =
    (if j = i \<and> w then map_option (updated_profile now [(''password'', JStr v)]) (getProfile it j) else getProfile it j)"
proof (cases "getProfile it i")
  case None
  then show ?thesis by (auto simp: updateProfile_missing)
next
  case (Some p)
  have ok: "obj_ok [(''password'', JStr v)]" "obj_get [(''password'', JStr v)] ''id'' = None"
    by (simp_all add: obj_ok_def obj_get_def)
  show ?thesis
  proof (cases w)
    case True
    then show ?thesis using Some updateProfile_put [OF Some ok, of now]
      by (simp add: getProfile_find_by profiles.find_put)
  next
    case False
    then show ?thesis by (simp add: updateProfile_def Let_def split: option.split)
  qed
qed

lemma seal_profiles_other:
  "(\<And>p. p \<in> set ps \<Longrightarrow> profile_id p \<noteq> Some (JStr i)) \<Longrightarrow> getProfile (seal_profiles seal now w n ps it) i = getProfile it i"
proof (induction ps arbitrary: n it)
  case (Cons p ps)
  have "getProfile (seal_profiles seal now w m ps it') i = getProfile it' i" for m it' using Cons by simp
  then show ?case using Cons.prems [of p] by (auto simp: updateProfile_get split: option.split json.split)
qed simp

lemma seal_profiles_get:
  assumes "distinct (map profile_id ps)"
    and "\<And>p. p \<in> set ps \<Longrightarrow> profile_id p = Some (JStr i) \<Longrightarrow> getProfile it i = Some p"
    and "getProfile it i = Some p0"
  shows "\<exists>q. getProfile (seal_profiles seal now w n ps it) i = Some q \<and> sealed_from seal p0 q"
  using assms
proof (induction ps arbitrary: n it p0)
  case Nil
  then show ?case by (simp add: sealed_from_def)
next
  case (Cons p ps)
  have keep: "\<exists>q. getProfile (seal_profiles seal now w m ps it) i = Some q \<and> sealed_from seal p0 q" for m
    using Cons.prems by (intro Cons.IH) auto
  show ?case
  proof (cases "\<exists>v j s. password_of p = Some v \<and> profile_id p = Some (JStr j) \<and> isLegacyPlaintext v \<and> seal n v = Some s")
    case False
    then have "\<exists>m. seal_profiles seal now w n (p # ps) it = seal_profiles seal now w m ps it"
      by (auto split: option.split json.split)
    then show ?thesis using keep by metis
  next
    case True
    then obtain v j s where v: "password_of p = Some v" "profile_id p = Some (JStr j)" "isLegacyPlaintext v" "seal n v = Some s"
      by blast
    let ?it = "snd (updateProfile now w j [(''password'', JStr s)] it)"
    have step: "seal_profiles seal now w n (p # ps) it = seal_profiles seal now w (Suc n) ps ?it" using v by simp
    show ?thesis
    proof (cases "j = i \<and> w")
      case False
      then have g: "getProfile ?it i = getProfile it i" by (auto simp: updateProfile_get)
      show ?thesis unfolding step using Cons.prems g by (intro Cons.IH) auto
    next
      case True
      then have p0: "p0 = p" using Cons.prems v by simp
      let ?u = "updated_profile now [(''password'', JStr s)] p"
      have g: "getProfile ?it i = Some ?u" using True Cons.prems p0 by (simp add: updateProfile_get)
      have no: "profile_id q \<noteq> Some (JStr i)" if "q \<in> set ps" for q
        using Cons.prems(1) v(2) True that by (auto simp: image_iff)
      have "getProfile (seal_profiles seal now w (Suc n) ps ?it) i = Some ?u"
        using seal_profiles_other [OF no] g by simp
      moreover have "obj_ok [(''password'', JStr s)]" by (simp add: obj_ok_def)
      then have "obj_get ?u ''password'' = Some (JStr s)" "\<And>k. k \<notin> {''password'', ''updatedAt''} \<Longrightarrow> obj_get ?u k = obj_get p k"
        by (simp_all add: updated_profile_get obj_get_def [of "_ # _"])
      ultimately show ?thesis unfolding step p0 using v by (auto simp: sealed_from_def password_of_def split: option.splits json.splits)
    qed
  qed
qed

text \<open>
  The sealing of profile passwords at the start never loses one: whichever seals and writes fail, each profile
  keeps all its fields, and its password is the one it had or what the backend answered for it.
\<close>

theorem profile_migration_keeps_passwords:
  assumes "distinct (map profile_id (getProfiles it))" and "getProfile it i = Some p"
  shows "\<exists>q. getProfile (migrateProfiles seal now w it) i = Some q \<and>
    (\<forall>k. k \<notin> {''password'', ''updatedAt''} \<longrightarrow> obj_get q k = obj_get p k) \<and>
    (obj_get q ''password'' = obj_get p ''password'' \<or>
     (\<exists>v n s. obj_get p ''password'' = Some (JStr v) \<and> seal n v = Some s \<and> obj_get q ''password'' = Some (JStr s)))"
proof -
  have "getProfile it i = Some r" if "r \<in> set (getProfiles it)" "profile_id r = Some (JStr i)" for r
    using find_by_distinct [OF assms(1) that(1)] that(2) by (simp add: getProfile_find_by)
  then show ?thesis
    using seal_profiles_get [OF assms(1) _ assms(2), of seal now w 0] by (simp add: migrateProfiles_def sealed_from_def)
qed

lemma profile_migration_keeps_passwords_witness:
  "\<exists>q. getProfile (migrateProfiles (\<lambda>_ _. None) ''t'' True (Stored [[(''id'', JStr ''p1''), (''password'', JStr ''pw'')]])) ''p1'' =
     Some q \<and> obj_get q ''password'' = Some (JStr ''pw'')"
  using profile_migration_keeps_passwords [of "Stored [[(''id'', JStr ''p1''), (''password'', JStr ''pw'')]]" "''p1''" _
    "\<lambda>_ _. None" "''t''" True]
  by (simp add: getProfile_def profile_id_def obj_get_def) blast

end
