(* ===== verification/Settings.thy ===== *)
theory Settings
  imports Storage
begin

text \<open>
  Settings kept in the local storage: the terminal's appearance and themes (\<open>src/src/lib/terminal-config.ts\<close>),
  the editor's (\<open>editor-config.ts\<close>) and the panels of the window (\<open>layout-config.ts\<close>). A stored item is
  \<open>None\<close>, or a text: \<open>None\<close> when it does not parse, else its value. Settings are objects whose values may be
  anything, since the code checks none but the scrollback. \<open>number_of\<close> is the number a text, array or object
  converts to, if that is finite; \<open>key_text\<close> its text as a property key.
\<close>

section \<open>Loading\<close>

type_synonym settings = "json obj"

definition DEFAULT_TERMINAL_SCROLLBACK :: rat where "DEFAULT_TERMINAL_SCROLLBACK = 10000"
definition MIN_TERMINAL_SCROLLBACK :: rat where "MIN_TERMINAL_SCROLLBACK = 1000"
definition MAX_TERMINAL_SCROLLBACK :: rat where "MAX_TERMINAL_SCROLLBACK = 50000"

text \<open>\<open>Math.round\<close> rounds halves up.\<close>

definition normalizeScrollbackLines :: "(json \<Rightarrow> rat option) \<Rightarrow> json option \<Rightarrow> rat" where
  "normalizeScrollbackLines number_of v =
     (case js_number number_of v of
        None \<Rightarrow> DEFAULT_TERMINAL_SCROLLBACK
      | Some q \<Rightarrow> if q < MIN_TERMINAL_SCROLLBACK then DEFAULT_TERMINAL_SCROLLBACK
                else min (of_int \<lfloor>q + 1 / 2\<rfloor>) MAX_TERMINAL_SCROLLBACK)"

definition normalizeAppearanceSettings :: "(json \<Rightarrow> rat option) \<Rightarrow> settings \<Rightarrow> settings" where
  "normalizeAppearanceSettings number_of s =
     obj_set ''scrollback'' (JNum (normalizeScrollbackLines number_of (obj_get s ''scrollback''))) (obj_entries s)"

definition defaultAppearanceSettings :: settings where
  "defaultAppearanceSettings = [(''fontSize'', JNum 14),
     (''fontFamily'', JStr (''Menlo, Monaco, '' @ [CHR 0x22] @ ''Courier New'' @ [CHR 0x22] @ '', monospace'')),
     (''lineHeight'', JNum (6 / 5)), (''letterSpacing'', JNum 0), (''cursorStyle'', JStr ''block''),
     (''cursorBlink'', JBool True), (''theme'', JStr ''vs-code-dark''),
     (''scrollback'', JNum DEFAULT_TERMINAL_SCROLLBACK), (''allowTransparency'', JBool False),
     (''opacity'', JNum 100), (''backgroundImage'', JStr []), (''backgroundImageOpacity'', JNum 30),
     (''backgroundImageBlur'', JNum 0), (''backgroundImagePosition'', JStr ''cover'')]"

definition loadAppearanceSettings :: "(json \<Rightarrow> rat option) \<Rightarrow> json option option \<Rightarrow> settings" where
  "loadAppearanceSettings number_of item =
     (case item of
        Some (Some v) \<Rightarrow>
          if is_object v then normalizeAppearanceSettings number_of (spread_over defaultAppearanceSettings v)
          else defaultAppearanceSettings
      | _ \<Rightarrow> defaultAppearanceSettings)"

definition saveAppearanceSettings ::
  "(json \<Rightarrow> rat option) \<Rightarrow> bool \<Rightarrow> settings \<Rightarrow> json option option \<Rightarrow> json option option" where
  "saveAppearanceSettings number_of write_ok s item =
     (if write_ok then Some (Some (JObj (normalizeAppearanceSettings number_of s))) else item)"

section \<open>Themes\<close>

type_synonym theme = "string obj"

definition defaultTerminalTheme :: theme where
  "defaultTerminalTheme = [
     (''foreground'', ''#d4d4d4''), (''background'', ''#1e1e1e''), (''cursor'', ''#aeafad''),
     (''selectionBackground'', ''rgba(255, 255, 255, 0.3)''),
     (''selectionInactiveBackground'', ''rgba(255, 255, 255, 0.15)''), (''black'', ''#000000''),
     (''red'', ''#cd3131''), (''green'', ''#0dbc79''), (''yellow'', ''#e5e510''),
     (''blue'', ''#2472c8''), (''magenta'', ''#bc3fbc''), (''cyan'', ''#11a8cd''),
     (''white'', ''#e5e5e5''), (''brightBlack'', ''#666666''), (''brightRed'', ''#f14c4c''),
     (''brightGreen'', ''#23d18b''), (''brightYellow'', ''#f5f543''),
     (''brightBlue'', ''#3b8eea''), (''brightMagenta'', ''#d670d6''),
     (''brightCyan'', ''#29b8db''), (''brightWhite'', ''#e5e5e5'')]"

definition defaultLightTerminalTheme :: theme where
  "defaultLightTerminalTheme = [
     (''foreground'', ''#1e1e1e''), (''background'', ''#ffffff''), (''cursor'', ''#333333''),
     (''selectionBackground'', ''rgba(0, 90, 200, 0.3)''),
     (''selectionInactiveBackground'', ''rgba(0, 90, 200, 0.15)''), (''black'', ''#000000''),
     (''red'', ''#cd3131''), (''green'', ''#00bc00''), (''yellow'', ''#949800''),
     (''blue'', ''#0451a5''), (''magenta'', ''#bc05bc''), (''cyan'', ''#0598bc''),
     (''white'', ''#555555''), (''brightBlack'', ''#666666''), (''brightRed'', ''#cd3131''),
     (''brightGreen'', ''#14ce14''), (''brightYellow'', ''#b5ba00''),
     (''brightBlue'', ''#0451a5''), (''brightMagenta'', ''#bc05bc''),
     (''brightCyan'', ''#0598bc''), (''brightWhite'', ''#a5a5a5'')]"

definition terminalThemes :: "theme obj" where
  "terminalThemes = [
     (''vs-code-dark'', defaultTerminalTheme),
     (''vs-code-light'', defaultLightTerminalTheme),
     (''monokai'', [
       (''foreground'', ''#f8f8f2''), (''background'', ''#272822''), (''cursor'', ''#f8f8f0''),
       (''black'', ''#272822''), (''red'', ''#f92672''), (''green'', ''#a6e22e''),
       (''yellow'', ''#f4bf75''), (''blue'', ''#66d9ef''), (''magenta'', ''#ae81ff''),
       (''cyan'', ''#a1efe4''), (''white'', ''#f8f8f2''), (''brightBlack'', ''#75715e''),
       (''brightRed'', ''#f92672''), (''brightGreen'', ''#a6e22e''),
       (''brightYellow'', ''#f4bf75''), (''brightBlue'', ''#66d9ef''),
       (''brightMagenta'', ''#ae81ff''), (''brightCyan'', ''#a1efe4''),
       (''brightWhite'', ''#f9f8f5'')]),
     (''solarized-dark'', [
       (''foreground'', ''#839496''), (''background'', ''#002b36''), (''cursor'', ''#839496''),
       (''black'', ''#073642''), (''red'', ''#dc322f''), (''green'', ''#859900''),
       (''yellow'', ''#b58900''), (''blue'', ''#268bd2''), (''magenta'', ''#d33682''),
       (''cyan'', ''#2aa198''), (''white'', ''#eee8d5''), (''brightBlack'', ''#002b36''),
       (''brightRed'', ''#cb4b16''), (''brightGreen'', ''#586e75''),
       (''brightYellow'', ''#657b83''), (''brightBlue'', ''#839496''),
       (''brightMagenta'', ''#6c71c4''), (''brightCyan'', ''#93a1a1''),
       (''brightWhite'', ''#fdf6e3'')]),
     (''solarized-light'', [
       (''foreground'', ''#657b83''), (''background'', ''#fdf6e3''), (''cursor'', ''#657b83''),
       (''selectionBackground'', ''rgba(0, 90, 200, 0.3)''),
       (''selectionInactiveBackground'', ''rgba(0, 90, 200, 0.15)''), (''black'', ''#073642''),
       (''red'', ''#dc322f''), (''green'', ''#859900''), (''yellow'', ''#b58900''),
       (''blue'', ''#268bd2''), (''magenta'', ''#d33682''), (''cyan'', ''#2aa198''),
       (''white'', ''#eee8d5''), (''brightBlack'', ''#002b36''), (''brightRed'', ''#cb4b16''),
       (''brightGreen'', ''#586e75''), (''brightYellow'', ''#657b83''),
       (''brightBlue'', ''#839496''), (''brightMagenta'', ''#6c71c4''),
       (''brightCyan'', ''#93a1a1''), (''brightWhite'', ''#fdf6e3'')]),
     (''dracula'', [
       (''foreground'', ''#f8f8f2''), (''background'', ''#282a36''), (''cursor'', ''#f8f8f2''),
       (''black'', ''#000000''), (''red'', ''#ff5555''), (''green'', ''#50fa7b''),
       (''yellow'', ''#f1fa8c''), (''blue'', ''#bd93f9''), (''magenta'', ''#ff79c6''),
       (''cyan'', ''#8be9fd''), (''white'', ''#bfbfbf''), (''brightBlack'', ''#4d4d4d''),
       (''brightRed'', ''#ff6e67''), (''brightGreen'', ''#5af78e''),
       (''brightYellow'', ''#f4f99d''), (''brightBlue'', ''#caa9fa''),
       (''brightMagenta'', ''#ff92d0''), (''brightCyan'', ''#9aedfe''),
       (''brightWhite'', ''#e6e6e6'')]),
     (''one-dark'', [
       (''foreground'', ''#abb2bf''), (''background'', ''#282c34''), (''cursor'', ''#528bff''),
       (''black'', ''#282c34''), (''red'', ''#e06c75''), (''green'', ''#98c379''),
       (''yellow'', ''#e5c07b''), (''blue'', ''#61afef''), (''magenta'', ''#c678dd''),
       (''cyan'', ''#56b6c2''), (''white'', ''#abb2bf''), (''brightBlack'', ''#5c6370''),
       (''brightRed'', ''#e06c75''), (''brightGreen'', ''#98c379''),
       (''brightYellow'', ''#e5c07b''), (''brightBlue'', ''#61afef''),
       (''brightMagenta'', ''#c678dd''), (''brightCyan'', ''#56b6c2''),
       (''brightWhite'', ''#ffffff'')]),
     (''nord'', [
       (''foreground'', ''#d8dee9''), (''background'', ''#2e3440''), (''cursor'', ''#d8dee9''),
       (''black'', ''#3b4252''), (''red'', ''#bf616a''), (''green'', ''#a3be8c''),
       (''yellow'', ''#ebcb8b''), (''blue'', ''#81a1c1''), (''magenta'', ''#b48ead''),
       (''cyan'', ''#88c0d0''), (''white'', ''#e5e9f0''), (''brightBlack'', ''#4c566a''),
       (''brightRed'', ''#bf616a''), (''brightGreen'', ''#a3be8c''),
       (''brightYellow'', ''#ebcb8b''), (''brightBlue'', ''#81a1c1''),
       (''brightMagenta'', ''#b48ead''), (''brightCyan'', ''#8fbcbb''),
       (''brightWhite'', ''#eceff4'')]),
     (''gruvbox-dark'', [
       (''foreground'', ''#ebdbb2''), (''background'', ''#282828''), (''cursor'', ''#ebdbb2''),
       (''black'', ''#282828''), (''red'', ''#cc241d''), (''green'', ''#98971a''),
       (''yellow'', ''#d79921''), (''blue'', ''#458588''), (''magenta'', ''#b16286''),
       (''cyan'', ''#689d6a''), (''white'', ''#a89984''), (''brightBlack'', ''#928374''),
       (''brightRed'', ''#fb4934''), (''brightGreen'', ''#b8bb26''),
       (''brightYellow'', ''#fabd2f''), (''brightBlue'', ''#83a598''),
       (''brightMagenta'', ''#d3869b''), (''brightCyan'', ''#8ec07c''),
       (''brightWhite'', ''#ebdbb2'')]),
     (''tokyo-night'', [
       (''foreground'', ''#a9b1d6''), (''background'', ''#1a1b26''), (''cursor'', ''#c0caf5''),
       (''black'', ''#32344a''), (''red'', ''#f7768e''), (''green'', ''#9ece6a''),
       (''yellow'', ''#e0af68''), (''blue'', ''#7aa2f7''), (''magenta'', ''#ad8ee6''),
       (''cyan'', ''#449dab''), (''white'', ''#787c99''), (''brightBlack'', ''#444b6a''),
       (''brightRed'', ''#ff7a93''), (''brightGreen'', ''#b9f27c''),
       (''brightYellow'', ''#ff9e64''), (''brightBlue'', ''#7da6ff''),
       (''brightMagenta'', ''#bb9af7''), (''brightCyan'', ''#0db9d7''),
       (''brightWhite'', ''#acb0d0'')]),
     (''matrix'', [
       (''foreground'', ''#00ff00''), (''background'', ''#000000''), (''cursor'', ''#00ff00''),
       (''black'', ''#000000''), (''red'', ''#008800''), (''green'', ''#00ff00''),
       (''yellow'', ''#88ff00''), (''blue'', ''#00ff88''), (''magenta'', ''#00ff00''),
       (''cyan'', ''#00ffff''), (''white'', ''#00ff00''), (''brightBlack'', ''#008800''),
       (''brightRed'', ''#00aa00''), (''brightGreen'', ''#00ff00''),
       (''brightYellow'', ''#88ff00''), (''brightBlue'', ''#00ff88''),
       (''brightMagenta'', ''#00ff00''), (''brightCyan'', ''#00ffff''),
       (''brightWhite'', ''#88ff88'')])]"

definition theme_named :: "(json \<Rightarrow> string) \<Rightarrow> settings \<Rightarrow> theme" where
  "theme_named key_text s =
     (case obj_get terminalThemes (property_key key_text (obj_get s ''theme'')) of
        Some t \<Rightarrow> t | None \<Rightarrow> defaultTerminalTheme)"

definition hex_digit :: "char \<Rightarrow> nat option" where
  "hex_digit c = map_of (zip ''0123456789abcdefABCDEF''
     [0, 1, 2, 3, 4, 5, 6, 7, 8, 9, 10, 11, 12, 13, 14, 15, 10, 11, 12, 13, 14, 15]) c"

text \<open>\<open>parseInt\<close> of two hexadecimal digits; the colours of the table have no others.\<close>

definition hex_pair :: "string \<Rightarrow> nat option" where
  "hex_pair s = (case s of [a, b] \<Rightarrow> (case (hex_digit a, hex_digit b) of
     (Some m, Some n) \<Rightarrow> Some (16 * m + n) | _ \<Rightarrow> None) | _ \<Rightarrow> None)"

definition isLightBackground :: "string option \<Rightarrow> bool" where
  "isLightBackground bg =
     (case bg of
        None \<Rightarrow> False
      | Some c \<Rightarrow>
          if c = [] \<or> \<not> starts_with c ''#'' \<or> length c < 7 then False
          else (case (hex_pair (take 2 (drop 1 c)), hex_pair (take 2 (drop 3 c)), hex_pair (take 2 (drop 5 c))) of
                  (Some r, Some g, Some b) \<Rightarrow> r * 299 + g * 587 + b * 114 > 128 * 1000
                | _ \<Rightarrow> False))"

text \<open>The name of the light variant: the first \<open>-dark\<close> replaced.\<close>

fun light_name :: "string \<Rightarrow> string" where
  "light_name [] = []"
| "light_name (c # cs) = (if starts_with (c # cs) ''-dark'' then ''-light'' @ drop 5 (c # cs) else c # light_name cs)"

text \<open>\<open>None\<close>: the code calls \<open>replace\<close> on a theme that is no string, which throws.\<close>

definition resolved_theme :: "(json \<Rightarrow> string) \<Rightarrow> bool \<Rightarrow> settings \<Rightarrow> theme option" where
  "resolved_theme key_text isDark s =
     (if \<not> isDark \<and> obj_get s ''theme'' = Some (JStr ''vs-code-dark'') then Some defaultLightTerminalTheme
      else if \<not> isDark then
        (case obj_get s ''theme'' of
           Some (JStr n) \<Rightarrow>
             (case obj_get terminalThemes (light_name n) of
                Some t \<Rightarrow> if light_name n \<noteq> n then Some t else Some (theme_named key_text s)
              | None \<Rightarrow> Some (theme_named key_text s))
         | _ \<Rightarrow> None)
      else Some (theme_named key_text s))"

definition with_selection :: "theme \<Rightarrow> theme" where
  "with_selection t =
     (case or_null (obj_get t ''selectionBackground'') of
        Some _ \<Rightarrow> t
      | None \<Rightarrow>
          let light = isLightBackground (obj_get t ''background'')
          in obj_set ''selectionInactiveBackground'' (if light then ''rgba(0, 90, 200, 0.15)'' else ''rgba(255, 255, 255, 0.15)'')
               (obj_set ''selectionBackground'' (if light then ''rgba(0, 90, 200, 0.3)'' else ''rgba(255, 255, 255, 0.3)'') t))"

definition getThemeAwareTerminalTheme :: "(json \<Rightarrow> string) \<Rightarrow> bool \<Rightarrow> settings \<Rightarrow> theme option" where
  "getThemeAwareTerminalTheme key_text isDark s = map_option with_selection (resolved_theme key_text isDark s)"

section \<open>Terminal options\<close>

text \<open>Options with a plain value, and the theme; an undefined value is \<open>None\<close>.\<close>

record terminal_options =
  plain :: "json option obj"
  opt_theme :: theme

definition defaultTerminalOptions :: terminal_options where
  "defaultTerminalOptions = \<lparr>plain = map (\<lambda>(k, v). (k, Some v)) [(''cursorBlink'', JBool True), (''cursorStyle'', JStr ''block''),
     (''fontFamily'', JStr (''Menlo, Monaco, '' @ [CHR 0x22] @ ''Courier New'' @ [CHR 0x22] @ '', monospace'')),
     (''fontSize'', JNum 14), (''lineHeight'', JNum (6 / 5)), (''letterSpacing'', JNum 0),
     (''allowProposedApi'', JBool True), (''convertEol'', JBool True),
     (''scrollback'', JNum DEFAULT_TERMINAL_SCROLLBACK), (''tabStopWidth'', JNum 8),
     (''allowTransparency'', JBool False), (''scrollSensitivity'', JNum 1), (''rightClickSelectsWord'', JBool False)],
     opt_theme = defaultTerminalTheme\<rparr>"

definition options_with :: "(json \<Rightarrow> rat option) \<Rightarrow> settings \<Rightarrow> theme \<Rightarrow> terminal_options" where
  "options_with number_of s t =
     (let transparency = (if js_truthy (obj_get s ''allowTransparency'') then obj_get s ''allowTransparency''
                          else Some (JBool (js_truthy (obj_get s ''backgroundImage''))))
      in \<lparr>plain = obj_set ''allowTransparency'' transparency
            (obj_set ''scrollback'' (Some (JNum (normalizeScrollbackLines number_of (obj_get s ''scrollback''))))
              (fold (\<lambda>k. obj_set k (obj_get s k))
                [''fontSize'', ''fontFamily'', ''lineHeight'', ''letterSpacing'', ''cursorStyle'', ''cursorBlink'']
                (plain defaultTerminalOptions))),
          opt_theme = (if js_truthy transparency then obj_set ''background'' ''#00000000'' t else t)\<rparr>)"

definition getTerminalOptions :: "(json \<Rightarrow> rat option) \<Rightarrow> (json \<Rightarrow> string) \<Rightarrow> settings \<Rightarrow> terminal_options" where
  "getTerminalOptions number_of key_text s = options_with number_of s (theme_named key_text s)"

definition getThemeAwareTerminalOptions ::
  "(json \<Rightarrow> rat option) \<Rightarrow> (json \<Rightarrow> string) \<Rightarrow> bool \<Rightarrow> settings \<Rightarrow> terminal_options option" where
  "getThemeAwareTerminalOptions number_of key_text isDark s =
     map_option (options_with number_of s) (getThemeAwareTerminalTheme key_text isDark s)"

section \<open>The editor\<close>

definition DEFAULT_EDITOR_CONFIG :: settings where
  "DEFAULT_EDITOR_CONFIG = [(''theme'', JStr ''oneDark''), (''fontSize'', JNum 14),
     (''fontFamily'', JStr ([CHR 0x27] @ ''JetBrains Mono'' @ [CHR 0x27] @ '', '' @ [CHR 0x27] @ ''Fira Code'' @ [CHR 0x27]
       @ '', Menlo, Monaco, '' @ [CHR 0x27] @ ''Courier New'' @ [CHR 0x27] @ '', monospace'')),
     (''lineNumbers'', JBool True), (''wordWrap'', JBool True), (''tabSize'', JNum 2),
     (''highlightActiveLine'', JBool True), (''foldGutter'', JBool True), (''bracketMatching'', JBool True),
     (''matchBrackets'', JBool True)]"

text \<open>\<open>{ ...defaults, ...parsed }\<close>, the defaults when there is nothing to parse.\<close>

definition load_over :: "settings \<Rightarrow> json option option \<Rightarrow> settings" where
  "load_over defaults item = (case item of Some (Some v) \<Rightarrow> spread_over defaults v | _ \<Rightarrow> defaults)"

definition loadEditorConfig :: "json option option \<Rightarrow> settings" where
  "loadEditorConfig item = load_over DEFAULT_EDITOR_CONFIG item"

text \<open>\<open>None\<close>: the write fails, and the call throws.\<close>

definition saveEditorConfig :: "bool \<Rightarrow> json \<Rightarrow> json option option option" where
  "saveEditorConfig write_ok c = (if write_ok then Some (Some (Some c)) else None)"

datatype FileViewKind = TextKind | ImageKind | BinaryKind

definition IMAGE_EXTS :: "string list" where
  "IMAGE_EXTS = [''png'', ''jpg'', ''jpeg'', ''gif'', ''bmp'', ''webp'', ''svg'', ''ico'', ''tiff'', ''tif'', ''avif'']"

definition BINARY_EXTS :: "string list" where
  "BINARY_EXTS = [''zip'', ''gz'', ''tar'', ''bz2'', ''xz'', ''7z'', ''rar'', ''zst'', ''lz4'', ''tgz'',
     ''exe'', ''dll'', ''so'', ''dylib'', ''o'', ''a'', ''lib'', ''bin'', ''elf'', ''wasm'',
     ''pdf'', ''doc'', ''docx'', ''xls'', ''xlsx'', ''ppt'', ''pptx'', ''odt'', ''ods'', ''odp'',
     ''mp3'', ''mp4'', ''avi'', ''mkv'', ''mov'', ''flv'', ''wmv'', ''wav'', ''flac'', ''ogg'', ''webm'', ''m4a'', ''aac'',
     ''iso'', ''img'', ''dmg'', ''vmdk'', ''qcow2'', ''sqlite'', ''db'', ''mdb'',
     ''ttf'', ''otf'', ''woff'', ''woff2'', ''eot'',
     ''class'', ''pyc'', ''pyo'', ''jar'', ''war'', ''ear'', ''apk'', ''ipa'']"

definition classifyFileByExtension :: "string \<Rightarrow> FileViewKind" where
  "classifyFileByExtension filename =
     (let ext = js_lower (last (js_split (CHR ''.'') filename))
      in if ext \<in> set IMAGE_EXTS then ImageKind else if ext \<in> set BINARY_EXTS then BinaryKind else TextKind)"

section \<open>The panels of the window\<close>

definition layout_of :: "bool \<Rightarrow> rat \<Rightarrow> bool \<Rightarrow> rat \<Rightarrow> bool \<Rightarrow> rat \<Rightarrow> bool \<Rightarrow> settings" where
  "layout_of l ls r rs b bs z = [(''leftSidebarVisible'', JBool l), (''leftSidebarSize'', JNum ls),
     (''rightSidebarVisible'', JBool r), (''rightSidebarSize'', JNum rs),
     (''bottomPanelVisible'', JBool b), (''bottomPanelSize'', JNum bs), (''zenMode'', JBool z)]"

definition DEFAULT_LAYOUT :: settings where
  "DEFAULT_LAYOUT = layout_of True 15 True 20 True 30 False"

definition loadLayout :: "json option option \<Rightarrow> settings" where
  "loadLayout item = load_over DEFAULT_LAYOUT item"

definition saveLayout :: "bool \<Rightarrow> settings \<Rightarrow> json option option \<Rightarrow> json option option" where
  "saveLayout write_ok c item = (if write_ok then Some (Some (JObj c)) else item)"

definition getPresets :: "(string \<times> settings) list" where
  "getPresets = [(''Default'', DEFAULT_LAYOUT),
     (''Minimal'', layout_of False 15 False 20 False 30 False),
     (''Focus Mode'', layout_of True 15 False 20 False 30 False),
     (''Full Stack'', layout_of True 15 True 20 True 35 False),
     (''Zen Mode'', layout_of False 15 False 20 False 30 True)]"

definition applyPreset :: "bool \<Rightarrow> string \<Rightarrow> json option option \<Rightarrow> settings \<times> json option option" where
  "applyPreset write_ok presetName item =
     (case map_of getPresets presetName of
        Some c \<Rightarrow> (c, saveLayout write_ok c item)
      | None \<Rightarrow> (DEFAULT_LAYOUT, item))"

text \<open>
  The provider (\<open>layout-context.tsx\<close>): the layout, whether it is the very object \<open>DEFAULT_LAYOUT\<close>, and the stored
  item. A change to another object is saved by an effect; setting the object that is there already changes nothing.
  Each action says whether the quota lets its writes through.
\<close>

record layout_state =
  layout :: settings
  is_default :: bool
  stored :: "json option option"

datatype layout_action = ToggleLeftSidebar | ToggleRightSidebar | ToggleBottomPanel | ToggleZenMode
  | SetLeftSidebarSize rat | SetRightSidebarSize rat | SetBottomPanelSize rat | ApplyPreset string | ResetLayout

definition setLayout :: "bool \<Rightarrow> settings \<Rightarrow> bool \<Rightarrow> layout_state \<Rightarrow> layout_state" where
  "setLayout write_ok next d s =
     (if d \<and> is_default s then s
      else s\<lparr>layout := next, is_default := d, stored := saveLayout write_ok next (stored s)\<rparr>)"

definition startLayout :: "bool \<Rightarrow> json option option \<Rightarrow> layout_state" where
  "startLayout write_ok item =
     (let c = loadLayout item
      in \<lparr>layout = c, is_default = (case item of Some (Some v) \<Rightarrow> False | _ \<Rightarrow> True), stored = saveLayout write_ok c item\<rparr>)"

definition toggled :: "string \<Rightarrow> settings \<Rightarrow> settings" where
  "toggled k c = obj_set k (JBool (\<not> js_truthy (obj_get c k))) (obj_entries c)"

definition positive_size :: "(json \<Rightarrow> rat option) \<Rightarrow> json option \<Rightarrow> bool" where
  "positive_size number_of v = (case js_number number_of v of Some q \<Rightarrow> q > 0 | None \<Rightarrow> False)"

definition zen_toggled :: "(json \<Rightarrow> rat option) \<Rightarrow> settings \<Rightarrow> settings" where
  "zen_toggled number_of c =
     (let z = \<not> js_truthy (obj_get c ''zenMode'')
      in obj_set ''bottomPanelVisible'' (JBool (\<not> z \<and> positive_size number_of (obj_get c ''bottomPanelSize'')))
          (obj_set ''rightSidebarVisible'' (JBool (\<not> z \<and> positive_size number_of (obj_get c ''rightSidebarSize'')))
            (obj_set ''leftSidebarVisible'' (JBool (\<not> z \<and> positive_size number_of (obj_get c ''leftSidebarSize'')))
              (obj_set ''zenMode'' (JBool z) (obj_entries c)))))"

fun layout_step :: "(json \<Rightarrow> rat option) \<Rightarrow> layout_state \<Rightarrow> bool \<times> layout_action \<Rightarrow> layout_state" where
  "layout_step number_of s (w, ToggleLeftSidebar) = setLayout w (toggled ''leftSidebarVisible'' (layout s)) False s"
| "layout_step number_of s (w, ToggleRightSidebar) = setLayout w (toggled ''rightSidebarVisible'' (layout s)) False s"
| "layout_step number_of s (w, ToggleBottomPanel) = setLayout w (toggled ''bottomPanelVisible'' (layout s)) False s"
| "layout_step number_of s (w, ToggleZenMode) = setLayout w (zen_toggled number_of (layout s)) False s"
| "layout_step number_of s (w, SetLeftSidebarSize q) =
     setLayout w (obj_set ''leftSidebarSize'' (JNum q) (obj_entries (layout s))) False s"
| "layout_step number_of s (w, SetRightSidebarSize q) =
     setLayout w (obj_set ''rightSidebarSize'' (JNum q) (obj_entries (layout s))) False s"
| "layout_step number_of s (w, SetBottomPanelSize q) =
     setLayout w (obj_set ''bottomPanelSize'' (JNum q) (obj_entries (layout s))) False s"
| "layout_step number_of s (w, ApplyPreset n) =
     (let (c, item) = applyPreset w n (stored s)
      in setLayout w c (n = ''Default'' \<or> map_of getPresets n = None) (s\<lparr>stored := item\<rparr>))"
| "layout_step number_of s (w, ResetLayout) = setLayout w DEFAULT_LAYOUT True (s\<lparr>stored := None\<rparr>)"

end
