(* ===== verification/SettingsProps.thy ===== *)
theory SettingsProps
  imports Settings
begin

section \<open>The terminal's settings\<close>

lemma scrollback_range:
  obtains n :: int where "normalizeScrollbackLines number_of v = of_int n" "1000 \<le> n" "n \<le> 50000"
proof (cases "js_number number_of v")
  case None
  then show ?thesis by (intro that [of 10000]) (simp_all add: normalizeScrollbackLines_def DEFAULT_TERMINAL_SCROLLBACK_def)
next
  case (Some q)
  show ?thesis
  proof (cases "q < 1000")
    case True
    with Some show ?thesis by (intro that [of 10000])
      (simp_all add: normalizeScrollbackLines_def MIN_TERMINAL_SCROLLBACK_def DEFAULT_TERMINAL_SCROLLBACK_def)
  next
    case False
    then have "1000 \<le> \<lfloor>q + 1 / 2\<rfloor>" by (simp add: le_floor_iff)
    with Some False show ?thesis by (intro that [of "min \<lfloor>q + 1 / 2\<rfloor> 50000"])
      (simp_all add: normalizeScrollbackLines_def MIN_TERMINAL_SCROLLBACK_def MAX_TERMINAL_SCROLLBACK_def of_int_min)
  qed
qed

lemma scrollback_fixed:
  assumes "1000 \<le> n" and "n \<le> (50000 :: int)"
  shows "normalizeScrollbackLines number_of (Some (JNum (of_int n))) = of_int n"
proof -
  have "\<lfloor>(of_int n :: rat) + 1 / 2\<rfloor> = n" by (simp add: floor_eq_iff)
  moreover have "\<not> (of_int n :: rat) < 1000" "(of_int n :: rat) \<le> 50000" using assms by linarith+
  ultimately show ?thesis
    by (simp add: normalizeScrollbackLines_def js_number_def MIN_TERMINAL_SCROLLBACK_def MAX_TERMINAL_SCROLLBACK_def)
qed

lemma appearance_defaults_ok: "obj_ok defaultAppearanceSettings"
  by (simp add: obj_ok_def defaultAppearanceSettings_def)

lemma loaded_appearance:
  "\<exists>n::int. obj_get (loadAppearanceSettings number_of item) ''scrollback'' = Some (JNum (of_int n)) \<and>
     1000 \<le> n \<and> n \<le> 50000 \<and> obj_ok (loadAppearanceSettings number_of item)"
proof -
  have d: "\<exists>n::int. obj_get defaultAppearanceSettings ''scrollback'' = Some (JNum (of_int n)) \<and>
    1000 \<le> n \<and> n \<le> 50000 \<and> obj_ok defaultAppearanceSettings"
    using appearance_defaults_ok by (intro exI [of _ 10000])
      (simp add: defaultAppearanceSettings_def obj_get_def DEFAULT_TERMINAL_SCROLLBACK_def)
  have l: "\<exists>n::int. obj_get (normalizeAppearanceSettings number_of s) ''scrollback'' = Some (JNum (of_int n)) \<and>
    1000 \<le> n \<and> n \<le> 50000 \<and> obj_ok (normalizeAppearanceSettings number_of s)" if "obj_ok s" for s
    using that scrollback_range [of number_of "obj_get s ''scrollback''"]
    by (metis normalizeAppearanceSettings_def obj_entries_ok obj_get_set obj_ok_intros(2))
  show ?thesis
  proof (cases "\<exists>v. item = Some (Some v) \<and> is_object v")
    case True
    then obtain v where "item = Some (Some v)" "is_object v" by blast
    then show ?thesis using l [OF spread_over_ok [OF appearance_defaults_ok, of v]]
      by (simp add: loadAppearanceSettings_def)
  next
    case False
    then have "loadAppearanceSettings number_of item = defaultAppearanceSettings"
      by (auto simp: loadAppearanceSettings_def split: option.splits)
    then show ?thesis using d by simp
  qed
qed

lemma load_saved_options:
  assumes "obj_ok s"
  shows "obj_get (loadAppearanceSettings number_of (saveAppearanceSettings number_of True s old)) k =
    (if k = ''scrollback''
     then Some (JNum (normalizeScrollbackLines number_of (Some (JNum (normalizeScrollbackLines number_of (obj_get s k))))))
     else case obj_get s k of Some w \<Rightarrow> Some w | None \<Rightarrow> obj_get defaultAppearanceSettings k)"
  using assms by (simp add: loadAppearanceSettings_def saveAppearanceSettings_def normalizeAppearanceSettings_def
    obj_get_spread)

lemma loaded_keeps_defaults:
  "obj_get (loadAppearanceSettings number_of item) k = None \<Longrightarrow> obj_get defaultAppearanceSettings k = None"
  by (auto simp: loadAppearanceSettings_def normalizeAppearanceSettings_def split: option.splits if_splits
    dest: spread_over_keeps)

theorem terminal_settings_survive:
  "(\<exists>n::int. obj_get (loadAppearanceSettings number_of item) ''scrollback'' = Some (JNum (of_int n)) \<and>
     1000 \<le> n \<and> n \<le> 50000) \<and>
   obj_get (loadAppearanceSettings number_of
     (saveAppearanceSettings number_of True (loadAppearanceSettings number_of item) old)) k =
   obj_get (loadAppearanceSettings number_of item) k"
proof -
  obtain n :: int where n: "obj_get (loadAppearanceSettings number_of item) ''scrollback'' = Some (JNum (of_int n))"
    "1000 \<le> n" "n \<le> 50000" "obj_ok (loadAppearanceSettings number_of item)"
    using loaded_appearance by metis
  have "obj_get (loadAppearanceSettings number_of
     (saveAppearanceSettings number_of True (loadAppearanceSettings number_of item) old)) k =
   obj_get (loadAppearanceSettings number_of item) k"
    unfolding load_saved_options [OF n(4)]
    using n loaded_keeps_defaults [of number_of item k]
    by (cases "k = ''scrollback''") (auto simp: scrollback_fixed split: option.splits)
  with n show ?thesis by blast
qed

section \<open>Themes\<close>

lemma theme_table_selection:
  "list_all (\<lambda>(n, t). or_null (obj_get t ''selectionBackground'') = None \<or>
     or_null (obj_get t ''selectionInactiveBackground'') \<noteq> None) terminalThemes"
  by code_simp

lemma default_themes_in_table: "defaultTerminalTheme \<in> snd ` set terminalThemes" "defaultLightTerminalTheme \<in> snd ` set terminalThemes"
  by (simp_all add: terminalThemes_def)

lemma theme_named_in_table: "theme_named key_text s \<in> snd ` set terminalThemes"
  using default_themes_in_table
  by (force simp: theme_named_def obj_get_def split: option.splits dest: map_of_SomeD)

lemma resolved_in_table:
  "resolved_theme key_text isDark s = Some t \<Longrightarrow> t \<in> snd ` set terminalThemes"
  using theme_named_in_table [of key_text s] default_themes_in_table
  by (force simp: resolved_theme_def obj_get_def split: if_splits option.splits json.splits dest: map_of_SomeD)

lemma resolved_None: "resolved_theme key_text isDark s = None \<longleftrightarrow> \<not> isDark \<and> \<not> is_string (obj_get s ''theme'')"
  by (auto simp: resolved_theme_def split: option.splits json.splits)

lemma selection_added:
  assumes "t \<in> snd ` set terminalThemes"
  shows "or_null (obj_get (with_selection t) ''selectionBackground'') \<noteq> None \<and>
    or_null (obj_get (with_selection t) ''selectionInactiveBackground'') \<noteq> None"
proof (cases "or_null (obj_get t ''selectionBackground'')")
  case None
  then show ?thesis by (simp add: with_selection_def Let_def or_null_def)
next
  case (Some c)
  then show ?thesis using assms theme_table_selection by (auto simp: with_selection_def list_all_iff)
qed

text \<open>
  The selection of the text is visible in every theme that is chosen, whatever the settings hold; only a stored theme
  that is no string makes the choice fail, by an exception, and only while the window is light.
\<close>

theorem selection_always_visible:
  "case getThemeAwareTerminalTheme key_text isDark s of
     None \<Rightarrow> \<not> isDark \<and> \<not> is_string (obj_get s ''theme'')
   | Some t \<Rightarrow> (isDark \<or> is_string (obj_get s ''theme'')) \<and> or_null (obj_get t ''selectionBackground'') \<noteq> None \<and>
       or_null (obj_get t ''selectionInactiveBackground'') \<noteq> None"
  using resolved_None [of key_text isDark s] selection_added resolved_in_table [of key_text isDark s]
  by (cases "resolved_theme key_text isDark s") (auto simp: getThemeAwareTerminalTheme_def)


section \<open>The editor\<close>

text \<open>Only what follows the last dot counts, in either case; without a dot the whole name does.\<close>

lemma classify_by_last_part:
  assumes "CHR ''.'' \<notin> set ext" and "CHR ''.'' \<notin> set ext'" and "js_lower ext = js_lower ext'"
  shows "classifyFileByExtension (base @ CHR ''.'' # ext) = classifyFileByExtension ext'"
proof -
  have "last (js_split (CHR ''.'') (base @ CHR ''.'' # ext)) = ext"
    using assms(1) by (simp add: js_split_append2 js_split_no_sep_single)
  moreover have "js_split (CHR ''.'') ext' = [ext']" using assms(2) by (simp add: js_split_no_sep_single)
  ultimately show ?thesis using assms(3) by (simp add: classifyFileByExtension_def)
qed

lemma bare_name_is_binary: "classifyFileByExtension ''bin'' = BinaryKind \<and> classifyFileByExtension ''notes'' = TextKind"
  by code_simp

lemma editor_config_survives:
  assumes "obj_ok c" and "saveEditorConfig w (JObj c) = Some item"
  shows "obj_get (loadEditorConfig item) k = (case obj_get c k of Some v \<Rightarrow> Some v | None \<Rightarrow> obj_get DEFAULT_EDITOR_CONFIG k)"
  using assms by (auto simp: saveEditorConfig_def loadEditorConfig_def load_over_def obj_get_spread split: if_splits)

section \<open>The panels\<close>

definition layout_complete :: "settings \<Rightarrow> bool" where
  "layout_complete c \<longleftrightarrow> obj_ok c \<and> (\<forall>k. obj_get c k = None \<longrightarrow> obj_get DEFAULT_LAYOUT k = None)"

definition layout_kept :: "layout_state \<Rightarrow> bool" where
  "layout_kept s \<longleftrightarrow> layout_complete (layout s) \<and>
     (stored s = Some (Some (JObj (layout s))) \<or> stored s = None \<and> layout s = DEFAULT_LAYOUT) \<and>
     (is_default s \<longrightarrow> layout s = DEFAULT_LAYOUT)"

lemma default_layout_complete [simp]: "layout_complete DEFAULT_LAYOUT"
  by (simp add: layout_complete_def DEFAULT_LAYOUT_def layout_of_def obj_ok_def)

lemma layout_complete_set [simp]: "layout_complete c \<Longrightarrow> layout_complete (obj_set k v c)"
  by (simp add: layout_complete_def)

lemma layout_complete_entries [simp]: "layout_complete (obj_entries c) = layout_complete c"
  by (simp add: layout_complete_def)

lemma layout_complete_load [simp]: "layout_complete (loadLayout item)"
  using default_layout_complete spread_over_keeps [of DEFAULT_LAYOUT]
  by (auto simp: layout_complete_def loadLayout_def load_over_def simp del: default_layout_complete split: option.split)

lemma layout_of_complete [simp]: "layout_complete (layout_of l ls r rs b bs z)"
proof -
  have "(obj_get (layout_of l ls r rs b bs z) k = None) =
    (k \<notin> {''leftSidebarVisible'', ''leftSidebarSize'', ''rightSidebarVisible'', ''rightSidebarSize'',
      ''bottomPanelVisible'', ''bottomPanelSize'', ''zenMode''})" for k l ls r rs b bs z
    by (simp add: layout_of_def obj_get_def map_of_eq_None_iff)
  then show ?thesis by (simp add: layout_complete_def DEFAULT_LAYOUT_def) (simp add: layout_of_def obj_ok_def)
qed

lemma presets_complete: "map_of getPresets n = Some c \<Longrightarrow> layout_complete c"
  by (drule map_of_SomeD) (auto simp: getPresets_def)

lemma load_kept: "layout_kept s \<Longrightarrow> obj_get (loadLayout (stored s)) k = obj_get (layout s) k"
  by (auto simp: layout_kept_def layout_complete_def loadLayout_def load_over_def obj_get_spread split: option.split)

lemma start_kept: "layout_kept (startLayout True item)"
proof -
  have "loadLayout item = DEFAULT_LAYOUT" if "is_default (startLayout True item)"
    using that by (auto simp: startLayout_def Let_def loadLayout_def load_over_def split: option.splits)
  then show ?thesis by (simp add: layout_kept_def startLayout_def Let_def saveLayout_def)
qed

lemma setLayout_kept:
  "layout_kept s \<Longrightarrow> layout_complete c \<Longrightarrow> d \<longrightarrow> c = DEFAULT_LAYOUT \<Longrightarrow> layout_kept (setLayout True c d s)"
  by (auto simp: layout_kept_def setLayout_def saveLayout_def)

lemma toggled_complete [simp]: "layout_complete c \<Longrightarrow> layout_complete (toggled k c)"
  by (simp add: toggled_def)

lemma zen_toggled_complete [simp]: "layout_complete c \<Longrightarrow> layout_complete (zen_toggled number_of c)"
  by (simp add: zen_toggled_def Let_def)

lemma layout_kept_complete: "layout_kept s \<Longrightarrow> layout_complete (layout s)"
  by (simp add: layout_kept_def)

lemma applyPreset_kept:
  assumes "layout_kept s" shows "layout_kept (layout_step number_of s (True, ApplyPreset n))"
proof (cases "map_of getPresets n")
  case None
  with assms show ?thesis by (simp add: applyPreset_def setLayout_kept)
next
  case (Some c)
  have "n = ''Default'' \<Longrightarrow> c = DEFAULT_LAYOUT" using Some by (simp add: getPresets_def)
  with Some presets_complete [OF Some] assms show ?thesis
    by (simp add: applyPreset_def layout_kept_def setLayout_def saveLayout_def)
qed

lemma layout_step_kept: "layout_kept s \<Longrightarrow> layout_kept (layout_step number_of s (True, a))"
proof (cases a)
  case (ApplyPreset n)
  assume "layout_kept s"
  then show ?thesis unfolding ApplyPreset by (rule applyPreset_kept)
next
  case ResetLayout
  assume "layout_kept s"
  then show ?thesis unfolding ResetLayout by (simp add: layout_kept_def setLayout_def saveLayout_def)
qed (simp_all add: setLayout_kept layout_kept_complete)

interpretation panels: action_machine "layout_step number_of" layout_kept "\<lambda>_ a. fst a"
  by unfold_locales (metis layout_step_kept prod.collapse)

lemma all_written: "list_all fst as \<Longrightarrow> ok_run step (\<lambda>_ a. fst a) s as"
  by (induction as arbitrary: s) auto

text \<open>
  Whatever the user does with the panels, toggling, sizing, presets, zen mode or reset, the next start shows the
  layout of the last one: each setting of the loaded layout is the one that was shown.
\<close>

theorem panels_survive_restart:
  assumes "list_all fst as"
  shows "obj_get (loadLayout (stored (run_actions (layout_step number_of) (startLayout True item) as))) k =
    obj_get (layout (run_actions (layout_step number_of) (startLayout True item) as)) k"
  by (rule load_kept) (rule panels.run_inv [OF start_kept all_written [OF assms]])

lemma panels_survive_restart_witness:
  "obj_get (loadLayout (stored (run_actions (layout_step (\<lambda>_. None)) (startLayout True None) [(True, ResetLayout), (True, ToggleLeftSidebar)])))
     ''leftSidebarVisible'' = Some (JBool False)"
  by (rule trans [OF panels_survive_restart])
     (simp_all add: setLayout_def startLayout_def loadLayout_def load_over_def Let_def toggled_def DEFAULT_LAYOUT_def layout_of_def
       js_truthy_def obj_get_def [of "_ # _"] split: if_splits)

text \<open>Zen mode forgets which panels were open: leaving it shows every panel that has a size.\<close>

lemma zen_twice_opens_panels:
  "obj_get (zen_toggled number_of (zen_toggled number_of (layout_of False 15 False 20 False 30 False))) ''leftSidebarVisible''
    = Some (JBool True)"
  by (simp add: zen_toggled_def layout_of_def Let_def obj_get_def [of "_ # _"] js_truthy_def positive_size_def js_number_def)

end
