(* ===== verification/Shortcuts.thy ===== *)
theory Shortcuts
  imports Json
begin

text \<open>
  Keyboard shortcuts: parsing, display, accelerators and the matching of key events in
  \<open>src/src/lib/keyboard-shortcuts.ts\<close>, and the registry of remappable commands of
  \<open>src/src/lib/shortcut-registry.ts\<close> with its saved overrides, their migration and the conflict
  analysis. Keys that name an inherited property of \<open>Object.prototype\<close> in lower case
  (\<open>constructor\<close>, \<open>__proto__\<close>) are left out, as in \<open>JsObject\<close>.
\<close>

section \<open>Parsing\<close>

record chord =
  key :: string
  ctrlKey :: bool
  shiftKey :: bool
  altKey :: bool
  metaKey :: bool

definition KEY_ALIASES :: "(string \<times> string) list" where
  "KEY_ALIASES = [
     (''tab'', ''Tab''), (''escape'', ''Escape''), (''esc'', ''Escape''), (''enter'', ''Enter''),
     (''return'', ''Enter''), (''space'', '' ''), (''spacebar'', '' ''), (''backspace'', ''Backspace''),
     (''delete'', ''Delete''), (''del'', ''Delete''), (''pageup'', ''PageUp''), (''pagedown'', ''PageDown''),
     (''home'', ''Home''), (''end'', ''End''), (''arrowup'', ''ArrowUp''), (''up'', ''ArrowUp''),
     (''arrowdown'', ''ArrowDown''), (''down'', ''ArrowDown''), (''arrowleft'', ''ArrowLeft''),
     (''left'', ''ArrowLeft''), (''arrowright'', ''ArrowRight''), (''right'', ''ArrowRight'')]"

definition normalizeShortcutKey :: "string \<Rightarrow> string" where
  "normalizeShortcutKey k =
     (let trimmed = js_trim k in
      if length trimmed = 1 then js_lower trimmed
      else case map_of KEY_ALIASES (js_lower trimmed) of Some v \<Rightarrow> v | None \<Rightarrow> trimmed)"

definition parse_part :: "chord \<Rightarrow> string \<Rightarrow> chord" where
  "parse_part parsed part =
     (let normalized = js_lower part in
      if normalized \<in> {''ctrl'', ''control'', ''cmdorctrl''} then parsed\<lparr>ctrlKey := True\<rparr>
      else if normalized = ''shift'' then parsed\<lparr>shiftKey := True\<rparr>
      else if normalized \<in> {''alt'', ''option''} then parsed\<lparr>altKey := True\<rparr>
      else if normalized \<in> {''meta'', ''cmd'', ''command'', ''super''} then parsed\<lparr>metaKey := True\<rparr>
      else parsed\<lparr>key := normalizeShortcutKey part\<rparr>)"

definition no_chord :: chord where
  "no_chord = \<lparr>key = [], ctrlKey = False, shiftKey = False, altKey = False, metaKey = False\<rparr>"

definition parseKeyboardShortcut :: "string \<Rightarrow> chord option" where
  "parseKeyboardShortcut s =
     (let parts = filter_truthy (map js_trim (js_split (CHR ''+'') s));
          parsed = foldl parse_part no_chord parts
      in if parts = [] then None else if key parsed \<noteq> [] then Some parsed else None)"

definition LEGACY_CLOSE_TAB_SHORTCUTS :: "string list" where
  "LEGACY_CLOSE_TAB_SHORTCUTS = [''ctrl+shift+w'', ''cmdorctrl+shift+w'']"

definition compactShortcut :: "string \<Rightarrow> string" where
  "compactShortcut s = js_lower (filter (\<lambda>c. \<not> is_space c) s)"

definition resolveSavedShortcut :: "json option \<Rightarrow> string \<Rightarrow> string list \<Rightarrow> string" where
  "resolveSavedShortcut v fallback legacyShortcuts =
     (case v of
        Some (JStr s) \<Rightarrow>
          if compactShortcut s \<in> set legacyShortcuts then fallback
          else if parseKeyboardShortcut s \<noteq> None then s else fallback
      | _ \<Rightarrow> fallback)"

section \<open>Accelerators\<close>

text \<open>\<open>toUpperCase\<close> on code units below 256; two of them have an upper case beyond and stay.\<close>

definition char_upper :: "char \<Rightarrow> string" where
  "char_upper c = (let n = of_char c :: nat in
     if (97 \<le> n \<and> n \<le> 122) \<or> (224 \<le> n \<and> n \<le> 254 \<and> n \<noteq> 247) then [char_of (n - 32)]
     else if n = 223 then ''SS'' else [c])"

lemma char_upper_code [code]:
  "char_upper (Char b0 b1 b2 b3 b4 b5 b6 b7) =
    (if b6 \<and> b5 \<and> (if b7 then \<not> (b0 \<and> b1 \<and> b2 \<and> b3 \<and> b4) \<and> \<not> (b0 \<and> b1 \<and> b2 \<and> \<not> b3 \<and> b4)
       else (b0 \<or> b1 \<or> b2 \<or> b3 \<or> b4) \<and> \<not> (b4 \<and> b3 \<and> (b2 \<or> b1 \<and> b0)))
     then [Char b0 b1 b2 b3 b4 False b6 b7]
     else if b7 \<and> b6 \<and> \<not> b5 \<and> b4 \<and> b3 \<and> b2 \<and> b1 \<and> b0 then ''SS''
     else [Char b0 b1 b2 b3 b4 b5 b6 b7])"
  by (cases b0; cases b1; cases b2; cases b3; cases b4; cases b5; cases b6; cases b7)
    (simp_all add: char_upper_def of_char_def char_of_def bit_0)

definition js_upper :: "string \<Rightarrow> string" where
  "js_upper s = concat (map char_upper s)"

definition ACCELERATOR_SYMBOL_KEYS :: "(string \<times> string) list" where
  "ACCELERATOR_SYMBOL_KEYS = [
     ('' '', ''Space''), ([CHR 0x60], ''Backquote''), ([CHR 0x5C], ''Backslash''), (''['', ''BracketLeft''),
     ('']'', ''BracketRight''), ('','', ''Comma''), (''='', ''Equal''), (''-'', ''Minus''), (''.'', ''Period''),
     ([CHR 0x27], ''Quote''), ('';'', ''Semicolon''), (''/'', ''Slash'')]"

definition toAcceleratorKey :: "string \<Rightarrow> string" where
  "toAcceleratorKey k =
     (if k = '' '' then ''Space''
      else
        let normalized = normalizeShortcutKey k in
        if length normalized = 1 then
          (case map_of ACCELERATOR_SYMBOL_KEYS normalized of Some v \<Rightarrow> v | None \<Rightarrow> js_upper normalized)
        else
          (case map_of KEY_ALIASES (js_lower normalized) of Some v \<Rightarrow> v | None \<Rightarrow> js_upper normalized))"

definition modifier_names :: "chord \<Rightarrow> string list" where
  "modifier_names c =
     (if ctrlKey c then [''CommandOrControl''] else []) @ (if shiftKey c then [''Shift''] else []) @
     (if altKey c then [''Option''] else []) @ (if metaKey c then [''Command''] else [])"

definition toAcceleratorFromParsed :: "chord \<Rightarrow> string option" where
  "toAcceleratorFromParsed c =
     (if modifier_names c = [] then None
      else Some (js_join ''+'' (modifier_names c @ [toAcceleratorKey (key c)])))"

definition toAccelerator :: "string \<Rightarrow> string option" where
  "toAccelerator s = (case parseKeyboardShortcut s of Some c \<Rightarrow> toAcceleratorFromParsed c | None \<Rightarrow> None)"

definition macMenuChord :: "chord \<Rightarrow> string option" where
  "macMenuChord c =
     (if \<not> ctrlKey c \<and> \<not> metaKey c then None
      else Some (js_join ''+'' ([''CommandOrControl''] @ (if shiftKey c then [''Shift''] else []) @
        (if altKey c then [''Option''] else []) @ [toAcceleratorKey (key c)])))"

definition MACOS_IN_WINDOW_CHORDS :: "string list" where
  "MACOS_IN_WINDOW_CHORDS = [''CommandOrControl+Z'', ''CommandOrControl+Shift+Z'', ''CommandOrControl+M'',
     ''CommandOrControl+Tab'', ''CommandOrControl+Shift+Tab'']"

definition MACOS_MENU_OWNED_ACCELERATORS :: "string list" where
  "MACOS_MENU_OWNED_ACCELERATORS = [''CommandOrControl+N'', ''CommandOrControl+S'', ''CommandOrControl+W'',
     ''CommandOrControl+T'', ''CommandOrControl+D'', ''CommandOrControl+F'', ''CommandOrControl+L'',
     ''CommandOrControl+Z'', ''CommandOrControl+Shift+Z'', ''CommandOrControl+M'', ''CommandOrControl+Comma'', ''F5'']"

definition isMacDegradedShortcut :: "bool \<Rightarrow> string \<Rightarrow> bool" where
  "isMacDegradedShortcut platformIsMac s \<longleftrightarrow> platformIsMac \<and>
     (case parseKeyboardShortcut s of
        Some c \<Rightarrow> (case macMenuChord c of Some m \<Rightarrow> m \<in> set MACOS_IN_WINDOW_CHORDS | None \<Rightarrow> False)
      | None \<Rightarrow> False)"

section \<open>Display\<close>

text \<open>The symbols of the macOS labels are not code units below 256 and are named.\<close>

datatype label = Text string | CommandSign | ControlSign | ShiftSign | OptionSign | ArrowSign string

definition label_part :: "bool \<Rightarrow> bool \<Rightarrow> string \<Rightarrow> label" where
  "label_part isMac macDegraded part =
     (let p = js_lower (js_trim part) in
      if p \<in> {''ctrl'', ''control'', ''cmdorctrl''} then
        (if isMac then (if macDegraded then ControlSign else CommandSign) else Text ''Ctrl'')
      else if p = ''shift'' then (if isMac then ShiftSign else Text ''Shift'')
      else if p \<in> {''alt'', ''option''} then (if isMac then OptionSign else Text ''Alt'')
      else if p \<in> {''meta'', ''cmd'', ''command'', ''super''} then
        (if isMac then (if macDegraded then ControlSign else CommandSign) else Text ''Meta'')
      else if p = ''arrowup'' then ArrowSign ''up'' else if p = ''arrowdown'' then ArrowSign ''down''
      else if p = ''arrowleft'' then ArrowSign ''left'' else if p = ''arrowright'' then ArrowSign ''right''
      else Text (js_trim part))"

fun intersperse :: "'a \<Rightarrow> 'a list \<Rightarrow> 'a list" where
  "intersperse sep (x # y # xs) = x # sep # intersperse sep (y # xs)"
| "intersperse sep xs = xs"

definition formatKeyboardShortcut :: "bool \<Rightarrow> string \<Rightarrow> bool \<Rightarrow> label list" where
  "formatKeyboardShortcut platformIsMac s isMac =
     (let macDegraded = isMac \<and> isMacDegradedShortcut platformIsMac s;
          parts = map (label_part isMac macDegraded) (js_split (CHR ''+'') s)
      in if isMac then parts else intersperse (Text ''+'') parts)"

section \<open>Shortcuts and key events\<close>

text \<open>An undefined flag is \<open>None\<close>; \<open>handler\<close> names the action the callback runs.\<close>

record shortcut =
  sc_key :: string
  sc_ctrl :: "bool option"
  sc_shift :: "bool option"
  sc_alt :: "bool option"
  sc_meta :: "bool option"
  ignoreInTerminal :: "bool option"
  globalInBackground :: "bool option"
  handler :: string
  description :: string

definition or_false :: "bool option \<Rightarrow> bool" where
  "or_false v = (v = Some True)"

definition chord_of :: "shortcut \<Rightarrow> chord" where
  "chord_of sc = \<lparr>key = sc_key sc, ctrlKey = or_false (sc_ctrl sc), shiftKey = or_false (sc_shift sc),
     altKey = or_false (sc_alt sc), metaKey = or_false (sc_meta sc)\<rparr>"

definition acceleratorForShortcut :: "shortcut \<Rightarrow> string option" where
  "acceleratorForShortcut sc = toAcceleratorFromParsed (chord_of sc)"

definition isMacInWindowShortcut :: "bool \<Rightarrow> shortcut \<Rightarrow> bool" where
  "isMacInWindowShortcut platformIsMac sc \<longleftrightarrow> platformIsMac \<and>
     (case macMenuChord (chord_of sc) of Some m \<Rightarrow> m \<in> set MACOS_IN_WINDOW_CHORDS | None \<Rightarrow> False)"

text \<open>\<open>None\<close> is the thrown error: neither the binding nor the fallback parses.\<close>

definition createConfiguredShortcut :: "string \<Rightarrow> string \<Rightarrow> string \<Rightarrow> string \<Rightarrow> shortcut option" where
  "createConfiguredShortcut s fallback h desc =
     (case (case parseKeyboardShortcut s of Some c \<Rightarrow> Some c | None \<Rightarrow> parseKeyboardShortcut fallback) of
        None \<Rightarrow> None
      | Some c \<Rightarrow> Some \<lparr>sc_key = key c, sc_ctrl = Some (ctrlKey c), sc_shift = Some (shiftKey c),
          sc_alt = Some (altKey c), sc_meta = Some (metaKey c), ignoreInTerminal = None,
          globalInBackground = None, handler = h, description = desc\<rparr>)"

record key_event =
  ev_key :: string
  ev_ctrl :: bool
  ev_shift :: bool
  ev_alt :: bool
  ev_meta :: bool

text \<open>\<open>inWindowMatchMods\<close>: control, meta, shift, alt.\<close>

definition inWindowMatchMods :: "shortcut \<Rightarrow> bool \<times> bool \<times> bool \<times> bool" where
  "inWindowMatchMods sc =
     (if or_false (sc_meta sc) \<and> \<not> or_false (sc_ctrl sc)
      then (True, False, or_false (sc_shift sc), or_false (sc_alt sc))
      else (or_false (sc_ctrl sc), or_false (sc_meta sc), or_false (sc_shift sc), or_false (sc_alt sc)))"

definition same_key :: "key_event \<Rightarrow> shortcut \<Rightarrow> bool" where
  "same_key ev sc \<longleftrightarrow> js_lower (ev_key ev) = js_lower (sc_key sc)"

text \<open>
  \<open>handleInWindowKeyDown\<close>: which handler runs. \<open>editable\<close> and \<open>inTerminal\<close> say what the event's
  target is.
\<close>

definition handleInWindowKeyDown :: "bool \<Rightarrow> bool \<Rightarrow> bool \<Rightarrow> key_event \<Rightarrow> shortcut list \<Rightarrow> string option" where
  "handleInWindowKeyDown platformIsMac editable inTerminal ev scs =
     (if editable \<and> \<not> inTerminal then None
      else map_option handler (find (\<lambda>sc. isMacInWindowShortcut platformIsMac sc \<and>
        \<not> (inTerminal \<and> or_false (ignoreInTerminal sc)) \<and> same_key ev sc \<and>
        (ev_ctrl ev, ev_meta ev, ev_shift ev, ev_alt ev) = inWindowMatchMods sc) scs))"

definition flag_matches :: "bool option \<Rightarrow> bool \<Rightarrow> bool" where
  "flag_matches want have \<longleftrightarrow> want = None \<or> want = Some have"

definition dom_match :: "bool \<Rightarrow> key_event \<Rightarrow> shortcut \<Rightarrow> bool" where
  "dom_match isMac ev sc \<longleftrightarrow>
     (let ctrlOrCmd = (if isMac then ev_meta ev \<or> ev_ctrl ev else ev_ctrl ev);
          usesExplicitMeta = (sc_meta sc = Some True \<and> sc_ctrl sc \<noteq> Some True);
          ctrlMatch = flag_matches (sc_ctrl sc) (if usesExplicitMeta then ev_ctrl ev else ctrlOrCmd);
          metaMatch = (if usesExplicitMeta then ev_meta ev
                       else if isMac \<and> sc_ctrl sc \<noteq> None then True
                       else flag_matches (sc_meta sc) (ev_meta ev))
      in same_key ev sc \<and> ctrlMatch \<and> flag_matches (sc_shift sc) (ev_shift ev) \<and>
         flag_matches (sc_alt sc) (ev_alt ev) \<and> metaMatch)"

definition handleKeyDown :: "bool \<Rightarrow> bool \<Rightarrow> bool \<Rightarrow> key_event \<Rightarrow> shortcut list \<Rightarrow> string option" where
  "handleKeyDown isMac editable terminalInputTarget ev scs =
     (if editable \<and> \<not> terminalInputTarget then None
      else case find (dom_match isMac ev) scs of
             Some sc \<Rightarrow> if or_false (ignoreInTerminal sc) \<and> terminalInputTarget then None else Some (handler sc)
           | None \<Rightarrow> None)"

section \<open>The commands\<close>

record command =
  cmd_id :: string
  default_chord :: string
  category :: string

definition SHORTCUT_DEFINITIONS :: "command list" where
  "SHORTCUT_DEFINITIONS = map (\<lambda>(i, d, c). \<lparr>cmd_id = i, default_chord = d, category = c\<rparr>) [
     (''newSession'', ''Ctrl+N'', ''tabs''), (''closeSession'', ''Ctrl+W'', ''tabs''),
     (''nextTab'', ''Ctrl+Tab'', ''tabs''), (''previousTab'', ''Ctrl+Shift+Tab'', ''tabs''),
     (''moveTabLeft'', ''Ctrl+Shift+PageUp'', ''tabs''), (''moveTabRight'', ''Ctrl+Shift+PageDown'', ''tabs''),
     (''toggleLeftSidebar'', ''Ctrl+B'', ''layout''), (''toggleBottomPanel'', ''Ctrl+J'', ''layout''),
     (''toggleRightSidebar'', ''Ctrl+M'', ''layout''), (''toggleZenMode'', ''Ctrl+Z'', ''layout''),
     (''splitRight'', ''Ctrl+'' @ [CHR 0x5C], ''split''), (''splitDown'', ''Ctrl+Shift+'' @ [CHR 0x5C], ''split''),
     (''openSettings'', ''Ctrl+,'', ''app'')]"

type_synonym bindings = "string obj"

definition DEFAULT_SHORTCUT_BINDINGS :: bindings where
  "DEFAULT_SHORTCUT_BINDINGS = map (\<lambda>d. (cmd_id d, default_chord d)) SHORTCUT_DEFINITIONS"

definition default_of :: "string \<Rightarrow> string" where
  "default_of i = (case obj_get DEFAULT_SHORTCUT_BINDINGS i of Some d \<Rightarrow> d | None \<Rightarrow> [])"

definition resolveShortcutBinding :: "bindings \<Rightarrow> string \<Rightarrow> string" where
  "resolveShortcutBinding overrides i = (case obj_get overrides i of Some v \<Rightarrow> v | None \<Rightarrow> default_of i)"

definition resolveShortcutBindings :: "bindings \<Rightarrow> bindings" where
  "resolveShortcutBindings overrides =
     map (\<lambda>d. (cmd_id d, resolveShortcutBinding overrides (cmd_id d))) SHORTCUT_DEFINITIONS"

section \<open>Saved overrides\<close>

definition legacy_override :: "json \<Rightarrow> string \<Rightarrow> string list \<Rightarrow> bindings \<Rightarrow> bindings" where
  "legacy_override blob i legacy overrides =
     (let v = resolveSavedShortcut (js_prop blob i) (default_of i) legacy
      in if v \<noteq> default_of i then obj_set i v overrides else overrides)"

definition legacyFlatOverrides :: "json \<Rightarrow> bindings" where
  "legacyFlatOverrides blob =
     fold (\<lambda>i. legacy_override blob i []) [''nextTab'', ''previousTab'', ''newSession'']
       (legacy_override blob ''closeSession'' LEGACY_CLOSE_TAB_SHORTCUTS [])"

definition saved_override :: "json \<Rightarrow> string \<Rightarrow> bindings \<Rightarrow> bindings" where
  "saved_override saved i overrides =
     (case js_prop saved i of
        Some (JStr v) \<Rightarrow> if parseKeyboardShortcut v \<noteq> None then obj_set i (js_trim v) overrides else overrides
      | _ \<Rightarrow> overrides)"

text \<open>
  The settings item: \<open>None\<close>, or a text that is \<open>None\<close> when it does not parse. Reading a property of
  \<open>null\<close> throws, and then there are no overrides.
\<close>

definition load_blob :: "json \<Rightarrow> bindings" where
  "load_blob blob =
     (case js_prop blob ''shortcutBindings'' of
        Some saved \<Rightarrow>
          if is_object saved then fold (\<lambda>d. saved_override saved (cmd_id d)) SHORTCUT_DEFINITIONS []
          else legacyFlatOverrides blob
      | None \<Rightarrow> legacyFlatOverrides blob)"

definition loadShortcutOverrides :: "json option option \<Rightarrow> bindings" where
  "loadShortcutOverrides item =
     (case item of Some (Some blob) \<Rightarrow> if blob = JNull then [] else load_blob blob | _ \<Rightarrow> [])"

definition loadShortcutBindings :: "json option option \<Rightarrow> bindings" where
  "loadShortcutBindings item = resolveShortcutBindings (loadShortcutOverrides item)"

definition migrateLegacyShortcutBindings :: "json obj \<Rightarrow> json obj" where
  "migrateLegacyShortcutBindings blob =
     (let overrides = legacyFlatOverrides (JObj blob);
          has = (case obj_get blob ''shortcutBindings'' of Some v \<Rightarrow> is_object v | None \<Rightarrow> False);
          blob1 = (if \<not> has \<and> obj_keys overrides \<noteq> []
                   then obj_set ''shortcutBindings'' (JObj (map (\<lambda>(k, v). (k, JStr v)) overrides)) blob
                   else blob)
      in obj_del_all [''newSession'', ''closeSession'', ''nextTab'', ''previousTab''] blob1)"

definition REMOVED_SETTINGS_KEYS :: "string list" where
  "REMOVED_SETTINGS_KEYS = [''savePasswords'', ''autoLockTimeout'', ''showConnectionManager'',
     ''showSystemMonitor'', ''showStatusBar'', ''enableNotifications'', ''logLevel'', ''maxLogSize'',
     ''telemetry'', ''newSession'', ''closeSession'', ''nextTab'', ''previousTab'', ''fontSize'',
     ''fontFamily'', ''colorScheme'', ''cursorStyle'', ''scrollbackLines'']"

definition stripRemovedSettingsKeys :: "'v obj \<Rightarrow> 'v obj" where
  "stripRemovedSettingsKeys blob = obj_del_all REMOVED_SETTINGS_KEYS blob"

section \<open>Conflicts\<close>

definition canonicalChord :: "string \<Rightarrow> string option" where
  "canonicalChord s =
     map_option (\<lambda>c. js_join ''+'' ((if ctrlKey c \<or> metaKey c then [''primary''] else []) @
         (if shiftKey c then [''shift''] else []) @ (if altKey c then [''alt''] else []) @ [js_lower (key c)]))
       (parseKeyboardShortcut s)"

definition isReservedChord :: "string \<Rightarrow> bool" where
  "isReservedChord s =
     (case parseKeyboardShortcut s of
        None \<Rightarrow> False
      | Some c \<Rightarrow> \<not> shiftKey c \<and> \<not> altKey c \<and> (ctrlKey c \<or> metaKey c) \<and>
          key c \<in> {''1'', ''2'', ''3'', ''4'', ''5'', ''6'', ''7'', ''8'', ''9''})"

definition macOwnedForm :: "string \<Rightarrow> string option" where
  "macOwnedForm s =
     (case parseKeyboardShortcut s of
        None \<Rightarrow> None
      | Some c \<Rightarrow>
          if \<not> ctrlKey c \<and> \<not> metaKey c \<and> \<not> shiftKey c \<and> \<not> altKey c then Some (js_lower (key c))
          else map_option js_lower (toAccelerator (js_join ''+''
            ((if ctrlKey c \<or> metaKey c then [''CmdOrCtrl''] else []) @ (if shiftKey c then [''Shift''] else []) @
             (if altKey c then [''Alt''] else []) @ [key c]))))"

datatype conflict =
    Reserved string string
  | Duplicate string string string
  | MenuOwned string string

definition menu_owned :: "command \<Rightarrow> string \<Rightarrow> bool" where
  "menu_owned d s \<longleftrightarrow>
     (case macOwnedForm s of
        None \<Rightarrow> False
      | Some owned \<Rightarrow> owned \<in> set (map js_lower MACOS_MENU_OWNED_ACCELERATORS) \<and>
          owned \<notin> set (map js_lower MACOS_IN_WINDOW_CHORDS) \<and> Some owned \<noteq> macOwnedForm (default_chord d))"

definition conflict_step ::
  "(string \<Rightarrow> string) \<Rightarrow> bool \<Rightarrow> (string \<times> string) list \<times> conflict list \<Rightarrow> command \<Rightarrow>
   (string \<times> string) list \<times> conflict list" where
  "conflict_step effective isMac st d =
     (let s = effective (cmd_id d) in
      case canonicalChord s of
        None \<Rightarrow> st
      | Some canonical \<Rightarrow>
          (let owner = map_of (fst st) canonical
           in (if owner = None then (canonical, cmd_id d) # fst st else fst st,
               snd st @ (if isReservedChord s then [Reserved (cmd_id d) s] else []) @
                 (case owner of Some other \<Rightarrow> [Duplicate (cmd_id d) s other] | None \<Rightarrow> []) @
                 (if isMac \<and> menu_owned d s then [MenuOwned (cmd_id d) s] else []))))"

definition findConflicts :: "bindings \<Rightarrow> bool \<Rightarrow> conflict list" where
  "findConflicts overrides isMac =
     snd (foldl (conflict_step (resolveShortcutBinding overrides) isMac) ([], []) SHORTCUT_DEFINITIONS)"

section \<open>The shortcuts of the app\<close>

definition configured :: "bindings \<Rightarrow> string \<times> string \<times> string \<Rightarrow> shortcut option" where
  "configured b x =
     (case x of (i, fallback, desc) \<Rightarrow>
        createConfiguredShortcut (case obj_get b i of Some s \<Rightarrow> s | None \<Rightarrow> fallback) fallback i desc)"

definition layout_commands :: "(string \<times> string \<times> string) list" where
  "layout_commands =
     [(''toggleLeftSidebar'', ''Ctrl+B'', ''Toggle Connection Manager (Left Sidebar)''),
      (''toggleBottomPanel'', ''Ctrl+J'', ''Toggle File Browser (Bottom Panel)''),
      (''toggleRightSidebar'', ''Ctrl+M'', ''Toggle Monitor Panel (Right Sidebar)''),
      (''toggleZenMode'', ''Ctrl+Z'', ''Toggle Zen Mode'')]"

definition createLayoutShortcuts :: "bindings \<Rightarrow> shortcut list option" where
  "createLayoutShortcuts b =
     those (map (\<lambda>x. map_option (\<lambda>sc. sc\<lparr>ignoreInTerminal := Some True\<rparr>) (configured b x)) layout_commands)"

definition split_commands :: "(string \<times> string \<times> string) list" where
  "split_commands =
     [(''splitRight'', ''Ctrl+'' @ [CHR 0x5C], ''Split terminal right''),
      (''splitDown'', ''Ctrl+Shift+'' @ [CHR 0x5C], ''Split terminal down'')]"

definition tab_commands :: "(string \<times> string \<times> string) list" where
  "tab_commands =
     [(''closeSession'', ''Ctrl+W'', ''Close active tab''), (''nextTab'', ''Ctrl+Tab'', ''Next tab in group''),
      (''previousTab'', ''Ctrl+Shift+Tab'', ''Previous tab in group''),
      (''moveTabLeft'', ''Ctrl+Shift+PageUp'', ''Move tab left within group''),
      (''moveTabRight'', ''Ctrl+Shift+PageDown'', ''Move tab right within group'')]"

definition focus_group :: "nat \<Rightarrow> shortcut" where
  "focus_group i = \<lparr>sc_key = string_of_nat (i + 1), sc_ctrl = Some True, sc_shift = Some False, sc_alt = None,
     sc_meta = None, ignoreInTerminal = None, globalInBackground = None,
     handler = ''focusGroup '' @ string_of_nat i, description = ''Focus terminal group '' @ string_of_nat (i + 1)\<rparr>"

definition createSplitViewShortcuts :: "bindings \<Rightarrow> shortcut list option" where
  "createSplitViewShortcuts b =
     those (map (configured b) split_commands @ map (\<lambda>i. Some (focus_group i)) [0..<9] @
       map (configured b) tab_commands)"

end
