(* ===== verification/ShortcutProps.thy ===== *)
theory ShortcutProps
  imports Shortcuts
begin

text \<open>
  Lemmas and properties of the keyboard shortcuts: what parsing accepts, when two chords have the same
  accelerator, exactness of the conflict analysis, the migration of saved bindings, and the
  shortcuts the app builds.
\<close>

section \<open>Keys and accelerators\<close>

definition ascii :: "string \<Rightarrow> bool" where
  "ascii s \<longleftrightarrow> (\<forall>c \<in> set s. of_char c < (128::nat))"

lemma of_char_lower_upper:
  assumes "of_char c < (128::nat)"
  shows "map char_lower (char_upper c) = [char_lower c]"
  using assms by (auto simp: char_upper_def char_lower_def Let_def of_char_of)

lemma lower_upper: "ascii s \<Longrightarrow> js_lower (js_upper s) = js_lower s"
  by (induction s) (auto simp: ascii_def js_lower_def js_upper_def of_char_lower_upper)

lemma upper_chars: "ascii s \<Longrightarrow> c \<in> set (js_upper s) \<Longrightarrow> \<not> (97 \<le> (of_char c :: nat) \<and> of_char c \<le> (122::nat))"
  by (induction s) (auto simp: ascii_def js_upper_def char_upper_def Let_def of_char_of split: if_splits)

lemma lower_upper_length: "length (js_lower s) = length s" "ascii s \<Longrightarrow> length (js_upper s) = length s"
  by (simp add: js_lower_def) (induction s, auto simp: ascii_def js_upper_def char_upper_def Let_def)

text \<open>The keys the parser can produce.\<close>

definition parsed_key :: "string \<Rightarrow> bool" where
  "parsed_key k \<longleftrightarrow> (length k = 1 \<and> js_lower k = k \<and> js_trim k = k) \<or> k \<in> set (map snd KEY_ALIASES) \<or>
     (2 \<le> length k \<and> js_trim k = k \<and> map_of KEY_ALIASES (js_lower k) = None)"

lemma dropWhile_snoc: "\<not> P y \<Longrightarrow> dropWhile P (xs @ [y]) = dropWhile P xs @ [y]"
  by (induction xs) auto

lemma trim_trim [simp]: "js_trim (js_trim s) = js_trim s"
proof -
  have "dropWhile P (rev (dropWhile P (rev (dropWhile P xs)))) = rev (dropWhile P (rev (dropWhile P xs)))"
    for P :: "char \<Rightarrow> bool" and xs
  proof (cases "dropWhile P xs")
    case Nil
    show ?thesis unfolding Nil by simp
  next
    case (Cons y ys)
    then have "\<not> P y" by (metis dropWhile_eq_Cons_conv)
    then show ?thesis by (simp add: Cons dropWhile_snoc)
  qed
  then show ?thesis by (simp add: js_trim_def dropWhile_idem)
qed

lemma lower_char [simp]: "char_lower (char_lower c) = char_lower c"
  by (auto simp: char_lower_def Let_def of_char_of)

lemma space_lower [simp]: "is_space (char_lower c) = is_space c"
  by (auto simp: is_space_def char_lower_def Let_def of_char_of)

lemma lower_lower [simp]: "js_lower (js_lower s) = js_lower s"
  by (simp add: js_lower_def)

lemma trim_lower: "js_trim (js_lower s) = js_lower (js_trim s)"
  by (simp add: js_trim_def js_lower_def rev_map dropWhile_map comp_def)

lemma alias_value: "map_of KEY_ALIASES k = Some v \<Longrightarrow> v \<in> set (map snd KEY_ALIASES)"
  by (force dest: map_of_SomeD)

lemma normalize_parsed:
  assumes "js_trim p \<noteq> []" shows "parsed_key (normalizeShortcutKey p)"
proof (cases "length (js_trim p) = 1")
  case True
  then show ?thesis
    by (simp add: normalizeShortcutKey_def parsed_key_def lower_upper_length trim_lower)
next
  case False
  then have "2 \<le> length (js_trim p)" using assms by (cases "js_trim p") (auto simp: Suc_le_eq)
  with False show ?thesis
    by (cases "map_of KEY_ALIASES (js_lower (js_trim p))")
      (simp_all add: normalizeShortcutKey_def parsed_key_def alias_value del: set_map)
qed

lemma plus_lower: "char_lower c = CHR ''+'' \<Longrightarrow> c = CHR ''+''"
proof -
  assume "char_lower c = CHR ''+''"
  then have "of_char (char_lower c) = (43 :: nat)" by simp
  then have "of_char c = (43 :: nat)"
    by (auto simp: char_lower_def Let_def of_char_of split: if_splits)
  then have "of_char c = (of_char (CHR ''+'') :: nat)" by simp
  then show ?thesis by (simp only: of_char_eq_iff)
qed

lemma trim_subset: "set (js_trim s) \<subseteq> set s"
  by (auto simp: js_trim_def dest!: set_dropWhileD)

text \<open>A property of characters that lower case and the named keys keep is kept by the parser.\<close>

definition key_chars :: "(char \<Rightarrow> bool) \<Rightarrow> bool" where
  "key_chars Q \<longleftrightarrow> (\<forall>c. Q c \<longrightarrow> Q (char_lower c)) \<and> (\<forall>v \<in> set (map snd KEY_ALIASES). list_all Q v)"

lemma key_chars_plus: "key_chars (\<lambda>c. c \<noteq> CHR ''+'')"
proof -
  have "\<forall>v \<in> set (map snd KEY_ALIASES). list_all (\<lambda>c. c \<noteq> CHR ''+'') v" by code_simp
  then show ?thesis using plus_lower by (auto simp: key_chars_def simp del: set_map)
qed

lemma key_chars_ascii: "key_chars (\<lambda>c. of_char c < (128::nat))"
proof -
  have "\<forall>v \<in> set (map snd KEY_ALIASES). list_all (\<lambda>c. of_char c < (128::nat)) v" by code_simp
  moreover have "of_char (char_lower c) < (128::nat)" if "of_char c < (128::nat)" for c
    using that by (auto simp: char_lower_def Let_def of_char_of)
  ultimately show ?thesis by (auto simp: key_chars_def simp del: set_map)
qed

lemma normalize_chars:
  assumes Q: "key_chars Q" and s: "list_all Q s" shows "list_all Q (normalizeShortcutKey s)"
proof -
  have t: "list_all Q (js_trim s)" using s trim_subset by (auto simp: list_all_iff)
  then have "list_all Q (js_lower (js_trim s))" using Q by (simp add: key_chars_def js_lower_def list_all_iff)
  with t show ?thesis
    using Q alias_value by (auto simp: normalizeShortcutKey_def Let_def key_chars_def simp del: set_map split: option.split)
qed

lemma parse_key_inv:
  assumes Q: "key_chars Q"
  shows "\<forall>p \<in> set parts. js_trim p \<noteq> [] \<and> list_all Q p \<Longrightarrow>
    key c = [] \<or> parsed_key (key c) \<and> list_all Q (key c) \<Longrightarrow>
    key (foldl parse_part c parts) = [] \<or>
      parsed_key (key (foldl parse_part c parts)) \<and> list_all Q (key (foldl parse_part c parts))"
proof (induction parts arbitrary: c)
  case (Cons p ps)
  have "list_all Q (normalizeShortcutKey p)" using normalize_chars [OF Q] Cons.prems(1) by simp
  moreover have "parsed_key (normalizeShortcutKey p)" using Cons.prems(1) by (simp add: normalize_parsed)
  ultimately have "key (parse_part c p) = [] \<or> parsed_key (key (parse_part c p)) \<and> list_all Q (key (parse_part c p))"
    using Cons.prems(2) by (auto simp: parse_part_def Let_def)
  then show ?case using Cons by simp
qed simp

lemma parse_key_chars:
  assumes Q: "key_chars Q" and s: "parseKeyboardShortcut s = Some c" and w: "\<forall>w \<in> set (js_split (CHR ''+'') s). list_all Q w"
  shows "parsed_key (key c) \<and> list_all Q (key c)"
proof -
  let ?parts = "filter_truthy (map js_trim (js_split (CHR ''+'') s))"
  have "\<forall>p \<in> set ?parts. js_trim p \<noteq> [] \<and> list_all Q p"
  proof
    fix p assume "p \<in> set ?parts"
    then obtain v where v: "v \<in> set (js_split (CHR ''+'') s)" "p = js_trim v" "p \<noteq> []"
      by (auto simp: filter_truthy_def)
    then show "js_trim p \<noteq> [] \<and> list_all Q p" using trim_subset w by (auto simp: list_all_iff)
  qed
  from parse_key_inv [OF Q this, of no_chord] s show ?thesis
    by (auto simp: parseKeyboardShortcut_def Let_def no_chord_def split: if_splits)
qed

lemma parse_key:
  assumes "parseKeyboardShortcut s = Some c" shows "parsed_key (key c)" "CHR ''+'' \<notin> set (key c)"
proof -
  have "\<forall>w \<in> set (js_split (CHR ''+'') s). list_all (\<lambda>c. c \<noteq> CHR ''+'') w"
    using js_split_no_sep by (auto simp: list_all_iff)
  from parse_key_chars [OF key_chars_plus assms this]
  show "parsed_key (key c)" "CHR ''+'' \<notin> set (key c)" by (auto simp: list_all_iff)
qed

lemma split_subset: "w \<in> set (js_split c s) \<Longrightarrow> set w \<subseteq> set s"
proof (induction s arbitrary: w)
  case (Cons x xs)
  obtain v vs where "js_split c xs = v # vs" by (cases "js_split c xs") auto
  with Cons show ?case by (fastforce split: if_splits)
qed simp

lemma parse_key_ascii:
  assumes "parseKeyboardShortcut s = Some c" "ascii s" shows "ascii (key c)"
proof -
  have "\<forall>w \<in> set (js_split (CHR ''+'') s). list_all (\<lambda>c. of_char c < (128::nat)) w"
    using split_subset assms(2) by (fastforce simp: list_all_iff ascii_def)
  from parse_key_chars [OF key_chars_ascii assms(1) this] show ?thesis by (auto simp: list_all_iff ascii_def)
qed

text \<open>What an accelerator key says of the parsed key: a left inverse up to case.\<close>

definition key_of_accelerator :: "string \<Rightarrow> string" where
  "key_of_accelerator x =
     (case map_of (map (\<lambda>(s, n). (n, s)) ACCELERATOR_SYMBOL_KEYS) x of Some s \<Rightarrow> s | None \<Rightarrow> js_lower x)"

lemma symbol_names:
  "\<forall>n \<in> set (map snd ACCELERATOR_SYMBOL_KEYS). 2 \<le> length n \<and>
     (\<exists>c \<in> set n. 97 \<le> (of_char c :: nat) \<and> of_char c \<le> (122 :: nat))"
  by code_simp

lemma not_symbol_name:
  assumes "x \<notin> set (map snd ACCELERATOR_SYMBOL_KEYS)" shows "key_of_accelerator x = js_lower x"
proof -
  have "map_of (map (\<lambda>(s, n). (n, s)) ACCELERATOR_SYMBOL_KEYS) x = None"
    using assms by (force simp: map_of_eq_None_iff)
  then show ?thesis by (simp add: key_of_accelerator_def)
qed

lemma alias_values:
  "\<forall>v \<in> set (map snd KEY_ALIASES). v \<noteq> '' '' \<longrightarrow> map_of KEY_ALIASES (js_lower v) = Some v"
  "\<forall>v \<in> set (map snd KEY_ALIASES). v \<noteq> '' '' \<longrightarrow> v \<notin> set (map snd ACCELERATOR_SYMBOL_KEYS) \<and> length v \<noteq> 1"
  "\<forall>v \<in> set (map snd KEY_ALIASES). v \<noteq> '' '' \<longrightarrow> js_trim v = v"
  by code_simp+

lemma accelerator_of_alias:
  assumes "v \<in> set (map snd KEY_ALIASES)" shows "toAcceleratorKey v = (if v = '' '' then ''Space'' else v)"
proof (cases "v = '' ''")
  case False
  then have "map_of KEY_ALIASES (js_lower v) = Some v" "length v \<noteq> 1" "js_trim v = v"
    using assms alias_values by blast+
  with False show ?thesis by (simp add: toAcceleratorKey_def normalizeShortcutKey_def)
qed (simp add: toAcceleratorKey_def)

lemma space_key: "key_of_accelerator ''Space'' = js_lower '' ''"
  by code_simp

lemma key_of_accelerator:
  assumes k: "parsed_key k" and asc: "ascii k"
  shows "key_of_accelerator (toAcceleratorKey k) = js_lower k"
proof -
  have al: "key_of_accelerator (toAcceleratorKey k) = js_lower k" if "k \<in> set (map snd KEY_ALIASES)" for k
  proof (cases "k = '' ''")
    case False
    then have "k \<notin> set (map snd ACCELERATOR_SYMBOL_KEYS)" using that alias_values(2) by blast
    with False not_symbol_name accelerator_of_alias [OF that] show ?thesis by simp
  qed (use that accelerator_of_alias [OF that] space_key in simp)
  have symbol: "\<forall>k \<in> set (map fst ACCELERATOR_SYMBOL_KEYS). key_of_accelerator (toAcceleratorKey k) = js_lower k"
    by code_simp
  have up: "js_upper k \<notin> set (map snd ACCELERATOR_SYMBOL_KEYS)"
    using symbol_names upper_chars [OF asc] by blast
  then have upper: "key_of_accelerator (js_upper k) = js_lower k"
    using not_symbol_name [OF up] lower_upper [OF asc] by simp
  have space: "k \<noteq> '' ''" if "k \<notin> set (map fst ACCELERATOR_SYMBOL_KEYS)"
    using that by (auto simp: ACCELERATOR_SYMBOL_KEYS_def)
  show ?thesis
  proof (cases "k \<in> set (map fst ACCELERATOR_SYMBOL_KEYS) \<or> k \<in> set (map snd KEY_ALIASES)")
    case True
    then show ?thesis using al symbol by (auto simp del: set_map)
  next
    case False
    then have f: "k \<notin> set (map fst ACCELERATOR_SYMBOL_KEYS)" "k \<notin> set (map snd KEY_ALIASES)" by simp_all
    have none: "map_of ACCELERATOR_SYMBOL_KEYS k = None" using f(1) by (simp add: map_of_eq_None_iff)
    have "toAcceleratorKey k = js_upper k"
    proof (cases "length k = 1")
      case True
      then have "js_lower k = k" "js_trim k = k" using k f(2) unfolding parsed_key_def by (simp_all del: set_map)
      with True none space [OF f(1)] show ?thesis by (simp add: toAcceleratorKey_def normalizeShortcutKey_def)
    next
      case False
      then have "js_trim k = k" "map_of KEY_ALIASES (js_lower k) = None"
        using k f(2) unfolding parsed_key_def by (simp_all del: set_map)
      with False space [OF f(1)] show ?thesis by (simp add: toAcceleratorKey_def normalizeShortcutKey_def)
    qed
    with upper show ?thesis by simp
  qed
qed

lemma symbol_value: "map_of ACCELERATOR_SYMBOL_KEYS k = Some v \<Longrightarrow> v \<in> set (map snd ACCELERATOR_SYMBOL_KEYS)"
  by (force dest: map_of_SomeD)

lemma plus_free_accelerator:
  assumes "CHR ''+'' \<notin> set k" "ascii k" shows "CHR ''+'' \<notin> set (toAcceleratorKey k)"
proof -
  have "\<forall>n \<in> set (map snd ACCELERATOR_SYMBOL_KEYS). CHR ''+'' \<notin> set n"
    "\<forall>n \<in> set (map snd KEY_ALIASES). CHR ''+'' \<notin> set n" by code_simp+
  moreover have up: "CHR ''+'' \<notin> set (js_upper s)" if "CHR ''+'' \<notin> set s" for s
  proof -
    have "c = CHR ''+''" if "CHR ''+'' \<in> set (char_upper c)" for c
    proof -
      have "\<exists>d \<in> set (char_upper c). of_char d = (43 :: nat)" using that by (rule bexI [rotated]) simp
      then have "of_char c = (43 :: nat)"
        by (auto simp: char_upper_def Let_def of_char_of split: if_splits)
      then have "of_char c = (of_char (CHR ''+'') :: nat)" by simp
      then show ?thesis by (simp only: of_char_eq_iff)
    qed
    with that show ?thesis by (auto simp: js_upper_def)
  qed
  moreover have "CHR ''+'' \<notin> set (normalizeShortcutKey k)"
    using normalize_chars [OF key_chars_plus, of k] assms(1) by (auto simp: list_all_iff)
  ultimately show ?thesis
    using symbol_value alias_value
    by (auto simp: toAcceleratorKey_def Let_def simp del: set_map split: option.split)
qed

lemma modifiers_inj: "modifier_names c = modifier_names d \<Longrightarrow>
  ctrlKey c = ctrlKey d \<and> shiftKey c = shiftKey d \<and> altKey c = altKey d \<and> metaKey c = metaKey d"
  by (auto simp: modifier_names_def split: if_splits)

text \<open>An accelerator determines its parts.\<close>

lemma accelerator_parts:
  assumes k: "CHR ''+'' \<notin> set (key c)" "ascii (key c)" "CHR ''+'' \<notin> set (key d)" "ascii (key d)"
    and a: "toAcceleratorFromParsed c = Some x" "toAcceleratorFromParsed d = Some x"
  shows "modifier_names c = modifier_names d" "toAcceleratorKey (key c) = toAcceleratorKey (key d)"
proof -
  have parts: "js_split (CHR ''+'') (js_join ''+'' (modifier_names u @ [toAcceleratorKey (key u)])) =
      modifier_names u @ [toAcceleratorKey (key u)]"
    if "CHR ''+'' \<notin> set (key u)" "ascii (key u)" for u :: chord
  proof -
    have "\<forall>m \<in> set (modifier_names u). CHR ''+'' \<notin> set m" by (auto simp: modifier_names_def)
    then show ?thesis using plus_free_accelerator [OF that] by (intro js_split_join) auto
  qed
  have "js_join ''+'' (modifier_names c @ [toAcceleratorKey (key c)]) =
      js_join ''+'' (modifier_names d @ [toAcceleratorKey (key d)])"
    using a by (auto simp: toAcceleratorFromParsed_def split: if_splits)
  then have "modifier_names c @ [toAcceleratorKey (key c)] = modifier_names d @ [toAcceleratorKey (key d)]"
    using parts [OF k(1,2)] parts [OF k(3,4)] by metis
  then show "modifier_names c = modifier_names d" "toAcceleratorKey (key c) = toAcceleratorKey (key d)" by auto
qed

lemma same_accelerator:
  assumes c: "parseKeyboardShortcut s = Some c" "ascii (key c)" and d: "parseKeyboardShortcut t = Some d" "ascii (key d)"
    and a: "toAccelerator s = Some x" "toAccelerator t = Some x"
  shows "canonicalChord s = canonicalChord t"
proof -
  have "toAcceleratorFromParsed c = Some x" "toAcceleratorFromParsed d = Some x"
    using a c d by (auto simp: toAccelerator_def)
  note parts = accelerator_parts [OF parse_key(2) [OF c(1)] c(2) parse_key(2) [OF d(1)] d(2) this]
  from parts(2) have "js_lower (key c) = js_lower (key d)"
    using key_of_accelerator [OF parse_key(1) [OF c(1)] c(2)] key_of_accelerator [OF parse_key(1) [OF d(1)] d(2)]
    by metis
  with modifiers_inj [OF parts(1)] c(1) d(1) show ?thesis by (simp add: canonicalChord_def)
qed

section \<open>The conflict analysis\<close>

definition canonicals :: "bindings \<Rightarrow> command list \<Rightarrow> string list" where
  "canonicals overrides ds = List.map_filter (\<lambda>d. canonicalChord (resolveShortcutBinding overrides (cmd_id d))) ds"

definition is_duplicate :: "conflict \<Rightarrow> bool" where
  "is_duplicate x = (case x of Duplicate _ _ _ \<Rightarrow> True | _ \<Rightarrow> False)"

lemma conflict_fold:
  "(\<exists>x \<in> set (snd (foldl (conflict_step (resolveShortcutBinding ov) isMac) st ds)). is_duplicate x) \<longleftrightarrow>
     (\<exists>x \<in> set (snd st). is_duplicate x) \<or>
     (\<exists>c \<in> set (canonicals ov ds). map_of (fst st) c \<noteq> None) \<or> \<not> distinct (canonicals ov ds)"
proof (induction ds arbitrary: st)
  case Nil
  then show ?case by (simp add: canonicals_def)
next
  case (Cons d ds)
  let ?s = "resolveShortcutBinding ov (cmd_id d)" and ?f = "foldl (conflict_step (resolveShortcutBinding ov) isMac)"
  show ?case
  proof (cases "canonicalChord ?s")
    case None
    then have "canonicals ov (d # ds) = canonicals ov ds" by (simp add: canonicals_def)
    moreover have "?f st (d # ds) = ?f st ds" by (simp add: conflict_step_def None Let_def)
    ultimately show ?thesis using Cons by simp
  next
    case (Some c)
    obtain own cs where st: "st = (own, cs)" by (cases st)
    have e: "canonicals ov (d # ds) = c # canonicals ov ds" by (simp add: canonicals_def Some)
    show ?thesis
    proof (cases "map_of own c")
      case None
      have "fst (conflict_step (resolveShortcutBinding ov) isMac st d) = (c, cmd_id d) # own"
        "\<forall>x. is_duplicate x \<longrightarrow> x \<in> set (snd (conflict_step (resolveShortcutBinding ov) isMac st d)) \<longleftrightarrow> x \<in> set cs"
        by (auto simp: conflict_step_def Let_def Some st None is_duplicate_def)
      then show ?thesis using Cons [of "conflict_step (resolveShortcutBinding ov) isMac st d"]
        unfolding foldl_Cons e by (auto simp: st None)
    next
      case o: (Some i)
      have "Duplicate (cmd_id d) ?s i \<in> set (snd (conflict_step (resolveShortcutBinding ov) isMac st d))"
        by (simp add: conflict_step_def Let_def Some st o)
      then have "\<exists>x \<in> set (snd (conflict_step (resolveShortcutBinding ov) isMac st d)). is_duplicate x"
        by (rule bexI [rotated]) (simp add: is_duplicate_def)
      then show ?thesis using Cons [of "conflict_step (resolveShortcutBinding ov) isMac st d"]
        unfolding foldl_Cons e by (auto simp: st o)
    qed
  qed
qed

lemma duplicates_exact:
  "(\<exists>x \<in> set (findConflicts ov isMac). is_duplicate x) \<longleftrightarrow> \<not> distinct (canonicals ov SHORTCUT_DEFINITIONS)"
  unfolding findConflicts_def conflict_fold by simp

lemma map_filter_mem: "x \<in> set xs \<Longrightarrow> f x = Some y \<Longrightarrow> y \<in> set (List.map_filter f xs)"
  by (induction xs) (auto split: option.splits)

lemma map_filter_distinct:
  "distinct (List.map_filter f xs) \<Longrightarrow> a \<in> set xs \<Longrightarrow> b \<in> set xs \<Longrightarrow> f a = Some y \<Longrightarrow> f b = Some y \<Longrightarrow>
     distinct xs \<Longrightarrow> a = b"
  by (induction xs) (auto dest: map_filter_mem split: option.splits)

text \<open>
  A conflict-free set of bindings shadows no command: when the analysis reports no duplicate, two
  commands never resolve to the same OS accelerator, of which only the first would be registered
  (for bindings written in ASCII).
\<close>

theorem no_shadowed_command:
  assumes free: "\<forall>x \<in> set (findConflicts ov isMac). \<not> is_duplicate x"
    and ab: "a \<in> set SHORTCUT_DEFINITIONS" "b \<in> set SHORTCUT_DEFINITIONS" "cmd_id a \<noteq> cmd_id b"
    and asc: "ascii (resolveShortcutBinding ov (cmd_id a))" "ascii (resolveShortcutBinding ov (cmd_id b))"
    and acc: "toAccelerator (resolveShortcutBinding ov (cmd_id a)) = Some x"
  shows "toAccelerator (resolveShortcutBinding ov (cmd_id b)) \<noteq> Some x"
proof
  let ?s = "resolveShortcutBinding ov (cmd_id a)" and ?t = "resolveShortcutBinding ov (cmd_id b)"
  assume acc2: "toAccelerator ?t = Some x"
  obtain c where c: "parseKeyboardShortcut ?s = Some c" using acc by (auto simp: toAccelerator_def split: option.splits)
  obtain d where d: "parseKeyboardShortcut ?t = Some d" using acc2 by (auto simp: toAccelerator_def split: option.splits)
  have "canonicalChord ?s = canonicalChord ?t"
    by (rule same_accelerator [OF c parse_key_ascii [OF c asc(1)] d parse_key_ascii [OF d asc(2)] acc acc2])
  moreover obtain y where "canonicalChord ?s = Some y" using c by (simp add: canonicalChord_def)
  moreover have "distinct SHORTCUT_DEFINITIONS" by code_simp
  moreover have "distinct (canonicals ov SHORTCUT_DEFINITIONS)" using free duplicates_exact by blast
  ultimately have "a = b" using map_filter_distinct ab unfolding canonicals_def by fastforce
  with ab(3) show False by simp
qed

lemma no_shadowed_command_witness:
  "toAccelerator (resolveShortcutBinding [(''newSession'', ''Cmd+N'')] ''closeSession'') \<noteq> Some ''Command+N''"
proof -
  let ?ov = "[(''newSession'', ''Cmd+N'')]"
  have "SHORTCUT_DEFINITIONS ! 0 \<in> set SHORTCUT_DEFINITIONS" "SHORTCUT_DEFINITIONS ! 1 \<in> set SHORTCUT_DEFINITIONS"
    by (rule nth_mem, simp add: SHORTCUT_DEFINITIONS_def)+
  moreover have "cmd_id (SHORTCUT_DEFINITIONS ! 0) = ''newSession''" "cmd_id (SHORTCUT_DEFINITIONS ! 1) = ''closeSession''"
    by (simp_all add: SHORTCUT_DEFINITIONS_def)
  moreover have "findConflicts ?ov False = []" by code_simp
  moreover have "ascii (resolveShortcutBinding ?ov ''newSession'')" "ascii (resolveShortcutBinding ?ov ''closeSession'')"
    by code_simp+
  moreover have "toAccelerator (resolveShortcutBinding ?ov ''newSession'') = Some ''Command+N''" by code_simp
  ultimately show ?thesis
    using no_shadowed_command [of ?ov False "SHORTCUT_DEFINITIONS ! 0" "SHORTCUT_DEFINITIONS ! 1" "''Command+N''"] by simp
qed

text \<open>
  (C32) The analysis reports duplicates exactly: there is a duplicate among its conflicts if and only if two
  commands' chords have the same canonical form; the default bindings have no conflict of any kind, on
  either platform.
\<close>

theorem conflicts_are_exact:
  "((\<exists>x \<in> set (findConflicts ov isMac). is_duplicate x) = (\<not> distinct (canonicals ov SHORTCUT_DEFINITIONS))) \<and>
    findConflicts [] mac = []"
proof -
  have "findConflicts [] False = []" "findConflicts [] True = []" by code_simp+
  then show ?thesis using duplicates_exact by (cases mac) simp_all
qed

text \<open>
  A key written by name escapes the analysis: with a new session on \<open>Ctrl+Comma\<close> it reports nothing, though the
  accelerator is, up to case, the one of \<open>Ctrl+,\<close> that opens the settings, and the plugin's parser
  ignores case.
\<close>

theorem named_key_conflict_missed:
  "findConflicts [(''newSession'', ''Ctrl+Comma'')] False = [] \<and>
   map_option js_lower (toAccelerator (resolveShortcutBinding [(''newSession'', ''Ctrl+Comma'')] ''newSession'')) =
   map_option js_lower (toAccelerator (resolveShortcutBinding [(''newSession'', ''Ctrl+Comma'')] ''openSettings''))"
  by code_simp

section \<open>Migrating the saved bindings\<close>

lemma resolve_saved_parses:
  "resolveSavedShortcut v d legacy \<noteq> d \<Longrightarrow> parseKeyboardShortcut (resolveSavedShortcut v d legacy) \<noteq> None"
  by (auto simp: resolveSavedShortcut_def split: option.splits json.splits if_splits)

lemma legacy_get:
  "obj_get (legacy_override blob i legacy ov) k =
    (if k = i \<and> resolveSavedShortcut (js_prop blob i) (default_of i) legacy \<noteq> default_of i
     then Some (resolveSavedShortcut (js_prop blob i) (default_of i) legacy) else obj_get ov k)"
  by (auto simp: legacy_override_def Let_def)

definition flat_keys :: "string list" where
  "flat_keys = [''closeSession'', ''nextTab'', ''previousTab'', ''newSession'']"

definition flat_value :: "json \<Rightarrow> string \<Rightarrow> string" where
  "flat_value blob i = resolveSavedShortcut (js_prop blob i) (default_of i)
     (if i = ''closeSession'' then LEGACY_CLOSE_TAB_SHORTCUTS else [])"

lemma legacy_flat_get:
  "obj_get (legacyFlatOverrides blob) k =
    (if k \<in> set flat_keys \<and> flat_value blob k \<noteq> default_of k then Some (flat_value blob k) else None)"
  by (auto simp: legacyFlatOverrides_def legacy_get flat_keys_def flat_value_def)

lemma legacy_flat_resolves:
  "resolveShortcutBinding (legacyFlatOverrides blob) k =
    (if k \<in> set flat_keys then flat_value blob k else default_of k)"
  by (simp add: resolveShortcutBinding_def legacy_flat_get)

lemma saved_fold_get:
  "obj_get (fold (\<lambda>d. saved_override saved (cmd_id d)) ds ov) k =
    (if k \<in> cmd_id ` set ds then
       (case js_prop saved k of
          Some (JStr v) \<Rightarrow> if parseKeyboardShortcut v \<noteq> None then Some (js_trim v) else obj_get ov k
        | _ \<Rightarrow> obj_get ov k)
     else obj_get ov k)"
  by (induction ds arbitrary: ov)
    (auto simp: saved_override_def split: option.split json.split)

lemma flat_ids: "set flat_keys \<subseteq> cmd_id ` set SHORTCUT_DEFINITIONS"
  by code_simp

lemma trim_defaults: "\<forall>d \<in> set SHORTCUT_DEFINITIONS. js_trim (default_of (cmd_id d)) = default_of (cmd_id d)"
  by code_simp

lemma json_strings_get: "js_prop (JObj (map (\<lambda>(k, v). (k, JStr v)) o1)) k = map_option JStr (obj_get o1 k)"
  by (induction o1) (auto simp: obj_get_def)

text \<open>
  (C33) Migrating old settings keeps every binding: of any settings object, the bindings read after the flat keys
  have been folded away are those read before, up to the white space around them.
\<close>

theorem migration_keeps_bindings:
  assumes d: "d \<in> set SHORTCUT_DEFINITIONS"
  shows "js_trim (resolveShortcutBinding (load_blob (JObj (migrateLegacyShortcutBindings blob))) (cmd_id d)) =
      js_trim (resolveShortcutBinding (load_blob (JObj blob)) (cmd_id d))"
proof -
  let ?f = "legacyFlatOverrides (JObj blob)" and ?after = "migrateLegacyShortcutBindings blob"
  let ?has = "case obj_get blob ''shortcutBindings'' of Some v \<Rightarrow> is_object v | None \<Rightarrow> False"
  have sb: "''shortcutBindings'' \<notin> {''newSession'', ''closeSession'', ''nextTab'', ''previousTab''}" by simp
  show ?thesis
  proof (cases ?has)
    case True
    then obtain v where v: "obj_get blob ''shortcutBindings'' = Some v" "is_object v"
      by (auto split: option.splits)
    then have "obj_get ?after ''shortcutBindings'' = Some v"
      by (simp add: migrateLegacyShortcutBindings_def Let_def)
    with v show ?thesis by (simp add: load_blob_def)
  next
    case False
    then have before: "load_blob (JObj blob) = ?f" by (auto simp: load_blob_def split: option.splits)
    show ?thesis
    proof (cases "obj_keys ?f = []")
      case True
      have none: "obj_get ?f k = None" for k using rec.set_keys [of ?f] True by auto
      have "flat_value (JObj ?after) k = default_of k" if "k \<in> set flat_keys" for k
        using that False True
        by (auto simp: flat_value_def flat_keys_def migrateLegacyShortcutBindings_def Let_def resolveSavedShortcut_def)
      then have "resolveShortcutBinding (legacyFlatOverrides (JObj ?after)) k = default_of k" for k
        by (simp add: legacy_flat_resolves)
      moreover have "resolveShortcutBinding ?f k = default_of k" for k
        by (simp add: resolveShortcutBinding_def none)
      moreover have "load_blob (JObj ?after) = legacyFlatOverrides (JObj ?after)"
        using False True by (auto simp: load_blob_def migrateLegacyShortcutBindings_def Let_def split: option.splits)
      ultimately show ?thesis by (simp add: before)
    next
      case nonempty: False
      let ?saved = "JObj (map (\<lambda>(k, v). (k, JStr v)) ?f)"
      have "obj_get ?after ''shortcutBindings'' = Some ?saved"
        using False nonempty by (simp add: migrateLegacyShortcutBindings_def Let_def)
      then have "load_blob (JObj ?after) = fold (\<lambda>d. saved_override ?saved (cmd_id d)) SHORTCUT_DEFINITIONS []"
        by (simp add: load_blob_def)
      moreover have "v = flat_value (JObj blob) k \<and> parseKeyboardShortcut v \<noteq> None" if "obj_get ?f k = Some v" for k v
        using that resolve_saved_parses by (auto simp: legacy_flat_get flat_value_def split: if_splits)
      moreover have "cmd_id d \<in> cmd_id ` set SHORTCUT_DEFINITIONS" using d by simp
      ultimately show ?thesis
        unfolding before resolveShortcutBinding_def
        by (cases "obj_get ?f (cmd_id d)") (simp_all add: saved_fold_get json_strings_get del: js_prop.simps)
    qed
  qed
qed

lemma migration_keeps_bindings_witness:
  "js_trim (resolveShortcutBinding (load_blob (JObj (migrateLegacyShortcutBindings
      [(''nextTab'', JStr '' Ctrl+J '')]))) ''nextTab'') =
    js_trim (resolveShortcutBinding (load_blob (JObj [(''nextTab'', JStr '' Ctrl+J '')])) ''nextTab'')"
proof -
  have "SHORTCUT_DEFINITIONS ! 2 \<in> set SHORTCUT_DEFINITIONS" by (rule nth_mem) (simp add: SHORTCUT_DEFINITIONS_def)
  moreover have "cmd_id (SHORTCUT_DEFINITIONS ! 2) = ''nextTab''" by (simp add: SHORTCUT_DEFINITIONS_def)
  ultimately show ?thesis using migration_keeps_bindings [of "SHORTCUT_DEFINITIONS ! 2"] by simp
qed

section \<open>Building the shortcuts\<close>

lemma those_total: "(\<forall>x \<in> set xs. x \<noteq> None) \<Longrightarrow> those xs \<noteq> None"
  by (induction xs) (auto split: option.splits)

lemma configured_total:
  "parseKeyboardShortcut (fst (snd x)) \<noteq> None \<Longrightarrow> configured b x \<noteq> None"
  by (auto simp: configured_def createConfiguredShortcut_def split: option.splits prod.splits)

lemma fallbacks_parse:
  "\<forall>x \<in> set (layout_commands @ split_commands @ tab_commands). parseKeyboardShortcut (fst (snd x)) \<noteq> None"
  by code_simp

text \<open>
  Building the shortcuts never throws: whatever the bindings hold, every fallback parses, and each command
  has a shortcut.
\<close>

theorem shortcuts_total:
  "createLayoutShortcuts b \<noteq> None \<and> createSplitViewShortcuts b \<noteq> None"
proof -
  have c: "\<forall>x \<in> set (layout_commands @ split_commands @ tab_commands). configured b x \<noteq> None"
    using fallbacks_parse configured_total by blast
  then have c': "\<forall>x \<in> set layout_commands. configured b x \<noteq> None"
    "\<forall>x \<in> set split_commands. configured b x \<noteq> None" "\<forall>x \<in> set tab_commands. configured b x \<noteq> None"
    unfolding set_append ball_Un by blast+
  have "createLayoutShortcuts b \<noteq> None"
    unfolding createLayoutShortcuts_def by (rule those_total) (use c' in \<open>simp only: set_map ball_simps option.map_disc_iff\<close>)
  moreover have "\<forall>y \<in> set (map (configured b) split_commands @ map (\<lambda>i. Some (focus_group i)) ns @
      map (configured b) tab_commands). y \<noteq> None" for ns
    using c' by (simp only: set_append set_map ball_Un ball_simps option.distinct) simp
  then have "createSplitViewShortcuts b \<noteq> None" unfolding createSplitViewShortcuts_def by (rule those_total)
  ultimately show ?thesis by (rule conjI)
qed

section \<open>The browser fallback\<close>

text \<open>A configured shortcut has every flag; off macOS it then matches exactly its own chord.\<close>

lemma configured_match:
  assumes "createConfiguredShortcut s fb h desc = Some sc"
  shows "dom_match False ev sc \<longleftrightarrow> same_key ev sc \<and> (ev_ctrl ev, ev_shift ev, ev_alt ev, ev_meta ev) =
    (ctrlKey (chord_of sc), shiftKey (chord_of sc), altKey (chord_of sc), metaKey (chord_of sc))"
proof -
  have f: "\<exists>c :: chord. sc_ctrl sc = Some (ctrlKey c) \<and> sc_shift sc = Some (shiftKey c) \<and> sc_alt sc = Some (altKey c) \<and>
      sc_meta sc = Some (metaKey c)"
    using assms by (auto simp: createConfiguredShortcut_def split: option.splits)
  then obtain c :: chord where c: "sc_ctrl sc = Some (ctrlKey c)" "sc_shift sc = Some (shiftKey c)"
      "sc_alt sc = Some (altKey c)" "sc_meta sc = Some (metaKey c)" by blast
  show ?thesis
    by (cases "metaKey c"; cases "ctrlKey c")
      (auto simp: dom_match_def Let_def flag_matches_def chord_of_def or_false_def c)
qed

text \<open>
  The fallback is not the registration: for the fixed shortcuts \<open>Ctrl+1\<close> to \<open>Ctrl+9\<close>, which leave Alt and Meta
  open, the key listener of the browser mode also fires with Alt held down, whose accelerator the app
  never registers.
\<close>

theorem fallback_ignores_alt:
  assumes "i < 9"
  shows "handleKeyDown False False False \<lparr>ev_key = string_of_nat (i + 1), ev_ctrl = True, ev_shift = False,
      ev_alt = True, ev_meta = False\<rparr> [focus_group i] = Some (''focusGroup '' @ string_of_nat i) \<and>
    acceleratorForShortcut (focus_group i) \<noteq>
      toAcceleratorFromParsed \<lparr>key = string_of_nat (i + 1), ctrlKey = True, shiftKey = False, altKey = True, metaKey = False\<rparr>"
proof -
  have "handleKeyDown False False False \<lparr>ev_key = string_of_nat (i + 1), ev_ctrl = True, ev_shift = False,
      ev_alt = True, ev_meta = False\<rparr> [focus_group i] = Some (''focusGroup '' @ string_of_nat i)"
    by (simp add: handleKeyDown_def dom_match_def Let_def flag_matches_def focus_group_def same_key_def or_false_def)
  then show ?thesis
    by (simp add: acceleratorForShortcut_def toAcceleratorFromParsed_def modifier_names_def chord_of_def
        focus_group_def or_false_def)
qed

lemma fallback_ignores_alt_witness:
  "handleKeyDown False False False \<lparr>ev_key = ''1'', ev_ctrl = True, ev_shift = False, ev_alt = True,
     ev_meta = False\<rparr> [focus_group 0] = Some ''focusGroup 0''"
proof -
  have "string_of_nat 0 = ''0''" "string_of_nat (0 + 1) = ''1''" by (simp_all add: string_of_nat.simps char_of_def bit_0)
  then show ?thesis using fallback_ignores_alt [of 0] by simp
qed

end
