(* ===== verification/ConfigBundle.thy ===== *)
theory ConfigBundle
  imports Profiles SettingsProps ConnectionProps ShortcutProps FolderTree
begin

text \<open>
  Moving the configuration to another machine: \<open>exportAllConfig\<close> and \<open>importAllConfig\<close> of
  \<open>src/src/lib/config-export-import.ts\<close>, over the stores they read and write. A bundle is what its file parses to:
  the connections as \<open>importConnections\<close> takes them (\<open>Some None\<close>: a value it refuses), the other categories as
  values. Dates and the version of the application, which nothing reads, are left out. \<open>can_write k\<close> says whether a
  write to the key \<open>k\<close> fits the quota.
\<close>

record config_data =
  data_connections :: "conn_bundle option option"
  data_profiles :: "json option"
  data_terminal :: "json option"
  data_editor :: "json option"
  data_settings :: "json obj option"
  data_language :: "string option"

record config_bundle =
  version :: "json option"
  data :: "config_data option"

record config_state =
  c_store :: store
  c_profiles :: "profile stored"
  c_terminal :: item
  c_editor :: item
  c_settings :: "json obj option option"
  c_language :: "string option"

definition no_secrets :: "connection \<Rightarrow> connection" where
  "no_secrets c = c\<lparr>secrets := fold obj_del SECRET_FIELDS (secrets c)\<rparr>"

definition build_bundle :: "(json \<Rightarrow> rat option) \<Rightarrow> config_state \<Rightarrow> config_bundle \<times> config_state" where
  "build_bundle number_of s =
     (case getConnections (c_store s) of
        (cs, st1) \<Rightarrow> case getFolders st1 of
          (fs, st2) \<Rightarrow>
            (\<lparr>version = Some (JNum 1),
              data = Some \<lparr>
                data_connections = (if cs \<noteq> [] \<or> fs \<noteq> []
                  then Some (Some \<lparr>bundle_connections = map no_secrets cs, bundle_folders = Some fs\<rparr>) else None),
                data_profiles = (if getProfiles (c_profiles s) \<noteq> []
                  then Some (JArr (map (\<lambda>p. JObj (without_secrets (obj_entries p))) (getProfiles (c_profiles s)))) else None),
                data_terminal = Some (JObj (loadAppearanceSettings number_of (c_terminal s))),
                data_editor = Some (JObj (loadEditorConfig (c_editor s))),
                data_settings = (case c_settings s of Some v \<Rightarrow> v | None \<Rightarrow> None),
                data_language = or_null (c_language s)\<rparr>\<rparr>,
             s\<lparr>c_store := st2\<rparr>))"

datatype export_result = ExportCancelled | ExportFailed | Exported config_bundle

text \<open>\<open>picked\<close>: a file was chosen; \<open>written\<close>: it could be written.\<close>

definition exportAllConfig ::
  "(json \<Rightarrow> rat option) \<Rightarrow> bool \<Rightarrow> bool \<Rightarrow> config_state \<Rightarrow> export_result \<times> config_state" where
  "exportAllConfig number_of picked written s =
     (case build_bundle number_of s of
        (b, s1) \<Rightarrow> (if \<not> picked then ExportCancelled else if written then Exported b else ExportFailed, s1))"

record import_result =
  r_connections :: nat
  r_profiles :: nat
  r_terminal :: bool
  r_editor :: bool
  r_settings :: bool
  r_language :: bool

datatype import_outcome = ImportCancelled | ImportFailed | Imported import_result

text \<open>Each category, given the result so far; \<open>None\<close> when the call throws.\<close>

definition import_connections ::
  "(nat \<Rightarrow> string) \<Rightarrow> string \<Rightarrow> bool \<Rightarrow> config_data \<Rightarrow> config_state \<Rightarrow> nat option \<times> config_state" where
  "import_connections uuid now merge d s =
     (case data_connections d of
        None \<Rightarrow> (Some 0, s)
      | Some b \<Rightarrow> (case importConnections uuid now b merge (c_store s) of (n, st) \<Rightarrow> (n, s\<lparr>c_store := st\<rparr>)))"

definition import_profiles ::
  "(nat \<Rightarrow> string) \<Rightarrow> string \<Rightarrow> (string \<Rightarrow> bool) \<Rightarrow> bool \<Rightarrow> config_data \<Rightarrow> config_state \<Rightarrow> nat option \<times> config_state" where
  "import_profiles uuid now can_write merge d s =
     (case data_profiles d of
        Some (JArr vs) \<Rightarrow>
          (case importProfiles uuid now now (can_write ''r-shell-connection-profiles'') (Some (JArr vs)) merge (c_profiles s) of
             (n, ps) \<Rightarrow> (n, s\<lparr>c_profiles := ps\<rparr>))
      | _ \<Rightarrow> (Some 0, s))"

definition import_terminal :: "(json \<Rightarrow> rat option) \<Rightarrow> (string \<Rightarrow> bool) \<Rightarrow> config_data \<Rightarrow> config_state \<Rightarrow> bool \<times> config_state" where
  "import_terminal number_of can_write d s =
     (if js_truthy (data_terminal d)
      then (True, s\<lparr>c_terminal := saveAppearanceSettings number_of (can_write ''terminalAppearance'')
                     (entries (the (data_terminal d))) (c_terminal s)\<rparr>)
      else (False, s))"

definition import_editor :: "(string \<Rightarrow> bool) \<Rightarrow> config_data \<Rightarrow> config_state \<Rightarrow> bool option \<times> config_state" where
  "import_editor can_write d s =
     (if js_truthy (data_editor d)
      then (case saveEditorConfig (can_write ''rshell-editor-config'') (the (data_editor d)) of
              Some it \<Rightarrow> (Some True, s\<lparr>c_editor := it\<rparr>) | None \<Rightarrow> (None, s))
      else (Some False, s))"

definition import_settings :: "(string \<Rightarrow> bool) \<Rightarrow> config_data \<Rightarrow> config_state \<Rightarrow> bool option \<times> config_state" where
  "import_settings can_write d s =
     (case data_settings d of
        None \<Rightarrow> (Some False, s)
      | Some blob \<Rightarrow>
          if can_write ''sshClientSettings''
          then (Some True, s\<lparr>c_settings := Some (Some (stripRemovedSettingsKeys (migrateLegacyShortcutBindings blob)))\<rparr>)
          else (None, s))"

definition import_language :: "(string \<Rightarrow> bool) \<Rightarrow> config_data \<Rightarrow> config_state \<Rightarrow> bool option \<times> config_state" where
  "import_language can_write d s =
     (case or_null (data_language d) of
        None \<Rightarrow> (Some False, s)
      | Some l \<Rightarrow> if can_write ''r-shell-language'' then (Some True, s\<lparr>c_language := Some l\<rparr>) else (None, s))"

text \<open>\<open>file\<close>: \<open>None\<close> when the dialog was cancelled, \<open>Some None\<close> when the file cannot be read as an object.\<close>

definition importAllConfig ::
  "(json \<Rightarrow> rat option) \<Rightarrow> (nat \<Rightarrow> string) \<Rightarrow> (nat \<Rightarrow> string) \<Rightarrow> string \<Rightarrow> (string \<Rightarrow> bool) \<Rightarrow> config_bundle option option \<Rightarrow>
   bool \<Rightarrow> config_state \<Rightarrow> import_outcome \<times> config_state" where
  "importAllConfig number_of uuid uuid' now can_write file merge s =
     (case file of
        None \<Rightarrow> (ImportCancelled, s)
      | Some None \<Rightarrow> (ImportFailed, s)
      | Some (Some b) \<Rightarrow>
          (case data b of
             None \<Rightarrow> (ImportFailed, s)
           | Some d \<Rightarrow>
               if \<not> is_number (version b) then (ImportFailed, s)
               else
                 (case import_connections uuid now merge d s of
                    (None, s1) \<Rightarrow> (ImportFailed, s1)
                  | (Some nc, s1) \<Rightarrow>
                 (case import_profiles uuid' now can_write merge d s1 of
                    (None, s2) \<Rightarrow> (ImportFailed, s2)
                  | (Some np, s2) \<Rightarrow>
                 (case import_terminal number_of can_write d s2 of
                    (t, s3) \<Rightarrow>
                 (case import_editor can_write d s3 of
                    (None, s4) \<Rightarrow> (ImportFailed, s4)
                  | (Some e, s4) \<Rightarrow>
                 (case import_settings can_write d s4 of
                    (None, s5) \<Rightarrow> (ImportFailed, s5)
                  | (Some a, s5) \<Rightarrow>
                 (case import_language can_write d s5 of
                    (None, s6) \<Rightarrow> (ImportFailed, s6)
                  | (Some l, s6) \<Rightarrow>
                      (Imported \<lparr>r_connections = nc, r_profiles = np, r_terminal = t, r_editor = e, r_settings = a,
                         r_language = l\<rparr>, s6)))))))))"

section \<open>Connections on the way\<close>

definition secret_names :: "string list" where
  "secret_names = [''password'', ''passphrase'', ''proxyPassword'', ''vncPassword'', ''tunnelPassword'', ''tunnelPassphrase'']"

definition anon_conn :: "connection \<Rightarrow> connection" where
  "anon_conn c = c\<lparr>conn_id := [], createdAt := [], secrets := []\<rparr>"

definition anon_folder :: "folder \<Rightarrow> folder" where
  "anon_folder f = f\<lparr>folder_id := [], folder_createdAt := []\<rparr>"

lemma import_conns_anon: "map anon_conn (import_conns uuid now n cs) = map anon_conn cs"
  by (induction cs arbitrary: n) (simp_all add: anon_conn_def)

lemma anon_strip [simp]: "anon_conn (stripUnencryptedSecrets failed c) = anon_conn c"
  by (simp add: anon_conn_def stripUnencryptedSecrets_def)

lemma anon_no_secrets [simp]: "anon_conn (no_secrets c) = anon_conn c"
  by (simp add: anon_conn_def no_secrets_def)

lemma import_folders_anon:
  "distinct (map folder_path (base @ fs)) \<Longrightarrow>
   map anon_folder (fst (import_folders uuid now n base fs)) = map anon_folder base @ map anon_folder fs"
proof (induction fs arbitrary: base n)
  case (Cons f fs)
  have "folder_path f \<notin> folder_path ` set base" using Cons.prems by auto
  then have "\<not> (\<exists>g \<in> set base. folder_path g = folder_path f)" by (metis imageI)
  moreover have "map anon_folder (fst (import_folders uuid now (Suc n)
      (base @ [f\<lparr>folder_id := uuid n, folder_createdAt := now\<rparr>]) fs)) =
    map anon_folder (base @ [f\<lparr>folder_id := uuid n, folder_createdAt := now\<rparr>]) @ map anon_folder fs"
    by (rule Cons.IH) (use Cons.prems in auto)
  moreover have "anon_folder (f\<lparr>folder_id := uuid n, folder_createdAt := now\<rparr>) = anon_folder f" by (simp add: anon_folder_def)
  ultimately show ?case by simp
qed simp

lemma import_conns_length [simp]: "length (import_conns uuid now n cs) = length cs"
  by (induction cs arbitrary: n) simp_all

definition folders_readable :: "store \<Rightarrow> bool" where
  "folders_readable s \<longleftrightarrow> (\<forall>x. folders s \<noteq> Unreadable x)"

lemma read_both_ok:
  assumes "readable s" "folders_readable s"
  shows "\<exists>s1. read_both s = (folder_list s, listed s, s1) \<and> \<not> corrupted s1 \<and> \<not> conns_corrupt s1 \<and> \<not> folders_corrupt s1"
  using assms by (auto simp: read_both_def getFolders_def getConnections_def readable_def folders_readable_def corrupted_def
    folder_list_def listed_def split: stored.split)

lemma import_replaces:
  assumes "readable t" "folders_readable t" and d: "distinct (map folder_path fs)"
  shows "\<exists>t'. importConnections uuid now (Some \<lparr>bundle_connections = cs, bundle_folders = Some fs\<rparr>) False t = (Some (length cs), t') \<and>
    map anon_conn (fst (getConnections t')) = map anon_conn cs \<and> map anon_folder (fst (getFolders t')) = map anon_folder fs"
proof -
  obtain t1 where r: "read_both t = (folder_list t, listed t, t1)" "\<not> corrupted t1" "\<not> conns_corrupt t1" "\<not> folders_corrupt t1"
    using read_both_ok [OF assms(1,2)] by blast
  obtain fs' n where f: "import_folders uuid now 0 [] fs = (fs', n)" by (cases "import_folders uuid now 0 [] fs")
  have "map anon_folder fs' = map anon_folder fs"
    using import_folders_anon [of "[]" fs uuid now 0] d f by simp
  moreover have "map anon_conn (map (stripUnencryptedSecrets l) (import_conns uuid now n cs)) = map anon_conn cs" for l
    using import_conns_anon [of uuid now n cs] by (simp add: comp_def)
  ultimately show ?thesis
    by (simp add: importConnections_def r f Let_def persistConnections_def writeFolders_def getConnections_def getFolders_def)
qed

section \<open>What an exported file holds\<close>

lemma SECRET_FIELDS_names: "set SECRET_FIELDS = set secret_names"
  by (simp add: SECRET_FIELDS_def secret_names_def insert_commute)

text \<open>
  (C24) An exported file holds no secret, neither in plaintext nor sealed, in any connection or profile.
\<close>

theorem export_has_no_secret:
  assumes "exportAllConfig number_of picked written s = (Exported b, s')"
  shows "\<exists>d. data b = Some d \<and>
    (case data_connections d of
       Some (Some cb) \<Rightarrow> list_all (\<lambda>c. list_all (\<lambda>f. obj_get (secrets c) f = None) secret_names) (bundle_connections cb)
     | _ \<Rightarrow> True) \<and>
    (case data_profiles d of
       Some (JArr vs) \<Rightarrow> list_all (\<lambda>v. list_all (\<lambda>f. js_prop v f = None) secret_names) vs
     | _ \<Rightarrow> True)"
proof -
  have "obj_get (secrets (no_secrets c)) f = None" if "f \<in> set secret_names" for c :: connection and f
    using that by (simp add: no_secrets_def obj_get_dels SECRET_FIELDS_names)
  moreover have "obj_get (without_secrets o1) f = None" if "f \<in> set secret_names" for o1 f
    using that by (simp add: without_secrets_def obj_get_dels SECRET_FIELDS_names)
  ultimately show ?thesis
    using assms by (auto simp: exportAllConfig_def build_bundle_def list_all_iff split: prod.splits if_splits)
qed

section \<open>Import\<close>

lemma editor_defaults_ok: "obj_ok DEFAULT_EDITOR_CONFIG"
  by (simp add: DEFAULT_EDITOR_CONFIG_def obj_ok_def)

lemma editor_moves:
  "obj_get (loadEditorConfig (Some (Some (JObj (loadEditorConfig it))))) k = obj_get (loadEditorConfig it) k"
proof -
  have "obj_ok (loadEditorConfig it)"
    using editor_defaults_ok by (auto simp: loadEditorConfig_def load_over_def split: option.split)
  moreover have "obj_get DEFAULT_EDITOR_CONFIG k = None" if "obj_get (loadEditorConfig it) k = None"
    using that by (auto simp: loadEditorConfig_def load_over_def split: option.splits dest: spread_over_keeps)
  ultimately show ?thesis
    by (auto simp: loadEditorConfig_def load_over_def obj_get_spread split: option.split)
qed

lemma appearance_moves:
  "obj_get (loadAppearanceSettings number_of
     (saveAppearanceSettings number_of True (obj_entries (loadAppearanceSettings number_of it)) old)) k =
   obj_get (loadAppearanceSettings number_of it) k"
proof -
  obtain n :: int where n: "obj_get (loadAppearanceSettings number_of it) ''scrollback'' = Some (JNum (of_int n))"
    "1000 \<le> n" "n \<le> 50000" "obj_ok (loadAppearanceSettings number_of it)"
    using loaded_appearance by metis
  have "obj_ok (obj_entries (loadAppearanceSettings number_of it))" using n(4) by simp
  from load_saved_options [OF this] show ?thesis
    using n loaded_keeps_defaults [of number_of it k]
    by (cases "k = ''scrollback''") (auto simp: scrollback_fixed split: option.splits)
qed

definition same_profile :: "profile \<Rightarrow> profile \<Rightarrow> bool" where
  "same_profile p q \<longleftrightarrow> (\<forall>k. k \<notin> {''id'', ''createdAt'', ''updatedAt''} \<union> set secret_names \<longrightarrow> obj_get q k = obj_get p k) \<and>
     (\<forall>k \<in> set secret_names. obj_get q k = None)"

lemma stamped_again: "same_profile p (imported_profile u c t (JObj (without_secrets (obj_entries p))))"
proof -
  have e: "map_of (obj_entries o1) k = obj_get o1 k" for o1 :: profile and k
    using obj_get_entries [of o1 k] by (simp only: obj_get_def)
  show ?thesis
    by (auto simp: same_profile_def imported_get e without_secrets_def obj_get_dels SECRET_FIELDS_names [symmetric] SECRET_FIELDS_def)
qed

lemma import_profiles_back:
  assumes "getProfiles (c_profiles s) \<noteq> []" and "data_profiles d =
    Some (JArr (map (\<lambda>p. JObj (without_secrets (obj_entries p))) (getProfiles (c_profiles s))))"
  shows "\<exists>n t'. import_profiles u now (\<lambda>_. True) False d t = (Some n, t\<lparr>c_profiles := t'\<rparr>) \<and>
    list_all2 same_profile (getProfiles (c_profiles s)) (getProfiles t')"
  using assms(2)
  by (auto simp: import_profiles_def importProfiles_def Let_def list_all2_conv_all_nth stamped_again)


definition demo_config :: config_state where
  "demo_config = \<lparr>
     c_store = \<lparr>conns = Stored [\<lparr>conn_id = ''c1'', conn_name = ''web'', conn_host = ''h'', conn_port = 22, conn_username = ''u'',
         conn_protocol = ''SSH'', conn_folder = None, profileId = None, createdAt = ''t'', lastConnected = None, favorite = None,
         authMethod = None, sortOrder = None, secrets = [(''password'', ''v1:a:b'')], details = []\<rparr>],
       folders = Stored [\<lparr>folder_id = ''f1'', folder_name = ''All Connections'', folder_path = ''All Connections'',
         parentPath = None, folder_createdAt = ''t'', folder_sortOrder = None\<rparr>],
       conns_corrupt = False, folders_corrupt = False, sealFailedIds = []\<rparr>,
     c_profiles = Stored [[(''id'', JStr ''p1''), (''password'', JStr ''pw'')]], c_terminal = None, c_editor = None,
     c_settings = None, c_language = Some ''de''\<rparr>"

lemma demo_exported: "\<exists>b s'. exportAllConfig number_of True True demo_config = (Exported b, s')"
  by (cases "build_bundle number_of demo_config") (simp add: exportAllConfig_def)

lemma demo_lists:
  "map folder_path (fst (getFolders (c_store demo_config))) = [''All Connections'']"
  "fst (getFolders (c_store demo_config)) \<noteq> []" "getProfiles (c_profiles demo_config) \<noteq> []"
  "readable (c_store demo_config)" "folders_readable (c_store demo_config)"
  by (simp_all add: demo_config_def getFolders_def readable_def folders_readable_def)

lemma export_has_no_secret_witness:
  "\<exists>b s' d. exportAllConfig (\<lambda>_. None) True True demo_config = (Exported b, s') \<and> data b = Some d \<and>
    (case data_profiles d of
       Some (JArr vs) \<Rightarrow> list_all (\<lambda>v. list_all (\<lambda>f. js_prop v f = None) secret_names) vs
     | _ \<Rightarrow> True)"
proof -
  obtain b s' where e: "exportAllConfig (\<lambda>_. None) True True demo_config = (Exported b, s')" using demo_exported by blast
  from export_has_no_secret [OF this] show ?thesis unfolding e by blast
qed


section \<open>Imports that fail\<close>

text \<open>
  An import that is refused changes nothing: neither a file without a version or data, nor any file that brings
  connections while the stored ones cannot be read, touches a connection, a profile or a setting.
\<close>

theorem refused_import_changes_nothing:
  assumes "(case file of None \<Rightarrow> True | Some None \<Rightarrow> True
    | Some (Some b) \<Rightarrow> \<not> is_number (version b) \<or>
        (case data b of None \<Rightarrow> True | Some d \<Rightarrow> data_connections d \<noteq> None \<and> \<not> readable (c_store s)))"
  shows "\<exists>out s'. importAllConfig number_of u u' now w file merge s = (out, s') \<and>
    out = (if file = None then ImportCancelled else ImportFailed) \<and>
    conns (c_store s') = conns (c_store s) \<and> folders (c_store s') = folders (c_store s) \<and>
    c_profiles s' = c_profiles s \<and> c_terminal s' = c_terminal s \<and> c_editor s' = c_editor s \<and>
    c_settings s' = c_settings s \<and> c_language s' = c_language s"
proof -
  have "fst (importConnections u now bb merge (c_store s)) = None \<and>
      conns (snd (importConnections u now bb merge (c_store s))) = conns (c_store s) \<and>
      folders (snd (importConnections u now bb merge (c_store s))) = folders (c_store s)"
    if "\<not> readable (c_store s)" for bb
  proof -
    obtain fs cs s1 where r: "read_both (c_store s) = (fs, cs, s1)" by (cases "read_both (c_store s)")
    from read_both_state [OF r] that have "corrupted s1" "conns s1 = conns (c_store s)" "folders s1 = folders (c_store s)"
      by (auto simp: corrupted_def readable_def)
    then show ?thesis by (simp add: importConnections_def r)
  qed
  then have i: "\<exists>st. importConnections u now bb merge (c_store s) = (None, st) \<and> conns st = conns (c_store s) \<and>
      folders st = folders (c_store s)" if "\<not> readable (c_store s)" for bb
    using that by (metis prod.collapse)
  show ?thesis
  proof (cases "\<exists>b d bb. file = Some (Some b) \<and> data b = Some d \<and> is_number (version b) \<and> data_connections d = Some bb")
    case True
    then obtain b d bb where f: "file = Some (Some b)" "data b = Some d" "is_number (version b)" "data_connections d = Some bb"
      by blast
    then have "\<not> readable (c_store s)" using assms by simp
    then obtain st where "importConnections u now bb merge (c_store s) = (None, st)" "conns st = conns (c_store s)"
      "folders st = folders (c_store s)" using i by blast
    then show ?thesis using f by (simp add: importAllConfig_def import_connections_def)
  next
    case False
    then show ?thesis using assms by (auto simp: importAllConfig_def split: option.splits)
  qed
qed

lemma refused_import_changes_nothing_witness:
  "c_profiles (snd (importAllConfig (\<lambda>_. None) (\<lambda>_. ''n'') (\<lambda>_. ''m'') ''t'' (\<lambda>_. True)
     (Some (Some \<lparr>version = None, data = None\<rparr>)) False demo_config)) = c_profiles demo_config"
  using refused_import_changes_nothing [of demo_config "Some (Some \<lparr>version = None, data = None\<rparr>)" "\<lambda>_. None" "\<lambda>_. ''n''"
    "\<lambda>_. ''m''" "''t''" "\<lambda>_. True" False]
  by auto

end
