(* ===== verification/ConnectRequest.thy ===== *)
theory ConnectRequest
  imports Storage
begin

text \<open>
  What is sent to the backend to open a session: \<open>src/src/lib/ssh-connect-request.ts\<close>, \<open>ftp-connect-request.ts\<close>,
  \<open>connection-config.ts\<close>, \<open>protocol-config.ts\<close>, and the decision on a changed host key (\<open>host-key.ts\<close>,
  \<open>ssh-connect.ts\<close>). \<open>conn_config\<close> holds the fields that \<open>ConnectionData\<close> and \<open>ConnectionConfig\<close> share; a field
  that may be absent is an option. The item of the settings is as in \<open>Storage\<close>.
\<close>

section \<open>Settings\<close>

definition setting :: "item \<Rightarrow> string \<Rightarrow> json option" where
  "setting it k = (case it of Some (Some v) \<Rightarrow> if is_object v then js_prop v k else None | _ \<Rightarrow> None)"

definition integer_between :: "int \<Rightarrow> int \<Rightarrow> json option \<Rightarrow> int option" where
  "integer_between lo hi v =
     (case v of
        Some (JNum q) \<Rightarrow> if q = of_int \<lfloor>q\<rfloor> \<and> of_int lo \<le> q \<and> q \<le> of_int hi then Some \<lfloor>q\<rfloor> else None
      | _ \<Rightarrow> None)"

definition getConnectionTimeoutSetting :: "item \<Rightarrow> int option" where
  "getConnectionTimeoutSetting it = integer_between 5 120 (setting it ''connectionTimeout'')"

datatype host_key_policy = Strict | AcceptNew | Off

definition getHostKeyPolicy :: "item \<Rightarrow> host_key_policy" where
  "getHostKeyPolicy it = (if setting it ''hostKeyVerification'' = Some (JBool False) then Off else Strict)"

section \<open>Protocols\<close>

datatype protocol = SSH | Telnet | RawTcp | Serial | SFTP | FTP | RDP | VNC

fun getDefaultPort :: "protocol \<Rightarrow> int" where
  "getDefaultPort SSH = 22"
| "getDefaultPort SFTP = 22"
| "getDefaultPort FTP = 21"
| "getDefaultPort Telnet = 23"
| "getDefaultPort RawTcp = 0"
| "getDefaultPort Serial = 0"
| "getDefaultPort RDP = 3389"
| "getDefaultPort VNC = 5900"

fun getAuthMethods :: "protocol \<Rightarrow> string list" where
  "getAuthMethods SSH = [''password'', ''publickey'', ''keyboard-interactive'']"
| "getAuthMethods SFTP = [''password'', ''publickey'']"
| "getAuthMethods FTP = [''password'', ''anonymous'']"
| "getAuthMethods Telnet = [''password'']"
| "getAuthMethods RawTcp = []"
| "getAuthMethods Serial = []"
| "getAuthMethods RDP = [''password'']"
| "getAuthMethods VNC = [''password'']"

definition getHiddenFields :: "protocol \<Rightarrow> string list" where
  "getHiddenFields p = (if p = SSH then [] else [''compression'', ''keepAliveInterval'', ''serverAliveCountMax''])"

definition isDesktopProtocol :: "protocol \<Rightarrow> bool" where
  "isDesktopProtocol p \<longleftrightarrow> p = RDP \<or> p = VNC"

section \<open>Connections\<close>

record conn_config =
  cfg_name :: string
  cfg_protocol :: protocol
  cfg_host :: string
  cfg_port :: int
  cfg_username :: string
  cfg_authMethod :: "string option"
  cfg_password :: "string option"
  cfg_privateKeyPath :: "string option"
  cfg_passphrase :: "string option"
  cfg_ftpsEnabled :: "bool option"
  cfg_ftpsVerifyCert :: "bool option"
  cfg_domain :: "string option"
  cfg_rdpResolution :: "string option"
  cfg_vncColorDepth :: "string option"
  cfg_vncPassword :: "string option"
  cfg_proxyType :: "string option"
  cfg_proxyHost :: "string option"
  cfg_proxyPort :: "int option"
  cfg_proxyUsername :: "string option"
  cfg_proxyPassword :: "string option"
  cfg_tunnelEnabled :: "bool option"
  cfg_tunnelHost :: "string option"
  cfg_tunnelPort :: "int option"
  cfg_tunnelUsername :: "string option"
  cfg_tunnelAuthMethod :: "string option"
  cfg_tunnelPassword :: "string option"
  cfg_tunnelKeyPath :: "string option"
  cfg_tunnelPassphrase :: "string option"
  cfg_compression :: "bool option"
  cfg_keepAlive :: "bool option"
  cfg_keepAliveInterval :: "int option"
  cfg_serverAliveCountMax :: "int option"
  cfg_x11 :: "json option"

text \<open>\<open>v ?? d\<close> as an option, and \<open>v || d\<close> on texts.\<close>

definition or_else :: "'v option \<Rightarrow> 'v \<Rightarrow> 'v option" where
  "or_else v d = (case v of None \<Rightarrow> Some d | Some w \<Rightarrow> Some w)"

definition or_text :: "string option \<Rightarrow> string \<Rightarrow> string" where
  "or_text v d = (case or_null v of None \<Rightarrow> d | Some w \<Rightarrow> w)"

definition toConnectionConfig :: "conn_config \<Rightarrow> conn_config" where
  "toConnectionConfig d = d\<lparr>
     cfg_authMethod := Some (or_text (cfg_authMethod d) ''password''),
     cfg_vncPassword := None,
     cfg_proxyType := or_else (cfg_proxyType d) ''none'',
     cfg_proxyPort := or_else (cfg_proxyPort d) 8080,
     cfg_tunnelPort := or_else (cfg_tunnelPort d) 22,
     cfg_tunnelAuthMethod := or_else (cfg_tunnelAuthMethod d) ''password''\<rparr>"

section \<open>Requests\<close>

record tunnel_request =
  tunnel_enabled :: bool
  tunnel_host :: "string option"
  tunnel_port :: "int option"
  tunnel_username :: "string option"
  tunnel_auth_method :: "string option"
  tunnel_password :: "string option"
  tunnel_key_path :: "string option"
  tunnel_passphrase :: "string option"

record sftp_request = tunnel_request +
  connection_id :: string
  host :: string
  port :: int
  username :: string
  auth_method :: string
  rq_password :: "string option"
  key_path :: "string option"
  passphrase :: "string option"
  host_key_policy :: host_key_policy
  connect_timeout :: "int option"

record ssh_request = sftp_request +
  compression :: bool
  keepalive_enabled :: bool
  keepalive_interval :: "int option"
  keepalive_max :: "int option"
  proxy_type :: string
  proxy_host :: "string option"
  proxy_port :: "int option"
  proxy_username :: "string option"
  proxy_password :: "string option"
  x11 :: "json option"

definition port_or :: "int \<Rightarrow> int \<Rightarrow> int" where
  "port_or p d = (if p = 0 then d else p)"

definition only_if :: "bool \<Rightarrow> 'v option \<Rightarrow> 'v option" where
  "only_if b v = (if b then v else None)"

definition buildSshConnectRequest :: "item \<Rightarrow> string \<Rightarrow> conn_config \<Rightarrow> ssh_request" where
  "buildSshConnectRequest it connectionId s =
     (let keepAlive = (cfg_keepAlive s \<noteq> Some False);
          proxyType = (case cfg_proxyType s of Some t \<Rightarrow> t | None \<Rightarrow> ''none'');
          proxyEnabled = (proxyType \<noteq> ''none'');
          tunnelEnabled = (cfg_tunnelEnabled s = Some True)
      in \<lparr>tunnel_enabled = tunnelEnabled,
          tunnel_host = only_if tunnelEnabled (or_null (cfg_tunnelHost s)),
          tunnel_port = only_if tunnelEnabled (cfg_tunnelPort s),
          tunnel_username = only_if tunnelEnabled (or_null (cfg_tunnelUsername s)),
          tunnel_auth_method = only_if tunnelEnabled (Some (or_text (cfg_tunnelAuthMethod s) ''password'')),
          tunnel_password = only_if tunnelEnabled (or_null (cfg_tunnelPassword s)),
          tunnel_key_path = only_if tunnelEnabled (or_null (cfg_tunnelKeyPath s)),
          tunnel_passphrase = only_if tunnelEnabled (or_null (cfg_tunnelPassphrase s)),
          connection_id = connectionId, host = cfg_host s, port = port_or (cfg_port s) 22, username = cfg_username s,
          auth_method = or_text (cfg_authMethod s) ''password'', rq_password = cfg_password s,
          key_path = or_null (cfg_privateKeyPath s), passphrase = or_null (cfg_passphrase s),
          host_key_policy = getHostKeyPolicy it, connect_timeout = getConnectionTimeoutSetting it,
          compression = (cfg_compression s \<noteq> Some False), keepalive_enabled = keepAlive,
          keepalive_interval = only_if keepAlive (or_else (cfg_keepAliveInterval s) 60),
          keepalive_max = only_if keepAlive (or_else (cfg_serverAliveCountMax s) 3),
          proxy_type = proxyType,
          proxy_host = only_if proxyEnabled (or_null (cfg_proxyHost s)),
          proxy_port = only_if proxyEnabled (cfg_proxyPort s),
          proxy_username = only_if proxyEnabled (or_null (cfg_proxyUsername s)),
          proxy_password = only_if proxyEnabled (or_null (cfg_proxyPassword s)),
          x11 = cfg_x11 s\<rparr>)"

definition buildSftpConnectRequest :: "item \<Rightarrow> string \<Rightarrow> conn_config \<Rightarrow> sftp_request" where
  "buildSftpConnectRequest it connectionId s =
     (let tunnelEnabled = (cfg_tunnelEnabled s = Some True)
      in \<lparr>tunnel_enabled = tunnelEnabled,
          tunnel_host = only_if tunnelEnabled (or_null (cfg_tunnelHost s)),
          tunnel_port = only_if tunnelEnabled (cfg_tunnelPort s),
          tunnel_username = only_if tunnelEnabled (or_null (cfg_tunnelUsername s)),
          tunnel_auth_method = only_if tunnelEnabled (Some (or_text (cfg_tunnelAuthMethod s) ''password'')),
          tunnel_password = only_if tunnelEnabled (or_null (cfg_tunnelPassword s)),
          tunnel_key_path = only_if tunnelEnabled (or_null (cfg_tunnelKeyPath s)),
          tunnel_passphrase = only_if tunnelEnabled (or_null (cfg_tunnelPassphrase s)),
          connection_id = connectionId, host = cfg_host s, port = port_or (cfg_port s) 22, username = cfg_username s,
          auth_method = or_text (cfg_authMethod s) ''password'', rq_password = Some (or_text (cfg_password s) []),
          key_path = or_null (cfg_privateKeyPath s), passphrase = or_null (cfg_passphrase s),
          host_key_policy = getHostKeyPolicy it, connect_timeout = getConnectionTimeoutSetting it\<rparr>)"

record ftp_request =
  ftp_connection_id :: string
  ftp_host :: string
  ftp_port :: int
  ftp_username :: string
  ftp_password :: string
  ftps_enabled :: bool
  ftps_verify_cert :: bool
  anonymous :: bool

definition buildFtpConnectRequest :: "string \<Rightarrow> conn_config \<Rightarrow> ftp_request" where
  "buildFtpConnectRequest connectionId s =
     \<lparr>ftp_connection_id = connectionId, ftp_host = cfg_host s, ftp_port = port_or (cfg_port s) 21,
      ftp_username = cfg_username s, ftp_password = or_text (cfg_password s) [],
      ftps_enabled = (cfg_ftpsEnabled s = Some True), ftps_verify_cert = (cfg_ftpsVerifyCert s \<noteq> Some False),
      anonymous = (cfg_authMethod s = Some ''anonymous'')\<rparr>"

section \<open>A changed host key\<close>

text \<open>
  What the listeners of the request do: while the event is dispatched, and later. The result is the decision, \<open>None\<close>
  as long as nobody has answered.
\<close>

datatype listener_act = Claim | Resolve bool

fun first_answer :: "listener_act list \<Rightarrow> bool option" where
  "first_answer [] = None"
| "first_answer (Claim # acts) = first_answer acts"
| "first_answer (Resolve b # acts) = Some b"

definition requestHostKeyDecision :: "listener_act list \<Rightarrow> listener_act list \<Rightarrow> bool option" where
  "requestHostKeyDecision during later =
     (case first_answer during of
        Some b \<Rightarrow> Some b
      | None \<Rightarrow> if Claim \<in> set during then first_answer later else Some False)"

record ssh_result =
  success :: bool
  error :: "string option"
  host_key_changed :: "string option"

text \<open>
  \<open>backend n\<close> answers the n-th call, \<open>None\<close>: the call is rejected and so is this one. The outcome: the result, if any
  yet (a decision may never come), and the calls made.
\<close>

definition sshConnect ::
  "(nat \<Rightarrow> ssh_request \<Rightarrow> ssh_result option) \<Rightarrow> (string \<Rightarrow> bool option) \<Rightarrow> ssh_request \<Rightarrow> ssh_result option \<times> ssh_request list" where
  "sshConnect backend decision request =
     (case backend 0 request of
        None \<Rightarrow> (None, [request])
      | Some r \<Rightarrow>
          (case host_key_changed r of
             None \<Rightarrow> (Some r, [request])
           | Some info \<Rightarrow>
               if success r then (Some r, [request])
               else (case decision info of
                       None \<Rightarrow> (None, [request])
                     | Some False \<Rightarrow> (Some r, [request])
                     | Some True \<Rightarrow>
                         let again = request\<lparr>host_key_policy := AcceptNew\<rparr> in (backend 1 again, [request, again]))))"

end
