(* ===== verification/ConnectionForm.thy ===== *)
theory ConnectionForm
  imports ConnectRequest ConnectionStore
begin

text \<open>
  The connection dialog (\<open>src/src/components/connection-dialog.tsx\<close>): its form, what it stores and sends, and its
  state while an attempt runs. Stored connections are the shared fields of \<open>ConnectionData\<close> by id; \<open>existing\<close> fields
  the dialog does not write stay as they are, as in \<open>updateConnection\<close>. \<open>seal n v\<close> and \<open>unseal w\<close> are the answers of
  the backend, \<open>None\<close> a rejection.
\<close>

section \<open>The form\<close>

definition isPasswordSavingAllowed :: "item \<Rightarrow> bool" where
  "isPasswordSavingAllowed it \<longleftrightarrow> setting it ''allowPasswordSaving'' \<noteq> Some (JBool False)"

definition getDefaultProtocolSetting :: "item \<Rightarrow> protocol" where
  "getDefaultProtocolSetting it =
     (case setting it ''defaultProtocol'' of
        Some (JStr p) \<Rightarrow> if p = ''Telnet'' then Telnet else if p = ''Raw'' then RawTcp else SSH
      | _ \<Rightarrow> SSH)"

definition getDefaultKeepAliveIntervalSetting :: "item \<Rightarrow> int" where
  "getDefaultKeepAliveIntervalSetting it =
     (case integer_between 30 300 (setting it ''keepAliveInterval'') of Some n \<Rightarrow> n | None \<Rightarrow> 60)"

definition defaultConfig :: "item \<Rightarrow> conn_config" where
  "defaultConfig it =
     \<lparr>cfg_name = [], cfg_protocol = getDefaultProtocolSetting it, cfg_host = [],
      cfg_port = getDefaultPort (getDefaultProtocolSetting it), cfg_username = [], cfg_authMethod = Some ''password'',
      cfg_password = Some [], cfg_privateKeyPath = Some [], cfg_passphrase = Some [], cfg_ftpsEnabled = None,
      cfg_ftpsVerifyCert = None, cfg_domain = None, cfg_rdpResolution = None, cfg_vncColorDepth = None,
      cfg_vncPassword = None, cfg_proxyType = Some ''none'', cfg_proxyHost = Some [], cfg_proxyPort = Some 8080,
      cfg_proxyUsername = Some [], cfg_proxyPassword = Some [], cfg_tunnelEnabled = Some False, cfg_tunnelHost = Some [],
      cfg_tunnelPort = Some 22, cfg_tunnelUsername = Some [], cfg_tunnelAuthMethod = Some ''password'',
      cfg_tunnelPassword = Some [], cfg_tunnelKeyPath = Some [], cfg_tunnelPassphrase = Some [],
      cfg_compression = Some False, cfg_keepAlive = Some True,
      cfg_keepAliveInterval = Some (getDefaultKeepAliveIntervalSetting it), cfg_serverAliveCountMax = Some 3,
      cfg_x11 = None\<rparr>"

definition first_of :: "'v option \<Rightarrow> 'v option \<Rightarrow> 'v option" where
  "first_of v d = (case v of None \<Rightarrow> d | Some w \<Rightarrow> Some w)"

definition mergeWithDefaults :: "conn_config \<Rightarrow> conn_config \<Rightarrow> conn_config" where
  "mergeWithDefaults d c = c\<lparr>
     cfg_authMethod := first_of (cfg_authMethod c) (cfg_authMethod d),
     cfg_password := first_of (cfg_password c) (cfg_password d),
     cfg_privateKeyPath := first_of (cfg_privateKeyPath c) (cfg_privateKeyPath d),
     cfg_passphrase := first_of (cfg_passphrase c) (cfg_passphrase d),
     cfg_proxyType := first_of (cfg_proxyType c) (cfg_proxyType d),
     cfg_proxyHost := first_of (cfg_proxyHost c) (cfg_proxyHost d),
     cfg_proxyPort := first_of (cfg_proxyPort c) (cfg_proxyPort d),
     cfg_proxyUsername := first_of (cfg_proxyUsername c) (cfg_proxyUsername d),
     cfg_proxyPassword := first_of (cfg_proxyPassword c) (cfg_proxyPassword d),
     cfg_tunnelEnabled := first_of (cfg_tunnelEnabled c) (cfg_tunnelEnabled d),
     cfg_tunnelHost := first_of (cfg_tunnelHost c) (cfg_tunnelHost d),
     cfg_tunnelPort := first_of (cfg_tunnelPort c) (cfg_tunnelPort d),
     cfg_tunnelUsername := first_of (cfg_tunnelUsername c) (cfg_tunnelUsername d),
     cfg_tunnelAuthMethod := first_of (cfg_tunnelAuthMethod c) (cfg_tunnelAuthMethod d),
     cfg_tunnelPassword := first_of (cfg_tunnelPassword c) (cfg_tunnelPassword d),
     cfg_tunnelKeyPath := first_of (cfg_tunnelKeyPath c) (cfg_tunnelKeyPath d),
     cfg_tunnelPassphrase := first_of (cfg_tunnelPassphrase c) (cfg_tunnelPassphrase d),
     cfg_compression := first_of (cfg_compression c) (cfg_compression d),
     cfg_keepAlive := first_of (cfg_keepAlive c) (cfg_keepAlive d),
     cfg_keepAliveInterval := first_of (cfg_keepAliveInterval c) (cfg_keepAliveInterval d),
     cfg_serverAliveCountMax := first_of (cfg_serverAliveCountMax c) (cfg_serverAliveCountMax d)\<rparr>"

definition cfg_secret :: "conn_config \<Rightarrow> string \<Rightarrow> string option" where
  "cfg_secret c f =
     (if f = ''password'' then cfg_password c else if f = ''passphrase'' then cfg_passphrase c
      else if f = ''proxyPassword'' then cfg_proxyPassword c else if f = ''vncPassword'' then cfg_vncPassword c
      else if f = ''tunnelPassword'' then cfg_tunnelPassword c else if f = ''tunnelPassphrase'' then cfg_tunnelPassphrase c
      else None)"

definition set_cfg_secret :: "string \<Rightarrow> string \<Rightarrow> conn_config \<Rightarrow> conn_config" where
  "set_cfg_secret f v c =
     (if f = ''password'' then c\<lparr>cfg_password := Some v\<rparr> else if f = ''passphrase'' then c\<lparr>cfg_passphrase := Some v\<rparr>
      else if f = ''proxyPassword'' then c\<lparr>cfg_proxyPassword := Some v\<rparr>
      else if f = ''vncPassword'' then c\<lparr>cfg_vncPassword := Some v\<rparr>
      else if f = ''tunnelPassword'' then c\<lparr>cfg_tunnelPassword := Some v\<rparr>
      else if f = ''tunnelPassphrase'' then c\<lparr>cfg_tunnelPassphrase := Some v\<rparr> else c)"

text \<open>The stored (sealed) secrets that a blank field stands for; none for a new connection.\<close>

type_synonym stored_secrets = "string \<Rightarrow> string"

definition EMPTY_STORED_SECRETS :: stored_secrets where
  "EMPTY_STORED_SECRETS = (\<lambda>_. [])"

definition previousSecrets :: "conn_config \<Rightarrow> stored_secrets" where
  "previousSecrets c = (\<lambda>f. case cfg_secret c f of Some v \<Rightarrow> v | None \<Rightarrow> [])"

text \<open>The form of a connection that is opened for editing.\<close>

definition form_of :: "item \<Rightarrow> conn_config \<Rightarrow> conn_config" where
  "form_of it editing = fold (\<lambda>f. set_cfg_secret f []) SECRET_FIELDS (mergeWithDefaults (defaultConfig it) editing)"

text \<open>Choosing a protocol in the form; \<open>undefined\<close> where there is no authentication method.\<close>

definition choose_protocol :: "protocol \<Rightarrow> conn_config \<Rightarrow> conn_config" where
  "choose_protocol p c =
     (let methods = getAuthMethods p;
          valid = (case cfg_authMethod c of Some m \<Rightarrow> m \<in> set methods | None \<Rightarrow> False);
          c1 = c\<lparr>cfg_protocol := p, cfg_port := getDefaultPort p,
                 cfg_authMethod := (if valid then cfg_authMethod c else case methods of [] \<Rightarrow> None | m # _ \<Rightarrow> Some m)\<rparr>
      in if p = FTP then c1 else c1\<lparr>cfg_ftpsEnabled := None, cfg_ftpsVerifyCert := None\<rparr>)"

section \<open>Saving\<close>

fun resolve_fields ::
  "(nat \<Rightarrow> string \<Rightarrow> string option) \<Rightarrow> conn_config \<Rightarrow> stored_secrets \<Rightarrow> nat \<Rightarrow> string list \<Rightarrow> stored_secrets \<Rightarrow> stored_secrets option"
where
  "resolve_fields seal c previous n [] result = Some result"
| "resolve_fields seal c previous n (f # fs) result =
     (case or_null (cfg_secret c f) of
        None \<Rightarrow> resolve_fields seal c previous n fs (result(f := previous f))
      | Some typed \<Rightarrow>
          (case seal n typed of
             None \<Rightarrow> None
           | Some w \<Rightarrow> resolve_fields seal c previous (Suc n) fs (result(f := w))))"

definition resolveSecretsForSave ::
  "item \<Rightarrow> (nat \<Rightarrow> string \<Rightarrow> string option) \<Rightarrow> stored_secrets \<Rightarrow> conn_config \<Rightarrow> stored_secrets option" where
  "resolveSecretsForSave it seal previous c =
     (if \<not> isPasswordSavingAllowed it then Some previous
      else resolve_fields seal c previous 0 SECRET_FIELDS (\<lambda>_. []))"

text \<open>The fields of every payload over an existing record, and those only some payloads have.\<close>

definition ssh_payload :: "stored_secrets \<Rightarrow> conn_config \<Rightarrow> int \<Rightarrow> conn_config \<Rightarrow> conn_config" where
  "ssh_payload sec c p old = old\<lparr>
     cfg_name := cfg_name c, cfg_host := cfg_host c, cfg_port := p, cfg_username := cfg_username c,
     cfg_protocol := cfg_protocol c, cfg_authMethod := cfg_authMethod c, cfg_password := Some (sec ''password''),
     cfg_privateKeyPath := cfg_privateKeyPath c, cfg_passphrase := Some (sec ''passphrase''),
     cfg_proxyType := cfg_proxyType c, cfg_proxyHost := cfg_proxyHost c, cfg_proxyPort := cfg_proxyPort c,
     cfg_proxyUsername := cfg_proxyUsername c, cfg_tunnelEnabled := cfg_tunnelEnabled c,
     cfg_tunnelHost := cfg_tunnelHost c, cfg_tunnelPort := cfg_tunnelPort c,
     cfg_tunnelUsername := cfg_tunnelUsername c, cfg_tunnelAuthMethod := cfg_tunnelAuthMethod c,
     cfg_tunnelPassword := Some (sec ''tunnelPassword''), cfg_tunnelKeyPath := cfg_tunnelKeyPath c,
     cfg_tunnelPassphrase := Some (sec ''tunnelPassphrase''), cfg_proxyPassword := Some (sec ''proxyPassword''),
     cfg_compression := cfg_compression c, cfg_keepAlive := cfg_keepAlive c,
     cfg_keepAliveInterval := cfg_keepAliveInterval c, cfg_serverAliveCountMax := cfg_serverAliveCountMax c,
     cfg_x11 := cfg_x11 c\<rparr>"

definition full_payload :: "stored_secrets \<Rightarrow> conn_config \<Rightarrow> int \<Rightarrow> conn_config \<Rightarrow> conn_config" where
  "full_payload sec c p old = (ssh_payload sec c p old)\<lparr>
     cfg_ftpsEnabled := cfg_ftpsEnabled c, cfg_ftpsVerifyCert := cfg_ftpsVerifyCert c, cfg_domain := cfg_domain c,
     cfg_rdpResolution := cfg_rdpResolution c, cfg_vncColorDepth := cfg_vncColorDepth c\<rparr>"

definition blank_record :: conn_config where
  "blank_record = \<lparr>cfg_name = [], cfg_protocol = SSH, cfg_host = [], cfg_port = 0, cfg_username = [], cfg_authMethod = None,
     cfg_password = None, cfg_privateKeyPath = None, cfg_passphrase = None, cfg_ftpsEnabled = None, cfg_ftpsVerifyCert = None,
     cfg_domain = None, cfg_rdpResolution = None, cfg_vncColorDepth = None, cfg_vncPassword = None, cfg_proxyType = None,
     cfg_proxyHost = None, cfg_proxyPort = None, cfg_proxyUsername = None, cfg_proxyPassword = None, cfg_tunnelEnabled = None,
     cfg_tunnelHost = None, cfg_tunnelPort = None, cfg_tunnelUsername = None, cfg_tunnelAuthMethod = None,
     cfg_tunnelPassword = None, cfg_tunnelKeyPath = None, cfg_tunnelPassphrase = None, cfg_compression = None,
     cfg_keepAlive = None, cfg_keepAliveInterval = None, cfg_serverAliveCountMax = None, cfg_x11 = None\<rparr>"

definition update_stored :: "string \<Rightarrow> (conn_config \<Rightarrow> conn_config) \<Rightarrow> conn_config obj \<Rightarrow> conn_config obj" where
  "update_stored i f st = (case obj_get st i of Some c \<Rightarrow> obj_set i (f c) st | None \<Rightarrow> st)"

text \<open>\<open>handleSave\<close> for the connection \<open>i\<close> opened with its stored fields; \<open>None\<close>: a secret could not be sealed.\<close>

definition handleSave ::
  "item \<Rightarrow> (nat \<Rightarrow> string \<Rightarrow> string option) \<Rightarrow> string \<Rightarrow> stored_secrets \<Rightarrow> conn_config \<Rightarrow> conn_config obj \<Rightarrow> conn_config obj option" where
  "handleSave it seal i previous c st =
     map_option (\<lambda>sec. update_stored i (full_payload sec c (port_or (cfg_port c) 22)) st)
       (resolveSecretsForSave it seal previous c)"

section \<open>Connecting\<close>

definition connect_secret :: "(string \<Rightarrow> string option) \<Rightarrow> stored_secrets \<Rightarrow> string \<Rightarrow> conn_config \<Rightarrow> conn_config" where
  "connect_secret unseal previous f c =
     (if cfg_secret c f = Some [] \<and> previous f \<noteq> []
      then (case unseal (previous f) of Some v \<Rightarrow> set_cfg_secret f v c | None \<Rightarrow> c) else c)"

definition connect_secrets :: "(string \<Rightarrow> string option) \<Rightarrow> stored_secrets \<Rightarrow> conn_config \<Rightarrow> conn_config" where
  "connect_secrets unseal previous c = fold (connect_secret unseal previous) SECRET_FIELDS c"

definition delegated_port :: "conn_config \<Rightarrow> int" where
  "delegated_port c = port_or (cfg_port c)
     (if cfg_protocol c = FTP then 21 else if cfg_protocol c = RDP then 3389 else if cfg_protocol c = VNC then 5900 else 22)"

datatype connect_outcome =
    MissingFields
  | NotSealed
  | Delegated conn_config
  | SshAttempt ssh_request

text \<open>
  \<open>handleConnect\<close> up to the first call that connects: the outcome and the stored connections. \<open>editing\<close>: the id of the
  connection that is edited, \<open>newId\<close> the id drawn for a new one, \<open>saveAs\<close> whether a new one is to be saved.
\<close>

definition handleConnect ::
  "item \<Rightarrow> (nat \<Rightarrow> string \<Rightarrow> string option) \<Rightarrow> (string \<Rightarrow> string option) \<Rightarrow> string option \<Rightarrow> string \<Rightarrow> bool \<Rightarrow>
   stored_secrets \<Rightarrow> conn_config \<Rightarrow> conn_config obj \<Rightarrow> connect_outcome \<times> conn_config obj" where
  "handleConnect it seal unseal editing newId saveAs previous c st =
     (let i = or_text editing newId;
          requiresUsername = (cfg_authMethod c \<noteq> Some ''anonymous'' \<and> cfg_protocol c \<noteq> VNC)
      in if cfg_name c = [] \<or> cfg_host c = [] \<or> requiresUsername \<and> cfg_username c = [] then (MissingFields, st)
         else (case resolveSecretsForSave it seal previous c of
           None \<Rightarrow> (NotSealed, st)
         | Some sec \<Rightarrow>
             let connectConfig = connect_secrets unseal previous c;
                 delegate = (cfg_protocol c \<in> {SFTP, FTP, RDP, VNC});
                 payload = (if delegate then full_payload sec c (delegated_port c) else ssh_payload sec c (port_or (cfg_port c) 22));
                 st1 = (if or_null editing \<noteq> None then update_stored i payload st
                        else if saveAs then obj_set i (payload blank_record) st else st)
             in (if delegate then Delegated connectConfig else SshAttempt (buildSshConnectRequest it i connectConfig), st1)))"

section \<open>While an attempt runs\<close>

text \<open>
  The dialog's state over the events it meets: \<open>pending\<close> are the attempts in flight, \<open>cancels\<close> the ids the backend has
  been asked to give up, with whether the dialog closes once that is answered, \<open>toasts\<close> what the user has been told.
\<close>

datatype toast = CancelledToast | FailedToast | ErrorToast

record dialog_state =
  dialog_open :: bool
  isConnecting :: bool
  isCancelling :: bool
  connectionIdRef :: "string option"
  cancelRequested :: bool
  pending :: "string list"
  cancels :: "(string \<times> bool) list"
  connected :: "string list"
  toasts :: "toast list"

datatype attempt_end = Succeeded | Refused string | Rejected

datatype dialog_event =
    OpenDialog
  | ConnectClick string
  | InvalidConnectClick string
  | CancelClick
  | CloseDialog
  | CancelAnswered bool
  | AttemptEnds string attempt_end

definition resetConnectionState :: "dialog_state \<Rightarrow> dialog_state" where
  "resetConnectionState s = s\<lparr>isConnecting := False, isCancelling := False, connectionIdRef := None, cancelRequested := False\<rparr>"

definition begin_attempt :: "string \<Rightarrow> dialog_state \<Rightarrow> dialog_state" where
  "begin_attempt i s = s\<lparr>isConnecting := True, isCancelling := False, cancelRequested := False, connectionIdRef := Some i\<rparr>"

text \<open>\<open>handleCancelConnectionAttempt\<close>; \<open>closing\<close>: the dialog closes afterwards.\<close>

definition cancel_attempt :: "bool \<Rightarrow> dialog_state \<Rightarrow> dialog_state" where
  "cancel_attempt closing s =
     (if \<not> isConnecting s then s\<lparr>dialog_open := False\<rparr>
      else if isCancelling s then (if closing then (resetConnectionState s)\<lparr>dialog_open := False\<rparr> else s)
      else (case connectionIdRef s of
              None \<Rightarrow> (resetConnectionState s)\<lparr>dialog_open := (dialog_open s \<and> \<not> closing)\<rparr>
            | Some i \<Rightarrow> s\<lparr>cancelRequested := True, isCancelling := True, cancels := cancels s @ [(i, closing)]\<rparr>))"

definition attempt_toast :: "dialog_state \<Rightarrow> attempt_end \<Rightarrow> toast list" where
  "attempt_toast s e =
     (case e of
        Succeeded \<Rightarrow> []
      | Refused err \<Rightarrow> [if cancelRequested s \<and> js_includes (js_lower err) ''cancelled'' then CancelledToast else FailedToast]
      | Rejected \<Rightarrow> [if cancelRequested s then CancelledToast else ErrorToast])"

fun dialog_step :: "dialog_state \<Rightarrow> dialog_event \<Rightarrow> dialog_state" where
  "dialog_step s OpenDialog = (resetConnectionState s)\<lparr>dialog_open := True\<rparr>"
| "dialog_step s (ConnectClick i) =
     (if isConnecting s then s else (begin_attempt i s)\<lparr>pending := pending s @ [i]\<rparr>)"
| "dialog_step s (InvalidConnectClick i) = (if isConnecting s then s else resetConnectionState (begin_attempt i s))"
| "dialog_step s CancelClick = cancel_attempt False s"
| "dialog_step s CloseDialog = (if isConnecting s then cancel_attempt True s else s\<lparr>dialog_open := False\<rparr>)"
| "dialog_step s (CancelAnswered ok) =
     (case cancels s of
        [] \<Rightarrow> s
      | (i, closing) # rest \<Rightarrow>
          let s1 = (resetConnectionState s)\<lparr>cancels := rest, toasts := (if ok then toasts s @ [CancelledToast] else toasts s)\<rparr>
          in if closing then s1\<lparr>dialog_open := False\<rparr> else s1)"
| "dialog_step s (AttemptEnds i e) =
     (if i \<in> set (pending s)
      then (resetConnectionState s)\<lparr>pending := remove1 i (pending s), dialog_open := False,
             connected := connected s @ (if e = Succeeded then [i] else []), toasts := toasts s @ attempt_toast s e\<rparr>
      else s)"

definition closed_dialog :: dialog_state where
  "closed_dialog = \<lparr>dialog_open = False, isConnecting = False, isCancelling = False, connectionIdRef = None,
     cancelRequested = False, pending = [], cancels = [], connected = [], toasts = []\<rparr>"

definition dialog_ok :: "dialog_state \<Rightarrow> bool" where
  "dialog_ok s \<longleftrightarrow> (if isConnecting s then (\<exists>i. connectionIdRef s = Some i \<and> i \<in> set (pending s))
     else connectionIdRef s = None \<and> \<not> isCancelling s \<and> \<not> cancelRequested s) \<and>
     (isCancelling s \<longrightarrow> cancels s \<noteq> []) \<and> (cancelRequested s = isCancelling s)"

lemma dialog_step_ok: "dialog_ok s \<Longrightarrow> dialog_ok (dialog_step s e)"
proof (cases e)
  case (CancelAnswered ok)
  assume "dialog_ok s"
  then show ?thesis unfolding CancelAnswered
    by (cases "cancels s") (auto simp: dialog_ok_def resetConnectionState_def Let_def split: if_splits)
next
  case CancelClick
  assume "dialog_ok s"
  then show ?thesis unfolding CancelClick
    by (auto simp: dialog_ok_def cancel_attempt_def resetConnectionState_def split: option.splits if_splits)
next
  case CloseDialog
  assume "dialog_ok s"
  then show ?thesis unfolding CloseDialog
    by (auto simp: dialog_ok_def cancel_attempt_def resetConnectionState_def split: option.splits if_splits)
qed (auto simp: dialog_ok_def resetConnectionState_def begin_attempt_def split: if_splits)

interpretation dialog: action_machine dialog_step dialog_ok "\<lambda>_ _. True"
  by unfold_locales (rule dialog_step_ok)

lemma all_events: "ok_run step (\<lambda>_ _. True) s es"
  by (induction es arbitrary: s) auto

lemma dialog_reachable_ok: "dialog_ok (run_actions dialog_step closed_dialog es)"
  by (rule dialog.run_inv [OF _ all_events]) (simp add: dialog_ok_def closed_dialog_def)



text \<open>
  A cancelled attempt is reported as a failure: the answer to the cancellation forgets that it was asked for, so
  that the end of the attempt, which the backend reports afterwards, is told to the user as an error.
\<close>

theorem cancelled_attempt_reports_failure:
  "toasts (run_actions dialog_step closed_dialog
     [OpenDialog, ConnectClick i, CancelClick, CancelAnswered True, AttemptEnds i (Refused ''Connection cancelled by user'')])
   = [CancelledToast, FailedToast]"
  by (simp add: closed_dialog_def resetConnectionState_def begin_attempt_def cancel_attempt_def attempt_toast_def Let_def)

text \<open>
  The end of a cancelled attempt takes the next one along: it closes the dialog and forgets the attempt that is
  running by then, which can no longer be cancelled although it is still in flight.
\<close>

theorem late_end_orphans_next_attempt:
  assumes "a \<noteq> b"
  shows "let s = run_actions dialog_step closed_dialog
       [OpenDialog, ConnectClick a, CancelClick, CancelAnswered ok, ConnectClick b, AttemptEnds a e]
     in \<not> dialog_open s \<and> \<not> isConnecting s \<and> b \<in> set (pending s) \<and> cancels (dialog_step s CancelClick) = []"
  using assms by (simp add: closed_dialog_def resetConnectionState_def begin_attempt_def cancel_attempt_def Let_def)

lemma late_end_orphans_next_attempt_witness:
  "\<not> isConnecting (run_actions dialog_step closed_dialog
       [OpenDialog, ConnectClick ''a'', CancelClick, CancelAnswered True, ConnectClick ''b'', AttemptEnds ''a'' Rejected])"
  using late_end_orphans_next_attempt [of "''a''" "''b''" True Rejected] by (simp add: Let_def del: run_actions_simps)

section \<open>Requests\<close>

lemma integer_between_range: "integer_between lo hi v = Some n \<Longrightarrow> lo \<le> n \<and> n \<le> hi"
proof -
  assume "integer_between lo hi v = Some n"
  then obtain q where q: "v = Some (JNum q)" "q = of_int \<lfloor>q\<rfloor>" "of_int lo \<le> q" "q \<le> of_int hi" "n = \<lfloor>q\<rfloor>"
    by (auto simp: integer_between_def split: option.splits json.splits if_splits)
  then show ?thesis by (metis of_int_le_iff)
qed

text \<open>
  Every request says only what is enabled: with the tunnel, the proxy or the keep-alive off nothing of it is sent,
  no password of it either; the port is never 0, the timeout is the backend's own or between 5 and 120 seconds, and the
  host key is verified unless the settings say \<open>false\<close>.
\<close>

theorem requests_say_only_what_is_enabled:
  "case buildSshConnectRequest it i c of r \<Rightarrow>
     (if tunnel_enabled r then cfg_tunnelEnabled c = Some True
      else (tunnel_host r, tunnel_username r, tunnel_auth_method r, tunnel_password r, tunnel_key_path r, tunnel_passphrase r) =
        (None, None, None, None, None, None) \<and> tunnel_port r = None) \<and>
     (if proxy_type r = ''none''
      then (proxy_host r, proxy_username r, proxy_password r) = (None, None, None) \<and> proxy_port r = None else True) \<and>
     (if keepalive_enabled r then keepalive_interval r = or_else (cfg_keepAliveInterval c) 60
      else keepalive_interval r = None \<and> keepalive_max r = None) \<and>
     port r \<noteq> 0 \<and> (case connect_timeout r of None \<Rightarrow> True | Some n \<Rightarrow> 5 \<le> n \<and> n \<le> 120) \<and>
     host_key_policy r = (if setting it ''hostKeyVerification'' = Some (JBool False) then Off else Strict) \<and>
     tunnel_request.truncate r = tunnel_request.truncate (buildSftpConnectRequest it i c) \<and>
     host_key_policy (buildSftpConnectRequest it i c) = host_key_policy r"
  using integer_between_range [of 5 120 "setting it ''connectionTimeout''"]
  by (auto simp: buildSshConnectRequest_def buildSftpConnectRequest_def Let_def only_if_def getHostKeyPolicy_def
    getConnectionTimeoutSetting_def port_or_def tunnel_request.truncate_def split: option.split)

lemma decision_from_listener: "requestHostKeyDecision during later = Some True \<Longrightarrow> Resolve True \<in> set (during @ later)"
proof -
  have "first_answer acts = Some b \<Longrightarrow> Resolve b \<in> set acts" for acts b
    by (induction acts rule: first_answer.induct) auto
  then show "requestHostKeyDecision during later = Some True \<Longrightarrow> Resolve True \<in> set (during @ later)"
    by (auto simp: requestHostKeyDecision_def split: option.splits if_splits)
qed

text \<open>
  A changed host key is accepted only if a listener said so: the request that replaces the recorded key is sent
  at most once, after the backend has refused the first one for that key and the user has trusted it.
\<close>

theorem accept_new_needs_trust:
  assumes "sshConnect backend (\<lambda>info. requestHostKeyDecision (during info) (later info)) request = (result, calls)"
  shows "calls = [request] \<or>
    (\<exists>r info. calls = [request, request\<lparr>host_key_policy := AcceptNew\<rparr>] \<and> backend 0 request = Some r \<and> \<not> success r \<and>
       host_key_changed r = Some info \<and> Resolve True \<in> set (during info @ later info))"
  using assms decision_from_listener
  by (auto simp: sshConnect_def Let_def split: option.splits if_splits bool.splits)

lemma accept_new_needs_trust_witness:
  "case sshConnect (\<lambda>n r. Some \<lparr>success = n > 0, error = None, host_key_changed = Some ''key''\<rparr>)
      (\<lambda>info. requestHostKeyDecision [Claim] [Resolve True]) (buildSshConnectRequest None ''c'' blank_record) of
     (result, calls) \<Rightarrow> length calls \<le> 2 \<and> calls \<noteq> []"
proof -
  let ?r = "sshConnect (\<lambda>n r. Some \<lparr>success = n > 0, error = None, host_key_changed = Some ''key''\<rparr>)
      (\<lambda>info. requestHostKeyDecision [Claim] [Resolve True]) (buildSshConnectRequest None ''c'' blank_record)"
  obtain result calls where e: "?r = (result, calls)" by (cases ?r)
  from accept_new_needs_trust [OF this] show ?thesis unfolding e by auto
qed

section \<open>Secrets\<close>

lemma cfg_secret_set:
  "f \<in> set SECRET_FIELDS \<Longrightarrow> cfg_secret (set_cfg_secret f v c) g = (if f = g then Some v else cfg_secret c g)"
  by (auto simp: SECRET_FIELDS_def cfg_secret_def set_cfg_secret_def)

lemma form_has_no_secret: "f \<in> set SECRET_FIELDS \<Longrightarrow> cfg_secret (form_of it c) f = Some []"
  by (auto simp: form_of_def SECRET_FIELDS_def cfg_secret_def set_cfg_secret_def)

lemma resolve_fields_get:
  assumes "distinct fs" "resolve_fields seal c previous n fs result = Some sec"
  shows "(f \<notin> set fs \<longrightarrow> sec f = result f) \<and>
    (f \<in> set fs \<longrightarrow> (case or_null (cfg_secret c f) of
       None \<Rightarrow> sec f = previous f | Some v \<Rightarrow> \<exists>m. seal m v = Some (sec f)))"
  using assms
proof (induction fs arbitrary: n result)
  case (Cons g fs)
  show ?case
  proof (cases "or_null (cfg_secret c g)")
    case None
    then have e: "resolve_fields seal c previous n fs (result(g := previous g)) = Some sec" using Cons.prems by simp
    have "distinct fs" using Cons.prems by simp
    from Cons.IH [OF this e] None Cons.prems(1) show ?thesis by (cases "f = g") auto
  next
    case (Some v)
    then obtain w where w: "seal n v = Some w" "resolve_fields seal c previous (Suc n) fs (result(g := w)) = Some sec"
      using Cons.prems by (auto split: option.splits)
    have "distinct fs" using Cons.prems by simp
    from Cons.IH [OF this w(2)] w(1) Some Cons.prems(1) show ?thesis by (cases "f = g") auto
  qed
qed simp

lemma SECRET_FIELDS_distinct: "distinct SECRET_FIELDS"
  by (simp add: SECRET_FIELDS_def)

text \<open>
  (C17) What the dialog stores of a secret is never what was typed: it is what was stored before if the field was left
  blank or saving is switched off, and otherwise what the backend sealed the typed text to. The other fields it stores
  are those of the form, and no other connection changes.
\<close>

theorem saved_secrets_are_kept_or_sealed:
  assumes "handleSave it seal i previous c st = Some st'" and "obj_get st i = Some old"
  shows "\<exists>new. obj_get st' i = Some new \<and>
    (\<forall>f \<in> {''password'', ''passphrase'', ''proxyPassword'', ''tunnelPassword'', ''tunnelPassphrase''}.
       cfg_secret new f = Some (previous f) \<and> (cfg_secret c f = None \<or> cfg_secret c f = Some [] \<or> \<not> isPasswordSavingAllowed it) \<or>
       (\<exists>m v w. cfg_secret c f = Some v \<and> v \<noteq> [] \<and> isPasswordSavingAllowed it \<and> seal m v = Some w \<and> cfg_secret new f = Some w)) \<and>
    cfg_vncPassword new = cfg_vncPassword old \<and> cfg_host new = cfg_host c \<and> cfg_protocol new = cfg_protocol c \<and>
    (\<forall>j. j \<noteq> i \<longrightarrow> obj_get st' j = obj_get st j)"
proof -
  obtain sec where sec: "resolveSecretsForSave it seal previous c = Some sec"
    and st': "st' = obj_set i (full_payload sec c (port_or (cfg_port c) 22) old) st"
    using assms by (auto simp: handleSave_def update_stored_def)
  let ?new = "full_payload sec c (port_or (cfg_port c) 22) old"
  have new: "cfg_secret ?new f = Some (sec f)"
    if "f \<in> {''password'', ''passphrase'', ''proxyPassword'', ''tunnelPassword'', ''tunnelPassphrase''}" for f
    using that by (auto simp: cfg_secret_def full_payload_def ssh_payload_def)
  have r: "(if isPasswordSavingAllowed it then case or_null (cfg_secret c f) of None \<Rightarrow> sec f = previous f
      | Some v \<Rightarrow> \<exists>m. seal m v = Some (sec f) else sec f = previous f)" if "f \<in> set SECRET_FIELDS" for f
    using sec resolve_fields_get [OF SECRET_FIELDS_distinct, of seal c previous 0 "\<lambda>_. []" sec f] that
    by (simp add: resolveSecretsForSave_def split: if_splits)
  have "cfg_secret ?new f = Some (previous f) \<and> (cfg_secret c f = None \<or> cfg_secret c f = Some [] \<or> \<not> isPasswordSavingAllowed it) \<or>
       (\<exists>m v w. cfg_secret c f = Some v \<and> v \<noteq> [] \<and> isPasswordSavingAllowed it \<and> seal m v = Some w \<and> cfg_secret ?new f = Some w)"
    if f: "f \<in> {''password'', ''passphrase'', ''proxyPassword'', ''tunnelPassword'', ''tunnelPassphrase''}" for f
  proof -
    have "f \<in> set SECRET_FIELDS" using f by (auto simp: SECRET_FIELDS_def)
    from r [OF this] new [OF f] show ?thesis
      by (cases "cfg_secret c f") (auto simp: or_null_def split: if_splits)
  qed
  then show ?thesis unfolding st' by (intro exI [of _ ?new]) (auto simp: full_payload_def ssh_payload_def)
qed

section \<open>Editing\<close>

text \<open>A stored connection that has every field the form fills in.\<close>

definition complete :: "conn_config \<Rightarrow> bool" where
  "complete c \<longleftrightarrow> cfg_port c \<noteq> 0 \<and> or_null (cfg_authMethod c) \<noteq> None \<and>
     cfg_password c \<noteq> None \<and> cfg_privateKeyPath c \<noteq> None \<and> cfg_passphrase c \<noteq> None \<and> cfg_proxyType c \<noteq> None \<and>
     cfg_proxyHost c \<noteq> None \<and> cfg_proxyUsername c \<noteq> None \<and> cfg_proxyPassword c \<noteq> None \<and>
     cfg_tunnelHost c \<noteq> None \<and> cfg_tunnelUsername c \<noteq> None \<and> cfg_tunnelAuthMethod c \<noteq> None \<and>
     cfg_tunnelPassword c \<noteq> None \<and> cfg_tunnelKeyPath c \<noteq> None \<and> cfg_tunnelPassphrase c \<noteq> None \<and>
     cfg_tunnelEnabled c \<noteq> None \<and> cfg_compression c \<noteq> None \<and> cfg_keepAlive c \<noteq> None \<and> cfg_proxyPort c \<noteq> None \<and>
     cfg_tunnelPort c \<noteq> None \<and> cfg_keepAliveInterval c \<noteq> None \<and> cfg_serverAliveCountMax c \<noteq> None"

definition save_unchanged ::
  "item \<Rightarrow> (nat \<Rightarrow> string \<Rightarrow> string option) \<Rightarrow> string \<Rightarrow> conn_config \<Rightarrow> conn_config obj \<Rightarrow> conn_config obj option" where
  "save_unchanged it seal i d st =
     handleSave it seal i (previousSecrets (toConnectionConfig d)) (form_of it (toConnectionConfig d)) st"

lemma resolve_blank:
  "(\<And>f. f \<in> set SECRET_FIELDS \<Longrightarrow> cfg_secret c f = Some []) \<Longrightarrow>
   \<exists>sec. resolveSecretsForSave it seal previous c = Some sec \<and> (\<forall>f \<in> set SECRET_FIELDS. sec f = previous f)"
  by (simp add: resolveSecretsForSave_def SECRET_FIELDS_def or_null_def)

lemma save_unchanged_result:
  assumes "obj_get st i = Some d"
  shows "\<exists>sec. save_unchanged it seal i d st =
      Some (obj_set i (full_payload sec (form_of it (toConnectionConfig d)) (port_or (cfg_port (form_of it (toConnectionConfig d))) 22) d) st) \<and>
    (\<forall>f \<in> set SECRET_FIELDS. sec f = previousSecrets (toConnectionConfig d) f)"
proof -
  obtain sec where "resolveSecretsForSave it seal (previousSecrets (toConnectionConfig d)) (form_of it (toConnectionConfig d)) = Some sec"
    "\<forall>f \<in> set SECRET_FIELDS. sec f = previousSecrets (toConnectionConfig d) f"
    using resolve_blank [of "form_of it (toConnectionConfig d)" it seal "previousSecrets (toConnectionConfig d)"]
      form_has_no_secret by blast
  then show ?thesis using assms by (auto simp: save_unchanged_def handleSave_def update_stored_def)
qed

lemma form_of_eq:
  "form_of it c = (mergeWithDefaults (defaultConfig it) c)\<lparr>cfg_password := Some [], cfg_passphrase := Some [],
     cfg_proxyPassword := Some [], cfg_vncPassword := Some [], cfg_tunnelPassword := Some [], cfg_tunnelPassphrase := Some []\<rparr>"
  by (simp add: form_of_def SECRET_FIELDS_def set_cfg_secret_def)

lemma kept_options:
  "v \<noteq> None \<Longrightarrow> first_of v d = v" "w \<noteq> None \<Longrightarrow> or_else w e = w"
  "x \<noteq> None \<Longrightarrow> Some (case x of None \<Rightarrow> [] | Some s \<Rightarrow> s) = x"
  "or_null y \<noteq> None \<Longrightarrow> Some (or_text y f) = y"
  by (auto simp: first_of_def or_else_def or_text_def or_null_def split: option.splits if_splits)

text \<open>
  (C18) Opening a connection in the dialog and saving it as it is leaves the stored connection exactly as it was, if it
  has all the fields the form fills in; whatever the settings and the backend.
\<close>

theorem unchanged_edit_keeps_connection:
  assumes "obj_get st i = Some d" and "complete d"
  shows "\<exists>st'. save_unchanged it seal i d st = Some st' \<and> (\<forall>j. obj_get st' j = obj_get st j)"
proof -
  obtain sec where r: "save_unchanged it seal i d st =
      Some (obj_set i (full_payload sec (form_of it (toConnectionConfig d)) (port_or (cfg_port (form_of it (toConnectionConfig d))) 22) d) st)"
    and s: "\<forall>f \<in> set SECRET_FIELDS. sec f = previousSecrets (toConnectionConfig d) f"
    using save_unchanged_result [OF assms(1)] by blast
  have "full_payload sec (form_of it (toConnectionConfig d)) (port_or (cfg_port (form_of it (toConnectionConfig d))) 22) d = d"
  proof -
    have "cfg_port d \<noteq> 0" "or_null (cfg_authMethod d) \<noteq> None" "cfg_password d \<noteq> None" "cfg_privateKeyPath d \<noteq> None"
      "cfg_passphrase d \<noteq> None" "cfg_proxyType d \<noteq> None" "cfg_proxyHost d \<noteq> None" "cfg_proxyUsername d \<noteq> None"
      "cfg_proxyPassword d \<noteq> None" "cfg_tunnelHost d \<noteq> None" "cfg_tunnelUsername d \<noteq> None" "cfg_tunnelAuthMethod d \<noteq> None"
      "cfg_tunnelPassword d \<noteq> None" "cfg_tunnelKeyPath d \<noteq> None" "cfg_tunnelPassphrase d \<noteq> None"
      "cfg_tunnelEnabled d \<noteq> None" "cfg_compression d \<noteq> None" "cfg_keepAlive d \<noteq> None" "cfg_proxyPort d \<noteq> None"
      "cfg_tunnelPort d \<noteq> None" "cfg_keepAliveInterval d \<noteq> None" "cfg_serverAliveCountMax d \<noteq> None"
      using assms(2) by (simp_all add: complete_def del: not_None_eq)
    note c = this
    have a: "cfg_authMethod d \<noteq> None" using c(2) by (auto simp: or_null_def split: option.splits)
    have p: "sec f = (case cfg_secret (toConnectionConfig d) f of None \<Rightarrow> [] | Some v \<Rightarrow> v)" if "f \<in> set SECRET_FIELDS" for f
      using s that by (simp add: previousSecrets_def)
    have q: "Some (sec ''password'') = cfg_password d" "Some (sec ''passphrase'') = cfg_passphrase d"
      "Some (sec ''proxyPassword'') = cfg_proxyPassword d" "Some (sec ''tunnelPassword'') = cfg_tunnelPassword d"
      "Some (sec ''tunnelPassphrase'') = cfg_tunnelPassphrase d"
      using c by (simp_all add: p SECRET_FIELDS_def cfg_secret_def toConnectionConfig_def kept_options del: not_None_eq)
    show ?thesis
      by (rule conn_config.equality) (use c a q in \<open>simp_all add: full_payload_def ssh_payload_def form_of_eq mergeWithDefaults_def
        toConnectionConfig_def kept_options port_or_def del: not_None_eq\<close>)
  qed
  then show ?thesis using r assms(1) by auto
qed

definition form_conn :: conn_config where
  "form_conn = (mergeWithDefaults (defaultConfig None) blank_record)\<lparr>cfg_name := ''web'', cfg_host := ''h'', cfg_port := 22,
     cfg_username := ''u'', cfg_password := Some ''v1:a:b''\<rparr>"

lemma unchanged_edit_keeps_connection_witness:
  "\<exists>st'. save_unchanged None (\<lambda>_ _. None) ''c1'' form_conn [(''c1'', form_conn)] = Some st' \<and>
     obj_get st' ''c1'' = Some form_conn"
proof -
  have "complete form_conn"
    by (simp add: complete_def form_conn_def mergeWithDefaults_def defaultConfig_def blank_record_def first_of_def or_null_def)
  moreover have g: "obj_get [(''c1'', form_conn)] ''c1'' = Some form_conn" by (simp add: obj_get_def)
  ultimately show ?thesis using unchanged_edit_keeps_connection [of "[(''c1'', form_conn)]" "''c1''" form_conn None "\<lambda>_ _. None"]
    by auto
qed

lemma saved_secrets_are_kept_or_sealed_witness:
  "\<exists>st' new. handleSave None (\<lambda>_ v. Some (''v1:'' @ v @ '':x'')) ''c1'' (previousSecrets form_conn)
      ((form_of None form_conn)\<lparr>cfg_proxyPassword := Some ''pp''\<rparr>) [(''c1'', form_conn)] = Some st' \<and>
    obj_get st' ''c1'' = Some new \<and> cfg_host new = ''h''"
proof -
  let ?c = "(form_of None form_conn)\<lparr>cfg_proxyPassword := Some ''pp''\<rparr>"
  let ?s = "\<lambda>(_::nat) v. Some (''v1:'' @ v @ '':x'')"
  have "\<exists>sec. resolveSecretsForSave None ?s (previousSecrets form_conn) ?c = Some sec"
    by (simp add: resolveSecretsForSave_def SECRET_FIELDS_def split: option.split)
  then obtain st' where h: "handleSave None ?s ''c1'' (previousSecrets form_conn) ?c [(''c1'', form_conn)] = Some st'"
    by (auto simp: handleSave_def)
  have "obj_get [(''c1'', form_conn)] ''c1'' = Some form_conn" by (simp add: obj_get_def)
  from saved_secrets_are_kept_or_sealed [OF h this] h show ?thesis
    by (auto simp: form_of_eq mergeWithDefaults_def form_conn_def)
qed

text \<open>
  A connection stored before compression was an option is opened with compression on; saving it unchanged in the
  dialog turns compression off, since the dialog's default is not the one of the request.
\<close>

theorem legacy_edit_turns_compression_off:
  assumes "obj_get st i = Some d" and "cfg_compression d = None"
  shows "compression (buildSshConnectRequest it i d) \<and>
    (\<exists>st' d'. save_unchanged it seal i d st = Some st' \<and> obj_get st' i = Some d' \<and>
       \<not> compression (buildSshConnectRequest it i d'))"
proof -
  obtain sec where r: "save_unchanged it seal i d st =
      Some (obj_set i (full_payload sec (form_of it (toConnectionConfig d)) (port_or (cfg_port (form_of it (toConnectionConfig d))) 22) d) st)"
    using save_unchanged_result [OF assms(1)] by blast
  then show ?thesis using assms(2)
    by (simp add: buildSshConnectRequest_def Let_def full_payload_def ssh_payload_def form_of_eq mergeWithDefaults_def
      toConnectionConfig_def first_of_def defaultConfig_def)
qed

lemma legacy_edit_turns_compression_off_witness:
  "\<exists>st'. save_unchanged None (\<lambda>_ _. None) ''c1'' blank_record [(''c1'', blank_record)] = Some st' \<and>
     (\<exists>d'. obj_get st' ''c1'' = Some d' \<and> \<not> compression (buildSshConnectRequest None ''c1'' d'))"
proof -
  have "obj_get [(''c1'', blank_record)] ''c1'' = Some blank_record" "cfg_compression blank_record = None"
    by (simp_all add: obj_get_def blank_record_def)
  from legacy_edit_turns_compression_off [OF this, of None "\<lambda>_ _. None"] show ?thesis by blast
qed

end
