(* ===== verification/FileDrop.thy ===== *)
theory FileDrop
  imports Json
begin

text \<open>
  Files dropped on the window: the dispatcher and the hook of \<open>src/src/lib/use-webview-file-drop.ts\<close>. A subscriber is
  identified by the id of its hook; \<open>zone i\<close> is the rectangle of its element when the event comes, \<open>None\<close> without an
  element. Coordinates are exact; \<open>dpr\<close> is the ratio of physical to CSS pixels. The removal of the old listener before
  a new one is registered is taken to be immediate.
\<close>

section \<open>The dispatcher\<close>

record subscriber =
  sub_id :: nat
  enabled :: bool
  priority :: int

record zone_rect =
  left :: rat
  right :: rat
  top :: rat
  bottom :: rat

definition inside :: "rat \<Rightarrow> rat \<Rightarrow> zone_rect \<Rightarrow> bool" where
  "inside x y r \<longleftrightarrow> \<not> (x < left r \<or> x > right r \<or> y < top r \<or> y > bottom r)"

definition hits :: "(nat \<Rightarrow> zone_rect option) \<Rightarrow> rat \<Rightarrow> rat \<Rightarrow> subscriber \<Rightarrow> bool" where
  "hits zone x y s \<longleftrightarrow> enabled s \<and> (case zone (sub_id s) of None \<Rightarrow> False | Some r \<Rightarrow> inside x y r)"

definition beats :: "subscriber \<Rightarrow> subscriber \<Rightarrow> bool" where
  "beats s w \<longleftrightarrow> priority s > priority w \<or> priority s = priority w \<and> sub_id s > sub_id w"

definition hit_step ::
  "(nat \<Rightarrow> zone_rect option) \<Rightarrow> rat \<Rightarrow> rat \<Rightarrow> subscriber option \<Rightarrow> subscriber \<Rightarrow> subscriber option" where
  "hit_step zone x y winner s =
     (if \<not> hits zone x y s then winner
      else (case winner of None \<Rightarrow> Some s | Some w \<Rightarrow> if beats s w then Some s else winner))"

definition hitTest :: "(nat \<Rightarrow> zone_rect option) \<Rightarrow> rat \<Rightarrow> rat \<Rightarrow> subscriber list \<Rightarrow> subscriber option" where
  "hitTest zone x y subs = foldl (hit_step zone x y) None subs"

definition pickWinner ::
  "(nat \<Rightarrow> zone_rect option) \<Rightarrow> rat \<Rightarrow> rat \<Rightarrow> rat \<Rightarrow> subscriber list \<Rightarrow> subscriber option" where
  "pickWinner zone ratio rawX rawY subs =
     (let dpr = (if ratio = 0 then 1 else ratio)
      in case (if dpr \<noteq> 1 then hitTest zone (rawX / dpr) (rawY / dpr) subs else None) of
           Some w \<Rightarrow> Some w
         | None \<Rightarrow> hitTest zone rawX rawY subs)"

record drop_state =
  subscribers :: "subscriber list"
  dragOver :: "nat set"
  refCount :: nat
  nextId :: nat
  listening :: bool
  delivered :: "(nat \<times> string list) list"

datatype drag_event = Leave | Hover rat rat | Drop rat rat "string list"

definition dispatch_drag :: "(nat \<Rightarrow> zone_rect option) \<Rightarrow> rat \<Rightarrow> drag_event \<Rightarrow> drop_state \<Rightarrow> drop_state" where
  "dispatch_drag zone dpr e s =
     (case e of
        Leave \<Rightarrow> s\<lparr>dragOver := dragOver s - sub_id ` set (subscribers s)\<rparr>
      | Hover x y \<Rightarrow>
          s\<lparr>dragOver := (dragOver s - sub_id ` set (subscribers s)) \<union>
             (case pickWinner zone dpr x y (subscribers s) of Some w \<Rightarrow> {sub_id w} | None \<Rightarrow> {})\<rparr>
      | Drop x y paths \<Rightarrow>
          s\<lparr>dragOver := dragOver s - sub_id ` set (subscribers s),
            delivered := delivered s @ (case pickWinner zone dpr x y (subscribers s) of
               Some w \<Rightarrow> if paths \<noteq> [] then [(sub_id w, paths)] else [] | None \<Rightarrow> [])\<rparr>)"

section \<open>The hook\<close>

definition subscribe_sub :: "subscriber \<Rightarrow> drop_state \<Rightarrow> drop_state" where
  "subscribe_sub sub s = s\<lparr>subscribers := subscribers s @ [sub], refCount := refCount s + 1, listening := True\<rparr>"

definition cleanup_sub :: "nat \<Rightarrow> drop_state \<Rightarrow> drop_state" where
  "cleanup_sub i s =
     s\<lparr>subscribers := filter (\<lambda>x. sub_id x \<noteq> i) (subscribers s), refCount := refCount s - 1,
       dragOver := dragOver s - {i}, listening := (if refCount s \<le> 1 then False else listening s)\<rparr>"

text \<open>
  A hook mounts, renders with new options (which subscribes anew when \<open>enabled\<close> or \<open>priority\<close> change), unmounts, or
  clears its overlay, by itself or after ten seconds. Events of hooks that are not mounted do not occur.
\<close>

datatype drop_action =
    Mount bool int
  | Rerender nat bool int
  | Unmount nat
  | ClearDragOver nat
  | Dragged "nat \<Rightarrow> zone_rect option" rat drag_event

definition mounted :: "nat \<Rightarrow> drop_state \<Rightarrow> bool" where
  "mounted i s \<longleftrightarrow> i \<in> sub_id ` set (subscribers s)"

fun drop_step :: "drop_state \<Rightarrow> drop_action \<Rightarrow> drop_state" where
  "drop_step s (Mount b p) = subscribe_sub \<lparr>sub_id = nextId s, enabled = b, priority = p\<rparr> (s\<lparr>nextId := nextId s + 1\<rparr>)"
| "drop_step s (Rerender i b p) =
     (if \<not> mounted i s \<or> \<lparr>sub_id = i, enabled = b, priority = p\<rparr> \<in> set (subscribers s) then s
      else subscribe_sub \<lparr>sub_id = i, enabled = b, priority = p\<rparr> (cleanup_sub i s))"
| "drop_step s (Unmount i) = (if mounted i s then cleanup_sub i s else s)"
| "drop_step s (ClearDragOver i) = s\<lparr>dragOver := dragOver s - {i}\<rparr>"
| "drop_step s (Dragged zone dpr e) = (if listening s then dispatch_drag zone dpr e s else s)"

definition no_subscribers :: drop_state where
  "no_subscribers = \<lparr>subscribers = [], dragOver = {}, refCount = 0, nextId = 1, listening = False, delivered = []\<rparr>"

section \<open>The winner\<close>

definition is_best :: "(nat \<Rightarrow> zone_rect option) \<Rightarrow> rat \<Rightarrow> rat \<Rightarrow> subscriber list \<Rightarrow> subscriber option \<Rightarrow> bool" where
  "is_best zone x y subs winner =
     (case winner of
        None \<Rightarrow> list_all (\<lambda>s. \<not> hits zone x y s) subs
      | Some w \<Rightarrow> w \<in> set subs \<and> hits zone x y w \<and> list_all (\<lambda>s. hits zone x y s \<longrightarrow> \<not> beats s w) subs)"

lemma beats_trans: "beats a b \<Longrightarrow> beats b c \<Longrightarrow> beats a c"
  by (auto simp: beats_def)

lemma hit_fold:
  "is_best zone x y done_subs w \<Longrightarrow> is_best zone x y (done_subs @ subs) (foldl (hit_step zone x y) w subs)"
proof (induction subs arbitrary: done_subs w)
  case (Cons s subs)
  have "is_best zone x y (done_subs @ [s]) (hit_step zone x y w s)"
  proof (cases "hits zone x y s")
    case False
    then have "hit_step zone x y w s = w" by (simp add: hit_step_def)
    with Cons.prems False show ?thesis by (cases w) (simp_all add: is_best_def)
  next
    case True
    show ?thesis
    proof (cases w)
      case None
      with True Cons.prems show ?thesis by (auto simp: hit_step_def is_best_def list_all_iff beats_def)
    next
      case (Some v)
      show ?thesis
      proof (cases "beats s v")
        case b: True
        have "\<not> beats t s" if "\<not> beats t v" for t using that b by (auto simp: beats_def)
        with b True Some Cons.prems show ?thesis by (auto simp: hit_step_def is_best_def list_all_iff beats_def)
      next
        case False
        with True Some Cons.prems show ?thesis by (auto simp: hit_step_def is_best_def list_all_iff)
      qed
    qed
  qed
  from Cons.IH [OF this] show ?case by simp
qed simp

lemma hitTest_best: "is_best zone x y subs (hitTest zone x y subs)"
  using hit_fold [of zone x y "[]" None subs] by (simp add: hitTest_def is_best_def)

definition drop_ok :: "drop_state \<Rightarrow> bool" where
  "drop_ok s \<longleftrightarrow> distinct (map sub_id (subscribers s)) \<and> refCount s = length (subscribers s) \<and>
     (listening s \<longleftrightarrow> subscribers s \<noteq> []) \<and> (\<forall>x \<in> set (subscribers s). sub_id x < nextId s) \<and>
     dragOver s \<subseteq> sub_id ` set (subscribers s) \<and> (\<forall>a \<in> dragOver s. \<forall>b \<in> dragOver s. a = b)"

lemma pickWinner_mem: "pickWinner zone dpr x y subs = Some w \<Longrightarrow> w \<in> set subs"
  using hitTest_best by (fastforce simp: pickWinner_def Let_def is_best_def split: option.splits if_splits)

lemma filter_one_less:
  "distinct (map sub_id xs) \<Longrightarrow> i \<in> sub_id ` set xs \<Longrightarrow> length (filter (\<lambda>x. sub_id x \<noteq> i) xs) = length xs - 1"
proof (induction xs)
  case (Cons x xs)
  show ?case
  proof (cases "sub_id x = i")
    case True
    then have "filter (\<lambda>x. sub_id x \<noteq> i) xs = xs" using Cons.prems by (auto simp: image_iff intro!: filter_True)
    with True show ?thesis by simp
  next
    case False
    with Cons show ?thesis by (cases xs) auto
  qed
qed simp

lemma cleanup_ok: "drop_ok s \<Longrightarrow> mounted i s \<Longrightarrow> drop_ok (cleanup_sub i s) \<and> \<not> mounted i (cleanup_sub i s) \<and>
   nextId (cleanup_sub i s) = nextId s"
proof -
  assume s: "drop_ok s" "mounted i s"
  let ?f = "filter (\<lambda>x. sub_id x \<noteq> i) (subscribers s)"
  have l: "length ?f = length (subscribers s) - 1"
    using s by (intro filter_one_less) (auto simp: drop_ok_def mounted_def)
  have n: "subscribers s \<noteq> []" using s by (auto simp: mounted_def)
  have "?f \<noteq> [] \<longleftrightarrow> \<not> length (subscribers s) \<le> 1" using l by (metis diff_is_0_eq length_0_conv)
  then show ?thesis using s l n by (auto simp: drop_ok_def cleanup_sub_def mounted_def distinct_map_filter)
qed

lemma subscribe_ok:
  "drop_ok s \<Longrightarrow> \<not> mounted (sub_id x) s \<Longrightarrow> sub_id x < nextId s \<Longrightarrow> drop_ok (subscribe_sub x s)"
  by (auto simp: drop_ok_def subscribe_sub_def mounted_def)

lemma dispatch_ok: "drop_ok s \<Longrightarrow> drop_ok (dispatch_drag zone dpr e s)"
  by (cases e) (auto simp: drop_ok_def dispatch_drag_def split: option.splits dest: pickWinner_mem)

lemma drop_step_ok: "drop_ok s \<Longrightarrow> drop_ok (drop_step s a)"
proof (cases a)
  case (Mount b p)
  assume s: "drop_ok s"
  then have "drop_ok (s\<lparr>nextId := nextId s + 1\<rparr>)" by (auto simp: drop_ok_def)
  moreover have "\<not> mounted (nextId s) (s\<lparr>nextId := nextId s + 1\<rparr>)" using s by (auto simp: drop_ok_def mounted_def)
  ultimately show ?thesis unfolding Mount drop_step.simps by (intro subscribe_ok) simp_all
next
  case (Rerender i b p)
  assume s: "drop_ok s"
  show ?thesis
  proof (cases "mounted i s")
    case True
    then have "i < nextId s" using s by (auto simp: drop_ok_def mounted_def)
    with cleanup_ok [OF s True] show ?thesis unfolding Rerender drop_step.simps using s by (auto intro!: subscribe_ok)
  qed (use s Rerender in simp)
qed (auto simp: dispatch_ok cleanup_ok, auto simp: drop_ok_def)

interpretation file_drop: action_machine drop_step drop_ok "\<lambda>_ _. True"
  by unfold_locales (rule drop_step_ok)

lemma all_drop_actions: "ok_run step (\<lambda>_ _. True) s es"
  by (induction es arbitrary: s) auto

lemma drop_reachable_ok: "drop_ok (run_actions drop_step no_subscribers as)"
  by (rule file_drop.run_inv [OF _ all_drop_actions]) (simp add: drop_ok_def no_subscribers_def)

text \<open>
  Whatever panels come and go, at most one of them shows the overlay and it is mounted; the window listens exactly
  while a panel is mounted; and after a drop or a leave no overlay stays.
\<close>

theorem one_overlay_at_most:
  "case run_actions drop_step no_subscribers as of s \<Rightarrow>
     (\<exists>i. dragOver s \<subseteq> {i}) \<and> dragOver s \<subseteq> sub_id ` set (subscribers s) \<and>
     (listening s \<longleftrightarrow> subscribers s \<noteq> []) \<and> distinct (map sub_id (subscribers s)) \<and>
     dragOver (drop_step s (Dragged zone dpr Leave)) = {} \<and> dragOver (drop_step s (Dragged zone dpr (Drop x y paths))) = {}"
proof -
  have ok: "drop_ok (run_actions drop_step no_subscribers as)" by (rule drop_reachable_ok)
  have "\<exists>i. A \<subseteq> {i}" if "\<forall>a \<in> A. \<forall>b \<in> A. a = b" for A :: "nat set" using that by blast
  with ok have "\<exists>i. dragOver (run_actions drop_step no_subscribers as) \<subseteq> {i}" unfolding drop_ok_def by blast
  with ok show ?thesis by (auto simp: drop_ok_def dispatch_drag_def)
qed

text \<open>
  A drop goes to one panel at most: an enabled one whose zone contains the pointer, and of these the one of the
  highest priority, the latest mounted one first; with paths, and only then, it is delivered.
\<close>

theorem drop_goes_to_best_zone:
  assumes "listening s" and "dpr = 1"
  shows "\<exists>w. delivered (drop_step s (Dragged zone dpr (Drop x y paths))) =
      delivered s @ (case w of Some b \<Rightarrow> if paths = [] then [] else [(sub_id b, paths)] | None \<Rightarrow> []) \<and>
    (case w of
       None \<Rightarrow> list_all (\<lambda>s. \<not> hits zone x y s) (subscribers s)
     | Some b \<Rightarrow> b \<in> set (subscribers s) \<and> hits zone x y b \<and>
         list_all (\<lambda>s. hits zone x y s \<longrightarrow> priority s < priority b \<or> priority s = priority b \<and> sub_id s \<le> sub_id b) (subscribers s))"
proof (intro exI conjI)
  let ?w = "hitTest zone x y (subscribers s)"
  show "delivered (drop_step s (Dragged zone dpr (Drop x y paths))) =
      delivered s @ (case ?w of Some b \<Rightarrow> if paths = [] then [] else [(sub_id b, paths)] | None \<Rightarrow> [])"
    using assms by (simp add: dispatch_drag_def pickWinner_def split: option.split)
  show "case ?w of
       None \<Rightarrow> list_all (\<lambda>s. \<not> hits zone x y s) (subscribers s)
     | Some b \<Rightarrow> b \<in> set (subscribers s) \<and> hits zone x y b \<and>
         list_all (\<lambda>s. hits zone x y s \<longrightarrow> priority s < priority b \<or> priority s = priority b \<and> sub_id s \<le> sub_id b) (subscribers s)"
    using hitTest_best [of zone x y "subscribers s"]
    by (auto simp: is_best_def list_all_iff beats_def split: option.splits)
qed

definition demo_zone :: "nat \<Rightarrow> zone_rect option" where
  "demo_zone i = (if i = 1 then Some \<lparr>left = 150, right = 300, top = 150, bottom = 300\<rparr> else None)"

lemma drop_goes_to_best_zone_witness:
  "length (delivered (drop_step (run_actions drop_step no_subscribers [Mount True 0])
     (Dragged demo_zone 1 (Drop 200 200 [''f''])))) \<le> 1"
proof -
  let ?s = "run_actions drop_step no_subscribers [Mount True 0]"
  have "listening ?s" "delivered ?s = []" by (simp_all add: subscribe_sub_def no_subscribers_def)
  with drop_goes_to_best_zone [of ?s 1 demo_zone 200 200 "[''f'']"] show ?thesis
    by (auto split: option.splits)
qed

text \<open>
  On a scaled display a drop beside every zone can still be delivered: when the pointer, converted to CSS pixels,
  is in no zone, the unconverted coordinates are tried, and they may lie in a zone the pointer is not over.
\<close>

theorem scaled_drop_hits_wrong_zone:
  "\<not> inside (200 / 2) (200 / 2) (the (demo_zone 1)) \<and>
   delivered (run_actions drop_step no_subscribers [Mount True 0, Dragged demo_zone 2 (Drop 200 200 [''f''])]) = [(1, [''f''])]"
  by (simp add: demo_zone_def inside_def subscribe_sub_def no_subscribers_def dispatch_drag_def pickWinner_def hitTest_def
    hit_step_def hits_def)

end
