(* ===== verification/EditorWindows.thy ===== *)
theory EditorWindows
  imports Storage "HOL-Library.Word"
begin

text \<open>
  The windows of the file editor: \<open>src/src/lib/editor-windows-store.ts\<close>. A window is named by a hash of connection and
  path, kept at its 32 bits; the characters of a path are its code units (below 256 here). The store is read and
  written as a whole; entries that are not three texts are dropped on reading.
\<close>

unbundle bit_operations_syntax

section \<open>The name of a window\<close>

definition hash_step :: "32 word \<Rightarrow> char \<Rightarrow> 32 word" where
  "hash_step hash c = push_bit 5 hash + hash + of_nat (of_char c)"

fun base36 :: "nat \<Rightarrow> string" where
  "base36 n = (if n < 36 then [''0123456789abcdefghijklmnopqrstuvwxyz'' ! n]
     else base36 (n div 36) @ [''0123456789abcdefghijklmnopqrstuvwxyz'' ! (n mod 36)])"

declare base36.simps [simp del]

definition editorWindowKey :: "string \<Rightarrow> string \<Rightarrow> string" where
  "editorWindowKey connectionId filePath =
     base36 (unat (foldl hash_step 5381 (connectionId @ ''|'' @ filePath)))"

definition editorWindowLabel :: "string \<Rightarrow> string \<Rightarrow> string" where
  "editorWindowLabel connectionId filePath = ''file-viewer-'' @ editorWindowKey connectionId filePath"

section \<open>The open editors\<close>

record open_editor =
  ed_connection :: string
  ed_path :: string
  ed_name :: string

definition keyOf :: "open_editor \<Rightarrow> string" where
  "keyOf e = editorWindowKey (ed_connection e) (ed_path e)"

definition parse_editor :: "json \<Rightarrow> open_editor option" where
  "parse_editor v =
     (case (js_prop v ''connectionId'', js_prop v ''filePath'', js_prop v ''fileName'') of
        (Some (JStr c), Some (JStr p), Some (JStr n)) \<Rightarrow> Some \<lparr>ed_connection = c, ed_path = p, ed_name = n\<rparr>
      | _ \<Rightarrow> None)"

definition print_editor :: "open_editor \<Rightarrow> json" where
  "print_editor e = JObj [(''connectionId'', JStr (ed_connection e)), (''filePath'', JStr (ed_path e)),
     (''fileName'', JStr (ed_name e))]"

definition loadOpenEditors :: "item \<Rightarrow> open_editor list" where
  "loadOpenEditors it = (case it of Some (Some (JArr vs)) \<Rightarrow> List.map_filter parse_editor vs | _ \<Rightarrow> [])"

definition persist_editors :: "bool \<Rightarrow> open_editor list \<Rightarrow> item \<Rightarrow> item" where
  "persist_editors write_ok es it = (if write_ok then Some (Some (JArr (map print_editor es))) else it)"

definition addOpenEditor :: "bool \<Rightarrow> open_editor \<Rightarrow> item \<Rightarrow> item" where
  "addOpenEditor write_ok e it =
     persist_editors write_ok (filter (\<lambda>x. keyOf x \<noteq> keyOf e) (loadOpenEditors it) @ [e]) it"

definition removeOpenEditor :: "bool \<Rightarrow> open_editor \<Rightarrow> item \<Rightarrow> item" where
  "removeOpenEditor write_ok e it =
     persist_editors write_ok (filter (\<lambda>x. keyOf x \<noteq> keyOf e) (loadOpenEditors it)) it"

section \<open>The hash\<close>

lemma base36_digits_distinct: "distinct ''0123456789abcdefghijklmnopqrstuvwxyz''"
  by code_simp

lemma base36_ne: "base36 n \<noteq> []"
  by (subst base36.simps) simp

lemma base36_inject: "base36 m = base36 n \<Longrightarrow> m = n"
proof (induction m arbitrary: n rule: less_induct)
  case (less m)
  let ?d = "''0123456789abcdefghijklmnopqrstuvwxyz''"
  have len: "length ?d = 36" by simp
  have last: "last (base36 k) = ?d ! (k mod 36)" for k by (subst base36.simps) simp
  have but: "butlast (base36 k) = (if k < 36 then [] else base36 (k div 36))" for k by (subst base36.simps) simp
  have "?d ! (m mod 36) = ?d ! (n mod 36)" using less.prems last by metis
  then have mod: "m mod 36 = n mod 36" using base36_digits_distinct len by (simp add: nth_eq_iff_index_eq)
  have b: "(if m < 36 then [] else base36 (m div 36)) = (if n < 36 then [] else base36 (n div 36))"
    using less.prems but by metis
  show ?case
  proof (cases "m < 36")
    case True
    then have "n < 36" using b base36_ne [of "n div 36"] by (metis (full_types))
    with True mod show ?thesis by simp
  next
    case False
    then have n: "\<not> n < 36" "base36 (m div 36) = base36 (n div 36)"
      using b base36_ne [of "m div 36"] by (metis (full_types))+
    have "m div 36 < m" using False by simp
    from less.IH [OF this n(2)] mod show ?thesis by (metis div_mult_mod_eq)
  qed
qed

lemma hash_step_33: "hash_step h c = 33 * h + of_nat (of_char c)"
  by (simp add: hash_step_def push_bit_eq_mult algebra_simps)

fun polynomial :: "nat \<Rightarrow> string \<Rightarrow> nat" where
  "polynomial h [] = h"
| "polynomial h (c # cs) = polynomial (33 * h + of_char c) cs"

lemma hash_polynomial: "foldl hash_step (of_nat h) s = (of_nat (polynomial h s) :: 32 word)"
proof (induction s arbitrary: h)
  case (Cons c s)
  have step: "hash_step (of_nat h) c = (of_nat (33 * h + of_char c) :: 32 word)" by (simp add: hash_step_33)
  show ?case unfolding foldl.simps polynomial.simps step by (rule Cons.IH)
qed simp

text \<open>
  The name of a window is the base-36 text of a polynomial in 33 over the code units of connection and path, taken
  modulo \<open>2 ^ 32\<close>; two windows have the same name exactly if these numbers agree.
\<close>

theorem window_name_is_polynomial:
  "editorWindowKey c p = base36 (polynomial 5381 (c @ ''|'' @ p) mod 2 ^ 32) \<and>
   (editorWindowLabel c p = editorWindowLabel d q \<longleftrightarrow>
      polynomial 5381 (c @ ''|'' @ p) mod 2 ^ 32 = polynomial 5381 (d @ ''|'' @ q) mod 2 ^ 32)"
proof -
  have k: "editorWindowKey c p = base36 (polynomial 5381 (c @ ''|'' @ p) mod 2 ^ 32)" for c p
    using hash_polynomial [of 5381 "c @ ''|'' @ p"] by (simp add: editorWindowKey_def unat_of_nat)
  then show ?thesis by (auto simp: editorWindowLabel_def dest: base36_inject)
qed

lemma polynomial_append: "polynomial h (s @ t) = polynomial (polynomial h s) t"
  by (induction s arbitrary: h) auto

text \<open>
  Different files share a window: two paths that differ only in \<open>Ab\<close> against \<open>BA\<close> at the same place have the same
  name, so opening the one while the other is open concerns the wrong file, and the store forgets one of them.
\<close>

theorem different_files_share_a_window:
  "editorWindowLabel c (p @ ''Ab'' @ t) = editorWindowLabel c (p @ ''BA'' @ t) \<and>
   loadOpenEditors
     (addOpenEditor True \<lparr>ed_connection = c, ed_path = p @ ''BA'' @ t, ed_name = n\<rparr>
       (addOpenEditor True \<lparr>ed_connection = c, ed_path = p @ ''Ab'' @ t, ed_name = m\<rparr> None)) =
   [\<lparr>ed_connection = c, ed_path = p @ ''BA'' @ t, ed_name = n\<rparr>]"
proof -
  have h: "foldl hash_step h ''Ab'' = foldl hash_step h ''BA''" for h
    by (simp add: hash_step_33 algebra_simps)
  have s: "c @ ''|'' @ p @ u @ t = (c @ ''|'' @ p) @ u @ t" for u by simp
  have k: "editorWindowKey c (p @ ''Ab'' @ t) = editorWindowKey c (p @ ''BA'' @ t)"
    unfolding editorWindowKey_def s foldl_append h ..
  then show ?thesis
    by (simp add: editorWindowLabel_def addOpenEditor_def persist_editors_def loadOpenEditors_def map_filter_simps
      print_editor_def parse_editor_def obj_get_def keyOf_def del: append_Cons append_assoc)
qed

section \<open>The store is a map from window names\<close>

lemma parse_print [simp]: "parse_editor (print_editor e) = Some e"
  by (simp add: parse_editor_def print_editor_def obj_get_def)

lemma load_persist [simp]: "loadOpenEditors (persist_editors True es it) = es"
  by (induction es) (simp_all add: loadOpenEditors_def persist_editors_def map_filter_simps)

lemma find_by_snoc_fresh: "find_by ident xs (ident v) = None \<Longrightarrow> find_by ident (xs @ [v]) = (find_by ident xs)(ident v \<mapsto> v)"
  by (rule ext) (auto simp: find_by_append split: option.split)

definition drop_editor :: "string \<Rightarrow> item \<Rightarrow> item" where
  "drop_editor k it = persist_editors True (filter (\<lambda>x. keyOf x \<noteq> k) (loadOpenEditors it)) it"

interpretation editors: keyed_store loadOpenEditors keyOf "addOpenEditor True" drop_editor "\<lambda>_. True"
proof unfold_locales
  fix v it
  have "find_by keyOf (filter (\<lambda>x. keyOf x \<noteq> keyOf v) (loadOpenEditors it)) (keyOf v) = None"
    by (simp add: find_by_filter)
  from find_by_snoc_fresh [OF this]
  show "find_by keyOf (loadOpenEditors (addOpenEditor True v it)) = (find_by keyOf (loadOpenEditors it))(keyOf v \<mapsto> v)"
    by (simp add: addOpenEditor_def find_by_filter)
next
  fix k it
  show "find_by keyOf (loadOpenEditors (drop_editor k it)) = (find_by keyOf (loadOpenEditors it))(k := None)"
    by (simp add: drop_editor_def find_by_filter)
qed

lemma one_entry_per_window:
  "distinct (map keyOf (loadOpenEditors it)) \<Longrightarrow> distinct (map keyOf (loadOpenEditors (addOpenEditor True e it)))"
  by (auto simp: addOpenEditor_def distinct_map_filter)

lemma any_editor_fits: "fit_command (\<lambda>_. True) c"
  by (cases c) simp_all

lemma reported_windows:
  "find_by keyOf (loadOpenEditors (fold (run_command (addOpenEditor True) drop_editor) cs it)) =
   fold (map_command keyOf) cs (find_by keyOf (loadOpenEditors it))"
  by (rule editors.find_run) (simp add: list_all_iff any_editor_fits)

end
