(* ===== verification/ShortcutHook.thy ===== *)
theory ShortcutHook
  imports Shortcuts
begin

text \<open>
  Registration of the shortcuts with the operating system: \<open>registerGlobalShortcuts\<close> of
  \<open>src/src/lib/keyboard-shortcuts.ts\<close>. One window's hook is a state machine over its events. The
  plugin's calls are queued per accelerator (\<open>pendingOps\<close>): the head of a queue is in flight and its
  completion, with its result, is an event. \<open>owned\<close> is what the system holds for the app. The
  parameters \<open>mac\<close> and \<open>scs\<close> are the platform and the current shortcut list.
\<close>

section \<open>What should be registered\<close>

datatype focus_context = AppFocus | TerminalFocus | EditableFocus

definition menu_excluded :: "bool \<Rightarrow> shortcut \<Rightarrow> string \<Rightarrow> bool" where
  "menu_excluded mac sc accel \<longleftrightarrow> mac \<and> (accel = ''F5'' \<or>
     (case macMenuChord (chord_of sc) of
        Some m \<Rightarrow> m \<in> set MACOS_MENU_OWNED_ACCELERATORS \<or> m \<in> set MACOS_IN_WINDOW_CHORDS
      | None \<Rightarrow> False))"

definition add_accelerator :: "bool \<Rightarrow> (string \<times> shortcut) list \<Rightarrow> shortcut \<Rightarrow> (string \<times> shortcut) list" where
  "add_accelerator mac m sc =
     (case acceleratorForShortcut sc of
        None \<Rightarrow> m
      | Some a \<Rightarrow> if menu_excluded mac sc a then m else if map_of m a = None then m @ [(a, sc)] else m)"

definition byAccelerator :: "bool \<Rightarrow> shortcut list \<Rightarrow> (string \<times> shortcut) list" where
  "byAccelerator mac scs = foldl (add_accelerator mac) [] scs"

definition desiredAccelerators ::
  "bool \<Rightarrow> shortcut list \<Rightarrow> bool \<Rightarrow> bool \<Rightarrow> focus_context \<Rightarrow> (string \<times> shortcut) list" where
  "desiredAccelerators mac scs appFocused sibling focus =
     (if \<not> appFocused \<and> sibling then []
      else if \<not> appFocused then filter (\<lambda>(_, sc). or_false (globalInBackground sc)) (byAccelerator mac scs)
      else case focus of
             EditableFocus \<Rightarrow> []
           | TerminalFocus \<Rightarrow> filter (\<lambda>(_, sc). \<not> or_false (ignoreInTerminal sc)) (byAccelerator mac scs)
           | AppFocus \<Rightarrow> byAccelerator mac scs)"

text \<open>What runs when the system reports a press: resolved at that time.\<close>

definition on_pressed :: "shortcut list \<Rightarrow> string \<Rightarrow> string option" where
  "on_pressed scs a = map_option handler (find (\<lambda>s. acceleratorForShortcut s = Some a) scs)"

section \<open>The state machine\<close>

datatype os_op = Register | Unregister

record hook =
  registered :: "(string \<times> shortcut) list"
  failed :: "string list"
  appFocused :: bool
  siblingWindowFocused :: bool
  disposed :: bool
  polling :: bool
  verifying :: "string list list"
  pendingOps :: "string \<Rightarrow> os_op list"
  owned :: "string \<Rightarrow> bool"
  toasts :: "string list"

definition init_hook :: hook where
  "init_hook = \<lparr>registered = [], failed = [], appFocused = True, siblingWindowFocused = False,
     disposed = False, polling = False, verifying = [], pendingOps = (\<lambda>_. []), owned = (\<lambda>_. False), toasts = []\<rparr>"

definition serializeOp :: "string \<Rightarrow> os_op \<Rightarrow> hook \<Rightarrow> hook" where
  "serializeOp accel op h = h\<lparr>pendingOps := (pendingOps h)(accel := pendingOps h accel @ [op])\<rparr>"

definition drop_accel :: "string \<times> shortcut \<Rightarrow> hook \<Rightarrow> hook" where
  "drop_accel p h = serializeOp (fst p) Unregister
     (h\<lparr>registered := filter (\<lambda>q. fst q \<noteq> fst p) (registered h)\<rparr>)"

definition add_accel :: "string \<times> shortcut \<Rightarrow> hook \<Rightarrow> hook" where
  "add_accel p h =
     (if map_of (registered h) (fst p) \<noteq> None then h
      else serializeOp (fst p) Register (h\<lparr>registered := registered h @ [p]\<rparr>))"

definition sync :: "bool \<Rightarrow> shortcut list \<Rightarrow> focus_context \<Rightarrow> hook \<Rightarrow> hook" where
  "sync mac scs focus h =
     (let desired = desiredAccelerators mac scs (appFocused h) (siblingWindowFocused h) focus;
          h1 = fold drop_accel (filter (\<lambda>p. map_of desired (fst p) = None) (registered h)) h
      in fold add_accel desired h1)"

datatype hook_event =
    Sync focus_context
  | WindowFocus focus_context
  | WindowBlur focus_context
  | SiblingAnswer bool focus_context
  | OpDone string bool bool
  | VerifyStart
  | VerifyAnswer nat bool
  | Dispose

text \<open>
  \<open>verifying\<close>: for each verification pass the accelerators it still has to ask about;
  \<open>VerifyAnswer n ours\<close> answers the next question of the n-th pass.
  \<open>OpDone a ok ours\<close>: the call in flight for \<open>a\<close> succeeded or not; after a failed registration
  \<open>isRegistered\<close> answers \<open>ours\<close>.
\<close>

definition op_done :: "string \<Rightarrow> bool \<Rightarrow> bool \<Rightarrow> hook \<Rightarrow> hook" where
  "op_done a ok ours h =
     (case pendingOps h a of
        [] \<Rightarrow> h
      | op # rest \<Rightarrow>
          let h1 = h\<lparr>pendingOps := (pendingOps h)(a := rest),
                     owned := (if ok then (owned h)(a := (op = Register)) else owned h)\<rparr>
          in if op = Unregister then h1
             else if ok \<or> ours then h1\<lparr>failed := removeAll a (failed h1)\<rparr>
             else if a \<in> set (failed h1) then h1\<lparr>registered := filter (\<lambda>q. fst q \<noteq> a) (registered h1)\<rparr>
             else h1\<lparr>registered := filter (\<lambda>q. fst q \<noteq> a) (registered h1), failed := a # failed h1,
                     toasts := toasts h1 @ [a]\<rparr>)"

text \<open>
  Once the hook is disposed, its listeners and timers are gone and the answers that are still to come
  are dropped; queued calls run on.
\<close>

definition applyWindowFocus :: "bool \<Rightarrow> shortcut list \<Rightarrow> bool \<Rightarrow> focus_context \<Rightarrow> hook \<Rightarrow> hook" where
  "applyWindowFocus mac scs focused focus h =
     (if focused
      then sync mac scs focus (h\<lparr>appFocused := True, polling := False, siblingWindowFocused := False\<rparr>)
      else sync mac scs focus (h\<lparr>appFocused := False\<rparr>))"

definition refreshSiblingFocus :: "bool \<Rightarrow> shortcut list \<Rightarrow> bool \<Rightarrow> focus_context \<Rightarrow> hook \<Rightarrow> hook" where
  "refreshSiblingFocus mac scs sibling focus h =
     (if disposed h then h
      else let h1 = sync mac scs focus (h\<lparr>siblingWindowFocused := sibling\<rparr>)
           in if \<not> appFocused h1 then h1\<lparr>polling := True\<rparr> else h1)"

definition verify_start :: "hook \<Rightarrow> hook" where
  "verify_start h = (if disposed h then h else h\<lparr>verifying := verifying h @ [map fst (registered h)]\<rparr>)"

definition verify_answer :: "nat \<Rightarrow> bool \<Rightarrow> hook \<Rightarrow> hook" where
  "verify_answer n ours h =
     (if n < length (verifying h) then
        (case verifying h ! n of
           [] \<Rightarrow> h
         | a # rest \<Rightarrow>
             if disposed h \<or> map_of (registered h) a = None then h\<lparr>verifying := (verifying h)[n := []]\<rparr>
             else if ours then h\<lparr>verifying := (verifying h)[n := rest]\<rparr>
             else serializeOp a Register (h\<lparr>verifying := (verifying h)[n := rest]\<rparr>))
      else h)"

definition dispose_hook :: "hook \<Rightarrow> hook" where
  "dispose_hook h = h\<lparr>disposed := True, polling := False, owned := (\<lambda>_. False)\<rparr>"

fun hook_step :: "bool \<Rightarrow> shortcut list \<Rightarrow> hook \<Rightarrow> hook_event \<Rightarrow> hook" where
  "hook_step mac scs h (Sync focus) = (if disposed h then h else sync mac scs focus h)"
| "hook_step mac scs h (WindowFocus focus) = (if disposed h then h else applyWindowFocus mac scs True focus h)"
| "hook_step mac scs h (WindowBlur focus) = (if disposed h then h else applyWindowFocus mac scs False focus h)"
| "hook_step mac scs h (SiblingAnswer sibling focus) = refreshSiblingFocus mac scs sibling focus h"
| "hook_step mac scs h (OpDone a ok ours) = op_done a ok ours h"
| "hook_step mac scs h VerifyStart = verify_start h"
| "hook_step mac scs h (VerifyAnswer n ours) = verify_answer n ours h"
| "hook_step mac scs h Dispose = dispose_hook h"

lemmas hook_defs = applyWindowFocus_def refreshSiblingFocus_def verify_start_def verify_answer_def dispose_hook_def

end
