(* ===== verification/ShortcutHookProps.thy ===== *)
theory ShortcutHookProps
  imports ShortcutHook ShortcutProps
begin

text \<open>
  Properties of the registration hook. \<open>hook_ok\<close> says that the queued calls, once done, leave with the
  system what the hook has recorded as registered; \<open>os_hook\<close> is the interpretation of
  \<open>action_machine\<close> on the hook with that invariant.
\<close>

section \<open>First match wins\<close>

lemma excluded_by_accelerator:
  assumes "CHR ''+'' \<notin> set (sc_key s)" "ascii (sc_key s)" "CHR ''+'' \<notin> set (sc_key t)" "ascii (sc_key t)"
    and "acceleratorForShortcut s = Some a" "acceleratorForShortcut t = Some a"
  shows "menu_excluded mac s a = menu_excluded mac t a"
proof -
  have k: "key (chord_of s) = sc_key s" "key (chord_of t) = sc_key t" by (simp_all add: chord_of_def)
  note parts = accelerator_parts [of "chord_of s" "chord_of t" a, unfolded k, OF assms(1-4)
      assms(5,6) [unfolded acceleratorForShortcut_def]]
  from parts(2) modifiers_inj [OF parts(1)] have "macMenuChord (chord_of s) = macMenuChord (chord_of t)"
    by (simp add: macMenuChord_def k)
  then show ?thesis by (simp add: menu_excluded_def)
qed

lemma find_snoc: "find P (xs @ [x]) = (case find P xs of Some y \<Rightarrow> Some y | None \<Rightarrow> if P x then Some x else None)"
  by (induction xs) auto

lemma by_accelerator_get:
  "map_of (byAccelerator mac scs) a =
    find (\<lambda>s. acceleratorForShortcut s = Some a \<and> \<not> menu_excluded mac s a) scs"
proof (induction scs rule: rev_induct)
  case Nil
  then show ?case by (simp add: byAccelerator_def)
next
  case (snoc s scs)
  have "map_of (byAccelerator mac (scs @ [s])) a = map_of (add_accelerator mac (byAccelerator mac scs) s) a"
    by (simp add: byAccelerator_def)
  also have "\<dots> = (case map_of (byAccelerator mac scs) a of Some t \<Rightarrow> Some t
      | None \<Rightarrow> if acceleratorForShortcut s = Some a \<and> \<not> menu_excluded mac s a then Some s else None)"
    by (auto simp: add_accelerator_def map_add_def split: option.split)
  finally show ?case unfolding snoc find_snoc .
qed

lemma by_accelerator_distinct: "distinct (map fst (byAccelerator mac scs))"
proof (induction scs rule: rev_induct)
  case (snoc s scs)
  then show ?case
    by (auto simp: byAccelerator_def add_accelerator_def map_of_eq_None_iff split: option.split)
qed (simp add: byAccelerator_def)

lemma by_accelerator_mem:
  "(a, sc) \<in> set (byAccelerator mac scs) \<Longrightarrow> sc \<in> set scs \<and> acceleratorForShortcut sc = Some a \<and> \<not> menu_excluded mac sc a"
proof -
  assume "(a, sc) \<in> set (byAccelerator mac scs)"
  then have "map_of (byAccelerator mac scs) a = Some sc" using by_accelerator_distinct by simp
  then show ?thesis using find_Some_mem unfolding by_accelerator_get by fast
qed

lemma find_weaker:
  "find (\<lambda>s. P s \<and> \<not> Q s) xs = Some y \<Longrightarrow> (\<And>s t. s \<in> set xs \<Longrightarrow> t \<in> set xs \<Longrightarrow> P s \<Longrightarrow> P t \<Longrightarrow> Q s = Q t) \<Longrightarrow>
    find P xs = Some y"
proof (induction xs)
  case (Cons x xs)
  show ?case
  proof (cases "P x \<and> Q x")
    case True
    then have f: "find (\<lambda>s. P s \<and> \<not> Q s) xs = Some y" using Cons.prems(1) by simp
    then have "y \<in> set xs" "P y" "\<not> Q y" using find_Some_mem [OF f] by auto
    with True Cons.prems(2) [of x y] show ?thesis by simp
  next
    case False
    then show ?thesis using Cons by (auto split: if_splits)
  qed
qed simp

lemma desired_subset:
  "map_of (desiredAccelerators mac scs af sib focus) a = Some sc \<Longrightarrow> map_of (byAccelerator mac scs) a = Some sc"
proof -
  assume d: "map_of (desiredAccelerators mac scs af sib focus) a = Some sc"
  have "(a, sc) \<in> set (byAccelerator mac scs)"
    using map_of_SomeD [OF d]
    by (auto simp: desiredAccelerators_def split: if_splits focus_context.splits)
  then show ?thesis using by_accelerator_distinct by simp
qed

text \<open>
  (C34) What is registered is what runs: the handler found at the time of a press is the one of the shortcut the
  accelerator was registered for, the first in the list, whatever the focus, also on macOS where the
  chords of the native menu are left out (for keys in ASCII without a plus sign).
\<close>

theorem registered_shortcut_runs:
  assumes keys: "\<forall>s \<in> set scs. CHR ''+'' \<notin> set (sc_key s) \<and> ascii (sc_key s)"
    and d: "map_of (desiredAccelerators mac scs af sib focus) a = Some sc"
  shows "on_pressed scs a = Some (handler sc)"
proof -
  have "find (\<lambda>s. acceleratorForShortcut s = Some a \<and> \<not> menu_excluded mac s a) scs = Some sc"
    using desired_subset [OF d] by (simp only: by_accelerator_get)
  then have "find (\<lambda>s. acceleratorForShortcut s = Some a) scs = Some sc"
    by (rule find_weaker) (use keys excluded_by_accelerator in blast)
  then show ?thesis by (simp add: on_pressed_def)
qed

section \<open>The queues and the system agree\<close>

text \<open>Whether the system will hold \<open>a\<close> when the queue of \<open>a\<close> has run.\<close>

definition settled :: "hook \<Rightarrow> string \<Rightarrow> bool" where
  "settled h a = fold (\<lambda>op _. op = Register) (pendingOps h a) (owned h a)"

definition hook_ok :: "hook \<Rightarrow> bool" where
  "hook_ok h \<longleftrightarrow> \<not> disposed h \<and> distinct (map fst (registered h)) \<and>
    finite {a. pendingOps h a \<noteq> []} \<and> (\<forall>a. settled h a \<longleftrightarrow> a \<in> fst ` set (registered h))"

text \<open>
  A plugin that works: a registration fails only when the app holds the accelerator already, which
  \<open>isRegistered\<close> then confirms, and an unregistration never; answers are true; the hook is in use.
\<close>

fun healthy :: "hook \<Rightarrow> hook_event \<Rightarrow> bool" where
  "healthy h (OpDone a ok ours) =
     (case pendingOps h a of
        [] \<Rightarrow> True
      | Register # _ \<Rightarrow> ok = (\<not> owned h a) \<and> ours = owned h a
      | Unregister # _ \<Rightarrow> ok)"
| "healthy h (VerifyAnswer n ours) =
     (n < length (verifying h) \<longrightarrow> (case verifying h ! n of a # _ \<Rightarrow> ours = owned h a | [] \<Rightarrow> True))"
| "healthy h Dispose = False"
| "healthy h _ = True"

lemma settled_serialize: "settled (serializeOp a op h) b = (if b = a then op = Register else settled h b)"
  by (simp add: settled_def serializeOp_def)

lemma settled_upd [simp]: "settled (h\<lparr>registered := r\<rparr>) = settled h" "settled (h\<lparr>verifying := v\<rparr>) = settled h"
  "settled (h\<lparr>appFocused := b\<rparr>) = settled h" "settled (h\<lparr>polling := b\<rparr>) = settled h"
  "settled (h\<lparr>siblingWindowFocused := b\<rparr>) = settled h" "settled (h\<lparr>failed := f\<rparr>) = settled h"
  by (auto simp: settled_def)

lemma serialize_fields [simp]: "registered (serializeOp a op h) = registered h"
  "verifying (serializeOp a op h) = verifying h" "appFocused (serializeOp a op h) = appFocused h"
  "siblingWindowFocused (serializeOp a op h) = siblingWindowFocused h" "disposed (serializeOp a op h) = disposed h"
  by (simp_all add: serializeOp_def)

lemma busy_serialize: "{b. pendingOps (serializeOp a op h) b \<noteq> []} = insert a {b. pendingOps h b \<noteq> []}"
  by (auto simp: serializeOp_def)

lemma drop_ok: "hook_ok h \<Longrightarrow> hook_ok (drop_accel p h)"
  by (auto simp: hook_ok_def drop_accel_def settled_serialize busy_serialize distinct_map inj_on_def)

lemma add_ok: "hook_ok h \<Longrightarrow> hook_ok (add_accel p h)"
  by (cases p) (auto simp: hook_ok_def add_accel_def settled_serialize busy_serialize map_of_eq_None_iff)

lemma sync_ok: "hook_ok h \<Longrightarrow> hook_ok (sync mac scs focus h)"
proof -
  have d: "hook_ok h \<Longrightarrow> hook_ok (fold drop_accel ps h)" for ps h
    by (induction ps arbitrary: h) (auto intro: drop_ok)
  have "hook_ok h \<Longrightarrow> hook_ok (fold add_accel ps h)" for ps h
    by (induction ps arbitrary: h) (auto intro: add_ok)
  then show "hook_ok h \<Longrightarrow> hook_ok (sync mac scs focus h)" using d by (simp add: sync_def Let_def)
qed

lemma registered_shortcut_runs_witness:
  "on_pressed (the (createLayoutShortcuts [])) ''CommandOrControl+J'' = Some ''toggleBottomPanel''"
proof -
  let ?scs = "the (createLayoutShortcuts [])" and ?a = "''CommandOrControl+J''"
  have k: "\<forall>s \<in> set ?scs. CHR ''+'' \<notin> set (sc_key s) \<and> ascii (sc_key s)" by code_simp
  have "map_option handler (map_of (desiredAccelerators False ?scs True False AppFocus) ?a) =
    Some ''toggleBottomPanel''" by code_simp
  then obtain sc where "map_of (desiredAccelerators False ?scs True False AppFocus) ?a = Some sc"
    "handler sc = ''toggleBottomPanel''" by blast
  then show ?thesis using registered_shortcut_runs [OF k] by metis
qed

lemma op_done_ok:
  assumes h: "hook_ok h" and e: "healthy h (OpDone a ok ours)"
  shows "hook_ok (op_done a ok ours h)" "registered (op_done a ok ours h) = registered h"
proof -
  show r: "registered (op_done a ok ours h) = registered h"
    using e by (auto simp: op_done_def Let_def split: list.splits os_op.splits)
  have "settled (op_done a ok ours h) b = settled h b" for b
    using e by (auto simp: op_done_def settled_def Let_def split: list.splits os_op.splits)
  moreover have "{b. pendingOps (op_done a ok ours h) b \<noteq> []} \<subseteq> {b. pendingOps h b \<noteq> []}"
    by (auto simp: op_done_def Let_def split: list.splits if_splits)
  moreover have "disposed (op_done a ok ours h) = disposed h" by (simp add: op_done_def Let_def split: list.split)
  ultimately show "hook_ok (op_done a ok ours h)" using h r by (auto simp: hook_ok_def intro: finite_subset)
qed

lemma hook_ok_upd [simp]: "hook_ok (h\<lparr>verifying := v\<rparr>) = hook_ok h" "hook_ok (h\<lparr>appFocused := b\<rparr>) = hook_ok h"
  "hook_ok (h\<lparr>polling := b\<rparr>) = hook_ok h" "hook_ok (h\<lparr>siblingWindowFocused := b\<rparr>) = hook_ok h"
  by (simp_all add: hook_ok_def)

lemma verify_ok: "hook_ok h \<Longrightarrow> map_of (registered h) a \<noteq> None \<Longrightarrow> hook_ok (serializeOp a Register h)"
  by (auto simp: hook_ok_def settled_serialize busy_serialize map_of_eq_None_iff)

lemma hook_step_ok: "hook_ok h \<Longrightarrow> healthy h e \<Longrightarrow> hook_ok (hook_step mac scs h e)"
proof (cases e)
  case (OpDone a ok ours)
  then show "hook_ok h \<Longrightarrow> healthy h e \<Longrightarrow> ?thesis" using op_done_ok(1) by simp
next
  case (VerifyAnswer n ours)
  then show "hook_ok h \<Longrightarrow> healthy h e \<Longrightarrow> ?thesis"
    by (auto simp: hook_defs split: list.split intro!: verify_ok)
qed (auto simp: hook_defs Let_def intro: sync_ok)

interpretation os_hook: action_machine "hook_step mac scs" hook_ok healthy for mac scs
  by unfold_locales (rule hook_step_ok)

lemma init_hook_ok: "hook_ok init_hook"
  by (simp add: hook_ok_def init_hook_def settled_def)

section \<open>What a synchronisation leaves registered\<close>

definition desired_now :: "bool \<Rightarrow> shortcut list \<Rightarrow> focus_context \<Rightarrow> hook \<Rightarrow> (string \<times> shortcut) list" where
  "desired_now mac scs focus h = desiredAccelerators mac scs (appFocused h) (siblingWindowFocused h) focus"

lemma drop_registered: "registered (fold drop_accel ps h) = filter (\<lambda>q. fst q \<notin> fst ` set ps) (registered h)"
proof (induction ps arbitrary: h)
  case (Cons p ps)
  then show ?case by (auto simp: drop_accel_def intro!: filter_cong)
qed simp

lemma add_registered:
  "fst ` set (registered (fold add_accel ps h)) = fst ` set ps \<union> fst ` set (registered h)"
proof (induction ps arbitrary: h)
  case (Cons p ps)
  have "fst ` set (registered (add_accel p h)) = insert (fst p) (fst ` set (registered h))"
    by (auto simp: add_accel_def map_of_eq_None_iff)
  then show ?case using Cons by (auto simp: image_iff)
qed simp

lemma sync_registered:
  "fst ` set (registered (sync mac scs focus h)) = fst ` set (desired_now mac scs focus h)"
  by (auto simp: sync_def Let_def add_registered drop_registered map_of_eq_None_iff desired_now_def image_iff)

fun op_event :: "hook_event \<Rightarrow> bool" where
  "op_event (OpDone a ok ours) = True"
| "op_event _ = False"

lemma ops_registered:
  "hook_ok h \<Longrightarrow> ok_run (hook_step mac scs) healthy h ops \<Longrightarrow> list_all op_event ops \<Longrightarrow>
    registered (run_actions (hook_step mac scs) h ops) = registered h"
proof (induction ops arbitrary: h)
  case (Cons e ops)
  then obtain a ok ours where e: "e = OpDone a ok ours" by (cases e) auto
  with Cons show ?case using op_done_ok [of h a ok ours] by simp
qed simp

lemma drained_owned:
  assumes "hook_ok h" "\<forall>a. pendingOps h a = []" shows "owned h a \<longleftrightarrow> a \<in> fst ` set (registered h)"
  using assms by (simp add: hook_ok_def settled_def)

lemma background_keys:
  "fst ` set (desiredAccelerators mac scs False sib focus) =
    {a. \<not> sib \<and> (\<exists>sc. map_of (byAccelerator mac scs) a = Some sc \<and> or_false (globalInBackground sc))}"
  using by_accelerator_distinct [of mac scs]
  by (auto simp: desiredAccelerators_def image_iff Bex_def)


text \<open>
  The queued calls come to an end: from every state the hook can reach, a plugin that answers each call
  empties all the queues, without changing what the hook has decided to register.
\<close>

definition busy :: "hook \<Rightarrow> nat" where
  "busy h = (\<Sum>a | pendingOps h a \<noteq> []. length (pendingOps h a))"

lemma healthy_answer:
  assumes "pendingOps h a \<noteq> []" shows "\<exists>ok ours. healthy h (OpDone a ok ours)"
proof (cases "pendingOps h a")
  case (Cons op rest)
  then show ?thesis by (cases op) auto
qed (use assms in simp)

lemma busy_less:
  assumes "hook_ok h" "pendingOps h a \<noteq> []"
  shows "busy (op_done a ok ours h) < busy h"
proof -
  obtain op rest where p: "pendingOps h a = op # rest" using assms(2) by (cases "pendingOps h a") auto
  let ?S = "{b. pendingOps h b \<noteq> []}" and ?h = "op_done a ok ours h"
  have fin: "finite ?S" using assms(1) by (simp add: hook_ok_def)
  have q: "pendingOps ?h = (pendingOps h)(a := rest)" by (simp add: op_done_def p Let_def)
  have "busy ?h = (\<Sum>b \<in> ?S. length (pendingOps ?h b))"
    unfolding busy_def by (rule sum.mono_neutral_left [OF fin]) (auto simp: q assms(2))
  also have "\<dots> < (\<Sum>b \<in> ?S. length (pendingOps h b))"
    by (rule sum_strict_mono_ex1 [OF fin]) (use assms(2) p q in \<open>auto intro!: bexI [of _ a]\<close>)
  finally show ?thesis by (simp add: busy_def)
qed

lemma queues_drain:
  "hook_ok h \<Longrightarrow> \<exists>ops. list_all op_event ops \<and> ok_run (hook_step mac scs) healthy h ops \<and>
    (\<forall>a. pendingOps (run_actions (hook_step mac scs) h ops) a = [])"
proof (induction "busy h" arbitrary: h rule: less_induct)
  case less
  show ?case
  proof (cases "\<exists>a. pendingOps h a \<noteq> []")
    case True
    then obtain a ok ours where a: "pendingOps h a \<noteq> []" and e: "healthy h (OpDone a ok ours)"
      using healthy_answer by blast
    have ok1: "hook_ok (op_done a ok ours h)" using less.prems e by (rule op_done_ok)
    from less.hyps [OF busy_less [OF less.prems a] ok1] obtain ops where
      ops: "list_all op_event ops" "ok_run (hook_step mac scs) healthy (op_done a ok ours h) ops"
        "\<forall>b. pendingOps (run_actions (hook_step mac scs) (op_done a ok ours h) ops) b = []" by blast
    show ?thesis by (rule exI [of _ "OpDone a ok ours # ops"]) (use ops e in simp)
  next
    case False
    then show ?thesis by (intro exI [of _ "[]"]) simp
  qed
qed

text \<open>
  The queued calls come to an end: from every state the hook can reach with a working plugin, some answers to
  the pending calls empty all the queues, and every answer shortens them.
\<close>

theorem registration_terminates:
  assumes "ok_run (hook_step mac scs) healthy init_hook es"
  shows "(\<exists>ops. list_all op_event ops \<and> ok_run (hook_step mac scs) healthy (run_actions (hook_step mac scs) init_hook es) ops \<and>
      (\<forall>a. pendingOps (run_actions (hook_step mac scs) (run_actions (hook_step mac scs) init_hook es) ops) a = [])) \<and>
    (\<forall>a ok ours. pendingOps (run_actions (hook_step mac scs) init_hook es) a \<noteq> [] \<longrightarrow>
      busy (hook_step mac scs (run_actions (hook_step mac scs) init_hook es) (OpDone a ok ours)) <
        busy (run_actions (hook_step mac scs) init_hook es))"
proof -
  have ok: "hook_ok (run_actions (hook_step mac scs) init_hook es)"
    by (rule os_hook.run_inv [OF init_hook_ok assms])
  show ?thesis using queues_drain [OF ok] busy_less [OF ok] by simp
qed

section \<open>Two concrete runs\<close>

text \<open>Two shortcuts, the second opted in for the background.\<close>

definition zen_key :: shortcut where
  "zen_key = \<lparr>sc_key = ''z'', sc_ctrl = Some True, sc_shift = Some False, sc_alt = Some False, sc_meta = Some False,
     ignoreInTerminal = Some True, globalInBackground = None, handler = ''toggleZenMode'', description = ''Toggle Zen Mode''\<rparr>"

definition wake_key :: shortcut where
  "wake_key = zen_key\<lparr>sc_key := ''x'', globalInBackground := Some True, handler := ''wake''\<rparr>"

lemma two_keys:
  "desiredAccelerators False [zen_key, wake_key] True False AppFocus =
    [(''CommandOrControl+Z'', zen_key), (''CommandOrControl+X'', wake_key)]"
  "desiredAccelerators False [zen_key, wake_key] False False AppFocus = [(''CommandOrControl+X'', wake_key)]"
  by code_simp+

lemmas hook_run = hook_defs sync_def drop_accel_def add_accel_def serializeOp_def op_done_def init_hook_def Let_def


lemma registration_terminates_witness:
  "\<exists>ops. list_all op_event ops \<and>
    (\<forall>a. pendingOps (run_actions (hook_step False [zen_key]) (hook_step False [zen_key] init_hook (Sync AppFocus)) ops) a = [])"
  using registration_terminates [of False "[zen_key]" "[Sync AppFocus]"] by auto

lemma one_key:
  "desiredAccelerators False [zen_key] True False AppFocus = [(''CommandOrControl+Z'', zen_key)]"
  "desiredAccelerators False [zen_key] False False AppFocus = []"
  by code_simp+

text \<open>
  A late failure makes the hook forget a registration: another program holds the key when the first
  registration fails, after the window lost and regained the focus; the second registration, queued
  behind, then succeeds, but the failure has deleted the entry that stood for it, so the next blur leaves
  \<open>Ctrl+Z\<close> captured from every other application.
\<close>

theorem late_failure_keeps_key:
  "let h = run_actions (hook_step False [zen_key]) init_hook
     [Sync AppFocus, WindowBlur AppFocus, WindowFocus AppFocus,
      OpDone ''CommandOrControl+Z'' False False, OpDone ''CommandOrControl+Z'' False False,
      OpDone ''CommandOrControl+Z'' True False, WindowBlur AppFocus]
   in \<not> appFocused h \<and> (\<forall>a. pendingOps h a = []) \<and> owned h ''CommandOrControl+Z'' \<and> registered h = []"
  by (simp add: hook_run one_key)

text \<open>
  Disposal leaks a queued registration: \<open>unregisterAll\<close> runs at once, the queued calls after it, so the
  system holds a key for a hook that no longer exists.
\<close>

theorem dispose_leaks_key:
  "let h = run_actions (hook_step False [zen_key]) init_hook
     [Sync AppFocus, WindowBlur AppFocus, WindowFocus AppFocus, Dispose,
      OpDone ''CommandOrControl+Z'' True False, OpDone ''CommandOrControl+Z'' True False,
      OpDone ''CommandOrControl+Z'' True False]
   in disposed h \<and> (\<forall>a. pendingOps h a = []) \<and> owned h ''CommandOrControl+Z''"
  by (simp add: hook_run one_key)

end
