(* ===== verification/CorruptBackup.thy ===== *)
theory CorruptBackup
  imports Json ConnectionStore
begin

text \<open>
  The backups of an unreadable store: \<open>backupCorruptValue\<close>, \<open>removeCorruptBackups\<close> and their helpers in
  \<open>src/src/lib/connection-storage.ts\<close>. The local storage is a list of keys with their texts; a text that
  parses is represented by its value. \<open>now n\<close> is the n-th reading of the clock, as a numeral;
  \<open>write_ok\<close> says whether the write succeeds (it may exceed the quota).
\<close>

datatype text_item = Malformed string | Wellformed json

definition corrupt_prefix :: "string \<Rightarrow> string" where
  "corrupt_prefix k = k @ ''.corrupt.''"

definition hasIdenticalBackup :: "text_item obj \<Rightarrow> string \<Rightarrow> text_item \<Rightarrow> bool" where
  "hasIdenticalBackup st k sanitized \<longleftrightarrow>
     list_ex (\<lambda>c. starts_with c (corrupt_prefix k) \<and> obj_get st c = Some sanitized) (map fst st)"

fun empty_or_sealed :: "json \<Rightarrow> bool" where
  "empty_or_sealed (JStr s) = (s = [] \<or> isSealed s)"
| "empty_or_sealed _ = False"

definition kept_field :: "string \<times> json \<Rightarrow> bool" where
  "kept_field p = (case p of (k, v) \<Rightarrow> \<not> (k \<in> set SECRET_FIELDS \<and> v \<noteq> JNull \<and> \<not> empty_or_sealed v))"

function stripSecretsDeep :: "json \<Rightarrow> json" where
  "stripSecretsDeep (JArr xs) = JArr (map stripSecretsDeep xs)"
| "stripSecretsDeep (JObj o1) =
     JObj (map (\<lambda>(k, v). (k, stripSecretsDeep v)) (filter kept_field (obj_entries o1)))"
| "stripSecretsDeep JNull = JNull"
| "stripSecretsDeep (JBool b) = JBool b"
| "stripSecretsDeep (JNum q) = JNum q"
| "stripSecretsDeep (JStr s) = JStr s"
  by pat_completeness auto
termination by (relation "measure size") (auto dest: size_member size_arr)

fun sanitizeForBackup :: "text_item \<Rightarrow> text_item option" where
  "sanitizeForBackup (Malformed s) = None"
| "sanitizeForBackup (Wellformed v) = Some (Wellformed (stripSecretsDeep v))"

definition backup_name :: "string \<Rightarrow> (nat \<Rightarrow> string) \<Rightarrow> nat \<Rightarrow> string" where
  "backup_name k now n = corrupt_prefix k @ now n @ (if n = 0 then [] else ''-'' @ string_of_nat n)"

partial_function (option) free_name :: "text_item obj \<Rightarrow> string \<Rightarrow> (nat \<Rightarrow> string) \<Rightarrow> nat \<Rightarrow> string option" where
  "free_name st k now n =
     (if obj_get st (backup_name k now n) = None then Some (backup_name k now n) else free_name st k now (Suc n))"

text \<open>\<open>None\<close> stands for a search of a free key that never ends.\<close>

definition backupCorruptValue ::
  "(nat \<Rightarrow> string) \<Rightarrow> bool \<Rightarrow> string \<Rightarrow> text_item \<Rightarrow> text_item obj \<Rightarrow> text_item obj option" where
  "backupCorruptValue now write_ok k raw st =
     (case sanitizeForBackup raw of
        None \<Rightarrow> Some st
      | Some sanitized \<Rightarrow>
          if hasIdenticalBackup st k sanitized then Some st
          else (case free_name st k now 0 of
                  None \<Rightarrow> None
                | Some backupKey \<Rightarrow> Some (if write_ok then obj_set backupKey sanitized st else st)))"

text \<open>The loop of \<open>removeCorruptBackups\<close>: \<open>n\<close> is \<open>i + 1\<close>; \<open>localStorage.key(i)\<close> may be \<open>null\<close>.\<close>

fun remove_backups :: "string \<Rightarrow> nat \<Rightarrow> text_item obj \<Rightarrow> text_item obj" where
  "remove_backups k 0 st = st"
| "remove_backups k (Suc i) st =
     remove_backups k i
       (if i < length st \<and> starts_with (fst (st ! i)) (corrupt_prefix k) then obj_del (fst (st ! i)) st else st)"

definition removeCorruptBackups :: "string \<Rightarrow> text_item obj \<Rightarrow> text_item obj" where
  "removeCorruptBackups k st = remove_backups k (length st) st"

section \<open>Nothing secret in a backup\<close>

function clean :: "json \<Rightarrow> bool" where
  "clean (JArr xs) = (\<forall>v \<in> set xs. clean v)"
| "clean (JObj o1) = (\<forall>p \<in> set o1. clean (snd p) \<and> (fst p \<in> set SECRET_FIELDS \<longrightarrow>
     snd p = JNull \<or> (\<exists>s. snd p = JStr s \<and> (s = [] \<or> isSealed s))))"
| "clean JNull = True" | "clean (JBool b) = True" | "clean (JNum q) = True" | "clean (JStr s) = True"
  by pat_completeness auto
termination by (relation "measure size") (auto dest: size_member size_arr)

lemma strip_kept:
  "kept_field (k, v) \<Longrightarrow> k \<in> set SECRET_FIELDS \<Longrightarrow>
    stripSecretsDeep v = JNull \<or> (\<exists>s. stripSecretsDeep v = JStr s \<and> (s = [] \<or> isSealed s))"
  by (cases v) (auto simp: kept_field_def)

lemma strip_clean: "clean (stripSecretsDeep v)"
  by (induction v rule: stripSecretsDeep.induct) (auto dest: strip_kept)

section \<open>A free key is found\<close>

lemma backup_name_number:
  assumes "0 < n" shows "takeWhile (\<lambda>c. c \<noteq> CHR ''-'') (rev (backup_name k now n)) = rev (string_of_nat n)"
proof -
  have e: "rev (backup_name k now n) = rev (string_of_nat n) @ CHR ''-'' # rev (corrupt_prefix k @ now n)"
    using assms by (simp add: backup_name_def)
  have "takeWhile (\<lambda>c. c \<noteq> d) (xs @ d # ys) = xs" if "d \<notin> set xs" for d :: char and xs ys
    using that by (induction xs) auto
  then show ?thesis unfolding e using string_of_nat_no_sep by simp
qed

lemma backup_names_differ:
  assumes "0 < m" "0 < n" "backup_name k now m = backup_name k now n" shows "m = n"
proof -
  have "rev (string_of_nat m) = rev (string_of_nat n)"
    unfolding backup_name_number [OF assms(1), of k now, symmetric] backup_name_number [OF assms(2), of k now, symmetric]
      assms(3) ..
  then show ?thesis by (simp only: rev_is_rev_conv string_of_nat_inject)
qed

lemma some_name_free: "\<exists>n. obj_get st (backup_name k now n) = None"
proof (rule ccontr)
  assume none: "\<not> ?thesis"
  then have "backup_name k now ` {0<..} \<subseteq> fst ` set st"
    by (auto simp: obj_get_def map_of_eq_None_iff)
  then have "finite (backup_name k now ` {0<..})" by (rule finite_subset) (rule finite_imageI, rule finite_set)
  moreover have "inj_on (backup_name k now) {0<..}" by (auto intro: inj_onI backup_names_differ)
  ultimately show False using infinite_Ioi [of "0::nat"] finite_imageD by blast
qed

lemma free_name_finds:
  assumes "obj_get st (backup_name k now (n + d)) = None"
  shows "\<exists>m. free_name st k now n = Some (backup_name k now m) \<and> obj_get st (backup_name k now m) = None"
  using assms
proof (induction d arbitrary: n)
  case 0
  then show ?case by (auto simp: free_name.simps [of st k now n])
next
  case (Suc d)
  then show ?case using Suc.IH [of "Suc n"] by (auto simp: free_name.simps [of st k now n])
qed

lemma free_name_returns:
  "\<exists>m. free_name st k now 0 = Some (backup_name k now m) \<and> obj_get st (backup_name k now m) = None"
proof -
  obtain d where "obj_get st (backup_name k now (0 + d)) = None" using some_name_free [of st k now] by auto
  then show ?thesis by (rule free_name_finds)
qed

lemma update_new: "k \<notin> fst ` set al \<Longrightarrow> AList.update k v al = al @ [(k, v)]"
  by (induction al) auto

text \<open>
  (C31) Saving a corrupt value ends, and costs nothing that is stored: the search for a free key terminates
  whatever the clock shows, the storage afterwards is the one before with at most one new key, named
  after the corrupt one, and what that key holds has no plaintext secret at any depth.
\<close>

theorem corrupt_backup_is_safe:
  "\<exists>st'. backupCorruptValue now write_ok k raw st = Some st' \<and>
    (st' = st \<or> (\<exists>b v. st' = st @ [(b, Wellformed v)] \<and> starts_with b (corrupt_prefix k) \<and>
      obj_get st b = None \<and> clean v))"
proof (cases "sanitizeForBackup raw")
  case (Some s)
  then obtain v where s: "s = Wellformed v" "clean v" by (cases raw) (auto intro: strip_clean)
  obtain m where m: "free_name st k now 0 = Some (backup_name k now m)" "obj_get st (backup_name k now m) = None"
    using free_name_returns by blast
  then have "obj_set (backup_name k now m) s st = st @ [(backup_name k now m, s)]"
    by (simp add: obj_set_def obj_get_def map_of_eq_None_iff update_new)
  moreover have "starts_with (backup_name k now m) (corrupt_prefix k)" by (simp add: backup_name_def)
  ultimately show ?thesis using Some m s by (auto simp: backupCorruptValue_def)
qed (simp add: backupCorruptValue_def)

section \<open>One copy of each value, and their removal\<close>

lemma backed_up_once:
  assumes "backupCorruptValue now True k raw st = Some st'"
  shows "backupCorruptValue now' ok k raw st' = Some st'"
proof (cases "sanitizeForBackup raw")
  case (Some s)
  obtain m where m: "free_name st k now 0 = Some (backup_name k now m)" using free_name_returns by blast
  have "hasIdenticalBackup (obj_set (backup_name k now m) s st) k s"
  proof -
    have "backup_name k now m \<in> set (map fst (obj_set (backup_name k now m) s st))"
      by (simp add: obj_set_def dom_update)
    moreover have "starts_with (backup_name k now m) (corrupt_prefix k)" by (simp add: backup_name_def)
    ultimately show ?thesis unfolding hasIdenticalBackup_def list_ex_iff by (intro bexI) auto
  qed
  with Some m assms show ?thesis by (auto simp: backupCorruptValue_def split: if_splits)
qed (use assms in \<open>simp add: backupCorruptValue_def\<close>)

lemma remove_backups_filter:
  assumes "distinct (map fst (xs @ ys))" "\<forall>p \<in> set ys. \<not> starts_with (fst p) (corrupt_prefix k)"
  shows "remove_backups k (length xs) (xs @ ys) =
    filter (\<lambda>p. \<not> starts_with (fst p) (corrupt_prefix k)) (xs @ ys)"
  using assms
proof (induction xs arbitrary: ys rule: rev_induct)
  case (snoc x xs)
  have a: "AList.delete (fst x) (xs @ x # ys) = xs @ ys"
  proof -
    have "AList.delete k (us @ vs) = AList.delete k us @ AList.delete k vs" for k and us vs :: "text_item obj"
      by (induction us) auto
    moreover have "fst x \<notin> fst ` set xs" "fst x \<notin> fst ` set ys" using snoc.prems(1) by auto
    ultimately show ?thesis by simp
  qed
  show ?case
  proof (cases "starts_with (fst x) (corrupt_prefix k)")
    case True
    then show ?thesis using snoc.IH [of ys] snoc.prems a by (simp add: obj_del_def)
  next
    case False
    then show ?thesis using snoc.IH [of "x # ys"] snoc.prems by simp
  qed
qed (simp add: filter_id_conv)

text \<open>The removal deletes every backup of the key, although the list shrinks under the loop, and nothing else.\<close>

lemma removeCorruptBackups_correct:
  "obj_ok st \<Longrightarrow> removeCorruptBackups k st = filter (\<lambda>p. \<not> starts_with (fst p) (corrupt_prefix k)) st"
  using remove_backups_filter [of st "[]" k] by (simp add: removeCorruptBackups_def obj_ok_def)

end
