(* ===== verification/AppWindow.thy ===== *)
theory AppWindow
  imports SessionRestore EditorWindows
begin

text \<open>
  The window of the application: the handlers of \<open>src/src/App.tsx\<close> that open, connect, reconnect, detach and close tabs.
  They act on the groups of \<open>TabGroups\<close>, the stored connections, the guard of \<open>connect-guard.ts\<close> and the open editor
  windows. A handler runs up to its \<open>await\<close>; what remains of it is a \<open>cont\<close> in \<open>waiting\<close>, resumed by the answer. The
  \<open>state\<close> a handler read when it was called, and may use after an \<open>await\<close>, is kept in its \<open>cont\<close> where it is used; the
  effects that mirror the state into refs have run before the next event. \<open>effects\<close> lists the calls of the backend and
  the answers that established a session, in order; closing the window itself is left out. Requests are those \<open>ConnectRequest\<close> builds from the connection; of
  the form's \<open>ConnectionConfig\<close> only the fields read here are kept. The texts of messages are left out.
\<close>

section \<open>State\<close>

datatype effect =
    Connects connect_call string
  | Established connect_call string
  | Disconnects connect_call string
  | CancelsConnect string
  | AsksDetached string
  | ClosesDetached string
  | RequestsDetach string

record dialog_config =
  dc_id :: "string option"
  dc_name :: string
  dc_protocol :: string
  dc_host :: string
  dc_username :: string
  dc_secrets :: "string obj"

record detached_session =
  ds_connectionId :: string
  ds_name :: string
  ds_host :: "string option"
  ds_username :: "string option"
  ds_protocol :: "string option"
  ds_originalConnectionId :: "string option"

datatype cont =
    SidebarOpened connection group_state
  | TabAnswer connect_call "string option" string
  | SidebarSshAnswer connection string
  | DuplicateOpened terminal_tab connection group_state
  | DuplicateFileAnswer connect_call string
  | DuplicateSshAnswer terminal_tab group_state
  | ReconnectOpened terminal_tab connection
  | ReconnectDropped terminal_tab connection connect_call
  | ReconnectAnswer terminal_tab connection connect_call
  | SaveOpened dialog_config connection group_state "string option" "string option"
  | SaveSshAnswer dialog_config "terminal_tab option" group_state string
  | QuickOpened connection group_state
  | QuickTabAnswer string connect_call "string option" string
  | QuickSshAnswer connection group_state
  | ReattachAnswer detached_session group_state
  | CloseDetachedAnswer

datatype answer = Resolved | Refusal string | Threw

datatype app_toast = ConnectionFailed | ConnectionError | CannotDuplicate | TabDuplicated | DuplicationFailed | DuplicationError
  | CannotReconnect | Reconnected | ReconnectionFailed | ReconnectionError | SessionDetached | SessionExpired | SessionReattached
  | DetachedClosed | DetachedCloseFailed | QuickConnected | AlreadyConnected | ConnectionNotFound

record app_state =
  ws :: group_state
  app_store :: store
  guard :: connect_guard
  failedPending :: "string list"
  retries :: "(nat \<times> bool) obj"
  armedTimers :: "string list"
  detachedSessions :: "detached_session list"
  openEditors :: item
  dialogOpen :: bool
  editingConnection :: "dialog_config option"
  pendingConnectionId :: "string option"
  pendingReconnectTabId :: "string option"
  waiting :: "cont list"
  effects :: "effect list"
  app_toasts :: "app_toast list"
  connectionsCleared :: bool

definition dispatch :: "group_action \<Rightarrow> app_state \<Rightarrow> app_state" where
  "dispatch a s = s\<lparr>ws := terminalGroupReducer (ws s) a\<rparr>"

definition notify :: "app_toast \<Rightarrow> app_state \<Rightarrow> app_state" where
  "notify t s = s\<lparr>app_toasts := app_toasts s @ [t]\<rparr>"

definition perform :: "effect \<Rightarrow> app_state \<Rightarrow> app_state" where
  "perform e s = s\<lparr>effects := effects s @ [e]\<rparr>"

definition await :: "cont \<Rightarrow> app_state \<Rightarrow> app_state" where
  "await c s = s\<lparr>waiting := waiting s @ [c]\<rparr>"

definition all_tabs :: "group_state \<Rightarrow> terminal_tab list" where
  "all_tabs g = concat (map tabs (obj_values (groups g)))"

definition tab_named :: "group_state \<Rightarrow> string \<Rightarrow> terminal_tab option" where
  "tab_named g i = find (\<lambda>t. tab_id t = i) (all_tabs g)"

definition group_with :: "group_state \<Rightarrow> string \<Rightarrow> terminal_group option" where
  "group_with g i = find (\<lambda>h. i \<in> set (group_ids h)) (obj_values (groups g))"

definition live_ids :: "app_state \<Rightarrow> string set" where
  "live_ids s = tab_id ` set (all_tabs (ws s))"

definition config_of :: "connection \<Rightarrow> dialog_config" where
  "config_of c = \<lparr>dc_id = Some (conn_id c), dc_name = conn_name c, dc_protocol = conn_protocol c, dc_host = conn_host c,
     dc_username = conn_username c, dc_secrets = secrets c\<rparr>"

definition new_tab :: "string \<Rightarrow> string \<Rightarrow> tab_type option \<Rightarrow> string option \<Rightarrow> string option \<Rightarrow> string option \<Rightarrow>
    string option \<Rightarrow> conn_status \<Rightarrow> terminal_tab" where
  "new_tab i n ty p h u orig st = \<lparr>tab_id = i, tab_name = n, tabType = ty, protocol = p, host = h, username = u,
     originalConnectionId = orig, connectionStatus = st, reconnectCount = Some 0, hasUnreadOutput = None,
     editorFilePath = None, editorConnectionId = None\<rparr>"

definition isDesktop :: "string \<Rightarrow> bool" where
  "isDesktop p \<longleftrightarrow> p = ''RDP'' \<or> p = ''VNC''"

definition isFileBrowser :: "string \<Rightarrow> bool" where
  "isFileBrowser p \<longleftrightarrow> p = ''SFTP'' \<or> p = ''FTP''"

definition call_for :: "string \<Rightarrow> connect_call" where
  "call_for p = (if p = ''SFTP'' then SftpConnect else if p = ''FTP'' then FtpConnect
     else if isDesktop p then DesktopConnect else SshConnect)"

definition type_for :: "string \<Rightarrow> tab_type option" where
  "type_for p = (if isFileBrowser p then Some FileBrowser else if isDesktop p then Some Desktop else None)"

section \<open>Closing\<close>

definition cancelPendingTerminalConnect :: "terminal_tab \<Rightarrow> app_state \<Rightarrow> app_state" where
  "cancelPendingTerminalConnect t s =
     (if connectionStatus t \<in> {Pending, Connecting} \<and> tabType t \<noteq> Some FileBrowser \<and> tabType t \<noteq> Some Desktop
      then perform (CancelsConnect (tab_id t)) s else s)"

definition borrowed :: "app_state \<Rightarrow> string \<Rightarrow> bool" where
  "borrowed s i \<longleftrightarrow> (\<exists>e \<in> set (loadOpenEditors (openEditors s)). ed_connection e = i)"

definition disconnectTabBackend :: "terminal_tab \<Rightarrow> app_state \<Rightarrow> app_state" where
  "disconnectTabBackend t s =
     (case tabType t of
        Some FileBrowser \<Rightarrow>
          if protocol t = Some ''SFTP'' then perform (Disconnects SftpConnect (tab_id t)) s
          else if protocol t = Some ''FTP'' then perform (Disconnects FtpConnect (tab_id t)) s
          else s
      | Some Desktop \<Rightarrow> perform (Disconnects DesktopConnect (tab_id t)) s
      | Some Editor \<Rightarrow> s
      | _ \<Rightarrow>
          let s1 = cancelPendingTerminalConnect t s
          in if borrowed s (tab_id t) then s1 else perform (Disconnects SshConnect (tab_id t)) s1)"

definition handleTabSelect :: "string \<Rightarrow> app_state \<Rightarrow> app_state" where
  "handleTabSelect i s =
     (case group_with (ws s) i of
        None \<Rightarrow> s
      | Some g \<Rightarrow> dispatch (ACTIVATE_TAB (group_id g) i) (dispatch (ACTIVATE_GROUP (group_id g)) s))"

definition handleCloseTab :: "string \<Rightarrow> app_state \<Rightarrow> app_state" where
  "handleCloseTab i s =
     (case group_with (ws s) i of
        None \<Rightarrow> s
      | Some g \<Rightarrow> (case find (\<lambda>t. tab_id t = i) (tabs g) of
          None \<Rightarrow> s
        | Some t \<Rightarrow> disconnectTabBackend t (dispatch (REMOVE_TAB (group_id g) i) s)))"

definition handleCloseAllTabs :: "string \<Rightarrow> app_state \<Rightarrow> app_state" where
  "handleCloseAllTabs k s =
     (case obj_get (groups (ws s)) k of
        None \<Rightarrow> s
      | Some g \<Rightarrow> dispatch (CLOSE_ALL_TABS k) (fold disconnectTabBackend (tabs g) s))"

definition handleCloseActiveTab :: "app_state \<Rightarrow> app_state" where
  "handleCloseActiveTab s =
     (case obj_get (groups (ws s)) (activeGroupId (ws s)) of
        None \<Rightarrow> s
      | Some g \<Rightarrow> (case or_null (activeTabId g) of
          None \<Rightarrow> if all_tabs (ws s) \<noteq> [] then dispatch (REMOVE_GROUP (group_id g)) s else s
        | Some i \<Rightarrow>
            let s1 = dispatch (REMOVE_TAB (group_id g) i) s;
                s2 = (case find (\<lambda>t. tab_id t = i) (tabs g) of Some t \<Rightarrow> disconnectTabBackend t s1 | None \<Rightarrow> s1)
            in if length (all_tabs (ws s)) = 1 then s2\<lparr>connectionsCleared := True\<rparr> else s2))"

text \<open>The editor windows report when they open and close; a session they borrowed is closed with the last of them.\<close>

definition editor_opened :: "open_editor \<Rightarrow> app_state \<Rightarrow> app_state" where
  "editor_opened e s = s\<lparr>openEditors := addOpenEditor True e (openEditors s)\<rparr>"

definition editor_closed :: "open_editor \<Rightarrow> app_state \<Rightarrow> app_state" where
  "editor_closed e s =
     (let s1 = s\<lparr>openEditors := removeOpenEditor True e (openEditors s)\<rparr>
      in if \<not> borrowed s1 (ed_connection e) \<and> ed_connection e \<notin> live_ids s1
         then perform (Disconnects SshConnect (ed_connection e)) s1 else s1)"

section \<open>The dialog\<close>

definition ask_credentials :: "connection \<Rightarrow> string \<Rightarrow> app_state \<Rightarrow> app_state" where
  "ask_credentials c i s = s\<lparr>editingConnection := Some (config_of c), pendingConnectionId := Some i, dialogOpen := True\<rparr>"

definition handleNewTab :: "app_state \<Rightarrow> app_state" where
  "handleNewTab s = s\<lparr>dialogOpen := True, editingConnection := None, pendingConnectionId := None, pendingReconnectTabId := None\<rparr>"

definition handleEditConnection :: "string \<Rightarrow> app_state \<Rightarrow> app_state" where
  "handleEditConnection i s =
     (case getConnection (app_store s) i of
        Some c \<Rightarrow> s\<lparr>editingConnection := Some (config_of c), dialogOpen := True, pendingConnectionId := None, pendingReconnectTabId := None\<rparr>
      | None \<Rightarrow> notify ConnectionNotFound s)"

definition dialog_closed :: "app_state \<Rightarrow> app_state" where
  "dialog_closed s = s\<lparr>dialogOpen := False, editingConnection := None\<rparr>"

section \<open>Connecting from the sidebar\<close>

definition handleConnectionConnect :: "string \<Rightarrow> app_state \<Rightarrow> app_state" where
  "handleConnectionConnect i s =
     (case getConnection (app_store s) i of None \<Rightarrow> s | Some c \<Rightarrow> await (SidebarOpened c (ws s)) s)"

definition connected_at :: "string \<Rightarrow> string \<Rightarrow> app_state \<Rightarrow> app_state" where
  "connected_at now i s = s\<lparr>app_store := updateLastConnected now i (app_store s)\<rparr>"

definition fresh_id :: "string \<Rightarrow> string \<Rightarrow> app_state \<Rightarrow> string \<times> app_state" where
  "fresh_id i now s = (case nextDuplicateId i now (guard s) of (d, g) \<Rightarrow> (d, s\<lparr>guard := g\<rparr>))"

definition sidebar_opened ::
  "(string \<Rightarrow> string option) \<Rightarrow> string \<Rightarrow> connection \<Rightarrow> group_state \<Rightarrow> app_state \<Rightarrow> app_state" where
  "sidebar_opened unseal now stored g s =
     (let c = openConnectionSecrets unseal stored; p = conn_protocol c in
      if \<not> connectionHasCredentials c then ask_credentials c (conn_id c) s
      else case fresh_id (conn_id c) now s of (sessionId, s1) \<Rightarrow>
        let t = new_tab sessionId (conn_name c) (type_for p) (Some p) (Some (conn_host c)) (Some (conn_username c))
                  (Some (conn_id c)) (if isFileBrowser p \<or> isDesktop p then Connecting else Pending);
            s2 = perform (Connects (call_for p) sessionId) (dispatch (ADD_TAB (activeGroupId g) t) s1)
        in if isFileBrowser p \<or> isDesktop p then await (TabAnswer (call_for p) (Some (conn_id c)) sessionId) s2
           else await (SidebarSshAnswer c sessionId) s2)"

definition tab_answer :: "string \<Rightarrow> connect_call \<Rightarrow> string option \<Rightarrow> string \<Rightarrow> answer \<Rightarrow> app_state \<Rightarrow> app_state" where
  "tab_answer now call stored i r s =
     (if r = Threw then notify ConnectionFailed (dispatch (UPDATE_TAB_STATUS i Disconnected) s)
      else let s1 = perform (Established call i) s;
               s2 = (case stored of Some k \<Rightarrow> connected_at now k s1 | None \<Rightarrow> s1)
           in dispatch (UPDATE_TAB_STATUS i Connected) s2)"

definition sidebar_ssh_answer :: "string \<Rightarrow> connection \<Rightarrow> string \<Rightarrow> answer \<Rightarrow> app_state \<Rightarrow> app_state" where
  "sidebar_ssh_answer now c i r s =
     (case r of
        Resolved \<Rightarrow>
          let s1 = perform (Established SshConnect i) s
          in if i \<notin> live_ids s then perform (Disconnects SshConnect i) s1
             else dispatch (UPDATE_TAB_STATUS i Connecting) (connected_at now (conn_id c) s1)
      | _ \<Rightarrow>
          let s1 = dispatch (UPDATE_TAB_STATUS i Disconnected) s
          in if i \<notin> live_ids s then s1
             else ask_credentials c (conn_id c) (notify (if r = Threw then ConnectionError else ConnectionFailed) s1))"

section \<open>Duplicating a tab\<close>

definition originalId :: "terminal_tab \<Rightarrow> string" where
  "originalId t = (case or_null (originalConnectionId t) of Some i \<Rightarrow> i | None \<Rightarrow> tab_id t)"

definition either_protocol :: "string \<Rightarrow> terminal_tab \<Rightarrow> connection \<Rightarrow> bool" where
  "either_protocol p t c \<longleftrightarrow> protocol t = Some p \<or> conn_protocol c = p"

definition handleDuplicateTab :: "string \<Rightarrow> app_state \<Rightarrow> app_state" where
  "handleDuplicateTab i s =
     (case tab_named (ws s) i of
        None \<Rightarrow> s
      | Some t \<Rightarrow> (case getConnection (app_store s) (originalId t) of
          None \<Rightarrow> notify CannotDuplicate s
        | Some c \<Rightarrow> await (DuplicateOpened t c (ws s)) s))"

definition duplicate_opened ::
  "(string \<Rightarrow> string option) \<Rightarrow> string \<Rightarrow> terminal_tab \<Rightarrow> connection \<Rightarrow> group_state \<Rightarrow> app_state \<Rightarrow> app_state" where
  "duplicate_opened unseal now t stored g s =
     (let c = openConnectionSecrets unseal stored;
          isSftp = either_protocol ''SFTP'' t c; isFtp = either_protocol ''FTP'' t c in
      if \<not> connectionHasCredentials c then notify CannotDuplicate s
      else case fresh_id (originalId t) now s of (d, s1) \<Rightarrow>
        let dup = new_tab d (tab_name t) (if isSftp \<or> isFtp then Some FileBrowser else None) (protocol t) (host t) (username t)
              (Some (originalId t)) Connecting;
            call = (if isSftp then SftpConnect else if isFtp then FtpConnect else SshConnect)
        in if isSftp \<or> isFtp
           then await (DuplicateFileAnswer call d) (perform (Connects call d) (dispatch (ADD_TAB (activeGroupId g) dup) s1))
           else await (DuplicateSshAnswer dup g) (perform (Connects call d) s1))"

definition duplicate_file_answer :: "connect_call \<Rightarrow> string \<Rightarrow> answer \<Rightarrow> app_state \<Rightarrow> app_state" where
  "duplicate_file_answer call i r s =
     (if r = Threw then notify DuplicationFailed (dispatch (UPDATE_TAB_STATUS i Disconnected) s)
      else notify TabDuplicated (dispatch (UPDATE_TAB_STATUS i Connected) (perform (Established call i) s)))"

definition duplicate_ssh_answer :: "terminal_tab \<Rightarrow> group_state \<Rightarrow> answer \<Rightarrow> app_state \<Rightarrow> app_state" where
  "duplicate_ssh_answer t g r s =
     (if r = Resolved
      then notify TabDuplicated (dispatch (ADD_TAB (activeGroupId g) t) (perform (Established SshConnect (tab_id t)) s))
      else notify (if r = Threw then DuplicationError else DuplicationFailed) s)"

section \<open>Reconnecting\<close>

definition FULL_RECONNECT_BACKOFF_MS :: "nat list" where
  "FULL_RECONNECT_BACKOFF_MS = [2000, 4000, 8000, 16000, 30000]"

definition clearReconnectRetry :: "string \<Rightarrow> app_state \<Rightarrow> app_state" where
  "clearReconnectRetry i s = s\<lparr>retries := obj_del i (retries s), armedTimers := removeAll i (armedTimers s)\<rparr>"

definition end_connect :: "string \<Rightarrow> app_state \<Rightarrow> app_state" where
  "end_connect i s = s\<lparr>guard := endConnect i (guard s)\<rparr>"

text \<open>A retry that waits is superseded; its failures stay counted.\<close>

definition supersede :: "string \<Rightarrow> app_state \<Rightarrow> app_state" where
  "supersede i s =
     (case obj_get (retries s) i of
        Some (f, True) \<Rightarrow> s\<lparr>retries := obj_set i (f, False) (obj_entries (retries s)), armedTimers := removeAll i (armedTimers s)\<rparr>
      | _ \<Rightarrow> s)"

definition runReconnect :: "string \<Rightarrow> app_state \<Rightarrow> app_state" where
  "runReconnect i s =
     (case tab_named (ws s) i of
        None \<Rightarrow> end_connect i (clearReconnectRetry i s)
      | Some t \<Rightarrow>
          let s1 = supersede i s
          in case getConnection (app_store s1) (originalId t) of
               None \<Rightarrow> end_connect i (notify CannotReconnect (clearReconnectRetry i s1))
             | Some c \<Rightarrow> await (ReconnectOpened t c) s1)"

definition handleReconnect :: "string \<Rightarrow> app_state \<Rightarrow> app_state" where
  "handleReconnect i s =
     (case beginConnect i (guard s) of
        (False, _) \<Rightarrow> s
      | (True, g) \<Rightarrow> runReconnect i (s\<lparr>guard := g\<rparr>))"

definition retry_timer :: "string \<Rightarrow> app_state \<Rightarrow> app_state" where
  "retry_timer i s = (if i \<in> set (armedTimers s) then handleReconnect i (s\<lparr>armedTimers := removeAll i (armedTimers s)\<rparr>) else s)"

definition reconnect_call :: "terminal_tab \<Rightarrow> connection \<Rightarrow> connect_call" where
  "reconnect_call t c =
     (if tabType t = Some Desktop \<or> isDesktop (conn_protocol c) then DesktopConnect
      else if either_protocol ''SFTP'' t c then SftpConnect
      else if either_protocol ''FTP'' t c then FtpConnect else SshConnect)"

definition reconnect_opened ::
  "(string \<Rightarrow> string option) \<Rightarrow> terminal_tab \<Rightarrow> connection \<Rightarrow> app_state \<Rightarrow> app_state" where
  "reconnect_opened unseal t stored s =
     (let c = openConnectionSecrets unseal stored; i = tab_id t in
      if \<not> connectionHasCredentials c
      then end_connect i ((ask_credentials c (originalId t) (notify CannotReconnect (clearReconnectRetry i s)))
             \<lparr>pendingReconnectTabId := Some i\<rparr>)
      else let s1 = s\<lparr>failedPending := removeAll i (failedPending s)\<rparr>;
               s2 = (if connectionStatus t \<noteq> Pending then dispatch (UPDATE_TAB_STATUS i Connecting) s1 else s1)
           in await (ReconnectDropped t c (reconnect_call t c)) (perform (Disconnects (reconnect_call t c) i) s2))"

definition reconnect_dropped :: "terminal_tab \<Rightarrow> connection \<Rightarrow> connect_call \<Rightarrow> app_state \<Rightarrow> app_state" where
  "reconnect_dropped t c call s = await (ReconnectAnswer t c call) (perform (Connects call (tab_id t)) s)"

definition permanent_error :: "string \<Rightarrow> bool" where
  "permanent_error e \<longleftrightarrow> js_includes (js_lower e) ''authentication'' \<or> js_includes (js_lower e) ''credential'' \<or>
     js_includes (js_lower e) ''password''"

definition failure_count :: "app_state \<Rightarrow> string \<Rightarrow> nat" where
  "failure_count s i = (case obj_get (retries s) i of Some (f, _) \<Rightarrow> f | None \<Rightarrow> 0)"

definition reconnect_failed :: "app_toast \<Rightarrow> terminal_tab \<Rightarrow> app_state \<Rightarrow> app_state" where
  "reconnect_failed tst t s =
     (let i = tab_id t; s1 = clearReconnectRetry i s
      in notify tst
           (if connectionStatus t = Pending then s1\<lparr>failedPending := List.insert i (failedPending s1)\<rparr>
            else dispatch (UPDATE_TAB_STATUS i Disconnected) s1))"

definition reconnect_succeeded :: "string \<Rightarrow> terminal_tab \<Rightarrow> connect_call \<Rightarrow> app_state \<Rightarrow> app_state" where
  "reconnect_succeeded now t call s =
     (let i = tab_id t;
          s1 = perform (Established call i) s;
          s2 = (if call = DesktopConnect \<or> call = SshConnect then clearReconnectRetry i s1 else s1);
          s3 = (if or_null (originalConnectionId t) = None then connected_at now (originalId t) s2 else s2)
      in notify Reconnected (dispatch (if call = SshConnect then RECONNECT_TAB i else UPDATE_TAB_STATUS i Connected) s3))"

definition reconnect_answer ::
  "string \<Rightarrow> terminal_tab \<Rightarrow> connect_call \<Rightarrow> answer \<Rightarrow> app_state \<Rightarrow> app_state" where
  "reconnect_answer now t call r s =
     end_connect (tab_id t)
      (case r of
         Threw \<Rightarrow> reconnect_failed ReconnectionError t s
       | Resolved \<Rightarrow> reconnect_succeeded now t call s
       | Refusal e \<Rightarrow>
           if call \<noteq> SshConnect then reconnect_succeeded now t call s
           else let failures = failure_count s (tab_id t) + 1
                in if \<not> permanent_error e \<and> failures \<le> length FULL_RECONNECT_BACKOFF_MS
                   then s\<lparr>retries := obj_set (tab_id t) (failures, True) (obj_entries (retries s)),
                          armedTimers := tab_id t # armedTimers s\<rparr>
                   else reconnect_failed ReconnectionFailed t s)"

section \<open>Detaching\<close>

definition handleDetachTab :: "string \<Rightarrow> app_state \<Rightarrow> app_state" where
  "handleDetachTab i s =
     (case tab_named (ws s) i of
        None \<Rightarrow> s
      | Some t \<Rightarrow>
          let s1 = perform (RequestsDetach i) s;
              session = \<lparr>ds_connectionId = i, ds_name = tab_name t, ds_host = host t, ds_username = username t,
                ds_protocol = Some (case or_null (protocol t) of Some p \<Rightarrow> p | None \<Rightarrow> ''SSH''),
                ds_originalConnectionId = originalConnectionId t\<rparr>;
              s2 = (if \<exists>d \<in> set (detachedSessions s1). ds_connectionId d = i then s1
                    else s1\<lparr>detachedSessions := detachedSessions s1 @ [session]\<rparr>);
              s3 = (case group_with (ws s) i of Some g \<Rightarrow> dispatch (REMOVE_TAB (group_id g) i) s2 | None \<Rightarrow> s2)
          in notify SessionDetached s3)"

definition drop_detached :: "string \<Rightarrow> app_state \<Rightarrow> app_state" where
  "drop_detached i s = s\<lparr>detachedSessions := filter (\<lambda>d. ds_connectionId d \<noteq> i) (detachedSessions s)\<rparr>"

definition handleReattachSession :: "detached_session \<Rightarrow> app_state \<Rightarrow> app_state" where
  "handleReattachSession d s =
     (case beginConnect (ds_connectionId d) (guard s) of
        (False, _) \<Rightarrow> s
      | (True, g) \<Rightarrow> await (ReattachAnswer d (ws s)) (perform (AsksDetached (ds_connectionId d)) (s\<lparr>guard := g\<rparr>)))"

text \<open>The answer to the question whether the session is alive: \<open>Refusal\<close> stands for \<open>false\<close>.\<close>

definition reattach_answer :: "detached_session \<Rightarrow> group_state \<Rightarrow> answer \<Rightarrow> app_state \<Rightarrow> app_state" where
  "reattach_answer d g r s =
     end_connect (ds_connectionId d)
      (case r of
         Refusal _ \<Rightarrow> notify SessionExpired (drop_detached (ds_connectionId d) s)
       | _ \<Rightarrow>
          notify SessionReattached (drop_detached (ds_connectionId d)
            (dispatch (ADD_TAB (activeGroupId g)
               (new_tab (ds_connectionId d) (ds_name d) None
                 (Some (case or_null (ds_protocol d) of Some p \<Rightarrow> p | None \<Rightarrow> ''SSH'')) (ds_host d) (ds_username d)
                 (ds_originalConnectionId d) Connecting)) s)))"

definition handleCloseDetachedSession :: "string \<Rightarrow> app_state \<Rightarrow> app_state" where
  "handleCloseDetachedSession i s = await CloseDetachedAnswer (perform (ClosesDetached i) (drop_detached i s))"

section \<open>Connecting from the dialog\<close>

text \<open>
  \<open>handleConnectionDialogConnect\<close>; \<open>cnt call stored i\<close> is what waits for the answer of the connect call, which the
  quick connect extends.
\<close>

definition dialog_connect ::
  "(connect_call \<Rightarrow> string option \<Rightarrow> string \<Rightarrow> cont) \<Rightarrow> string \<Rightarrow> dialog_config \<Rightarrow> group_state \<Rightarrow> app_state \<Rightarrow> app_state" where
  "dialog_connect cnt now cfg g s =
     (let i = (case or_null (dc_id cfg) of Some i \<Rightarrow> i | None \<Rightarrow> ''connection-'' @ now);
          p = dc_protocol cfg;
          call = call_for p
      in case tab_named g i of
           Some _ \<Rightarrow>
             let s1 = (case group_with g i of
                         Some h \<Rightarrow> dispatch (UPDATE_TAB_STATUS i Connecting) (dispatch (ACTIVATE_TAB (group_id h) i)
                                    (dispatch (ACTIVATE_GROUP (group_id h)) s))
                       | None \<Rightarrow> s)
             in if isFileBrowser p \<or> isDesktop p then await (cnt call None i) (perform (Connects call i) s1)
                else dispatch (RECONNECT_TAB i) s1
         | None \<Rightarrow>
             let s1 = dispatch (ADD_TAB (activeGroupId g)
                        (new_tab i (dc_name cfg) (type_for p) (Some p) (Some (dc_host cfg)) (Some (dc_username cfg)) None Connecting)) s
             in if isFileBrowser p \<or> isDesktop p then await (cnt call (Some i) i) (perform (Connects call i) s1)
                else s1)"

definition handleConnectionDialogConnect :: "string \<Rightarrow> dialog_config \<Rightarrow> app_state \<Rightarrow> app_state" where
  "handleConnectionDialogConnect now cfg s = dialog_connect TabAnswer now cfg (ws s) s"

section \<open>Saving in the dialog\<close>

definition fill_secrets :: "string obj \<Rightarrow> dialog_config \<Rightarrow> dialog_config" where
  "fill_secrets stored cfg = cfg\<lparr>dc_secrets := fold (\<lambda>f o1.
     if or_null (obj_get o1 f) = None then (case or_null (obj_get stored f) of Some v \<Rightarrow> obj_set f v o1 | None \<Rightarrow> o1) else o1)
     SECRET_FIELDS (dc_secrets cfg)\<rparr>"

definition tab_of_save :: "string \<Rightarrow> string option \<Rightarrow> group_state \<Rightarrow> terminal_tab option" where
  "tab_of_save i target g =
     (case (case or_null target of Some k \<Rightarrow> tab_named g k | None \<Rightarrow> None) of
        Some t \<Rightarrow> Some t
      | None \<Rightarrow> find (\<lambda>t. originalConnectionId t = Some i \<and> connectionStatus t \<in> {Disconnected, Pending}) (all_tabs g))"

definition save_connect :: "string \<Rightarrow> string \<Rightarrow> dialog_config \<Rightarrow> string option \<Rightarrow> group_state \<Rightarrow> app_state \<Rightarrow> app_state" where
  "save_connect now i cfg target g s =
     (let pt = tab_of_save i target g; p = dc_protocol cfg; call = call_for p
      in case (case pt of Some t \<Rightarrow> (tab_id t, s) | None \<Rightarrow> fresh_id i now s) of (k, s1) \<Rightarrow>
        if isFileBrowser p \<or> isDesktop p
        then let s2 = (case pt of
                 None \<Rightarrow> dispatch (ADD_TAB (activeGroupId g)
                   (new_tab k (dc_name cfg) (type_for p) (Some p) (Some (dc_host cfg)) (Some (dc_username cfg)) (Some i) Connecting)) s1
               | Some _ \<Rightarrow> dispatch (RECONNECT_TAB k) (dispatch (UPDATE_TAB_NAME k (dc_name cfg)) s1))
             in await (TabAnswer call (Some i) k) (perform (Connects call k) s2)
        else await (SaveSshAnswer cfg pt g k) (perform (Connects SshConnect k) s1))"

definition save_rest :: "string \<Rightarrow> string \<Rightarrow> dialog_config \<Rightarrow> group_state \<Rightarrow> string option \<Rightarrow> string option \<Rightarrow> app_state \<Rightarrow> app_state" where
  "save_rest now i cfg g pending target s =
     (let s1 = fold (\<lambda>t. dispatch (UPDATE_TAB_NAME (tab_id t) (dc_name cfg)))
            (filter (\<lambda>t. tab_id t = i \<or> originalConnectionId t = Some i) (all_tabs g)) s
      in if pending \<noteq> Some i then s1
         else save_connect now i cfg target g (s1\<lparr>pendingConnectionId := None, pendingReconnectTabId := None\<rparr>))"

definition handleSaveConnection :: "string \<Rightarrow> dialog_config \<Rightarrow> app_state \<Rightarrow> app_state" where
  "handleSaveConnection now cfg s =
     (case or_null (dc_id cfg) of
        None \<Rightarrow> s
      | Some i \<Rightarrow>
          let rest = save_rest now i cfg (ws s) (pendingConnectionId s) (pendingReconnectTabId s) s
          in if \<exists>f \<in> set SECRET_FIELDS. or_null (obj_get (dc_secrets cfg) f) = None
             then (case getConnection (app_store s) i of
                     Some c \<Rightarrow> await (SaveOpened cfg c (ws s) (pendingConnectionId s) (pendingReconnectTabId s)) s
                   | None \<Rightarrow> rest)
             else rest)"

definition save_opened ::
  "(string \<Rightarrow> string option) \<Rightarrow> string \<Rightarrow> dialog_config \<Rightarrow> connection \<Rightarrow> group_state \<Rightarrow> string option \<Rightarrow> string option \<Rightarrow>
   app_state \<Rightarrow> app_state" where
  "save_opened unseal now cfg stored g pending target s =
     save_rest now (conn_id stored) (fill_secrets (secrets (openConnectionSecrets unseal stored)) cfg) g pending target s"

definition save_ssh_answer ::
  "string \<Rightarrow> dialog_config \<Rightarrow> terminal_tab option \<Rightarrow> group_state \<Rightarrow> string \<Rightarrow> answer \<Rightarrow> app_state \<Rightarrow> app_state" where
  "save_ssh_answer now cfg pt g k r s =
     (let i = (case dc_id cfg of Some i \<Rightarrow> i | None \<Rightarrow> [])
      in case r of
           Resolved \<Rightarrow>
             let s1 = connected_at now i (perform (Established SshConnect k) s)
             in (case pt of
                   Some _ \<Rightarrow> (dispatch (RECONNECT_TAB k) (dispatch (UPDATE_TAB_NAME k (dc_name cfg)) s1))
                     \<lparr>failedPending := removeAll k (failedPending s)\<rparr>
                 | None \<Rightarrow> dispatch (ADD_TAB (activeGroupId g)
                     (new_tab k (dc_name cfg) None (Some (dc_protocol cfg)) (Some (dc_host cfg)) (Some (dc_username cfg))
                       (Some i) Connecting)) s1)
         | Refusal _ \<Rightarrow> notify ConnectionFailed s
         | Threw \<Rightarrow> notify ConnectionError s)"

section \<open>Quick connect\<close>

definition runQuickConnect :: "string \<Rightarrow> app_state \<Rightarrow> app_state" where
  "runQuickConnect i s =
     (case find (\<lambda>t. tab_id t = i \<or> originalConnectionId t = Some i) (all_tabs (ws s)) of
        Some t \<Rightarrow> end_connect i (notify AlreadyConnected (handleTabSelect (tab_id t) s))
      | None \<Rightarrow> (case getConnection (app_store s) i of
          None \<Rightarrow> end_connect i (notify ConnectionNotFound s)
        | Some c \<Rightarrow> await (QuickOpened c (ws s)) s))"

definition handleQuickConnect :: "string \<Rightarrow> app_state \<Rightarrow> app_state" where
  "handleQuickConnect i s =
     (case beginConnect i (guard s) of
        (False, _) \<Rightarrow> s
      | (True, g) \<Rightarrow> runQuickConnect i (s\<lparr>guard := g\<rparr>))"

definition quick_opened ::
  "(string \<Rightarrow> string option) \<Rightarrow> string \<Rightarrow> connection \<Rightarrow> group_state \<Rightarrow> app_state \<Rightarrow> app_state" where
  "quick_opened unseal now stored g s =
     (let c = openConnectionSecrets unseal stored; p = conn_protocol c in
      if \<not> connectionHasCredentials c then end_connect (conn_id c) (ask_credentials c (conn_id c) s)
      else if isFileBrowser p \<or> isDesktop p
      then dialog_connect (QuickTabAnswer (conn_id c)) now (config_of c) g s
      else await (QuickSshAnswer c g) (perform (Connects SshConnect (conn_id c)) s))"

definition quick_tab_answer :: "string \<Rightarrow> string \<Rightarrow> connect_call \<Rightarrow> string option \<Rightarrow> string \<Rightarrow> answer \<Rightarrow> app_state \<Rightarrow> app_state" where
  "quick_tab_answer now key call k i r s = end_connect key (notify QuickConnected (tab_answer now call k i r s))"

definition quick_ssh_answer :: "string \<Rightarrow> connection \<Rightarrow> group_state \<Rightarrow> answer \<Rightarrow> app_state \<Rightarrow> app_state" where
  "quick_ssh_answer now c g r s =
     end_connect (conn_id c)
      (case r of
         Resolved \<Rightarrow> notify QuickConnected (dialog_connect TabAnswer now (config_of c) g
            (connected_at now (conn_id c) (perform (Established SshConnect (conn_id c)) s)))
       | Refusal _ \<Rightarrow> ask_credentials c (conn_id c) (notify ConnectionFailed s)
       | Threw \<Rightarrow> notify ConnectionError s)"

section \<open>Events\<close>

datatype app_event =
    ConnectNode string
  | SelectTab string
  | CloseTab string
  | CloseAllTabs string
  | CloseActiveTab
  | NewTab
  | EditConnection string
  | DialogCloses
  | DialogConnects dialog_config
  | SavesConnection dialog_config
  | DuplicateTab string
  | Reconnect string
  | RetryTimer string
  | DetachTab string
  | Reattach detached_session
  | CloseDetached string
  | QuickConnect string
  | EditorOpened open_editor
  | EditorClosed open_editor
  | Answered nat answer

fun resume_cont :: "(string \<Rightarrow> string option) \<Rightarrow> string \<Rightarrow> cont \<Rightarrow> answer \<Rightarrow> app_state \<Rightarrow> app_state" where
  "resume_cont unseal now (SidebarOpened c g) r s = sidebar_opened unseal now c g s"
| "resume_cont unseal now (TabAnswer call k i) r s = tab_answer now call k i r s"
| "resume_cont unseal now (SidebarSshAnswer c i) r s = sidebar_ssh_answer now c i r s"
| "resume_cont unseal now (DuplicateOpened t c g) r s = duplicate_opened unseal now t c g s"
| "resume_cont unseal now (DuplicateFileAnswer call i) r s = duplicate_file_answer call i r s"
| "resume_cont unseal now (DuplicateSshAnswer t g) r s = duplicate_ssh_answer t g r s"
| "resume_cont unseal now (ReconnectOpened t c) r s = reconnect_opened unseal t c s"
| "resume_cont unseal now (ReconnectDropped t c call) r s = reconnect_dropped t c call s"
| "resume_cont unseal now (ReconnectAnswer t c call) r s = reconnect_answer now t call r s"
| "resume_cont unseal now (SaveOpened cfg c g pending target) r s = save_opened unseal now cfg c g pending target s"
| "resume_cont unseal now (SaveSshAnswer cfg pt g k) r s = save_ssh_answer now cfg pt g k r s"
| "resume_cont unseal now (QuickOpened c g) r s = quick_opened unseal now c g s"
| "resume_cont unseal now (QuickTabAnswer key call k i) r s = quick_tab_answer now key call k i r s"
| "resume_cont unseal now (QuickSshAnswer c g) r s = quick_ssh_answer now c g r s"
| "resume_cont unseal now (ReattachAnswer d g) r s = reattach_answer d g r s"
| "resume_cont unseal now CloseDetachedAnswer r s = notify (if r = Threw then DetachedCloseFailed else DetachedClosed) s"

text \<open>One event at the time \<open>now\<close>; \<open>unseal\<close> opens a sealed secret.\<close>

fun app_step :: "(string \<Rightarrow> string option) \<Rightarrow> app_state \<Rightarrow> string \<times> app_event \<Rightarrow> app_state" where
  "app_step unseal s (now, ConnectNode i) = handleConnectionConnect i s"
| "app_step unseal s (now, SelectTab i) = handleTabSelect i s"
| "app_step unseal s (now, CloseTab i) = handleCloseTab i s"
| "app_step unseal s (now, CloseAllTabs k) = handleCloseAllTabs k s"
| "app_step unseal s (now, CloseActiveTab) = handleCloseActiveTab s"
| "app_step unseal s (now, NewTab) = handleNewTab s"
| "app_step unseal s (now, EditConnection i) = handleEditConnection i s"
| "app_step unseal s (now, DialogCloses) = dialog_closed s"
| "app_step unseal s (now, DialogConnects cfg) = handleConnectionDialogConnect now cfg s"
| "app_step unseal s (now, SavesConnection cfg) = handleSaveConnection now cfg s"
| "app_step unseal s (now, DuplicateTab i) = handleDuplicateTab i s"
| "app_step unseal s (now, Reconnect i) = handleReconnect i s"
| "app_step unseal s (now, RetryTimer i) = retry_timer i s"
| "app_step unseal s (now, DetachTab i) = handleDetachTab i s"
| "app_step unseal s (now, Reattach d) = handleReattachSession d s"
| "app_step unseal s (now, CloseDetached i) = handleCloseDetachedSession i s"
| "app_step unseal s (now, QuickConnect i) = handleQuickConnect i s"
| "app_step unseal s (now, EditorOpened e) = editor_opened e s"
| "app_step unseal s (now, EditorClosed e) = editor_closed e s"
| "app_step unseal s (now, Answered n r) =
     (if n < length (waiting s)
      then resume_cont unseal now (waiting s ! n) r (s\<lparr>waiting := remove_at n (waiting s)\<rparr>)
      else s)"

end
