(* ===== verification/AppWindowInv.thy ===== *)
theory AppWindowInv
  imports AppWindow
begin

text \<open>
  The window of \<open>AppWindow\<close>: every handler keeps the groups consistent, the guard of connects holds exactly what waits for an
  answer, and the retries are bounded and never overlap an attempt.
\<close>

section \<open>The workspace stays consistent\<close>

named_theorems app_defs

lemmas [app_defs] = dispatch_def notify_def perform_def await_def ask_credentials_def end_connect_def connected_at_def

lemma ws_frame [simp]:
  "ws (notify tst s) = ws s" "ws (perform e s) = ws s" "ws (await cn s) = ws s" "ws (ask_credentials k i s) = ws s"
  "ws (end_connect i s) = ws s" "ws (connected_at now i s) = ws s" "ws (clearReconnectRetry i s) = ws s"
  "ws (supersede i s) = ws s" "ws (drop_detached i s) = ws s" "ws (cancelPendingTerminalConnect t s) = ws s"
  "ws (disconnectTabBackend t s) = ws s" "ws (snd (fresh_id i now s)) = ws s"
  by (simp_all add: app_defs clearReconnectRetry_def supersede_def drop_detached_def cancelPendingTerminalConnect_def
    disconnectTabBackend_def Let_def fresh_id_def split: option.split tab_type.split prod.split bool.split)

lemma ws_fold_disconnect [simp]: "ws (fold disconnectTabBackend ts s) = ws s"
  by (induction ts arbitrary: s) simp_all

lemma ws_dispatch [simp]: "ws (dispatch a s) = terminalGroupReducer (ws s) a"
  by (simp add: dispatch_def)

definition ws_ok :: "app_state \<Rightarrow> bool" where
  "ws_ok s \<longleftrightarrow> state_ok (ws s)"

lemma ws_ok_dispatch: "ws_ok s \<Longrightarrow> ok_action (ws s) a \<Longrightarrow> ws_ok (dispatch a s)"
  by (simp add: ws_ok_def grp.step_inv del: terminalGroupReducer.simps)

lemma ws_ok_cong: "ws s' = ws s \<Longrightarrow> ws_ok s' = ws_ok s"
  by (simp add: ws_ok_def)

lemma ws_ok_frame [simp]:
  "ws_ok (notify tst s) = ws_ok s" "ws_ok (perform e s) = ws_ok s" "ws_ok (await c s) = ws_ok s"
  "ws_ok (ask_credentials k i s) = ws_ok s" "ws_ok (end_connect i s) = ws_ok s" "ws_ok (connected_at now i s) = ws_ok s"
  "ws_ok (clearReconnectRetry i s) = ws_ok s" "ws_ok (supersede i s) = ws_ok s" "ws_ok (drop_detached i s) = ws_ok s"
  "ws_ok (disconnectTabBackend t s) = ws_ok s" "ws_ok (fold disconnectTabBackend ts s) = ws_ok s"
  by (simp_all add: ws_ok_def)

lemma ws_ok_dispatch_simps [simp]:
  "ws_ok s \<Longrightarrow> ws_ok (dispatch (ADD_TAB k t) s)" "ws_ok s \<Longrightarrow> ws_ok (dispatch (REMOVE_TAB k i) s)"
  "ws_ok s \<Longrightarrow> ws_ok (dispatch (ACTIVATE_GROUP k) s)" "ws_ok s \<Longrightarrow> ws_ok (dispatch (ACTIVATE_TAB k i) s)"
  "ws_ok s \<Longrightarrow> ws_ok (dispatch (REMOVE_GROUP k) s)" "ws_ok s \<Longrightarrow> ws_ok (dispatch (CLOSE_ALL_TABS k) s)"
  "ws_ok s \<Longrightarrow> ws_ok (dispatch (UPDATE_TAB_STATUS i st) s)" "ws_ok s \<Longrightarrow> ws_ok (dispatch (UPDATE_TAB_NAME i n) s)"
  "ws_ok s \<Longrightarrow> ws_ok (dispatch (RECONNECT_TAB i) s)"
  by (rule ws_ok_dispatch; simp)+

lemma ws_ok_fresh: "ws_ok s \<Longrightarrow> fresh_id i now s = (d, s1) \<Longrightarrow> ws_ok s1"
  using ws_frame(12) [of i now s] by (simp add: ws_ok_def)

lemma ws_ok_fold_names: "ws_ok s \<Longrightarrow> ws_ok (fold (\<lambda>t. dispatch (UPDATE_TAB_NAME (f t) n)) ts s)"
  by (induction ts arbitrary: s) simp_all

lemma ws_ok_record [simp]:
  "ws_ok (s\<lparr>guard := g\<rparr>) = ws_ok s" "ws_ok (s\<lparr>waiting := w\<rparr>) = ws_ok s" "ws_ok (s\<lparr>failedPending := f\<rparr>) = ws_ok s"
  "ws_ok (s\<lparr>retries := r\<rparr>) = ws_ok s" "ws_ok (s\<lparr>armedTimers := a\<rparr>) = ws_ok s" "ws_ok (s\<lparr>detachedSessions := d\<rparr>) = ws_ok s"
  "ws_ok (s\<lparr>openEditors := e\<rparr>) = ws_ok s" "ws_ok (s\<lparr>pendingConnectionId := p\<rparr>) = ws_ok s"
  "ws_ok (s\<lparr>pendingReconnectTabId := p\<rparr>) = ws_ok s" "ws_ok (s\<lparr>connectionsCleared := b\<rparr>) = ws_ok s"
  "ws_ok (s\<lparr>dialogOpen := b\<rparr>) = ws_ok s" "ws_ok (s\<lparr>editingConnection := ec\<rparr>) = ws_ok s"
  by (simp_all add: ws_ok_def)

lemma ws_ok_dialog_connect: "ws_ok s \<Longrightarrow> ws_ok (dialog_connect cnt now cfg g s)"
  by (simp add: dialog_connect_def Let_def split: option.split)

lemma ws_ok_tab_answer: "ws_ok s \<Longrightarrow> ws_ok (tab_answer now call k i r s)"
  by (simp add: tab_answer_def Let_def split: option.split)

lemma ws_ok_select: "ws_ok s \<Longrightarrow> ws_ok (handleTabSelect i s)"
  by (simp add: handleTabSelect_def split: option.split)

lemma ws_ok_save_connect: "ws_ok s \<Longrightarrow> ws_ok (save_connect now i cfg target g s)"
  by (auto simp: save_connect_def Let_def split: option.split prod.split dest: ws_ok_fresh)

lemma ws_ok_save_rest: "ws_ok s \<Longrightarrow> ws_ok (save_rest now i cfg g pending target s)"
  by (simp add: save_rest_def Let_def ws_ok_fold_names ws_ok_save_connect)

lemma ws_ok_reconnect: "ws_ok s \<Longrightarrow> ws_ok (handleReconnect i s)"
  by (simp add: handleReconnect_def runReconnect_def Let_def split: option.split prod.split bool.split)

lemma ws_ok_reconnect_failed: "ws_ok s \<Longrightarrow> ws_ok (reconnect_failed tst t s)"
  by (simp add: reconnect_failed_def Let_def)

lemma ws_ok_reconnect_succeeded: "ws_ok s \<Longrightarrow> ws_ok (reconnect_succeeded now t call s)"
  by (simp add: reconnect_succeeded_def Let_def)

lemma ws_ok_resume: "ws_ok s \<Longrightarrow> ws_ok (resume_cont unseal now c r s)"
proof (induction unseal now c r s rule: resume_cont.induct)
  case (1 unseal now c g r s)
  then show ?case by (auto simp: sidebar_opened_def Let_def split: prod.split dest: ws_ok_fresh)
next
  case (4 unseal now t c g r s)
  then show ?case by (auto simp: duplicate_opened_def Let_def split: prod.split dest: ws_ok_fresh)
qed (simp_all add: ws_ok_tab_answer sidebar_ssh_answer_def Let_def duplicate_file_answer_def duplicate_ssh_answer_def
    reconnect_opened_def reconnect_dropped_def reconnect_answer_def ws_ok_reconnect_failed ws_ok_reconnect_succeeded
    save_opened_def ws_ok_save_rest save_ssh_answer_def quick_opened_def ws_ok_dialog_connect quick_tab_answer_def
    quick_ssh_answer_def reattach_answer_def split: answer.split option.split)

lemma ws_ok_step: "ws_ok s \<Longrightarrow> ws_ok (app_step unseal s e)"
proof (induction unseal s e rule: app_step.induct)
  case (20 unseal s now n r)
  then show ?case by (simp add: ws_ok_resume)
qed (simp_all add: handleConnectionConnect_def ws_ok_select handleCloseTab_def handleCloseAllTabs_def handleCloseActiveTab_def
    Let_def handleNewTab_def handleEditConnection_def dialog_closed_def handleConnectionDialogConnect_def
    ws_ok_dialog_connect handleSaveConnection_def ws_ok_save_rest handleDuplicateTab_def ws_ok_reconnect retry_timer_def
    handleDetachTab_def handleReattachSession_def handleCloseDetachedSession_def handleQuickConnect_def runQuickConnect_def
    editor_opened_def editor_closed_def split: option.split prod.split bool.split)

section \<open>One guarded attempt at a time\<close>

fun cont_key :: "cont \<Rightarrow> string option" where
  "cont_key (ReconnectOpened t c) = Some (tab_id t)"
| "cont_key (ReconnectDropped t c call) = Some (tab_id t)"
| "cont_key (ReconnectAnswer t c call) = Some (tab_id t)"
| "cont_key (QuickOpened c g) = Some (conn_id c)"
| "cont_key (QuickTabAnswer key call k i) = Some key"
| "cont_key (QuickSshAnswer c g) = Some (conn_id c)"
| "cont_key (ReattachAnswer d g) = Some (ds_connectionId d)"
| "cont_key _ = None"

definition guarded :: "app_state \<Rightarrow> string list" where
  "guarded s = List.map_filter cont_key (waiting s)"

text \<open>The guard holds what waits for an answer, and \<open>k\<close> while a handler that holds it runs.\<close>

definition owing :: "string option \<Rightarrow> app_state \<Rightarrow> bool" where
  "owing k s \<longleftrightarrow> distinct (connectInFlight (guard s)) \<and>
     mset (connectInFlight (guard s)) = mset (guarded s) + (case k of Some i \<Rightarrow> {#i#} | None \<Rightarrow> {#})"

lemma owing_cong: "connectInFlight (guard s') = connectInFlight (guard s) \<Longrightarrow> waiting s' = waiting s \<Longrightarrow> owing k s' = owing k s"
  by (simp add: owing_def guarded_def)

lemma owing_frame [simp]:
  "owing k (notify tst s) = owing k s" "owing k (perform e s) = owing k s" "owing k (dispatch a s) = owing k s"
  "owing k (ask_credentials co i s) = owing k s" "owing k (connected_at now i s) = owing k s"
  "owing k (clearReconnectRetry i s) = owing k s" "owing k (supersede i s) = owing k s"
  "owing k (drop_detached i s) = owing k s" "owing k (disconnectTabBackend t s) = owing k s"
  by (rule owing_cong; simp add: app_defs clearReconnectRetry_def supersede_def drop_detached_def
    cancelPendingTerminalConnect_def disconnectTabBackend_def Let_def split: option.split tab_type.split bool.split)+

lemma owing_record [simp]:
  "owing k (s\<lparr>failedPending := f\<rparr>) = owing k s"
  "owing k (s\<lparr>retries := r\<rparr>) = owing k s" "owing k (s\<lparr>armedTimers := a\<rparr>) = owing k s" "owing k (s\<lparr>detachedSessions := d\<rparr>) = owing k s"
  "owing k (s\<lparr>openEditors := e\<rparr>) = owing k s" "owing k (s\<lparr>pendingConnectionId := p\<rparr>) = owing k s"
  "owing k (s\<lparr>pendingReconnectTabId := p\<rparr>) = owing k s" "owing k (s\<lparr>connectionsCleared := b\<rparr>) = owing k s"
  "owing k (s\<lparr>dialogOpen := b\<rparr>) = owing k s" "owing k (s\<lparr>editingConnection := ec\<rparr>) = owing k s"
  by (simp_all add: owing_def guarded_def)

lemma owing_fold_disconnect [simp]: "owing k (fold disconnectTabBackend ts s) = owing k s"
  by (induction ts arbitrary: s) simp_all

lemma owing_fold_names [simp]: "owing k (fold (\<lambda>t. dispatch (UPDATE_TAB_NAME (f t) n)) ts s) = owing k s"
  by (induction ts arbitrary: s) simp_all

lemma owing_fresh: "owing k s \<Longrightarrow> fresh_id i now s = (d, s1) \<Longrightarrow> owing k s1"
  by (auto simp: fresh_id_def nextDuplicateId_def owing_def guarded_def)

lemma guarded_await: "guarded (await c s) = guarded s @ (case cont_key c of Some i \<Rightarrow> [i] | None \<Rightarrow> [])"
  by (simp add: guarded_def await_def List.map_filter_def split: option.split)

lemma owing_await: "owing k s \<Longrightarrow> cont_key c = k \<Longrightarrow> owing None (await c s)"
  by (simp add: owing_def guarded_await split: option.splits) (simp_all add: await_def)

lemma owing_await_free: "owing k s \<Longrightarrow> cont_key c = None \<Longrightarrow> owing k (await c s)"
  by (simp add: owing_def guarded_await) (simp add: await_def)

lemma owing_begin: "owing None s \<Longrightarrow> beginConnect i (guard s) = (True, g) \<Longrightarrow> owing (Some i) (s\<lparr>guard := g\<rparr>)"
  by (auto simp: owing_def guarded_def beginConnect_def split: if_splits)

lemma mset_removeAll_distinct: "distinct xs \<Longrightarrow> mset xs = add_mset i M \<Longrightarrow> mset (removeAll i xs) = M"
proof -
  assume d: "distinct xs" and m: "mset xs = add_mset i M"
  have "mset (removeAll i xs) = mset (remove1 i xs)" using d by (simp add: distinct_remove1_removeAll)
  then show ?thesis using m by simp
qed

lemma owing_end: "owing (Some i) s \<Longrightarrow> owing None (end_connect i s)"
  by (simp add: owing_def end_connect_def endConnect_def guarded_def mset_removeAll_distinct distinct_removeAll)

lemma mset_map_filter_remove_at:
  "n < length xs \<Longrightarrow> mset (List.map_filter f xs) =
     mset (List.map_filter f (remove_at n xs)) + (case f (xs ! n) of Some y \<Rightarrow> {#y#} | None \<Rightarrow> {#})"
proof -
  assume n: "n < length xs"
  have "List.map_filter f (us @ vs) = List.map_filter f us @ List.map_filter f vs" for us vs
    by (simp add: List.map_filter_def)
  then show ?thesis
    by (subst id_take_nth_drop [OF n], unfold remove_at_def) (simp add: map_filter_simps split: option.split)
qed

lemma owing_answered:
  "owing None s \<Longrightarrow> n < length (waiting s) \<Longrightarrow> owing (cont_key (waiting s ! n)) (s\<lparr>waiting := remove_at n (waiting s)\<rparr>)"
  using mset_map_filter_remove_at [of n "waiting s" cont_key] by (simp add: owing_def guarded_def)

lemma conn_id_opened [simp]: "conn_id (openConnectionSecrets unseal c) = conn_id c"
  "conn_protocol (openConnectionSecrets unseal c) = conn_protocol c"
  by (simp_all add: openConnectionSecrets_def)

lemma owing_dialog_connect:
  "owing k s \<Longrightarrow> (\<And>call u i. cont_key (cnt call u i) = None) \<Longrightarrow> owing k (dialog_connect cnt now cfg g s)"
  by (auto simp: dialog_connect_def Let_def owing_await_free split: option.split)

lemma owing_dialog_await:
  "owing k s \<Longrightarrow> (\<And>call u i. cont_key (cnt call u i) = k) \<Longrightarrow> isFileBrowser (dc_protocol cfg) \<or> isDesktop (dc_protocol cfg) \<Longrightarrow>
     owing None (dialog_connect cnt now cfg g s)"
  by (auto simp: dialog_connect_def Let_def owing_await split: option.split)

lemma owing_tab_answer [simp]: "owing k (tab_answer now call u i r s) = owing k s"
  by (simp add: tab_answer_def Let_def split: option.split)

lemma owing_select [simp]: "owing k (handleTabSelect i s) = owing k s"
  by (simp add: handleTabSelect_def split: option.split)

lemma owing_save_connect: "owing None s \<Longrightarrow> owing None (save_connect now i cfg target g s)"
  by (auto simp: save_connect_def Let_def owing_await split: option.split prod.split dest: owing_fresh)

lemma owing_save_rest: "owing None s \<Longrightarrow> owing None (save_rest now i cfg g pending target s)"
  by (simp add: save_rest_def Let_def owing_save_connect)

lemma tab_named_id: "tab_named g i = Some t \<Longrightarrow> tab_id t = i"
  by (auto simp: tab_named_def dest: find_Some_mem)

lemma getConnection_id: "getConnection st i = Some c \<Longrightarrow> conn_id c = i"
  by (auto simp: getConnection_def dest: find_Some_mem)

lemma owing_runReconnect: "owing (Some i) s \<Longrightarrow> owing None (runReconnect i s)"
  by (auto simp: runReconnect_def Let_def owing_end split: option.split intro!: owing_await [of "Some i"] dest: tab_named_id)

lemma owing_handleReconnect: "owing None s \<Longrightarrow> owing None (handleReconnect i s)"
  by (auto simp: handleReconnect_def owing_runReconnect owing_begin split: prod.split bool.split)

lemma owing_runQuickConnect: "owing (Some i) s \<Longrightarrow> owing None (runQuickConnect i s)"
  by (auto simp: runQuickConnect_def owing_end split: option.split intro: owing_await dest: getConnection_id)

lemma owing_reconnect_failed [simp]: "owing k (reconnect_failed tst t s) = owing k s"
  by (simp add: reconnect_failed_def Let_def)

lemma owing_reconnect_succeeded [simp]: "owing k (reconnect_succeeded now t call s) = owing k s"
  by (simp add: reconnect_succeeded_def Let_def)

lemma owing_resume: "owing (cont_key c) s \<Longrightarrow> owing None (resume_cont unseal now c r s)"
proof (induction unseal now c r s rule: resume_cont.induct)
  case (1 unseal now c g r s)
  then show ?case by (auto simp: sidebar_opened_def Let_def owing_await split: prod.split dest: owing_fresh)
next
  case (4 unseal now t c g r s)
  then show ?case by (auto simp: duplicate_opened_def Let_def owing_await split: prod.split dest: owing_fresh)
next
  case (12 unseal now c g r s)
  then show ?case
    by (auto simp: quick_opened_def Let_def owing_end owing_await config_of_def intro!: owing_dialog_await)
next
  case (14 unseal now c g r s)
  then show ?case
    by (auto simp: quick_ssh_answer_def owing_end owing_dialog_connect split: answer.split)
qed (simp_all add: sidebar_ssh_answer_def Let_def duplicate_file_answer_def duplicate_ssh_answer_def
    reconnect_opened_def reconnect_dropped_def reconnect_answer_def owing_end owing_await
    save_opened_def owing_save_rest save_ssh_answer_def quick_tab_answer_def reattach_answer_def
    split: answer.split option.split)

lemma owing_step: "owing None s \<Longrightarrow> owing None (app_step unseal s e)"
proof (induction unseal s e rule: app_step.induct)
  case (20 unseal s now n r)
  then show ?case using owing_resume [OF owing_answered [OF 20], of n unseal now r] by simp
next
  case (14 unseal s now i)
  then show ?case by (simp add: handleDetachTab_def Let_def split: option.split)
next
  case (15 unseal s now d)
  then show ?case
    by (auto simp: handleReattachSession_def split: prod.split bool.split intro!: owing_await dest: owing_begin)
next
  case (17 unseal s now i)
  then show ?case by (auto simp: handleQuickConnect_def owing_runQuickConnect owing_begin split: prod.split bool.split)
qed (simp_all add: handleConnectionConnect_def handleCloseTab_def handleCloseAllTabs_def handleCloseActiveTab_def
    Let_def handleNewTab_def handleEditConnection_def dialog_closed_def handleConnectionDialogConnect_def owing_await
    owing_dialog_connect handleSaveConnection_def owing_save_rest handleDuplicateTab_def owing_handleReconnect retry_timer_def
    handleCloseDetachedSession_def editor_opened_def editor_closed_def split: option.split prod.split bool.split)

section \<open>Retries\<close>

fun reconnecting :: "cont \<Rightarrow> string option" where
  "reconnecting (ReconnectOpened t c) = Some (tab_id t)"
| "reconnecting (ReconnectDropped t c call) = Some (tab_id t)"
| "reconnecting (ReconnectAnswer t c call) = Some (tab_id t)"
| "reconnecting _ = None"

lemma reconnecting_key: "reconnecting c = Some i \<Longrightarrow> cont_key c = Some i"
  by (cases c) simp_all

text \<open>An armed timer belongs to an entry, no attempt runs beside it, and failures are counted up to the last delay.\<close>

definition retries_ok :: "app_state \<Rightarrow> bool" where
  "retries_ok s \<longleftrightarrow> distinct (armedTimers s) \<and>
     (\<forall>i \<in> set (armedTimers s). (\<exists>f. obj_get (retries s) i = Some (f, True)) \<and> Some i \<notin> reconnecting ` set (waiting s)) \<and>
     (\<forall>i e. obj_get (retries s) i = Some e \<longrightarrow> 1 \<le> fst e \<and> fst e \<le> length FULL_RECONNECT_BACKOFF_MS)"

lemma retries_ok_cong:
  "retries s' = retries s \<Longrightarrow> armedTimers s' = armedTimers s \<Longrightarrow> waiting s' = waiting s \<Longrightarrow> retries_ok s' = retries_ok s"
  by (simp add: retries_ok_def)

lemma retries_ok_frame [simp]:
  "retries_ok (notify tst s) = retries_ok s" "retries_ok (perform e s) = retries_ok s" "retries_ok (dispatch a s) = retries_ok s"
  "retries_ok (ask_credentials co i s) = retries_ok s" "retries_ok (connected_at now i s) = retries_ok s"
  "retries_ok (end_connect i s) = retries_ok s"
  "retries_ok (drop_detached i s) = retries_ok s" "retries_ok (disconnectTabBackend t s) = retries_ok s"
  by (rule retries_ok_cong; simp add: app_defs drop_detached_def
    cancelPendingTerminalConnect_def disconnectTabBackend_def Let_def split: option.split tab_type.split bool.split)+

lemma retries_ok_record [simp]:
  "retries_ok (s\<lparr>failedPending := f\<rparr>) = retries_ok s" "retries_ok (s\<lparr>guard := gd\<rparr>) = retries_ok s"
  "retries_ok (s\<lparr>detachedSessions := d\<rparr>) = retries_ok s"
  "retries_ok (s\<lparr>openEditors := e\<rparr>) = retries_ok s" "retries_ok (s\<lparr>pendingConnectionId := p\<rparr>) = retries_ok s"
  "retries_ok (s\<lparr>pendingReconnectTabId := p\<rparr>) = retries_ok s" "retries_ok (s\<lparr>connectionsCleared := b\<rparr>) = retries_ok s"
  "retries_ok (s\<lparr>dialogOpen := b\<rparr>) = retries_ok s" "retries_ok (s\<lparr>editingConnection := ec\<rparr>) = retries_ok s"
  by (simp_all add: retries_ok_def)

lemma retries_ok_fold_disconnect [simp]: "retries_ok (fold disconnectTabBackend ts s) = retries_ok s"
  by (induction ts arbitrary: s) simp_all

lemma retries_ok_fold_names [simp]: "retries_ok (fold (\<lambda>t. dispatch (UPDATE_TAB_NAME (f t) n)) ts s) = retries_ok s"
  by (induction ts arbitrary: s) simp_all

lemma retries_ok_fresh: "retries_ok s \<Longrightarrow> fresh_id i now s = (d, s1) \<Longrightarrow> retries_ok s1"
  by (auto simp: fresh_id_def split: prod.splits)

lemma retries_ok_await: "retries_ok s \<Longrightarrow> reconnecting c = None \<Longrightarrow> retries_ok (await c s)"
  by (auto simp: retries_ok_def await_def)

lemma retries_ok_await_reconnect:
  "retries_ok s \<Longrightarrow> reconnecting c = Some i \<Longrightarrow> i \<notin> set (armedTimers s) \<Longrightarrow> retries_ok (await c s)"
  by (auto simp: retries_ok_def await_def)

lemma retries_ok_clear: "retries_ok s \<Longrightarrow> retries_ok (clearReconnectRetry i s)"
  by (auto simp: retries_ok_def clearReconnectRetry_def distinct_removeAll)

lemma retries_ok_supersede: "retries_ok s \<Longrightarrow> retries_ok (supersede i s) \<and> i \<notin> set (armedTimers (supersede i s))"
  by (auto simp: retries_ok_def supersede_def distinct_removeAll split: option.splits bool.splits prod.splits) blast+

lemma retries_ok_disarm: "retries_ok s \<Longrightarrow> retries_ok (s\<lparr>armedTimers := removeAll i (armedTimers s)\<rparr>)"
  by (auto simp: retries_ok_def distinct_removeAll)

lemma retries_ok_arm:
  assumes "retries_ok s" "i \<notin> set (armedTimers s)" "Some i \<notin> reconnecting ` set (waiting s)"
    "1 \<le> f" "f \<le> length FULL_RECONNECT_BACKOFF_MS"
  shows "retries_ok (s\<lparr>retries := obj_set i (f, True) (obj_entries (retries s)), armedTimers := i # armedTimers s\<rparr>)"
  using assms by (auto simp: retries_ok_def)

lemma set_remove_at_subset: "set (remove_at n xs) \<subseteq> set xs"
  using set_take_subset [of n xs] set_drop_subset [of "Suc n" xs] by (auto simp: remove_at_def)

lemma armed_frame [simp]:
  "armedTimers (notify tst s) = armedTimers s" "armedTimers (perform e s) = armedTimers s" "armedTimers (dispatch a s) = armedTimers s"
  by (simp_all add: app_defs)

lemma retries_ok_answered:
  "retries_ok s \<Longrightarrow> retries_ok (s\<lparr>waiting := remove_at n (waiting s)\<rparr>)"
  using set_remove_at_subset [of n "waiting s"] by (auto simp: retries_ok_def image_iff)

lemma retries_ok_dialog_connect:
  "retries_ok s \<Longrightarrow> (\<And>call u i. reconnecting (cnt call u i) = None) \<Longrightarrow> retries_ok (dialog_connect cnt now cfg g s)"
  by (auto simp: dialog_connect_def Let_def retries_ok_await split: option.split)

lemma retries_ok_tab_answer [simp]: "retries_ok (tab_answer now call u i r s) = retries_ok s"
  by (simp add: tab_answer_def Let_def split: option.split)

lemma retries_ok_select [simp]: "retries_ok (handleTabSelect i s) = retries_ok s"
  by (simp add: handleTabSelect_def split: option.split)

lemma retries_ok_save_connect: "retries_ok s \<Longrightarrow> retries_ok (save_connect now i cfg target g s)"
  by (auto simp: save_connect_def Let_def retries_ok_await split: option.split prod.split dest: retries_ok_fresh)

lemma retries_ok_save_rest: "retries_ok s \<Longrightarrow> retries_ok (save_rest now i cfg g pending target s)"
  by (simp add: save_rest_def Let_def retries_ok_save_connect)

lemma retries_ok_runReconnect: "retries_ok s \<Longrightarrow> retries_ok (runReconnect i s)"
  using retries_ok_supersede [of s i]
  by (auto simp: runReconnect_def Let_def retries_ok_clear split: option.split
    intro!: retries_ok_await_reconnect [of _ _ i] dest: tab_named_id)

lemma retries_ok_handleReconnect: "retries_ok s \<Longrightarrow> retries_ok (handleReconnect i s)"
  by (auto simp: handleReconnect_def retries_ok_runReconnect split: prod.split bool.split)

lemma retries_ok_runQuickConnect: "retries_ok s \<Longrightarrow> retries_ok (runQuickConnect i s)"
  by (auto simp: runQuickConnect_def retries_ok_await split: option.split)

lemma retries_ok_reconnect_failed: "retries_ok s \<Longrightarrow> retries_ok (reconnect_failed tst t s)"
  by (simp add: reconnect_failed_def Let_def retries_ok_clear)

lemma retries_ok_reconnect_succeeded: "retries_ok s \<Longrightarrow> retries_ok (reconnect_succeeded now t call s)"
  by (simp add: reconnect_succeeded_def Let_def retries_ok_clear)

lemma retries_ok_resume:
  assumes "retries_ok s" and "\<And>i. reconnecting c = Some i \<Longrightarrow> i \<notin> set (armedTimers s) \<and> Some i \<notin> reconnecting ` set (waiting s)"
  shows "retries_ok (resume_cont unseal now c r s)"
  using assms
proof (induction unseal now c r s rule: resume_cont.induct)
  case (1 unseal now c g r s)
  then show ?case by (auto simp: sidebar_opened_def Let_def retries_ok_await split: prod.split dest: retries_ok_fresh)
next
  case (4 unseal now t c g r s)
  then show ?case by (auto simp: duplicate_opened_def Let_def retries_ok_await split: prod.split dest: retries_ok_fresh)
next
  case (7 unseal now t c r s)
  then show ?case
    by (auto simp: reconnect_opened_def Let_def retries_ok_clear
      intro!: retries_ok_await_reconnect [of _ _ "tab_id t"])
next
  case (8 unseal now t c call r s)
  then show ?case
    by (auto simp: reconnect_dropped_def intro!: retries_ok_await_reconnect [of _ _ "tab_id t"])
next
  case (9 unseal now t c call r s)
  then show ?case
    by (auto simp: reconnect_answer_def Let_def retries_ok_reconnect_failed retries_ok_reconnect_succeeded
      split: answer.split intro!: retries_ok_arm)
next
  case (12 unseal now c g r s)
  then show ?case
    by (auto simp: quick_opened_def Let_def retries_ok_await intro!: retries_ok_dialog_connect)
next
  case (14 unseal now c g r s)
  then show ?case
    by (auto simp: quick_ssh_answer_def retries_ok_dialog_connect split: answer.split)
qed (simp_all add: sidebar_ssh_answer_def Let_def duplicate_file_answer_def duplicate_ssh_answer_def
    retries_ok_await save_opened_def retries_ok_save_rest save_ssh_answer_def quick_tab_answer_def reattach_answer_def
    split: answer.split option.split)

text \<open>The guard keeps a second attempt for the same tab away from the one that is answered.\<close>

lemma answered_alone:
  assumes "owing None s" "n < length (waiting s)" "reconnecting (waiting s ! n) = Some i"
  shows "Some i \<notin> reconnecting ` set (remove_at n (waiting s))"
proof
  let ?f = "List.map_filter cont_key"
  assume "Some i \<in> reconnecting ` set (remove_at n (waiting s))"
  then obtain c where c: "c \<in> set (remove_at n (waiting s))" "cont_key c = Some i"
    using reconnecting_key by (metis imageE)
  have "guarded s = ?f (take n (waiting s)) @ i # ?f (drop (Suc n) (waiting s))"
    unfolding guarded_def
    by (subst id_take_nth_drop [OF assms(2)]) (simp add: List.map_filter_def reconnecting_key [OF assms(3)])
  moreover have "distinct (guarded s)"
    using assms(1) by (metis owing_def add.right_neutral option.case(1) mset_eq_imp_distinct_iff)
  moreover have "i \<in> set (?f (take n (waiting s))) \<or> i \<in> set (?f (drop (Suc n) (waiting s)))"
    using c by (force simp: List.map_filter_def remove_at_def)
  ultimately show False by simp
qed

lemma retries_ok_step:
  assumes "retries_ok s" "owing None s" shows "retries_ok (app_step unseal s e)"
  using assms
proof (induction unseal s e rule: app_step.induct)
  case (20 unseal s now n r)
  show ?case
  proof (cases "n < length (waiting s)")
    case True
    have "retries_ok (resume_cont unseal now (waiting s ! n) r (s\<lparr>waiting := remove_at n (waiting s)\<rparr>))"
    proof (rule retries_ok_resume [OF retries_ok_answered [OF 20(1)]])
      fix i
      assume i: "reconnecting (waiting s ! n) = Some i"
      then have "Some i \<in> reconnecting ` set (waiting s)" using True by (metis image_eqI nth_mem)
      then have "i \<notin> set (armedTimers s)" using 20(1) by (auto simp: retries_ok_def)
      then show "i \<notin> set (armedTimers (s\<lparr>waiting := remove_at n (waiting s)\<rparr>)) \<and>
          Some i \<notin> reconnecting ` set (waiting (s\<lparr>waiting := remove_at n (waiting s)\<rparr>))"
        using answered_alone [OF 20(2) True i] by simp
    qed
    then show ?thesis using True by simp
  qed (simp add: 20)
next
  case (14 unseal s now i)
  then show ?case by (simp add: handleDetachTab_def Let_def split: option.split)
next
  case (15 unseal s now d)
  then show ?case
    by (auto simp: handleReattachSession_def retries_ok_await split: prod.split bool.split)
next
  case (17 unseal s now i)
  then show ?case by (auto simp: handleQuickConnect_def retries_ok_runQuickConnect split: prod.split bool.split)
qed (simp_all add: handleConnectionConnect_def handleCloseTab_def handleCloseAllTabs_def handleCloseActiveTab_def
    Let_def handleNewTab_def handleEditConnection_def dialog_closed_def handleConnectionDialogConnect_def retries_ok_await
    retries_ok_dialog_connect handleSaveConnection_def retries_ok_save_rest handleDuplicateTab_def retries_ok_handleReconnect
    retry_timer_def retries_ok_disarm
    handleCloseDetachedSession_def editor_opened_def editor_closed_def split: option.split prod.split bool.split)

end
