(* ===== verification/AppSessions.thy ===== *)
theory AppSessions
  imports AppWindowInv
begin

text \<open>
  The sessions of the backend and the tabs of the window: what the sidebar connects is never left open without a tab, and
  the window as a machine, with its invariants.
\<close>

section \<open>Sessions and tabs\<close>

text \<open>The sessions the answers have established and no call has ended.\<close>

fun effect_on :: "effect \<Rightarrow> (connect_call \<times> string) set \<Rightarrow> (connect_call \<times> string) set" where
  "effect_on (Established call i) S = insert (call, i) S"
| "effect_on (Disconnects call i) S = S - {(call, i)}"
| "effect_on _ S = S"

definition open_sessions :: "effect list \<Rightarrow> (connect_call \<times> string) set" where
  "open_sessions es = fold effect_on es {}"

lemma open_sessions_snoc [simp]: "open_sessions (es @ [e]) = effect_on e (open_sessions es)"
  by (simp add: open_sessions_def)

lemma open_sessions_Nil [simp]: "open_sessions [] = {}"
  by (simp add: open_sessions_def)

lemma all_tabs_present:
  assumes "state_ok g" shows "t \<in> set (all_tabs g) \<longleftrightarrow> tab_present g t"
proof -
  have ok: "obj_ok (groups g)" using assms by (simp add: state_ok_def groups_ok_def)
  have "t \<in> set (all_tabs g) \<longleftrightarrow> (\<exists>h. h \<in> set (obj_values (groups g)) \<and> t \<in> set (tabs h))"
    by (auto simp: all_tabs_def)
  then show ?thesis unfolding obj_values_set [OF ok] tab_present_def by blast
qed

lemma live_ids_lookup: "ws_ok s \<Longrightarrow> i \<in> live_ids s \<longleftrightarrow> tab_lookup (ws s) i \<noteq> None"
  by (auto simp: ws_ok_def live_ids_def all_tabs_present tab_lookup_iff image_iff)

lemma group_with_Some:
  assumes "state_ok g" "group_with g i = Some h"
  shows "obj_get (groups g) (group_id h) = Some h \<and> i \<in> set (group_ids h)"
proof -
  have ok: "obj_ok (groups g)" using assms(1) by (simp add: state_ok_def groups_ok_def)
  have "h \<in> set (obj_values (groups g)) \<and> i \<in> set (group_ids h)"
    using assms(2) unfolding group_with_def by (rule find_Some_mem)
  moreover from this obtain k where "obj_get (groups g) k = Some h" using obj_values_set [OF ok] by blast
  moreover from this have "group_id h = k" using assms(1) state_ok_group by blast
  ultimately show ?thesis by simp
qed

definition same_tabs :: "group_state \<Rightarrow> group_state \<Rightarrow> bool" where
  "same_tabs g g' \<longleftrightarrow> (\<forall>i. map_option tabType (tab_lookup g' i) = map_option tabType (tab_lookup g i))"

lemma same_tabs_modify:
  assumes "state_ok g" "\<And>t. tab_id (f t) = tab_id t" "\<And>t. tabType (f t) = tabType t"
  shows "same_tabs g (modify_tab g i f)"
proof (cases "obj_get (tabToGroupMap g) i = Some []")
  case True
  then have "modify_tab g i f = g" by (simp add: modify_tab_def)
  then show ?thesis by (simp add: same_tabs_def)
next
  case False
  have o: "map_option tabType (map_option (if c then f else id) x) = map_option tabType x" for c x
    using assms(3) by (cases x) auto
  show ?thesis unfolding same_tabs_def modify_lookup [OF assms(1,2) False] by (simp only: o) simp
qed

lemma same_tabs_status: "state_ok g \<Longrightarrow> same_tabs g (terminalGroupReducer g (UPDATE_TAB_STATUS i st))"
  by (simp add: update_tab_status_def) (rule same_tabs_modify; simp)

lemma same_tabs_activate:
  "state_ok g \<Longrightarrow> same_tabs g (terminalGroupReducer g (ACTIVATE_GROUP k))"
  "state_ok g \<Longrightarrow> same_tabs g (terminalGroupReducer g (ACTIVATE_TAB k i))"
  using rearranged_lookup [of g "ACTIVATE_GROUP k"] rearranged_lookup [of g "ACTIVATE_TAB k i"]
  by (simp_all add: same_tabs_def del: terminalGroupReducer.simps)

lemma same_tabs_trans: "same_tabs g h \<Longrightarrow> same_tabs h k \<Longrightarrow> same_tabs g k"
  by (simp add: same_tabs_def)

lemma same_tabs_None: "same_tabs g h \<Longrightarrow> tab_lookup h i = None \<longleftrightarrow> tab_lookup g i = None"
  unfolding same_tabs_def by (metis map_option_is_None)

section \<open>No session without a tab\<close>

text \<open>What the sidebar and closing do; the connections are to shells, and editor windows of one name are of one connection.\<close>

fun sidebar_event :: "app_state \<Rightarrow> string \<times> app_event \<Rightarrow> bool" where
  "sidebar_event s (now, ConnectNode i) = (case getConnection (app_store s) i of
     Some c \<Rightarrow> conn_id c \<noteq> [] \<and> \<not> isFileBrowser (conn_protocol c) \<and> \<not> isDesktop (conn_protocol c) | None \<Rightarrow> True)"
| "sidebar_event s (now, EditorClosed e) =
     list_all (\<lambda>x. keyOf x = keyOf e \<longrightarrow> ed_connection x = ed_connection e) (loadOpenEditors (openEditors s))"
| "sidebar_event s (now, EditorOpened e) =
     list_all (\<lambda>x. keyOf x = keyOf e \<longrightarrow> ed_connection x = ed_connection e) (loadOpenEditors (openEditors s))"
| "sidebar_event s (now, e) = (e \<in> {CloseActiveTab, NewTab, DialogCloses} \<or>
     (\<exists>i. e \<in> {SelectTab i, CloseTab i, CloseAllTabs i, EditConnection i}) \<or> (\<exists>n r. e = Answered n r))"

definition sidebar_cont :: "cont \<Rightarrow> bool" where
  "sidebar_cont c = (case c of
     SidebarOpened co g \<Rightarrow> conn_id co \<noteq> [] \<and> \<not> isFileBrowser (conn_protocol co) \<and> \<not> isDesktop (conn_protocol co)
   | SidebarSshAnswer co i \<Rightarrow> True | _ \<Rightarrow> False)"

definition tabs_plain :: "group_state \<Rightarrow> bool" where
  "tabs_plain g \<longleftrightarrow> (\<forall>i t. tab_lookup g i = Some t \<longrightarrow> tabType t = None \<and> i \<noteq> [])"

definition no_orphans :: "app_state \<Rightarrow> bool" where
  "no_orphans s \<longleftrightarrow> ws_ok s \<and> tabs_plain (ws s) \<and> list_all sidebar_cont (waiting s) \<and>
     (\<forall>p \<in> open_sessions (effects s). fst p = SshConnect \<and> (tab_lookup (ws s) (snd p) \<noteq> None \<or> borrowed s (snd p)))"

lemma tabs_plain_same: "same_tabs g h \<Longrightarrow> tabs_plain g \<Longrightarrow> tabs_plain h"
  unfolding tabs_plain_def same_tabs_def by (metis map_option_eq_Some option.map(2) option.sel option.simps(3))

text \<open>Steps that keep the tabs, the sessions and the editors.\<close>

lemma no_orphans_keep:
  assumes "no_orphans s" "ws_ok s'" "same_tabs (ws s) (ws s')" "effects s' = effects s" "openEditors s' = openEditors s"
    "list_all sidebar_cont (waiting s')"
  shows "no_orphans s'"
  using assms tabs_plain_same [OF assms(3)] same_tabs_None [OF assms(3)]
  unfolding no_orphans_def borrowed_def by metis

lemma no_orphans_fresh:
  assumes "no_orphans s" "fresh_id i now s = (d, s1)"
  shows "no_orphans s1"
proof -
  have "ws s1 = ws s" "effects s1 = effects s" "openEditors s1 = openEditors s" "waiting s1 = waiting s"
    using assms(2) by (auto simp: fresh_id_def split: prod.splits)
  with assms(1) show ?thesis by (simp add: no_orphans_def ws_ok_def borrowed_def)
qed

lemma fresh_id_ne: "fresh_id i now s = (d, s1) \<Longrightarrow> d \<noteq> []"
  by (auto simp: fresh_id_def nextDuplicateId_def)

lemma no_orphans_add:
  assumes "no_orphans s" "tabType t = None" "tab_id t \<noteq> []"
  shows "no_orphans (dispatch (ADD_TAB k t) s)"
proof -
  have g: "state_ok (ws s)" using assms(1) by (simp add: no_orphans_def ws_ok_def)
  show ?thesis using assms add_tab_lookup [OF g, of k t]
    by (auto simp: no_orphans_def tabs_plain_def borrowed_def dispatch_def ws_ok_def add_tab_ok)
qed

lemma no_orphans_perform:
  "no_orphans s \<Longrightarrow> (\<And>S. effect_on e S \<subseteq> S) \<Longrightarrow> no_orphans (perform e s)"
  by (auto simp: no_orphans_def perform_def ws_ok_def borrowed_def)

lemma no_orphans_await: "no_orphans s \<Longrightarrow> sidebar_cont c \<Longrightarrow> no_orphans (await c s)"
  by (simp add: no_orphans_def await_def ws_ok_def borrowed_def)

lemma effect_on_call: "effect_on (Connects call i) S \<subseteq> S" "effect_on (Disconnects call i) S \<subseteq> S" "effect_on (CancelsConnect i) S \<subseteq> S"
  by auto

lemma no_orphans_removed:
  assumes "no_orphans s" "ws_ok s'" "\<And>i. tab_lookup (ws s') i = (if i \<in> R then None else tab_lookup (ws s) i)"
    "open_sessions (effects s') \<subseteq> open_sessions (effects s) - {p. snd p \<in> R \<and> \<not> borrowed s (snd p)}"
    "openEditors s' = openEditors s" "waiting s' = waiting s"
  shows "no_orphans s'"
proof -
  have b: "borrowed s' i = borrowed s i" for i using assms(5) by (simp add: borrowed_def)
  have "tabs_plain (ws s')" using assms(1,3) by (simp add: no_orphans_def tabs_plain_def)
  moreover have "fst p = SshConnect \<and> (tab_lookup (ws s') (snd p) \<noteq> None \<or> borrowed s' (snd p))"
    if "p \<in> open_sessions (effects s')" for p
    using that assms(1,3,4) unfolding no_orphans_def b by (cases "snd p \<in> R") auto
  ultimately show ?thesis using assms(1,2,6) by (simp add: no_orphans_def)
qed

lemma disconnect_plain:
  assumes "tabType t = None"
  shows "open_sessions (effects (disconnectTabBackend t s)) =
      open_sessions (effects s) - (if borrowed s (tab_id t) then {} else {(SshConnect, tab_id t)})"
    "openEditors (disconnectTabBackend t s) = openEditors s" "waiting (disconnectTabBackend t s) = waiting s"
  using assms by (simp_all add: disconnectTabBackend_def cancelPendingTerminalConnect_def perform_def Let_def borrowed_def)

lemma borrowed_disconnect [simp]: "tabType t = None \<Longrightarrow> borrowed (disconnectTabBackend t s) i = borrowed s i"
  by (simp add: borrowed_def disconnect_plain)

lemma disconnect_all_plain:
  "list_all (\<lambda>t. tabType t = None) ts \<Longrightarrow>
     open_sessions (effects (fold disconnectTabBackend ts s)) =
       open_sessions (effects s) - {p. fst p = SshConnect \<and> snd p \<in> tab_id ` set ts \<and> \<not> borrowed s (snd p)} \<and>
     openEditors (fold disconnectTabBackend ts s) = openEditors s \<and> waiting (fold disconnectTabBackend ts s) = waiting s"
  by (induction ts arbitrary: s) (auto simp: disconnect_plain)

lemma plain_in_group:
  assumes "no_orphans s" "obj_get (groups (ws s)) k = Some g" "t \<in> set (tabs g)"
  shows "tabType t = None" "tab_id t \<noteq> []"
  using tab_lookup_in [of "ws s" k g t] assms by (auto simp: no_orphans_def ws_ok_def tabs_plain_def)

lemma close_lookup:
  "state_ok g \<Longrightarrow> closes a \<Longrightarrow> tab_lookup (terminalGroupReducer g a) i = (if i \<in> set (closed_ids g a) then None else tab_lookup g i)"
  by (rule closing_lookup)

text \<open>Removing a tab of a group and disconnecting it.\<close>

lemma no_orphans_remove_tab:
  assumes s: "no_orphans s" and g: "obj_get (groups (ws s)) k = Some g" and t: "find (\<lambda>t. tab_id t = i) (tabs g) = Some t"
  shows "no_orphans (disconnectTabBackend t (dispatch (REMOVE_TAB k i) s))"
proof -
  have ok: "state_ok (ws s)" "ws_ok s" using s by (simp_all add: no_orphans_def ws_ok_def)
  have t': "t \<in> set (tabs g)" "tab_id t = i" using find_Some_mem [OF t] by auto
  note plain = plain_in_group [OF s g t'(1)]
  have ids: "set (closed_ids (ws s) (REMOVE_TAB k i)) = {i}" using g t' by (auto simp: ids_of_group_def)
  let ?s = "dispatch (REMOVE_TAB k i) s"
  have b: "borrowed ?s i = borrowed s i" "open_sessions (effects ?s) = open_sessions (effects s)"
    "openEditors ?s = openEditors s" "waiting ?s = waiting s" by (simp_all add: borrowed_def dispatch_def)
  show ?thesis
  proof (rule no_orphans_removed [OF s, of _ "{i}"])
    show "ws_ok (disconnectTabBackend t ?s)" using ok by simp
    show "tab_lookup (ws (disconnectTabBackend t ?s)) j = (if j \<in> {i} then None else tab_lookup (ws s) j)" for j
      using close_lookup [OF ok(1), of "REMOVE_TAB k i" j] ids by (simp del: terminalGroupReducer.simps closed_ids.simps)
    show "open_sessions (effects (disconnectTabBackend t ?s)) \<subseteq> open_sessions (effects s) - {p. snd p \<in> {i} \<and> \<not> borrowed s (snd p)}"
      using s unfolding disconnect_plain(1) [OF plain(1)] t'(2) b by (auto simp: no_orphans_def)
  qed (simp_all add: disconnect_plain [OF plain(1)] b)
qed

lemma no_orphans_close_tab:
  assumes s: "no_orphans s" shows "no_orphans (handleCloseTab i s)"
proof -
  have ok: "state_ok (ws s)" using s by (simp add: no_orphans_def ws_ok_def)
  show ?thesis
    using s no_orphans_remove_tab [OF s] group_with_Some [OF ok, of i]
    by (simp add: handleCloseTab_def split: option.split)
qed

lemma no_orphans_close_all: 
  assumes s: "no_orphans s" shows "no_orphans (handleCloseAllTabs k s)"
proof (cases "obj_get (groups (ws s)) k")
  case None
  then show ?thesis using s by (simp add: handleCloseAllTabs_def)
next
  case (Some g)
  have ok: "state_ok (ws s)" "ws_ok s" using s by (simp_all add: no_orphans_def ws_ok_def)
  have plain: "list_all (\<lambda>t. tabType t = None) (tabs g)" using plain_in_group [OF s Some] by (simp add: list_all_iff)
  let ?s = "fold disconnectTabBackend (tabs g) s"
  note d = disconnect_all_plain [OF plain, of s]
  have e: "handleCloseAllTabs k s = dispatch (CLOSE_ALL_TABS k) ?s" using Some by (simp add: handleCloseAllTabs_def)
  have ids: "set (closed_ids (ws s) (CLOSE_ALL_TABS k)) = tab_id ` set (tabs g)" using Some by (simp add: ids_of_group_def)
  show ?thesis unfolding e
  proof (rule no_orphans_removed [OF s, of _ "tab_id ` set (tabs g)"])
    show "ws_ok (dispatch (CLOSE_ALL_TABS k) ?s)" using ok by simp
    show "tab_lookup (ws (dispatch (CLOSE_ALL_TABS k) ?s)) j =
        (if j \<in> tab_id ` set (tabs g) then None else tab_lookup (ws s) j)" for j
      using close_lookup [OF ok(1), of "CLOSE_ALL_TABS k" j] ids by (simp del: terminalGroupReducer.simps closed_ids.simps)
    show "open_sessions (effects (dispatch (CLOSE_ALL_TABS k) ?s)) \<subseteq>
        open_sessions (effects s) - {p. snd p \<in> tab_id ` set (tabs g) \<and> \<not> borrowed s (snd p)}"
      using s d by (auto simp: dispatch_def no_orphans_def)
  qed (use d in \<open>simp_all add: dispatch_def\<close>)
qed

lemma no_orphans_close_active:
  assumes s: "no_orphans s" shows "no_orphans (handleCloseActiveTab s)"
proof (cases "obj_get (groups (ws s)) (activeGroupId (ws s))")
  case None
  then show ?thesis using s by (simp add: handleCloseActiveTab_def)
next
  case (Some g)
  have ok: "state_ok (ws s)" "ws_ok s" using s by (simp_all add: no_orphans_def ws_ok_def)
  have g: "group_ok g" "group_id g = activeGroupId (ws s)" using state_ok_group [OF ok(1) Some] by auto
  have cleared: "no_orphans (u\<lparr>connectionsCleared := b\<rparr>) = no_orphans u" for u b
    by (simp add: no_orphans_def borrowed_def)
  show ?thesis
  proof (cases "or_null (activeTabId g)")
    case None
    have "tabs g = []"
    proof (cases "activeTabId g")
      case None
      then show ?thesis using g(1) by (simp add: group_ok_def)
    next
      case (Some a)
      then have "a = []" using None by (simp add: or_null_def split: if_splits)
      then have "[] \<in> set (group_ids g)" using g(1) Some by (simp add: group_ok_def)
      then show ?thesis using plain_in_group(2) [OF s \<open>obj_get _ _ = Some g\<close>] by force
    qed
    then have ids: "closed_ids (ws s) (REMOVE_GROUP (group_id g)) = []" using Some g(2) by (simp add: ids_of_group_def)
    have "no_orphans (dispatch (REMOVE_GROUP (group_id g)) s)"
    proof (rule no_orphans_removed [OF s, of _ "{}"])
      show "ws_ok (dispatch (REMOVE_GROUP (group_id g)) s)" using ok by simp
      show "tab_lookup (ws (dispatch (REMOVE_GROUP (group_id g)) s)) j = (if j \<in> {} then None else tab_lookup (ws s) j)" for j
        using close_lookup [OF ok(1), of "REMOVE_GROUP (group_id g)" j] ids by (simp del: terminalGroupReducer.simps closed_ids.simps)
    qed (simp_all add: dispatch_def)
    then show ?thesis using Some None s by (simp add: handleCloseActiveTab_def)
  next
    case a: (Some i)
    then have "activeTabId g = Some i" by (auto simp: or_null_def split: option.splits if_splits)
    then have "i \<in> set (group_ids g)" using g(1) by (simp add: group_ok_def)
    then obtain t where t: "find (\<lambda>t. tab_id t = i) (tabs g) = Some t"
      by (cases "find (\<lambda>t. tab_id t = i) (tabs g)") (auto simp: find_None_iff_all)
    show ?thesis using no_orphans_remove_tab [OF s Some t] Some a t g(2)
      by (simp add: handleCloseActiveTab_def Let_def cleared)
  qed
qed

lemma open_sessions_append [simp]: "open_sessions (es @ e # es') = fold effect_on es' (effect_on e (open_sessions es))"
  by (simp add: open_sessions_def)

lemma no_orphans_same:
  assumes "no_orphans s" "ws s' = ws s" "effects s' = effects s" "openEditors s' = openEditors s" "waiting s' = waiting s"
  shows "no_orphans s'"
  using assms by (simp add: no_orphans_def ws_ok_def borrowed_def)

lemma no_orphans_frame [simp]:
  "no_orphans (notify tst s) = no_orphans s" "no_orphans (ask_credentials co i s) = no_orphans s"
  "no_orphans (connected_at now i s) = no_orphans s"
  by (simp_all add: app_defs no_orphans_def ws_ok_def borrowed_def)

lemma no_orphans_dispatch_same:
  assumes "no_orphans s" "same_tabs (ws s) (terminalGroupReducer (ws s) a)" "ok_action (ws s) a"
  shows "no_orphans (dispatch a s)"
proof (rule no_orphans_keep [OF assms(1)])
  show "ws_ok (dispatch a s)" using assms(1,3) by (intro ws_ok_dispatch) (simp_all add: no_orphans_def)
qed (use assms in \<open>simp_all add: dispatch_def no_orphans_def\<close>)

lemma no_orphans_dispatches [simp]:
  assumes "no_orphans s"
  shows "no_orphans (dispatch (UPDATE_TAB_STATUS i st) s)" "no_orphans (dispatch (ACTIVATE_GROUP k) s)"
    "no_orphans (dispatch (ACTIVATE_TAB k i) s)"
proof -
  have g: "state_ok (ws s)" using assms by (simp add: no_orphans_def ws_ok_def)
  show "no_orphans (dispatch (UPDATE_TAB_STATUS i st) s)" "no_orphans (dispatch (ACTIVATE_GROUP k) s)"
    "no_orphans (dispatch (ACTIVATE_TAB k i) s)"
    by (rule no_orphans_dispatch_same [OF assms]; use same_tabs_status [OF g] same_tabs_activate [OF g] in simp)+
qed

lemma no_orphans_sidebar_opened:
  assumes s: "no_orphans s" and c: "sidebar_cont (SidebarOpened c g)"
  shows "no_orphans (sidebar_opened unseal now c g s)"
proof (cases "connectionHasCredentials (openConnectionSecrets unseal c)")
  case False
  then show ?thesis using s by (simp add: sidebar_opened_def Let_def)
next
  case True
  obtain d s1 where f: "fresh_id (conn_id c) now s = (d, s1)" by fastforce
  have s1: "no_orphans s1" using no_orphans_fresh [OF s f] .
  have kind: "\<not> isFileBrowser (conn_protocol c)" "\<not> isDesktop (conn_protocol c)" using c by (simp_all add: sidebar_cont_def)
  let ?t = "new_tab d (conn_name (openConnectionSecrets unseal c)) (type_for (conn_protocol c)) (Some (conn_protocol c))
    (Some (conn_host (openConnectionSecrets unseal c))) (Some (conn_username (openConnectionSecrets unseal c)))
    (Some (conn_id c)) Pending"
  have "no_orphans (dispatch (ADD_TAB (activeGroupId g) ?t) s1)"
    by (rule no_orphans_add [OF s1]) (simp_all add: new_tab_def type_for_def kind fresh_id_ne [OF f])
  then show ?thesis using True kind
    by (simp add: sidebar_opened_def Let_def f sidebar_cont_def no_orphans_await no_orphans_perform)
qed

lemma no_orphans_sidebar_answer:
  assumes s: "no_orphans s" shows "no_orphans (sidebar_ssh_answer now c i r s)"
proof -
  have live: "i \<in> live_ids s \<longleftrightarrow> tab_lookup (ws s) i \<noteq> None" using s live_ids_lookup by (simp add: no_orphans_def)
  have est: "no_orphans (perform (Established SshConnect i) s)" if "i \<in> live_ids s"
    using s that live by (auto simp: no_orphans_def perform_def ws_ok_def borrowed_def)
  have drop: "no_orphans (perform (Disconnects SshConnect i) (perform (Established SshConnect i) s))"
    using s by (auto simp: no_orphans_def perform_def ws_ok_def borrowed_def)
  show ?thesis using s est drop
    by (auto simp: sidebar_ssh_answer_def Let_def split: answer.split)
qed

lemma load_add_editor:
  "loadOpenEditors (addOpenEditor True e it) = filter (\<lambda>x. keyOf x \<noteq> keyOf e) (loadOpenEditors it) @ [e]"
  "loadOpenEditors (removeOpenEditor True e it) = filter (\<lambda>x. keyOf x \<noteq> keyOf e) (loadOpenEditors it)"
  by (simp_all add: addOpenEditor_def removeOpenEditor_def)

lemma no_orphans_editor_opened:
  assumes s: "no_orphans s" and e: "sidebar_event s (now, EditorOpened e)"
  shows "no_orphans (editor_opened e s)"
proof -
  have "borrowed s i \<Longrightarrow> borrowed (editor_opened e s) i" for i
    using e by (auto simp: borrowed_def editor_opened_def load_add_editor list_all_iff)
  then show ?thesis using s by (auto simp: no_orphans_def editor_opened_def ws_ok_def)
qed

lemma no_orphans_editor_closed:
  assumes s: "no_orphans s" and e: "sidebar_event s (now, EditorClosed e)"
  shows "no_orphans (editor_closed e s)"
proof -
  let ?s = "s\<lparr>openEditors := removeOpenEditor True e (openEditors s)\<rparr>"
  have b: "borrowed ?s i" if "borrowed s i" "i \<noteq> ed_connection e" for i
    using that e by (auto simp: borrowed_def load_add_editor list_all_iff)
  have live: "i \<in> live_ids ?s \<longleftrightarrow> tab_lookup (ws s) i \<noteq> None" for i
    using s live_ids_lookup [of ?s i] by (simp add: no_orphans_def)
  show ?thesis
  proof (cases "borrowed ?s (ed_connection e) \<or> ed_connection e \<in> live_ids ?s")
    case True
    then have "editor_closed e s = ?s" by (auto simp: editor_closed_def Let_def)
    moreover have "tab_lookup (ws s) i \<noteq> None \<or> borrowed ?s i" if "tab_lookup (ws s) i \<noteq> None \<or> borrowed s i" for i
      using that True live [of i] b [of i] by (cases "i = ed_connection e") auto
    ultimately show ?thesis using s by (simp add: no_orphans_def ws_ok_def)
  next
    case False
    then have e: "editor_closed e s = perform (Disconnects SshConnect (ed_connection e)) ?s"
      by (auto simp: editor_closed_def Let_def)
    have k: "borrowed (perform (Disconnects SshConnect (ed_connection e)) ?s) i = borrowed ?s i" for i
      by (simp add: borrowed_def perform_def)
    have "fst p = SshConnect \<and> (tab_lookup (ws s) (snd p) \<noteq> None \<or> borrowed ?s (snd p))"
      if "p \<in> open_sessions (effects s) - {(SshConnect, ed_connection e)}" for p
      using that s b [of "snd p"] by (cases p) (auto simp: no_orphans_def)
    then show ?thesis unfolding e using s by (simp add: no_orphans_def ws_ok_def k) (simp add: perform_def)
  qed
qed

lemma no_orphans_answered:
  "no_orphans s \<Longrightarrow> no_orphans (s\<lparr>waiting := remove_at n (waiting s)\<rparr>)"
  using set_remove_at_subset [of n "waiting s"] by (auto simp: no_orphans_def ws_ok_def borrowed_def list_all_iff)

lemma no_orphans_step: "no_orphans s \<Longrightarrow> sidebar_event s e \<Longrightarrow> no_orphans (app_step unseal s e)"
proof (induction unseal s e rule: app_step.induct)
  case (1 unseal s now i)
  then show ?case
    by (auto simp: handleConnectionConnect_def split: option.splits dest: getConnection_id
      intro!: no_orphans_await) (simp add: sidebar_cont_def)
next
  case (20 unseal s now n r)
  show ?case
  proof (cases "n < length (waiting s)")
    case True
    then have c: "sidebar_cont (waiting s ! n)" using 20(1) by (auto simp: no_orphans_def list_all_iff)
    let ?s = "s\<lparr>waiting := remove_at n (waiting s)\<rparr>"
    have "no_orphans (resume_cont unseal now (waiting s ! n) r ?s)"
      using no_orphans_sidebar_opened [OF no_orphans_answered [OF 20(1)]] no_orphans_sidebar_answer [OF no_orphans_answered [OF 20(1)]] c
      by (cases "waiting s ! n") (auto simp: sidebar_cont_def)
    then show ?thesis using True by simp
  qed (simp add: 20)
next
  case (2 unseal s now i)
  then show ?case by (simp add: handleTabSelect_def split: option.split)
next
  case (6 unseal s now)
  then show ?case by (simp add: handleNewTab_def no_orphans_same [OF 6(1)])
next
  case (7 unseal s now i)
  then show ?case by (simp add: handleEditConnection_def no_orphans_same [OF 7(1)] split: option.split)
next
  case (8 unseal s now)
  then show ?case by (simp add: dialog_closed_def no_orphans_same [OF 8(1)])
next
  case (18 unseal s now e)
  then show ?case using no_orphans_editor_opened by simp
next
  case (19 unseal s now e)
  then show ?case using no_orphans_editor_closed by simp
qed (simp_all add: no_orphans_close_tab no_orphans_close_all no_orphans_close_active)

interpretation sidebar: action_machine "app_step unseal" no_orphans sidebar_event
  by unfold_locales (rule no_orphans_step)

definition app_ok :: "app_state \<Rightarrow> bool" where
  "app_ok s \<longleftrightarrow> ws_ok s \<and> owing None s \<and> retries_ok s"

interpretation app: action_machine "app_step unseal" app_ok "\<lambda>_ _. True"
  by unfold_locales (simp add: app_ok_def ws_ok_step owing_step retries_ok_step)

definition start_app :: "group_state \<Rightarrow> store \<Rightarrow> item \<Rightarrow> app_state" where
  "start_app g st editors = \<lparr>ws = g, app_store = st, guard = \<lparr>connectInFlight = [], duplicateCounter = 0\<rparr>,
     failedPending = [], retries = [], armedTimers = [], detachedSessions = [], openEditors = editors, dialogOpen = False,
     editingConnection = None, pendingConnectionId = None, pendingReconnectTabId = None, waiting = [], effects = [],
     app_toasts = [], connectionsCleared = False\<rparr>"

lemma start_app_ok: "state_ok g \<Longrightarrow> app_ok (start_app g st editors)"
  by (simp add: app_ok_def ws_ok_def start_app_def owing_def guarded_def retries_ok_def obj_get_def map_filter_simps)

lemma default_plain: "tabs_plain createDefaultState"
  by (simp add: tabs_plain_def tab_lookup_def createDefaultState_def obj_get_def [of "[]"])

lemma start_no_orphans: "no_orphans (start_app createDefaultState st editors)"
  by (simp add: no_orphans_def ws_ok_def start_app_def createDefaultState_ok default_plain)

lemma any_app_run: "ok_run step (\<lambda>_ _. True) s es"
  by (induction es arbitrary: s) auto

text \<open>
  (C4) Whatever happens in the window, in any order and with any answers, its groups stay consistent; of the reconnects,
  quick connects and reattachments never two wait for the same tab; a tab is retried by at most one timer, while no
  attempt of it is running, and after at most five failures.
\<close>

theorem window_stays_consistent:
  assumes "state_ok g" and "s = run_actions (app_step unseal) (start_app g st editors) es"
  shows "state_ok (ws s) \<and> distinct (List.map_filter cont_key (waiting s)) \<and> distinct (armedTimers s) \<and>
    (\<forall>i \<in> set (armedTimers s). \<exists>f. obj_get (retries s) i = Some (f, True) \<and> 1 \<le> f \<and> f \<le> 5 \<and>
       list_all (\<lambda>c. reconnecting c \<noteq> Some i) (waiting s))"
proof -
  have ok: "app_ok s" unfolding assms(2) by (rule app.run_inv [OF start_app_ok [OF assms(1)] any_app_run])
  then have "distinct (guarded s)" by (metis app_ok_def owing_def add.right_neutral option.case(1) mset_eq_imp_distinct_iff)
  moreover have "\<exists>f. obj_get (retries s) i = Some (f, True) \<and> 1 \<le> f \<and> f \<le> 5 \<and> list_all (\<lambda>c. reconnecting c \<noteq> Some i) (waiting s)"
    if i: "i \<in> set (armedTimers s)" for i
  proof -
    have r: "retries_ok s" using ok by (simp add: app_ok_def)
    then obtain f where f: "obj_get (retries s) i = Some (f, True)" "Some i \<notin> reconnecting ` set (waiting s)"
      using i unfolding retries_ok_def by blast
    moreover have "1 \<le> fst (f, True) \<and> fst (f, True) \<le> length FULL_RECONNECT_BACKOFF_MS"
      using r f(1) unfolding retries_ok_def by blast
    ultimately show ?thesis by (auto simp: FULL_RECONNECT_BACKOFF_MS_def list_all_iff image_iff)
  qed
  ultimately show ?thesis using ok by (simp add: app_ok_def ws_ok_def guarded_def retries_ok_def)
qed


end
