(* ===== verification/AppReconnect.thy ===== *)
theory AppReconnect
  imports AppSessions
begin

text \<open>
  What becomes of a reconnect that keeps being refused, of an answer that comes after its tab was closed, and of the
  dialog that asks for credentials.
\<close>

section \<open>Reconnects give up\<close>

lemma tab_named_lookup:
  assumes "state_ok g" shows "tab_named g i = tab_lookup g i"
proof (rule option_eqI)
  fix t
  have u: "tab_present g x \<and> tab_id x = i \<Longrightarrow> tab_lookup g i = Some x" for x using tab_lookup_iff [OF assms] by blast
  show "(tab_named g i = Some t) = (tab_lookup g i = Some t)"
  proof
    assume "tab_named g i = Some t"
    then have "t \<in> set (all_tabs g)" "tab_id t = i" unfolding tab_named_def by (simp_all add: find_Some_iff) auto
    then show "tab_lookup g i = Some t" using u [of t] all_tabs_present [OF assms] by simp
  next
    assume t: "tab_lookup g i = Some t"
    then have "t \<in> set (all_tabs g)" "tab_id t = i" using tab_lookup_iff [OF assms] all_tabs_present [OF assms] by auto
    moreover have "x = t" if "x \<in> set (all_tabs g)" "tab_id x = i" for x
    proof -
      have "tab_lookup g i = Some x" using u [of x] that all_tabs_present [OF assms] by simp
      then show ?thesis using t by simp
    qed
    ultimately show "tab_named g i = Some t" unfolding tab_named_def by (rule find_unique)
  qed
qed

lemma tab_status_lookup:
  assumes "state_ok g" "obj_get (tabToGroupMap g) i \<noteq> Some []"
  shows "tab_lookup (update_tab_status g i st) i = map_option (\<lambda>t. t\<lparr>connectionStatus := st\<rparr>) (tab_lookup g i)"
  using modify_lookup [OF assms(1) _ assms(2), of "\<lambda>t. t\<lparr>connectionStatus := st\<rparr>" i] by (simp add: update_tab_status_def)

lemma status_map [simp]: "tabToGroupMap (update_tab_status g i st) = tabToGroupMap g"
  by (simp add: update_tab_status_def modify_tab_def split: option.split)

lemma status_ok: "state_ok g \<Longrightarrow> state_ok (update_tab_status g i st)"
  using grp.step_inv [of g "UPDATE_TAB_STATUS i st"] by simp

text \<open>A tab that can reconnect: nothing is in flight and its connection has credentials for a shell.\<close>

definition can_reconnect :: "(string \<Rightarrow> string option) \<Rightarrow> string \<Rightarrow> terminal_tab \<Rightarrow> connection \<Rightarrow> app_state \<Rightarrow> bool" where
  "can_reconnect unseal i t c s \<longleftrightarrow> ws_ok s \<and> waiting s = [] \<and> connectInFlight (guard s) = [] \<and> armedTimers s = [] \<and>
     obj_get (tabToGroupMap (ws s)) i \<noteq> Some [] \<and> tab_lookup (ws s) i = Some t \<and> connectionStatus t \<noteq> Pending \<and>
     getConnection (app_store s) (originalId t) = Some c \<and> connectionHasCredentials (openConnectionSecrets unseal c) \<and>
     reconnect_call t (openConnectionSecrets unseal c) = SshConnect"

lemma failure_count_supersede [simp]: "failure_count (supersede j s) i = failure_count s i"
  by (auto simp: failure_count_def supersede_def split: option.split prod.split bool.split)

lemma supersede_frame [simp]:
  "waiting (supersede i s) = waiting s" "app_store (supersede i s) = app_store s" "guard (supersede i s) = guard s"
  "effects (supersede i s) = effects s" "armedTimers s = [] \<Longrightarrow> armedTimers (supersede i s) = []"
  by (simp_all add: supersede_def split: option.split prod.split bool.split)

lemma failure_count_cong: "retries s' = retries s \<Longrightarrow> failure_count s' i = failure_count s i"
  by (simp add: failure_count_def)

abbreviation tried :: "string \<Rightarrow> effect list" where
  "tried i \<equiv> [Disconnects SshConnect i, Connects SshConnect i]"

lemma refused_attempt:
  assumes r: "can_reconnect unseal i t c s" and e: "\<not> permanent_error e"
    and s': "s' = run_actions (app_step unseal) (handleReconnect i s) [(n, Answered 0 a), (n, Answered 0 b), (n, Answered 0 (Refusal e))]"
  shows "if failure_count s i < 5
    then can_reconnect unseal i (t\<lparr>connectionStatus := Connecting\<rparr>) c (s'\<lparr>armedTimers := []\<rparr>) \<and> armedTimers s' = [i] \<and>
      failure_count s' i = failure_count s i + 1 \<and> effects s' = effects s @ tried i
    else tab_lookup (ws s') i = Some (t\<lparr>connectionStatus := Disconnected\<rparr>) \<and> armedTimers s' = [] \<and> waiting s' = [] \<and>
      connectInFlight (guard s') = [] \<and> obj_get (retries s') i = None \<and> effects s' = effects s @ tried i"
proof -
  have g: "state_ok (ws s)" using r by (simp add: can_reconnect_def ws_ok_def)
  have t: "tab_id t = i" "tab_named (ws s) i = Some t" "connectionStatus t \<noteq> Pending" and c: "getConnection (app_store s) (originalId t) = Some c"
    "connectionHasCredentials (openConnectionSecrets unseal c)" "reconnect_call t (openConnectionSecrets unseal c) = SshConnect"
    and idle: "waiting s = []" "connectInFlight (guard s) = []" "armedTimers s = []"
    and f: "obj_get (tabToGroupMap (ws s)) i \<noteq> Some []" and l: "tab_lookup (ws s) i = Some t"
    using r tab_lookup_id [OF g] tab_named_lookup [OF g] by (auto simp: can_reconnect_def)
  let ?c = "openConnectionSecrets unseal c"
  let ?s0 = "supersede i (s\<lparr>guard := (guard s)\<lparr>connectInFlight := [i]\<rparr>\<rparr>)"
  let ?s1 = "?s0\<lparr>failedPending := removeAll i (failedPending ?s0), ws := update_tab_status (ws s) i Connecting,
      effects := effects s @ tried i, waiting := []\<rparr>"
  have begin_: "beginConnect i (guard s) = (True, (guard s)\<lparr>connectInFlight := [i]\<rparr>)" using idle by (simp add: beginConnect_def)
  have run: "s' = reconnect_answer n t SshConnect (Refusal e) ?s1"
    unfolding s' using t c idle
    by (simp add: handleReconnect_def begin_ runReconnect_def Let_def reconnect_opened_def reconnect_dropped_def await_def
      perform_def dispatch_def remove_at_def)
  have fc: "failure_count ?s1 i = failure_count s i"
    using failure_count_cong [of ?s1 ?s0 i] failure_count_cong [of "s\<lparr>guard := (guard s)\<lparr>connectInFlight := [i]\<rparr>\<rparr>" s i] by simp
  have st: "state_ok (update_tab_status (ws s) i Connecting)" using status_ok [OF g] .
  have l1: "tab_lookup (update_tab_status (ws s) i Connecting) i = Some (t\<lparr>connectionStatus := Connecting\<rparr>)"
    using tab_status_lookup [OF g f] l by simp
  have l2: "tab_lookup (update_tab_status (update_tab_status (ws s) i Connecting) i Disconnected) i =
      Some (t\<lparr>connectionStatus := Disconnected\<rparr>)"
    using tab_status_lookup [OF st] f l1 by simp
  have o: "originalId (t\<lparr>connectionStatus := x\<rparr>) = originalId t" "reconnect_call (t\<lparr>connectionStatus := x\<rparr>) ?c = reconnect_call t ?c" for x
    by (simp_all add: originalId_def reconnect_call_def either_protocol_def split: option.split)
  show ?thesis
  proof (cases "failure_count s i < 5")
    case True
    then have "s' = end_connect i (?s1\<lparr>retries := obj_set i (failure_count s i + 1, True) (obj_entries (retries ?s1)), armedTimers := [i]\<rparr>)"
      using e t idle by (simp add: run reconnect_answer_def Let_def fc FULL_RECONNECT_BACKOFF_MS_def)
    then show ?thesis using True st l1 c f idle o
      by (simp add: can_reconnect_def ws_ok_def end_connect_def endConnect_def failure_count_def)
  next
    case False
    then have "s' = end_connect i (reconnect_failed ReconnectionFailed t ?s1)"
      using e t idle by (simp add: run reconnect_answer_def Let_def fc FULL_RECONNECT_BACKOFF_MS_def)
    then show ?thesis using False l2 t idle
      by (simp add: reconnect_failed_def Let_def end_connect_def endConnect_def notify_def dispatch_def clearReconnectRetry_def)
  qed
qed

text \<open>What one automatic attempt is: its timer fires, the secrets are opened, the old session is dropped, the backend refuses.\<close>

definition refused_retry :: "string \<Rightarrow> string \<Rightarrow> string \<Rightarrow> (string \<times> app_event) list" where
  "refused_retry n i e = [(n, RetryTimer i), (n, Answered 0 Resolved), (n, Answered 0 Resolved), (n, Answered 0 (Refusal e))]"

lemma run_append: "run_actions step s (as @ bs) = run_actions step (run_actions step s as) bs"
  by (induction as arbitrary: s) simp_all

lemma retry_round:
  assumes "can_reconnect unseal i t c (s\<lparr>armedTimers := []\<rparr>)" "armedTimers s = [i]"
  shows "run_actions (app_step unseal) s (refused_retry n i e) = run_actions (app_step unseal) (handleReconnect i (s\<lparr>armedTimers := []\<rparr>))
      [(n, Answered 0 Resolved), (n, Answered 0 Resolved), (n, Answered 0 (Refusal e))]"
  using assms by (simp add: refused_retry_def retry_timer_def)

lemma retry_rounds:
  assumes "can_reconnect unseal i t c (s\<lparr>armedTimers := []\<rparr>)" "armedTimers s = [i]" "\<not> permanent_error e"
    "failure_count s i + k \<le> 5"
  shows "\<exists>t'. can_reconnect unseal i t' c (run_actions (app_step unseal) s (concat (replicate k (refused_retry n i e)))\<lparr>armedTimers := []\<rparr>) \<and>
    armedTimers (run_actions (app_step unseal) s (concat (replicate k (refused_retry n i e)))) = [i] \<and>
    failure_count (run_actions (app_step unseal) s (concat (replicate k (refused_retry n i e)))) i = failure_count s i + k \<and>
    effects (run_actions (app_step unseal) s (concat (replicate k (refused_retry n i e)))) = effects s @ concat (replicate k (tried i))"
  using assms
proof (induction k arbitrary: s t)
  case 0
  then show ?case by auto
next
  case (Suc k)
  let ?s = "run_actions (app_step unseal) s (refused_retry n i e)"
  have fc: "failure_count (s\<lparr>armedTimers := []\<rparr>) i = failure_count s i" by (simp add: failure_count_def)
  have one: "can_reconnect unseal i (t\<lparr>connectionStatus := Connecting\<rparr>) c (?s\<lparr>armedTimers := []\<rparr>)" "armedTimers ?s = [i]"
    "failure_count ?s i = failure_count s i + 1" "effects ?s = effects s @ tried i"
    using refused_attempt [OF Suc.prems(1,3) retry_round [OF Suc.prems(1,2)]] Suc.prems(4) by (simp_all add: fc)
  from Suc.IH [OF one(1,2) Suc.prems(3)] one(3,4) Suc.prems(4) show ?case by (simp add: run_append)
qed

text \<open>
  (C22) A reconnect that keeps being refused gives up: the attempt of the user and five automatic ones, and no more;
  before the last of them the tab waits for its timer, after it the tab is disconnected, no timer runs and the failures
  are forgotten.
\<close>

theorem reconnects_give_up:
  assumes r: "can_reconnect unseal i t c s" "obj_get (retries s) i = None" and e: "\<not> permanent_error e"
    and first: "s1 = run_actions (app_step unseal) s
        [(n, Reconnect i), (n, Answered 0 Resolved), (n, Answered 0 Resolved), (n, Answered 0 (Refusal e))]"
  shows "(\<forall>k < 5. armedTimers (run_actions (app_step unseal) s1 (concat (replicate k (refused_retry n i e)))) = [i]) \<and>
    (let s' = run_actions (app_step unseal) s1 (concat (replicate 5 (refused_retry n i e)))
     in armedTimers s' = [] \<and> waiting s' = [] \<and> connectInFlight (guard s') = [] \<and> obj_get (retries s') i = None \<and>
        map_option connectionStatus (tab_lookup (ws s') i) = Some Disconnected \<and>
        filter (\<lambda>x. x = Connects SshConnect i) (effects s') =
          filter (\<lambda>x. x = Connects SshConnect i) (effects s) @ replicate 6 (Connects SshConnect i))"
proof -
  have s1: "s1 = run_actions (app_step unseal) (handleReconnect i s) [(n, Answered 0 Resolved), (n, Answered 0 Resolved), (n, Answered 0 (Refusal e))]"
    using first by simp
  have fc: "failure_count s i = 0" using r(2) by (simp add: failure_count_def)
  have one: "can_reconnect unseal i (t\<lparr>connectionStatus := Connecting\<rparr>) c (s1\<lparr>armedTimers := []\<rparr>)" "armedTimers s1 = [i]"
    "failure_count s1 i = 1" "effects s1 = effects s @ tried i"
    using refused_attempt [OF r(1) e s1] by (simp_all add: fc)
  have armed: "armedTimers (run_actions (app_step unseal) s1 (concat (replicate k (refused_retry n i e)))) = [i]" if "k < 5" for k
    using retry_rounds [OF one(1,2) e, of k n] one(3) that by auto
  define s4 where "s4 = run_actions (app_step unseal) s1 (concat (replicate 4 (refused_retry n i e)))"
  obtain t' where four: "can_reconnect unseal i t' c (s4\<lparr>armedTimers := []\<rparr>)" "armedTimers s4 = [i]" "failure_count s4 i = 5"
    "effects s4 = effects s1 @ concat (replicate 4 (tried i))"
    using retry_rounds [OF one(1,2) e, of 4 n] one(3) unfolding s4_def by auto
  have fc4: "failure_count (s4\<lparr>armedTimers := []\<rparr>) i = 5" using four(3) by (simp add: failure_count_def)
  have "concat (replicate 5 xs) = concat (replicate 4 xs) @ xs" for xs :: "(string \<times> app_event) list" by (simp add: eval_nat_numeral)
  then have five: "run_actions (app_step unseal) s1 (concat (replicate 5 (refused_retry n i e))) =
      run_actions (app_step unseal) s4 (refused_retry n i e)"
    unfolding s4_def by (simp only: run_append)
  note last = refused_attempt [OF four(1) e retry_round [OF four(1,2), of n e]]
  have "filter (\<lambda>x. x = Connects SshConnect i) (concat (replicate k (tried i))) = replicate k (Connects SshConnect i)" for k
    by (induction k) simp_all
  moreover have "replicate 6 x = x # replicate 4 x @ [x]" for x :: effect by (simp add: eval_nat_numeral)
  ultimately show ?thesis
    using last armed four(4) one(4) by (simp add: five fc4 Let_def)
qed

section \<open>A window for the examples\<close>

definition demo_window_tab :: terminal_tab where
  "demo_window_tab = demo_tab\<lparr>connectionStatus := Connected\<rparr>"

definition demo_groups :: group_state where
  "demo_groups = terminalGroupReducer createDefaultState (ADD_TAB ''1'' demo_window_tab)"

definition demo_window :: app_state where
  "demo_window = start_app demo_groups (empty_store\<lparr>conns := Stored [demo_conn]\<rparr>) None"

lemma demo_groups_parts:
  "groups demo_groups = [(''1'', \<lparr>group_id = ''1'', tabs = [demo_window_tab], activeTabId = Some ''i''\<rparr>)]"
  "tabToGroupMap demo_groups = [(''i'', ''1'')]"
  by (simp_all add: demo_groups_def createDefaultState_def add_tab_def obj_get_def obj_set_def obj_values_def obj_entries_def
    demo_tab_def demo_window_tab_def)

lemma demo_groups_ok: "state_ok demo_groups"
  unfolding demo_groups_def by (rule grp.step_inv [OF createDefaultState_ok]) simp

lemma demo_unsealed: "\<not> isSealed ''hunter2''"
  by code_simp

lemma demo_can_reconnect: "can_reconnect (\<lambda>_. None) ''i'' demo_window_tab demo_conn demo_window"
  by (simp add: can_reconnect_def demo_window_def start_app_def ws_ok_def demo_groups_ok demo_groups_parts tab_lookup_def
    obj_get_def demo_window_tab_def demo_tab_def demo_conn_def empty_store_def getConnection_def getConnections_def originalId_def or_null_def connectionHasCredentials_def openConnectionSecrets_def reconnect_call_def either_protocol_def isDesktop_def SECRET_FIELDS_def Let_def open_field_def demo_unsealed obj_set_def)


lemma reconnects_give_up_witness:
  "armedTimers (run_actions (app_step (\<lambda>_. None)) demo_window
     [(''t'', Reconnect ''i''), (''t'', Answered 0 Resolved), (''t'', Answered 0 Resolved), (''t'', Answered 0 (Refusal ''timeout''))]) = [''i'']"
proof -
  have "obj_get (retries demo_window) ''i'' = None" by (simp add: demo_window_def start_app_def obj_get_def)
  moreover have "\<not> permanent_error ''timeout''" by code_simp
  ultimately have "\<forall>k < 5. armedTimers (run_actions (app_step (\<lambda>_. None)) (run_actions (app_step (\<lambda>_. None)) demo_window
     [(''t'', Reconnect ''i''), (''t'', Answered 0 Resolved), (''t'', Answered 0 Resolved), (''t'', Answered 0 (Refusal ''timeout''))])
     (concat (replicate k (refused_retry ''t'' ''i'' ''timeout'')))) = [''i'']"
    using reconnects_give_up [OF demo_can_reconnect _ _ refl] by blast
  then show ?thesis by (auto dest: spec [of _ "0::nat"])
qed

lemma window_stays_consistent_witness:
  "distinct (armedTimers (run_actions (app_step (\<lambda>_. None)) demo_window [(''t'', Reconnect ''i''), (''t'', QuickConnect ''i'')]))"
  using window_stays_consistent [OF demo_groups_ok refl, of "\<lambda>_. None" "empty_store\<lparr>conns := Stored [demo_conn]\<rparr>" None
    "[(''t'', Reconnect ''i''), (''t'', QuickConnect ''i'')]"] by (simp only: demo_window_def)

section \<open>Late answers\<close>

lemma lookup_None_same: "same_tabs g h \<Longrightarrow> tab_lookup g i = None \<Longrightarrow> tab_lookup h i = None"
  by (simp add: same_tabs_None)

text \<open>
  (C30) A connect that succeeds although its tab has been closed meanwhile: the sidebar ends the session again, a reconnect
  leaves it open, with no tab.
\<close>

theorem late_success_of_closed_tab:
  assumes ok: "state_ok (ws s)" and n: "n < length (waiting s)" and gone: "tab_lookup (ws s) i = None"
    and s': "s' = app_step unseal s (now, Answered n Resolved)"
  shows "(\<forall>c. waiting s ! n = SidebarSshAnswer c i \<longrightarrow> (SshConnect, i) \<notin> open_sessions (effects s')) \<and>
    (\<forall>t c. waiting s ! n = ReconnectAnswer t c SshConnect \<and> tab_id t = i \<longrightarrow>
       (SshConnect, i) \<in> open_sessions (effects s') \<and> tab_lookup (ws s') i = None)"
proof -
  let ?s = "s\<lparr>waiting := remove_at n (waiting s)\<rparr>"
  have dead: "i \<notin> live_ids ?s" using live_ids_lookup [of ?s i] ok gone by (simp add: ws_ok_def)
  have re: "tab_lookup (reconnect_tab (ws s) i) i = None"
    unfolding reconnect_tab_def by (rule lookup_None_same [OF same_tabs_modify [OF ok] gone]) simp_all
  show ?thesis
  proof (intro conjI allI impI; (elim conjE)?)
    fix c assume "waiting s ! n = SidebarSshAnswer c i"
    then show "(SshConnect, i) \<notin> open_sessions (effects s')"
      unfolding s' using n dead by (simp add: sidebar_ssh_answer_def Let_def perform_def)
  next
    fix t c assume w: "waiting s ! n = ReconnectAnswer t c SshConnect" and t: "tab_id t = i"
    show "(SshConnect, i) \<in> open_sessions (effects s')"
      unfolding s' using n w t
      by (simp add: reconnect_answer_def reconnect_succeeded_def Let_def app_defs clearReconnectRetry_def)
    show "tab_lookup (ws s') i = None" unfolding s' using n w t re
      by (simp add: reconnect_answer_def reconnect_succeeded_def Let_def)
  qed
qed

definition demo_sidebar_run :: "(string \<times> app_event) list" where
  "demo_sidebar_run = [(''t'', ConnectNode ''i''), (''t'', Answered 0 Resolved), (''t'', Answered 0 Resolved)]"

abbreviation "demo_sidebar \<equiv> start_app createDefaultState (empty_store\<lparr>conns := Stored [demo_conn]\<rparr>) None"

lemma demo_opened: "openConnectionSecrets (\<lambda>_. None) demo_conn = demo_conn" "connectionHasCredentials demo_conn"
  by (simp_all add: openConnectionSecrets_def demo_conn_def SECRET_FIELDS_def Let_def open_field_def demo_unsealed obj_set_def
    obj_get_def connectionHasCredentials_def or_null_def)

lemma demo_found: "getConnection (empty_store\<lparr>conns := Stored [demo_conn]\<rparr>) ''i'' = Some demo_conn"
  by (simp add: getConnection_def getConnections_def demo_conn_def)

definition demo_session :: string where
  "demo_session = fst (nextDuplicateId ''i'' ''t'' \<lparr>connectInFlight = [], duplicateCounter = 0\<rparr>)"

lemma demo_sidebar_sessions:
  "effects (run_actions (app_step (\<lambda>_. None)) demo_sidebar demo_sidebar_run) =
    [Connects SshConnect demo_session, Established SshConnect demo_session]"
proof -
  have live: "all_tabs (add_tab createDefaultState (activeGroupId createDefaultState) t') = [t']" for t'
    by (simp add: all_tabs_def createDefaultState_def add_tab_def obj_get_def obj_set_def obj_values_def obj_entries_def)
  have i: "conn_id demo_conn = ''i''" "conn_protocol demo_conn = ''SSH''" by (simp_all add: demo_conn_def)
  show ?thesis
    by (simp add: demo_sidebar_run_def start_app_def handleConnectionConnect_def demo_found sidebar_opened_def demo_opened i
      Let_def fresh_id_def app_defs isFileBrowser_def isDesktop_def call_for_def demo_session_def nextDuplicateId_def
      sidebar_ssh_answer_def live_ids_def live remove_at_def new_tab_def)
qed


definition closed_early :: app_state where
  "closed_early = (start_app createDefaultState (empty_store\<lparr>conns := Stored [demo_conn]\<rparr>) None)
     \<lparr>waiting := [ReconnectAnswer demo_window_tab demo_conn SshConnect]\<rparr>"

lemma late_success_of_closed_tab_witness:
  "(SshConnect, ''i'') \<in> open_sessions (effects (app_step (\<lambda>_. None) closed_early (''t'', Answered 0 Resolved)))"
proof -
  have "state_ok (ws closed_early)" "0 < length (waiting closed_early)" "tab_lookup (ws closed_early) ''i'' = None"
    by (simp_all add: closed_early_def start_app_def createDefaultState_ok tab_lookup_def)
      (simp add: createDefaultState_def obj_get_def)
  from late_success_of_closed_tab [OF this refl, of "\<lambda>_. None" "''t''"] show ?thesis
    by (simp add: closed_early_def demo_window_tab_def demo_tab_def del: app_step.simps)
qed

section \<open>The tab that a save connects\<close>

text \<open>
  (C29) The tab that asked for missing credentials is remembered after the dialog has been cancelled: when the dialog then
  opens for another connection and that one is saved, it is connected under the session of the first tab.
\<close>

theorem save_connects_wrong_tab:
  assumes t: "tab_named (ws s) k = Some t" "k \<noteq> []" and idle: "waiting s = []" "connectInFlight (guard s) = []"
    and c: "getConnection (app_store s) (originalId t) = Some c" "\<not> connectionHasCredentials (openConnectionSecrets unseal c)"
    and d: "getConnection (app_store s) i = Some d" "\<not> connectionHasCredentials (openConnectionSecrets unseal d)"
    and cfg: "dc_id cfg = Some i" "i \<noteq> []" "\<not> isFileBrowser (dc_protocol cfg)" "\<not> isDesktop (dc_protocol cfg)"
      "\<exists>f \<in> set SECRET_FIELDS. or_null (obj_get (dc_secrets cfg) f) = None"
  shows "effects (run_actions (app_step unseal) s
      [(n, Reconnect k), (n, Answered 0 Resolved), (n, DialogCloses), (n, ConnectNode i), (n, Answered 0 Resolved),
       (n, SavesConnection cfg), (n, Answered 0 Resolved)]) = effects s @ [Connects SshConnect k]"
proof -
  let ?run = "run_actions (app_step unseal)"
  have key: "tab_id t = k" using t(1) by (rule tab_named_id)
  have id: "conn_id d = i" using d(1) by (rule getConnection_id)
  define s1 where "s1 = ?run s [(n, Reconnect k), (n, Answered 0 Resolved), (n, DialogCloses)]"
  have s1: "ws s1 = ws s" "app_store s1 = app_store s" "waiting s1 = []" "pendingReconnectTabId s1 = Some k" "effects s1 = effects s"
    using t idle c key
    by (simp_all add: s1_def handleReconnect_def beginConnect_def runReconnect_def Let_def reconnect_opened_def dialog_closed_def
      app_defs clearReconnectRetry_def remove_at_def)
  define s2 where "s2 = ?run s1 [(n, ConnectNode i), (n, Answered 0 Resolved)]"
  have s2: "ws s2 = ws s" "app_store s2 = app_store s" "waiting s2 = []" "pendingReconnectTabId s2 = Some k" "effects s2 = effects s"
    "pendingConnectionId s2 = Some i"
    using s1 d id
    by (simp_all add: s2_def handleConnectionConnect_def sidebar_opened_def Let_def app_defs remove_at_def)
  have names: "effects (fold (\<lambda>t. dispatch (UPDATE_TAB_NAME (tab_id t) m)) ts u) = effects u" for ts m u
    by (induction ts arbitrary: u) (simp_all add: dispatch_def)
  have kept: "dc_protocol (fill_secrets x y) = dc_protocol y" for x y by (simp add: fill_secrets_def)
  have "effects (?run s2 [(n, SavesConnection cfg), (n, Answered 0 Resolved)]) = effects s @ [Connects SshConnect k]"
    using s2 d cfg t id key
    by (simp add: handleSaveConnection_def or_null_def save_opened_def save_rest_def Let_def save_connect_def tab_of_save_def
      await_def perform_def remove_at_def names kept)
  then show ?thesis by (simp add: s1_def s2_def)
qed

text \<open>Two connections without a password, and a tab of the first.\<close>

definition demo_no_secrets :: "string \<Rightarrow> connection" where
  "demo_no_secrets i = demo_conn\<lparr>conn_id := i, secrets := []\<rparr>"

definition demo_asking :: app_state where
  "demo_asking = start_app demo_groups (empty_store\<lparr>conns := Stored [demo_no_secrets ''i'', demo_no_secrets ''j'']\<rparr>) None"

lemma save_connects_wrong_tab_witness:
  "effects (run_actions (app_step (\<lambda>_. None)) demo_asking
      [(''t'', Reconnect ''i''), (''t'', Answered 0 Resolved), (''t'', DialogCloses), (''t'', ConnectNode ''j''),
       (''t'', Answered 0 Resolved), (''t'', SavesConnection (config_of (demo_no_secrets ''j''))), (''t'', Answered 0 Resolved)]) =
    [Connects SshConnect ''i'']"
proof -
  have c: "getConnection (app_store demo_asking) ''i'' = Some (demo_no_secrets ''i'')"
    "getConnection (app_store demo_asking) ''j'' = Some (demo_no_secrets ''j'')"
    by (simp_all add: demo_asking_def start_app_def getConnection_def getConnections_def demo_no_secrets_def)
  have n: "\<not> connectionHasCredentials (openConnectionSecrets (\<lambda>_. None) (demo_no_secrets k))" for k
    by (simp add: openConnectionSecrets_def demo_no_secrets_def demo_conn_def SECRET_FIELDS_def open_field_def obj_get_def
      connectionHasCredentials_def or_null_def)
  have t: "tab_named (ws demo_asking) ''i'' = Some demo_window_tab" "originalId demo_window_tab = ''i''"
    by (simp_all add: demo_asking_def start_app_def tab_named_def all_tabs_def demo_groups_parts obj_values_def obj_entries_def
      demo_window_tab_def demo_tab_def originalId_def or_null_def)
  have idle: "waiting demo_asking = []" "connectInFlight (guard demo_asking) = []" "effects demo_asking = []"
    by (simp_all add: demo_asking_def start_app_def)
  have cfg: "dc_id (config_of (demo_no_secrets ''j'')) = Some ''j''" "\<not> isFileBrowser (dc_protocol (config_of (demo_no_secrets ''j'')))"
    "\<not> isDesktop (dc_protocol (config_of (demo_no_secrets ''j'')))"
    by (simp_all add: config_of_def demo_no_secrets_def demo_conn_def isFileBrowser_def isDesktop_def)
  have blank: "\<exists>f \<in> set SECRET_FIELDS. or_null (obj_get (dc_secrets (config_of (demo_no_secrets ''j''))) f) = None"
    by (rule bexI [of _ "''password''"]) (simp_all add: config_of_def demo_no_secrets_def SECRET_FIELDS_def obj_get_def or_null_def)
  have "getConnection (app_store demo_asking) (originalId demo_window_tab) = Some (demo_no_secrets ''i'')" using c(1) t(2) by simp
  from save_connects_wrong_tab [OF t(1) _ idle(1,2) this n c(2) n cfg(1) _ cfg(2,3) blank]
  show ?thesis by (simp add: idle(3) del: run_actions_simps)
qed

text \<open>Duplicating the tab of a desktop connects a shell to it: the duplicate knows only SFTP, FTP and shells.\<close>

lemma duplicate_of_desktop_is_shell:
  assumes "waiting s ! n = DuplicateOpened t c g" "n < length (waiting s)" "connectionHasCredentials (openConnectionSecrets unseal c)"
    "protocol t = Some (conn_protocol c)" "isDesktop (conn_protocol c)"
  shows "\<exists>d. effects (app_step unseal s (now, Answered n r)) = effects s @ [Connects SshConnect d]"
  using assms
  by (auto simp: duplicate_opened_def Let_def either_protocol_def isDesktop_def app_defs fresh_id_def split: prod.split)

text \<open>A quick connect to a file server or a desktop that fails is reported as failed and then as connected.\<close>

lemma failed_quick_connect_reports_success:
  assumes "waiting s ! n = QuickTabAnswer key call k i" "n < length (waiting s)"
  shows "app_toasts (app_step unseal s (now, Answered n Threw)) = app_toasts s @ [ConnectionFailed, QuickConnected]"
  using assms by (simp add: quick_tab_answer_def tab_answer_def app_defs)

end
