(* ===== verification/AppTabs.thy ===== *)
theory AppTabs
  imports AppWindow LayoutRestart TabAbstract
begin

text \<open>
  The tabs of the window by keyboard and menu (\<open>src/src/App.tsx\<close>: the callbacks of \<open>createSplitViewShortcuts\<close> and of
  the menu), and the list of tabs it keeps for the next launch.
\<close>

section \<open>The shortcuts and menus for tabs\<close>

definition activeGroup :: "group_state \<Rightarrow> terminal_group option" where
  "activeGroup g = obj_get (groups g) (activeGroupId g)"

text \<open>What the shortcuts act on: the active group, its active tab and the position of that tab (-1 if it is missing).\<close>

definition active_tab_at :: "group_state \<Rightarrow> (terminal_group \<times> int) option" where
  "active_tab_at g = (case activeGroup g of
     None \<Rightarrow> None
   | Some h \<Rightarrow> (case or_null (activeTabId h) of
       None \<Rightarrow> None
     | Some a \<Rightarrow> Some (h, case find_index (\<lambda>t. tab_id t = a) (tabs h) of Some n \<Rightarrow> int n | None \<Rightarrow> -1)))"

definition nextTab :: "group_state \<Rightarrow> group_state" where
  "nextTab g = (case active_tab_at g of
     Some (h, i) \<Rightarrow>
       if 1 < length (tabs h)
       then terminalGroupReducer g (ACTIVATE_TAB (group_id h) (tab_id (tabs h ! nat ((i + 1) mod int (length (tabs h))))))
       else g
   | None \<Rightarrow> g)"

definition prevTab :: "group_state \<Rightarrow> group_state" where
  "prevTab g = (case active_tab_at g of
     Some (h, i) \<Rightarrow>
       if 1 < length (tabs h)
       then terminalGroupReducer g
         (ACTIVATE_TAB (group_id h) (tab_id (tabs h ! nat ((i - 1 + int (length (tabs h))) mod int (length (tabs h))))))
       else g
   | None \<Rightarrow> g)"

definition moveActiveTab :: "int \<Rightarrow> group_state \<Rightarrow> group_state" where
  "moveActiveTab delta g = (case active_tab_at g of
     Some (h, i) \<Rightarrow>
       if i = -1 \<or> i + delta < 0 \<or> int (length (tabs h)) \<le> i + delta then g
       else terminalGroupReducer g (REORDER_TAB (group_id h) i (i + delta))
   | None \<Rightarrow> g)"

text \<open>The commands of the menu stop at the ends.\<close>

definition menu_next_tab :: "group_state \<Rightarrow> group_state" where
  "menu_next_tab g = (case active_tab_at g of
     Some (h, i) \<Rightarrow>
       if 1 < length (tabs h) \<and> i < int (length (tabs h)) - 1
       then terminalGroupReducer g (ACTIVATE_TAB (group_id h) (tab_id (tabs h ! nat (i + 1))))
       else g
   | None \<Rightarrow> g)"

definition menu_prev_tab :: "group_state \<Rightarrow> group_state" where
  "menu_prev_tab g = (case active_tab_at g of
     Some (h, i) \<Rightarrow>
       if 1 < length (tabs h) \<and> 0 < i
       then terminalGroupReducer g (ACTIVATE_TAB (group_id h) (tab_id (tabs h ! nat (i - 1))))
       else g
   | None \<Rightarrow> g)"

definition split_active :: "split_direction \<Rightarrow> group_state \<Rightarrow> group_state" where
  "split_active d g = (if activeGroupId g = [] then g else terminalGroupReducer g (SPLIT_GROUP (activeGroupId g) d None))"

definition focusGroup :: "nat \<Rightarrow> group_state \<Rightarrow> group_state" where
  "focusGroup n g = (if n < length (obj_keys (groups g)) then terminalGroupReducer g (ACTIVATE_GROUP (obj_keys (groups g) ! n)) else g)"

section \<open>The tabs kept for the next launch\<close>

text \<open>\<open>saveActiveConnections\<close> stores this list; the fields \<open>tabType\<close> and \<open>protocol\<close> of its records are never read.\<close>

definition persisted_tabs :: "group_state \<Rightarrow> active_connection list" where
  "persisted_tabs g =
     map (\<lambda>(i, t). \<lparr>ac_tabId = tab_id t, ac_connectionId = tab_id t, ac_order = int i,
            ac_originalConnectionId = originalConnectionId t\<rparr>)
       (List.enumerate 0 (filter (\<lambda>t. tabType t \<noteq> Some Editor) (all_tabs g)))"

section \<open>Moving between tabs\<close>

lemma find_index_nth:
  assumes "distinct (map f xs)" "n < length xs" shows "find_index (\<lambda>t. f t = f (xs ! n)) xs = Some n"
proof -
  obtain m where m: "find_index (\<lambda>t. f t = f (xs ! n)) xs = Some m"
    using find_index_exists [of xs "\<lambda>t. f t = f (xs ! n)"] assms(2) nth_mem by blast
  from find_index_Some [OF m] have "m < length xs" "map f xs ! m = map f xs ! n" using assms(2) by simp_all
  then show ?thesis using m assms nth_eq_iff_index_eq [OF assms(1), of m n] by simp
qed

text \<open>The active tab is the n-th of the active group.\<close>

definition active_nth :: "group_state \<Rightarrow> terminal_group \<Rightarrow> nat \<Rightarrow> bool" where
  "active_nth g h n \<longleftrightarrow> state_ok g \<and> activeGroup g = Some h \<and> n < length (tabs h) \<and>
     activeTabId h = Some (tab_id (tabs h ! n)) \<and> [] \<notin> set (group_ids h)"

lemma active_nth_at:
  assumes "active_nth g h n" shows "active_tab_at g = Some (h, int n)" "group_id h = activeGroupId g" "distinct (group_ids h)"
proof -
  have k: "group_ok h" "group_id h = activeGroupId g"
    using assms state_ok_group [of g "activeGroupId g" h] by (auto simp: active_nth_def activeGroup_def)
  then show "group_id h = activeGroupId g" "distinct (group_ids h)" by (simp_all add: group_ok_def)
  then have "find_index (\<lambda>t. tab_id t = tab_id (tabs h ! n)) (tabs h) = Some n"
    using assms by (intro find_index_nth) (simp_all add: active_nth_def)
  moreover have "tab_id (tabs h ! n) \<noteq> []" using assms by (metis active_nth_def image_eqI list.set_map nth_mem)
  ultimately show "active_tab_at g = Some (h, int n)"
    using assms by (simp add: active_tab_at_def active_nth_def or_null_def)
qed

lemma activate_nth:
  assumes "active_nth g h n" "m < length (tabs h)"
  shows "active_nth (terminalGroupReducer g (ACTIVATE_TAB (group_id h) (tab_id (tabs h ! m))))
    (h\<lparr>activeTabId := Some (tab_id (tabs h ! m))\<rparr>) m"
proof -
  have "state_ok (terminalGroupReducer g (ACTIVATE_TAB (group_id h) (tab_id (tabs h ! m))))"
    using assms(1) by (intro grp.step_inv) (simp_all add: active_nth_def)
  moreover have "tab_id (tabs h ! m) \<in> set (group_ids h)" using assms(2) by simp
  ultimately show ?thesis using assms active_nth_at(2) [OF assms(1)]
    by (simp add: active_nth_def activeGroup_def activate_tab_def)
qed

lemma nextTab_nth:
  assumes "active_nth g h n"
  shows "active_nth (nextTab g) (h\<lparr>activeTabId := Some (tab_id (tabs h ! (Suc n mod length (tabs h))))\<rparr>) (Suc n mod length (tabs h))"
proof (cases "1 < length (tabs h)")
  case True
  have "nat ((int n + 1) mod int (length (tabs h))) = Suc n mod length (tabs h)"
    by (metis Suc_eq_plus1 add.commute nat_int of_nat_Suc of_nat_mod)
  moreover have "Suc n mod length (tabs h) < length (tabs h)" by (rule mod_less_divisor) (use True in linarith)
  ultimately show ?thesis using activate_nth [OF assms, of "Suc n mod length (tabs h)"] True
    by (simp add: nextTab_def active_nth_at [OF assms] del: terminalGroupReducer.simps)
next
  case False
  then have "length (tabs h) = 1" "n = 0" using assms by (auto simp: active_nth_def)
  moreover have "h\<lparr>activeTabId := activeTabId h\<rparr> = h" by simp
  ultimately show ?thesis using assms by (simp add: nextTab_def active_nth_at [OF assms]) (simp add: active_nth_def)
qed


lemma prevTab_nth:
  assumes "active_nth g h n"
  shows "active_nth (prevTab g) (h\<lparr>activeTabId := Some (tab_id (tabs h ! ((n + length (tabs h) - 1) mod length (tabs h))))\<rparr>)
    ((n + length (tabs h) - 1) mod length (tabs h))"
proof (cases "1 < length (tabs h)")
  case True
  let ?m = "(n + length (tabs h) - 1) mod length (tabs h)"
  have "int n - 1 + int (length (tabs h)) = int (n + length (tabs h) - 1)" using True by simp
  then have "nat ((int n - 1 + int (length (tabs h))) mod int (length (tabs h))) = ?m" by (metis nat_int of_nat_mod)
  moreover have "?m < length (tabs h)" by (rule mod_less_divisor) (use True in linarith)
  ultimately show ?thesis using activate_nth [OF assms, of ?m] True
    by (simp add: prevTab_def active_nth_at [OF assms] del: terminalGroupReducer.simps)
next
  case False
  then have "length (tabs h) = 1" "n = 0" using assms by (auto simp: active_nth_def)
  then show ?thesis using assms by (simp add: prevTab_def active_nth_at [OF assms]) (simp add: active_nth_def)
qed

lemma nextTab_nth_pow:
  assumes "active_nth g h n"
  shows "active_nth ((nextTab ^^ k) g) (h\<lparr>activeTabId := Some (tab_id (tabs h ! ((n + k) mod length (tabs h))))\<rparr>) ((n + k) mod length (tabs h))"
proof (induction k)
  case 0
  then show ?case using assms by (simp add: active_nth_def)
next
  case (Suc k)
  have "Suc ((n + k) mod length (tabs h)) mod length (tabs h) = (n + Suc k) mod length (tabs h)" by (simp add: mod_Suc_eq)
  with nextTab_nth [OF Suc] show ?case by simp
qed

text \<open>
  The shortcut for the next tab walks through the tabs of the active group in their order and starts again after the
  last: after k presses the k-th tab behind the first one is active, and nothing else of the group has changed; the
  shortcut for the previous tab undoes a press.
\<close>

theorem next_tab_walks_the_group:
  assumes "state_ok g" "activeGroup g = Some h" "n < length (tabs h)" "activeTabId h = Some (tab_id (tabs h ! n))"
    "[] \<notin> set (group_ids h)"
  shows "activeGroup ((nextTab ^^ k) g) = Some (h\<lparr>activeTabId := Some (tab_id (tabs h ! ((n + k) mod length (tabs h))))\<rparr>) \<and>
    activeGroup (prevTab (nextTab g)) = Some h"
proof -
  have a: "active_nth g h n" using assms by (simp add: active_nth_def)
  have "(Suc n mod length (tabs h) + length (tabs h) - 1) mod length (tabs h) = n"
    using assms(3) by (cases "Suc n = length (tabs h)") auto
  moreover have "h\<lparr>activeTabId := Some (tab_id (tabs h ! n))\<rparr> = h" using assms(4) by (cases h) simp
  ultimately show ?thesis
    using nextTab_nth_pow [OF a, of k] prevTab_nth [OF nextTab_nth [OF a]] by (simp add: active_nth_def)
qed

lemma insert_remove_swap:
  assumes "Suc n < length xs"
  shows "insert_at (Suc n) (xs ! n) (remove_at n xs) = xs[n := xs ! Suc n, Suc n := xs ! n]"
    "insert_at n (xs ! Suc n) (remove_at (Suc n) xs) = xs[n := xs ! Suc n, Suc n := xs ! n]"
proof -
  have xs: "xs = take n xs @ xs ! n # xs ! Suc n # drop (Suc (Suc n)) xs" using assms
    by (metis Cons_nth_drop_Suc Suc_lessD append_take_drop_id)
  have l: "length (take n xs) = n" using assms by simp
  have "insert_at (Suc n) a (remove_at n (us @ a # b # vs)) = (us @ a # b # vs)[n := b, Suc n := a] \<and>
      insert_at n b (remove_at (Suc n) (us @ a # b # vs)) = (us @ a # b # vs)[n := b, Suc n := a]"
    if "length us = n" for us vs :: "'a list" and a b
    using that by (simp add: insert_at_def remove_at_def list_update_append)
  from this [OF l] xs show "insert_at (Suc n) (xs ! n) (remove_at n xs) = xs[n := xs ! Suc n, Suc n := xs ! n]"
    "insert_at n (xs ! Suc n) (remove_at (Suc n) xs) = xs[n := xs ! Suc n, Suc n := xs ! n]" by metis+
qed

definition swapped :: "nat \<Rightarrow> terminal_group \<Rightarrow> terminal_group" where
  "swapped n h = h\<lparr>tabs := (tabs h)[n := tabs h ! Suc n, Suc n := tabs h ! n]\<rparr>"

lemma swapped_group:
  assumes "Suc n < length (tabs h)"
  shows "set (tabs (swapped n h)) = set (tabs h)" "length (tabs (swapped n h)) = length (tabs h)"
    "tabs (swapped n h) ! n = tabs h ! Suc n" "tabs (swapped n h) ! Suc n = tabs h ! n" "swapped n (swapped n h) = h"
    "activeTabId (swapped n h) = activeTabId h" "group_id (swapped n h) = group_id h"
proof -
  have "mset (tabs (swapped n h)) = mset (tabs h)"
    using assms mset_swap [of "Suc n" "tabs h" n] by (simp add: swapped_def)
  then show "set (tabs (swapped n h)) = set (tabs h)" by (rule mset_eq_setD)
qed (use assms in \<open>simp_all add: swapped_def list_update_swap\<close>)

lemma reorder_swaps:
  assumes a: "active_nth g h n" and s: "Suc m < length (tabs h)" and m: "(i = m \<and> j = Suc m) \<or> (i = Suc m \<and> j = m)"
    and n: "tabs (swapped m h) ! n' = tabs h ! n" "n' < length (tabs h)"
  shows "active_nth (terminalGroupReducer g (REORDER_TAB (group_id h) (int i) (int j))) (swapped m h) n'"
proof -
  have "state_ok (terminalGroupReducer g (REORDER_TAB (group_id h) (int i) (int j)))"
    using a by (intro grp.step_inv) (simp_all add: active_nth_def)
  moreover have "activeGroup (terminalGroupReducer g (REORDER_TAB (group_id h) (int i) (int j))) = Some (swapped m h)"
    using m s a active_nth_at(2) [OF a]
    by (auto simp: active_nth_def activeGroup_def reorder_tab_def swapped_def insert_remove_swap Let_def)
  ultimately show ?thesis using a n swapped_group [OF s] by (simp add: active_nth_def)
qed

lemma moveActiveTab_nth:
  assumes a: "active_nth g h n"
  shows "Suc n < length (tabs h) \<Longrightarrow> active_nth (moveActiveTab 1 g) (swapped n h) (Suc n)"
    "Suc m < length (tabs h) \<Longrightarrow> n = Suc m \<Longrightarrow> active_nth (moveActiveTab (-1) g) (swapped m h) m"
    "\<not> Suc n < length (tabs h) \<Longrightarrow> moveActiveTab 1 g = g" "n = 0 \<Longrightarrow> moveActiveTab (-1) g = g"
proof -
  show "active_nth (moveActiveTab 1 g) (swapped n h) (Suc n)" if s: "Suc n < length (tabs h)"
    using reorder_swaps [OF a s, of n "Suc n" "Suc n"] swapped_group [OF s] s
    by (simp add: moveActiveTab_def active_nth_at(1) [OF a] add.commute del: terminalGroupReducer.simps)
  show "active_nth (moveActiveTab (-1) g) (swapped m h) m" if s: "Suc m < length (tabs h)" "n = Suc m"
    using reorder_swaps [OF a s(1), of "Suc m" m m] swapped_group [OF s(1)] s
    by (simp add: moveActiveTab_def active_nth_at(1) [OF a] del: terminalGroupReducer.simps)
qed (use active_nth_at(1) [OF a] in \<open>simp_all add: moveActiveTab_def del: terminalGroupReducer.simps\<close>)

text \<open>
  Moving the active tab by the keyboard exchanges it with its neighbour and keeps it active; at the end of the group
  nothing happens, and otherwise moving back undoes it.
\<close>

theorem moving_the_active_tab_swaps:
  assumes "state_ok g" "activeGroup g = Some h" "n < length (tabs h)" "activeTabId h = Some (tab_id (tabs h ! n))"
    "[] \<notin> set (group_ids h)"
  shows "(if Suc n < length (tabs h)
      then activeGroup (moveActiveTab 1 g) = Some (h\<lparr>tabs := (tabs h)[n := tabs h ! Suc n, Suc n := tabs h ! n]\<rparr>) \<and>
        activeGroup (moveActiveTab (-1) (moveActiveTab 1 g)) = Some h
      else moveActiveTab 1 g = g) \<and> (n = 0 \<longrightarrow> moveActiveTab (-1) g = g)"
proof -
  have a: "active_nth g h n" using assms by (simp add: active_nth_def)
  show ?thesis
  proof (cases "Suc n < length (tabs h)")
    case True
    note right = moveActiveTab_nth(1) [OF a True]
    have "active_nth (moveActiveTab (-1) (moveActiveTab 1 g)) (swapped n (swapped n h)) n"
      by (rule moveActiveTab_nth(2) [OF right]) (use swapped_group [OF True] True in simp_all)
    then show ?thesis using True right moveActiveTab_nth(4) [OF a] swapped_group(5) [OF True]
      by (simp add: active_nth_def) (simp add: swapped_def)
  qed (use moveActiveTab_nth(3,4) [OF a] in simp)
qed

section \<open>The next launch\<close>

abbreviation kept_tabs :: "group_state \<Rightarrow> terminal_tab list" where
  "kept_tabs g \<equiv> filter (\<lambda>t. tabType t \<noteq> Some Editor) (all_tabs g)"

lemma restored_values: "obj_values (groups (restored_state g)) = map restored_group (obj_values (groups g))"
proof -
  have "restored_state g = g\<lparr>groups := obj_map (\<lambda>_. restored_group) (groups g),
      tabToGroupMap := typed_map (obj_map (\<lambda>_. restored_group) (groups g))\<rparr>" by (simp add: restored_state_def Let_def)
  then have "groups (restored_state g) = obj_map (\<lambda>_. restored_group) (groups g)" by simp
  moreover have "obj_entries (obj_map (\<lambda>_. restored_group) (groups g)) = obj_map (\<lambda>_. restored_group) (groups g)" by simp
  ultimately show ?thesis by (simp add: obj_values_def obj_map_def split_beta)
qed

lemma restored_tabs: "all_tabs (restored_state g) = map restored_tab (kept_tabs g)"
  by (simp add: all_tabs_def restored_values restored_group_def filter_concat map_concat o_def)

lemma restored_distinct:
  assumes "state_ok g" shows "distinct (map tab_id (kept_tabs g))"
proof -
  have e: "obj_entries (groups (restored_state g)) = groups (restored_state g)"
    by (simp add: restored_state_def Let_def)
  have "distinct (concat (map (\<lambda>(_, h). group_ids h) (groups (restored_state g))))"
    using unique_once [OF restored_unique [OF assms]] by (simp add: same_tabs_once_def)
  moreover have "concat (map (\<lambda>(_, h). group_ids h) (groups (restored_state g))) = map tab_id (all_tabs (restored_state g))"
    by (simp add: all_tabs_def obj_values_def e map_concat o_def case_prod_unfold)
  ultimately show ?thesis by (simp add: restored_tabs restored_tab_def o_def)
qed

lemma find_rev_unique: "distinct (map f xs) \<Longrightarrow> t \<in> set xs \<Longrightarrow> find (\<lambda>x. f x = f t) (rev xs) = Some t"
  by (rule find_unique) (auto simp: distinct_map inj_on_def)

lemma map_filter_total: "(\<And>x. x \<in> set xs \<Longrightarrow> p x = Some (q x)) \<Longrightarrow> List.map_filter p xs = map q xs"
  by (induction xs) (simp_all add: map_filter_simps)

interpretation tab_order: preference "\<lambda>a b. ac_order a - ac_order b \<le> 0"
  by unfold_locales auto

lemma persisted_sorted: "sort_by (\<lambda>a b. ac_order a - ac_order b \<le> 0) (persisted_tabs g) = persisted_tabs g"
  by (rule tab_order.sort_by_id) (simp add: persisted_tabs_def sorted_wrt_iff_nth_less nth_enumerate_eq)

lemma map_filter_active:
  "i \<in> set (List.map_filter (\<lambda>h. or_null (activeTabId h)) hs) \<longleftrightarrow> i \<noteq> [] \<and> (\<exists>h \<in> set hs. activeTabId h = Some i)"
  by (induction hs) (auto simp: map_filter_simps or_null_def split: option.split)

text \<open>
  (C16) What the window keeps is what the next launch restores: of the tabs that are no editors, those shown in their
  groups are reconnected at once and all others wait until they are first shown, none is left out, and both are taken in
  the order of the tabs.
\<close>

theorem relaunch_restores_kept_tabs:
  assumes "state_ok g"
  shows "restore_split (restored_state g) (persisted_tabs g) =
    (let shown = (\<lambda>t. tab_id t \<noteq> [] \<and> (\<exists>h \<in> set (obj_values (groups g)). activeTabId (restored_group h) = Some (tab_id t)))
     in (map (\<lambda>t. t\<lparr>hasUnreadOutput := Some False, connectionStatus := Pending\<rparr>) (filter shown (kept_tabs g)),
         map tab_id (filter (\<lambda>t. \<not> shown t) (kept_tabs g))))"
proof -
  let ?T = "kept_tabs g"
  let ?R = "map restored_tab ?T"
  have id: "tab_id (restored_tab t) = tab_id t" for t by (simp add: restored_tab_def)
  have d: "distinct (map tab_id ?T)" by (rule restored_distinct [OF assms])
  have dR: "distinct (map tab_id ?R)" using d by (simp add: o_def id)
  have look: "find (\<lambda>x. tab_id x = tab_id t) (rev ?R) = Some (restored_tab t)" if "t \<in> set ?T" for t
    using find_rev_unique [OF dR, of "restored_tab t"] that by (simp add: id)
  have "List.map_filter (\<lambda>a. find (\<lambda>t. tab_id t = ac_connectionId a) (rev ?R)) (persisted_tabs g)
      = map (\<lambda>(i, t). restored_tab t) (List.enumerate 0 ?T)"
  proof -
    have "List.map_filter (\<lambda>a. find (\<lambda>t. tab_id t = ac_connectionId a) (rev ?R)) (persisted_tabs g) =
      List.map_filter (\<lambda>(i, t). find (\<lambda>x. tab_id x = tab_id t) (rev ?R)) (List.enumerate 0 ?T)"
      by (simp add: persisted_tabs_def List.map_filter_def filter_map o_def split_beta)
    also have "\<dots> = map (\<lambda>(i, t). restored_tab t) (List.enumerate 0 ?T)"
    proof (rule map_filter_total)
      fix p assume "p \<in> set (List.enumerate 0 ?T)"
      then have "snd p \<in> set ?T" by (metis imageI list.set_map map_snd_enumerate)
      from look [OF this] show "(case p of (i, t) \<Rightarrow> find (\<lambda>x. tab_id x = tab_id t) (rev ?R)) = Some (case p of (i, t) \<Rightarrow> restored_tab t)"
        by (simp add: case_prod_unfold)
    qed
    finally show ?thesis .
  qed
  also have "\<dots> = map restored_tab (map snd (List.enumerate 0 ?T))" by (simp add: case_prod_unfold o_def del: map_snd_enumerate)
  also have "\<dots> = ?R" by (simp only: map_snd_enumerate)
  finally have found: "List.map_filter (\<lambda>a. find (\<lambda>t. tab_id t = ac_connectionId a) (rev ?R)) (persisted_tabs g) = ?R" .
  have act: "i \<in> set (List.map_filter (\<lambda>h. or_null (activeTabId h)) (obj_values (groups (restored_state g)))) \<longleftrightarrow>
      i \<noteq> [] \<and> (\<exists>h \<in> set (obj_values (groups g)). activeTabId (restored_group h) = Some i)" for i
    unfolding restored_values map_filter_active by simp
  have tabs: "concat (map tabs (obj_values (groups (restored_state g)))) = ?R" using restored_tabs [of g] by (simp add: all_tabs_def)
  let ?shown = "\<lambda>t. tab_id t \<noteq> [] \<and> (\<exists>h \<in> set (obj_values (groups g)). activeTabId (restored_group h) = Some (tab_id t))"
  have eager: "filter (\<lambda>t. ?shown t) ?R = map restored_tab (filter ?shown ?T)"
    and lazy: "filter (\<lambda>t. \<not> ?shown t) ?R = map restored_tab (filter (\<lambda>t. \<not> ?shown t) ?T)"
    by (simp_all only: filter_map o_def id)
  have "distinct (map tab_id (filter P ?T))" for P by (rule distinct_map_filter [OF d])
  then have ids: "remdups (map tab_id (map restored_tab (filter P ?T))) = map tab_id (filter P ?T)" for P
    by (simp only: map_map o_def id distinct_remdups_id)
  show ?thesis
    by (simp only: restore_split_def Let_def tabs persisted_sorted found act eager lazy ids restored_tab_def [abs_def, symmetric])
qed

definition demo_kept :: "string \<Rightarrow> terminal_tab" where
  "demo_kept i = SessionRestore.demo_tab\<lparr>tab_id := i\<rparr>"

lemma demo_kept_simps [simp]: "tab_id (demo_kept i) = i" "tabType (demo_kept i) = None"
  by (simp_all add: demo_kept_def SessionRestore.demo_tab_def)

definition demo_two :: group_state where
  "demo_two = run_actions terminalGroupReducer createDefaultState [ADD_TAB ''1'' (demo_kept ''i''), ADD_TAB ''1'' (demo_kept ''j'')]"

lemma demo_two_ok: "state_ok demo_two"
  unfolding demo_two_def by (rule grp.run_inv [OF createDefaultState_ok]) simp_all

lemma demo_two_group:
  "groups demo_two = [(''1'', \<lparr>group_id = ''1'', tabs = [demo_kept ''i'', demo_kept ''j''], activeTabId = Some ''j''\<rparr>)]"
  "activeGroupId demo_two = ''1''"
  by (simp_all add: demo_two_def createDefaultState_def add_tab_def obj_get_def obj_set_def obj_values_def obj_entries_def)

lemma relaunch_restores_kept_tabs_witness:
  "map_prod (map tab_id) id (restore_split (restored_state demo_two) (persisted_tabs demo_two)) = ([''j''], [''i''])"
  using relaunch_restores_kept_tabs [OF demo_two_ok]
  by (simp add: all_tabs_def demo_two_group obj_values_def obj_entries_def restored_group_def Let_def)

lemma demo_two_active:
  "activeGroup demo_two = Some \<lparr>group_id = ''1'', tabs = [demo_kept ''i'', demo_kept ''j''], activeTabId = Some ''j''\<rparr>"
  by (simp add: activeGroup_def demo_two_group obj_get_def)

lemma next_tab_walks_the_group_witness: "map_option activeTabId (activeGroup ((nextTab ^^ 1) demo_two)) = Some (Some ''i'')"
  using next_tab_walks_the_group [OF demo_two_ok demo_two_active, of 1 1] by simp

lemma moving_the_active_tab_swaps_witness: "moveActiveTab 1 demo_two = demo_two"
  using moving_the_active_tab_swaps [OF demo_two_ok demo_two_active, of 1] by simp

end
