(* ===== verification/PtyInput.thy ===== *)
theory PtyInput
  imports SessionRestore "HOL-Library.Word"
begin

text \<open>
  The input side of a terminal (\<open>src/src/components/pty-terminal.tsx\<close>) and the frames it exchanges with the bridge
  (\<open>src/src-tauri/src/websocket_server.rs\<close>): the binary frames of both directions, the prefix key Ctrl+A that can
  detach the session, and the budget of full reconnects. Bytes are words of 8 bits; \<open>utf8\<close> and \<open>text_of\<close> are the
  encoding of an id and its decoding, which the standard libraries of both sides provide.
\<close>

section \<open>Frames\<close>

type_synonym bytes = "8 word list"

text \<open>Two bytes hold the length; a store into a byte keeps the low 8 bits.\<close>

definition frame_of :: "8 word \<Rightarrow> bytes \<Rightarrow> bytes \<Rightarrow> bytes" where
  "frame_of command idBytes payload =
     command # of_nat (length idBytes div 256) # of_nat (length idBytes mod 256) # idBytes @ payload"

definition input_frame :: "(string \<Rightarrow> bytes) \<Rightarrow> string \<Rightarrow> bytes \<Rightarrow> bytes" where
  "input_frame utf8 connectionId payload = frame_of 0 (utf8 connectionId) payload"

definition encode_output_frame :: "(string \<Rightarrow> bytes) \<Rightarrow> string \<Rightarrow> bytes \<Rightarrow> bytes" where
  "encode_output_frame utf8 connectionId payload = frame_of 1 (take 65535 (utf8 connectionId)) payload"

text \<open>The parser of both sides: the id and the payload behind the header, if the frame is long enough.\<close>

definition split_frame :: "8 word \<Rightarrow> bytes \<Rightarrow> (bytes \<times> bytes) option" where
  "split_frame command data =
     (if length data < 3 \<or> data ! 0 \<noteq> command then None
      else let idLen = unat (data ! 1) * 256 + unat (data ! 2); payloadOffset = 3 + idLen
           in if length data < payloadOffset then None
              else Some (take idLen (drop 3 data), drop payloadOffset data))"

definition decode_input_frame :: "(bytes \<Rightarrow> string) \<Rightarrow> bytes \<Rightarrow> (string \<times> bytes) option" where
  "decode_input_frame text_of data = map_option (\<lambda>(i, p). (text_of i, p)) (split_frame 0 data)"

text \<open>\<open>onmessage\<close>: the payload of a frame for this terminal that is not empty.\<close>

definition output_payload :: "(bytes \<Rightarrow> string) \<Rightarrow> string \<Rightarrow> bytes \<Rightarrow> bytes option" where
  "output_payload text_of connectionId data =
     (case split_frame 1 data of
        Some (i, p) \<Rightarrow> if text_of i = connectionId \<and> p \<noteq> [] then Some p else None
      | None \<Rightarrow> None)"

lemma unat_byte: "n < 256 \<Longrightarrow> unat (of_nat n :: 8 word) = n"
  by (simp add: unsigned_of_nat take_bit_eq_mod)

lemma split_frame_of:
  assumes "length i < 65536" shows "split_frame c (frame_of c i p) = Some (i, p)"
proof -
  have "length i div 256 < 256" using assms by (simp add: less_mult_imp_div_less)
  then have "unat (of_nat (length i div 256) :: 8 word) = length i div 256" by (simp add: unat_byte)
  moreover have "unat (of_nat (length i mod 256) :: 8 word) = length i mod 256" by (simp add: unat_byte)
  ultimately show ?thesis by (simp add: split_frame_def frame_of_def Let_def numeral_3_eq_3)
qed

text \<open>
  (C39) What the terminal types reaches the session it belongs to, and what the bridge sends for a session is accepted by
  its terminal and by no other; ids are up to 65535 bytes long.
\<close>

theorem frames_reach_their_session:
  assumes "\<And>s. text_of (utf8 s) = s" and "length (utf8 i) < 65536"
  shows "decode_input_frame text_of (input_frame utf8 i p) = Some (i, p) \<and>
    output_payload text_of j (encode_output_frame utf8 i p) = (if j = i \<and> p \<noteq> [] then Some p else None)"
  using assms by (auto simp: decode_input_frame_def input_frame_def output_payload_def encode_output_frame_def split_frame_of)

lemma frames_reach_their_session_witness:
  "decode_input_frame (map (\<lambda>b. char_of (unat b))) (input_frame (map (\<lambda>c. of_nat (of_char c))) ''i'' [27, 91, 65]) =
     Some (''i'', [27, 91, 65])"
proof -
  have "unat (of_nat (of_char c) :: 8 word) = of_char c" for c :: char
    by (rule unat_byte) (use nat_of_char_less_256 [of c] in simp)
  then have "map (\<lambda>b. char_of (unat b)) (map (\<lambda>c. (of_nat (of_char c) :: 8 word)) s) = s" for s by (simp add: o_def)
  from frames_reach_their_session [OF this, of "''i''" "[27, 91, 65]"] show ?thesis by simp
qed

section \<open>The prefix key\<close>

text \<open>
  A key as the handler of the terminal sees it. \<open>Swallowed\<close> means the handler returned false: the terminal does not process the
  key. The prefix is Ctrl+A on every platform.
\<close>

record key_press =
  kp_key :: string
  kp_ctrl :: bool
  kp_alt :: bool
  kp_meta :: bool
  kp_keydown :: bool
  kp_composing :: bool

text \<open>
  \<open>forwarded\<close>: the arguments of \<open>sendInputToPty\<close>; \<open>detaches\<close>: how often \<open>handleDetach\<close> was called.
\<close>

record prefix_state =
  armed :: bool
  prefixTimer :: bool
  forwarded :: "string list"
  detaches :: nat

definition CTRL_A :: string where
  "CTRL_A = [CHR 0x01]"

definition flushPrefixCtrlA :: "prefix_state \<Rightarrow> prefix_state" where
  "flushPrefixCtrlA s = (if armed s then s\<lparr>forwarded := forwarded s @ [CTRL_A]\<rparr> else s)"

definition armPrefix :: "prefix_state \<Rightarrow> prefix_state" where
  "armPrefix s = s\<lparr>armed := True, prefixTimer := True\<rparr>"

definition prefix_timeout :: "prefix_state \<Rightarrow> prefix_state" where
  "prefix_timeout s = (if prefixTimer s then (flushPrefixCtrlA s)\<lparr>armed := False, prefixTimer := False\<rparr> else s)"

datatype key_result = Swallowed | Passed

definition prefix_key :: "key_press \<Rightarrow> prefix_state \<Rightarrow> key_result \<times> prefix_state" where
  "prefix_key k s =
     (if kp_composing k \<or> \<not> kp_keydown k then (Passed, s)
      else let key = js_lower (kp_key k) in
        if kp_ctrl k \<and> \<not> kp_meta k \<and> key = ''a'' then (Swallowed, armPrefix (flushPrefixCtrlA s))
        else if armed s \<and> \<not> kp_meta k then
          (if key = ''d'' \<and> \<not> kp_alt k then (Swallowed, s\<lparr>armed := False, prefixTimer := False, detaches := detaches s + 1\<rparr>)
           else (Passed, (flushPrefixCtrlA s)\<lparr>armed := False, prefixTimer := False\<rparr>))
        else (Passed, s))"

text \<open>\<open>handleSendText\<close>, with an open socket: the text is pasted (and comes back as input), then Enter.\<close>

definition handleSendText :: "string \<Rightarrow> bool \<Rightarrow> prefix_state \<Rightarrow> prefix_state" where
  "handleSendText txt execute s =
     (if txt = [] then s
      else let s1 = flushPrefixCtrlA s; s2 = s1\<lparr>forwarded := forwarded s1 @ [txt]\<rparr>
           in if execute then s2\<lparr>forwarded := forwarded s2 @ [[CHR 0x0D]]\<rparr> else s2)"


datatype prefix_event = Key key_press | PrefixTimeout | SendText string bool

fun prefix_step :: "prefix_state \<Rightarrow> prefix_event \<Rightarrow> prefix_state" where
  "prefix_step s (Key k) = snd (prefix_key k s)"
| "prefix_step s PrefixTimeout = prefix_timeout s"
| "prefix_step s (SendText txt execute) = handleSendText txt execute s"

definition no_prefix :: prefix_state where
  "no_prefix = \<lparr>armed = False, prefixTimer = False, forwarded = [], detaches = 0\<rparr>"

definition is_prefix :: "prefix_event \<Rightarrow> bool" where
  "is_prefix e = (case e of
     Key k \<Rightarrow> kp_keydown k \<and> \<not> kp_composing k \<and> kp_ctrl k \<and> \<not> kp_meta k \<and> js_lower (kp_key k) = ''a'' | _ \<Rightarrow> False)"

definition held :: "prefix_state \<Rightarrow> nat" where
  "held s = (if armed s then 1 else 0)"

lemma flush_counts: "count_list (forwarded (flushPrefixCtrlA s)) CTRL_A = count_list (forwarded s) CTRL_A + held s"
  "detaches (flushPrefixCtrlA s) = detaches s" "armed (flushPrefixCtrlA s) = armed s" "prefixTimer (flushPrefixCtrlA s) = prefixTimer s"
  by (simp_all add: flushPrefixCtrlA_def held_def)

lemma prefix_balance:
  assumes "armed s = prefixTimer s" "\<nexists>txt execute. e = SendText txt execute"
  shows "count_list (forwarded (prefix_step s e)) CTRL_A + held (prefix_step s e) + detaches (prefix_step s e) =
      count_list (forwarded s) CTRL_A + held s + detaches s + (if is_prefix e then 1 else 0) \<and>
    armed (prefix_step s e) = prefixTimer (prefix_step s e)"
proof (cases e)
  case (Key k)
  then show ?thesis using assms(1)
    by (auto simp: prefix_key_def Let_def armPrefix_def flush_counts held_def is_prefix_def)
next
  case PrefixTimeout
  then show ?thesis using assms(1) by (auto simp: prefix_timeout_def flush_counts held_def is_prefix_def)
qed (use assms in auto)

text \<open>
  No Ctrl+A is lost or doubled by the prefix: after any keys and timeouts each one pressed has been sent to the session,
  or is held back until the next key or timeout, or has been consumed by a detach.
\<close>

theorem prefix_forwards_each_once:
  assumes "list_all (\<lambda>e. \<nexists>txt execute. e = SendText txt execute) es" and "s = run_actions prefix_step no_prefix es"
  shows "count_list (forwarded s) CTRL_A + (if armed s then 1 else 0) + detaches s = length (filter is_prefix es)"
proof -
  have "armed s0 = prefixTimer s0 \<Longrightarrow> count_list (forwarded (run_actions prefix_step s0 es)) CTRL_A + held (run_actions prefix_step s0 es) +
      detaches (run_actions prefix_step s0 es) = count_list (forwarded s0) CTRL_A + held s0 + detaches s0 + length (filter is_prefix es)" for s0
    using assms(1)
  proof (induction es arbitrary: s0)
    case (Cons e es)
    then show ?case using prefix_balance [of s0 e] by (auto simp del: prefix_step.simps)
  qed simp
  from this [of no_prefix] show ?thesis by (simp add: assms(2) no_prefix_def held_def)
qed

definition ctrl_a_key :: key_press where
  "ctrl_a_key = \<lparr>kp_key = ''a'', kp_ctrl = True, kp_alt = False, kp_meta = False, kp_keydown = True, kp_composing = False\<rparr>"

lemma ctrl_a_is_prefix: "is_prefix (Key ctrl_a_key)"
  by code_simp

lemma prefix_forwards_each_once_witness:
  "count_list (forwarded (run_actions prefix_step no_prefix [Key ctrl_a_key, Key ctrl_a_key, PrefixTimeout])) CTRL_A = 2"
proof -
  have "armed (run_actions prefix_step no_prefix [Key ctrl_a_key, Key ctrl_a_key, PrefixTimeout]) = False"
    "detaches (run_actions prefix_step no_prefix [Key ctrl_a_key, Key ctrl_a_key, PrefixTimeout]) = 0" by code_simp+
  then show ?thesis
    using prefix_forwards_each_once [OF _ refl, of "[Key ctrl_a_key, Key ctrl_a_key, PrefixTimeout]"] ctrl_a_is_prefix
    by (simp add: is_prefix_def [of PrefixTimeout])
qed

text \<open>
  A snippet typed while a Ctrl+A is held back sends it first, as it must, but does not release the prefix: the timeout sends
  the same Ctrl+A again, behind the snippet.
\<close>

theorem snippet_repeats_prefix:
  assumes "armed s" "prefixTimer s" "txt \<noteq> []"
  shows "forwarded (run_actions prefix_step s [SendText txt False, PrefixTimeout]) = forwarded s @ [CTRL_A, txt, CTRL_A]"
  using assms by (simp add: handleSendText_def Let_def flushPrefixCtrlA_def prefix_timeout_def)

section \<open>The budget of full reconnects\<close>

definition SSH_DEAD_ESCALATION_LIMIT :: nat where "SSH_DEAD_ESCALATION_LIMIT = 2"
definition SSH_DEAD_ESCALATION_WINDOW_MS :: int where "SSH_DEAD_ESCALATION_WINDOW_MS = 600000"

type_synonym escalations = "(nat \<times> int) obj"

definition expired :: "int \<Rightarrow> nat \<times> int \<Rightarrow> bool" where
  "expired now e \<longleftrightarrow> SSH_DEAD_ESCALATION_WINDOW_MS < now - snd e"

definition prune_escalations :: "int \<Rightarrow> escalations \<Rightarrow> escalations" where
  "prune_escalations now m = (if 64 < length m then filter (\<lambda>(k, e). \<not> expired now e) m else m)"

definition claim_entry :: "string \<Rightarrow> int \<Rightarrow> escalations \<Rightarrow> bool \<times> escalations" where
  "claim_entry i now m =
     (case obj_get m i of
        None \<Rightarrow> (True, obj_set i (1, now) m)
      | Some e \<Rightarrow>
          if expired now e then (True, obj_set i (1, now) m)
          else if SSH_DEAD_ESCALATION_LIMIT \<le> fst e then (False, m)
          else (True, obj_set i (fst e + 1, snd e) m))"

definition claimSshDeadEscalation :: "string \<Rightarrow> int \<Rightarrow> escalations \<Rightarrow> bool \<times> escalations" where
  "claimSshDeadEscalation i now m = claim_entry i now (prune_escalations now m)"

fun claims :: "(string \<Rightarrow> int \<Rightarrow> escalations \<Rightarrow> bool \<times> escalations) \<Rightarrow> (string \<times> int) list \<Rightarrow> escalations \<Rightarrow> bool list" where
  "claims claim [] m = []"
| "claims claim ((i, now) # cs) m = (case claim i now m of (ok, m') \<Rightarrow> ok # claims claim cs m')"


lemma expired_later: "now \<le> later \<Longrightarrow> expired now e \<Longrightarrow> expired later e"
  by (simp add: expired_def)

text \<open>Two maps that agree on what has not expired.\<close>

definition same_live :: "int \<Rightarrow> escalations \<Rightarrow> escalations \<Rightarrow> bool" where
  "same_live now m m' \<longleftrightarrow> obj_ok m \<and> obj_ok m' \<and>
     (\<forall>i e. \<not> expired now e \<longrightarrow> obj_get m i = Some e \<longleftrightarrow> obj_get m' i = Some e)"

lemma prune_get: "obj_ok m \<Longrightarrow> obj_get (filter (\<lambda>(k, e). \<not> expired now e) m) i = Some e \<longleftrightarrow> obj_get m i = Some e \<and> \<not> expired now e"
  by (auto simp: obj_get_def obj_ok_def map_of_filter distinct_map_filter)


lemma prune_live:
  assumes "same_live now m m'" shows "same_live now (prune_escalations now m) m'"
  using assms prune_get [of m now]
  by (auto simp: same_live_def prune_escalations_def obj_ok_def distinct_map_filter)

lemma claim_live:
  assumes "same_live now m m'"
  shows "fst (claim_entry i now m) = fst (claim_entry i now m')" "same_live now (snd (claim_entry i now m)) (snd (claim_entry i now m'))"
proof -
  have ok: "obj_ok m" "obj_ok m'" and same: "\<And>e. \<not> expired now e \<Longrightarrow> obj_get m i = Some e \<longleftrightarrow> obj_get m' i = Some e"
    using assms unfolding same_live_def by blast+
  have new: "same_live now (obj_set i e m) (obj_set i e m')" for e using assms by (simp add: same_live_def)
  consider (live) e where "\<not> expired now e" "obj_get m i = Some e" "obj_get m' i = Some e"
    | (gone) "\<And>e. obj_get m i = Some e \<Longrightarrow> expired now e" "\<And>e. obj_get m' i = Some e \<Longrightarrow> expired now e"
    using same by blast
  then have "fst (claim_entry i now m) = fst (claim_entry i now m') \<and> same_live now (snd (claim_entry i now m)) (snd (claim_entry i now m'))"
  proof cases
    case live
    then show ?thesis using new assms by (simp add: claim_entry_def)
  next
    case gone
    then have "claim_entry i now m = (True, obj_set i (1, now) m)" "claim_entry i now m' = (True, obj_set i (1, now) m')"
      by (auto simp: claim_entry_def split: option.split)
    then show ?thesis using new by simp
  qed
  then show "fst (claim_entry i now m) = fst (claim_entry i now m')" "same_live now (snd (claim_entry i now m)) (snd (claim_entry i now m'))"
    by simp_all
qed

lemma same_live_later: "same_live now m m' \<Longrightarrow> now \<le> later \<Longrightarrow> same_live later m m'"
  unfolding same_live_def using expired_later by blast

lemma pruned_claims:
  "sorted (map snd cs) \<Longrightarrow> \<forall>(i, t) \<in> set cs. now \<le> t \<Longrightarrow> same_live now m m' \<Longrightarrow>
     claims claimSshDeadEscalation cs m = claims claim_entry cs m'"
proof (induction cs arbitrary: now m m')
  case (Cons c cs)
  obtain i t where c: "c = (i, t)" by (cases c)
  have live: "same_live t (prune_escalations t m) m'" using Cons.prems c by (auto intro!: prune_live intro: same_live_later)
  have "claims claimSshDeadEscalation cs (snd (claim_entry i t (prune_escalations t m))) = claims claim_entry cs (snd (claim_entry i t m'))"
    by (rule Cons.IH [OF _ _ claim_live(2) [OF live]]) (use Cons.prems c in auto)
  then show ?case using claim_live(1) [OF live, of i] unfolding c claims.simps split_beta
    by (simp add: claimSshDeadEscalation_def [of i t m])
qed simp

text \<open>The claims of \<open>i\<close> that were granted.\<close>

definition granted :: "string \<Rightarrow> (string \<times> int) list \<Rightarrow> bool list \<Rightarrow> nat" where
  "granted i cs oks = length (filter (\<lambda>((j, t), ok). j = i \<and> ok) (zip cs oks))"

definition used :: "string \<Rightarrow> escalations \<Rightarrow> nat" where
  "used i m = (case obj_get m i of Some e \<Rightarrow> fst e | None \<Rightarrow> 0)"

lemma granted_within:
  assumes "\<forall>(j, t) \<in> set cs. t0 \<le> t \<and> t \<le> t0 + SSH_DEAD_ESCALATION_WINDOW_MS"
    and "\<forall>j e. obj_get m j = Some e \<longrightarrow> t0 \<le> snd e \<and> 1 \<le> fst e \<and> fst e \<le> SSH_DEAD_ESCALATION_LIMIT"
  shows "granted i cs (claims claim_entry cs m) + used i m \<le> SSH_DEAD_ESCALATION_LIMIT"
  using assms
proof (induction cs arbitrary: m)
  case Nil
  then show ?case by (auto simp: granted_def used_def split: option.split)
next
  case (Cons c cs)
  obtain j t where c: "c = (j, t)" by (cases c)
  have live: "\<not> expired t e" if "obj_get m j = Some e" for e
    using Cons.prems that c by (fastforce simp: expired_def)
  let ?r = "claim_entry j t m"
  have inv: "\<forall>j' e. obj_get (snd ?r) j' = Some e \<longrightarrow> t0 \<le> snd e \<and> 1 \<le> fst e \<and> fst e \<le> SSH_DEAD_ESCALATION_LIMIT"
    using Cons.prems c by (auto simp: claim_entry_def SSH_DEAD_ESCALATION_LIMIT_def split: option.splits)
  have step: "used i (snd ?r) = used i m + (if j = i \<and> fst ?r then 1 else 0)"
    using live by (cases "j = i") (auto simp: claim_entry_def used_def split: option.splits)
  have "granted i (c # cs) (claims claim_entry (c # cs) m) =
      (if j = i \<and> fst ?r then 1 else 0) + granted i cs (claims claim_entry cs (snd ?r))"
    by (cases "j = i") (simp_all add: c granted_def split_beta)
  moreover have "granted i cs (claims claim_entry cs (snd ?r)) + used i (snd ?r) \<le> SSH_DEAD_ESCALATION_LIMIT"
    by (rule Cons.IH [OF _ inv]) (use Cons.prems in auto)
  ultimately show ?case using step by simp
qed



end
