(* ===== verification/PtySession.thy ===== *)
theory PtySession
  imports PtyInput AppWindow
begin

text \<open>
  The session of a mounted terminal (\<open>src/src/components/pty-terminal.tsx\<close>): its sockets to the bridge, the handshake
  with its watchdog, the retries, the flow control of the output and the synchronisation of the size. Each socket is an
  index into \<open>sockets\<close>; what was sent is a list of pairs of socket and message. A call of \<open>connectWebSocket\<close> is in
  \<open>waits\<close> until it creates its socket. The terminal itself (its buffer, renderer, search and clipboard) is a library; of
  what is written to it only the output of the session is kept. The banners and the activation of the pane are left out.
\<close>

section \<open>State\<close>

datatype sock_ready = SockConnecting | SockOpen | SockClosing | SockClosed

record pty_socket =
  readyState :: sock_ready
  startPtyDims :: "(nat \<times> nat) option"
  handlers :: bool

datatype ws_message = StartPty "nat \<times> nat" | Resize "nat \<times> nat" | Resume | DetachSession "int option" | CloseSession "int option"

datatype conn_wait = Backoff nat | SizeWait | EndpointWait

record pty_state =
  isRunning :: bool
  sockets :: "pty_socket list"
  wsRef :: "nat option"
  waits :: "conn_wait list"
  dims :: "nat \<times> nat"
  lastSent :: "nat \<times> nat"
  pendingResize :: "(nat \<times> nat) option"
  hasEverConnected :: bool
  isReconnectAfterDrop :: bool
  startedAfterReconnect :: bool
  writeBuffer :: string
  bufferedFrameCount :: nat
  rafId :: "nat option"
  writes :: "(nat \<times> nat) list"
  startPtyWatchdog :: "nat option"
  ptyHandshakeDone :: bool
  reconnectAttempts :: nat
  autoReconnectAfterDrop :: nat
  statusRef :: conn_status
  ptyGeneration :: "int option"
  sshDeadEscalated :: bool
  detachedRef :: bool
  escalations :: escalations
  sent :: "(nat \<times> ws_message) list"
  screen :: "string list"
  statusReports :: "conn_status list"
  reconnectRequests :: nat

definition MAX_RECONNECT_ATTEMPTS :: nat where "MAX_RECONNECT_ATTEMPTS = 5"
definition MAX_AUTO_RECONNECT_AFTER_DROP :: nat where "MAX_AUTO_RECONNECT_AFTER_DROP = 5"
definition INITIAL_WINDOW :: nat where "INITIAL_WINDOW = 2"

definition ready :: "pty_state \<Rightarrow> nat \<Rightarrow> sock_ready" where
  "ready s n = (if n < length (sockets s) then readyState (sockets s ! n) else SockConnecting)"

definition is_open :: "pty_state \<Rightarrow> nat \<Rightarrow> bool" where
  "is_open s n \<longleftrightarrow> n < length (sockets s) \<and> readyState (sockets s ! n) = SockOpen"

definition set_socket :: "nat \<Rightarrow> (pty_socket \<Rightarrow> pty_socket) \<Rightarrow> pty_state \<Rightarrow> pty_state" where
  "set_socket n f s = s\<lparr>sockets := (sockets s)[n := f (sockets s ! n)]\<rparr>"

definition send_msg :: "nat \<Rightarrow> ws_message \<Rightarrow> pty_state \<Rightarrow> pty_state" where
  "send_msg n m s = s\<lparr>sent := sent s @ [(n, m)]\<rparr>"

definition report_status :: "conn_status \<Rightarrow> pty_state \<Rightarrow> pty_state" where
  "report_status st s = (if statusRef s = st then s else s\<lparr>statusRef := st, statusReports := statusReports s @ [st]\<rparr>)"

definition close_if_open :: "nat \<Rightarrow> pty_state \<Rightarrow> pty_state" where
  "close_if_open n s = (if is_open s n then set_socket n (\<lambda>k. k\<lparr>readyState := SockClosing\<rparr>) s else s)"

section \<open>Connecting\<close>

definition connectWebSocket :: "pty_state \<Rightarrow> pty_state" where
  "connectWebSocket s = s\<lparr>waits := waits s @ [SizeWait]\<rparr>"

text \<open>The size is known, the endpoint is known, a backoff is over; each resumes the k-th wait.\<close>

definition wait_done :: "nat \<Rightarrow> pty_state \<Rightarrow> pty_state" where
  "wait_done k s =
     (if length (waits s) \<le> k then s
      else let w = waits s ! k; s1 = s\<lparr>waits := remove_at k (waits s)\<rparr>
           in if \<not> isRunning s then s1
              else case w of
                Backoff d \<Rightarrow> connectWebSocket s1
              | SizeWait \<Rightarrow> (report_status Connecting s1)\<lparr>waits := waits s1 @ [EndpointWait]\<rparr>
              | EndpointWait \<Rightarrow> s1\<lparr>sockets := sockets s1 @ [\<lparr>readyState = SockConnecting, startPtyDims = None, handlers = True\<rparr>],
                  wsRef := Some (length (sockets s1))\<rparr>)"

definition onopen :: "nat \<Rightarrow> pty_state \<Rightarrow> pty_state" where
  "onopen n s =
     (let start = dims s;
          s1 = send_msg n (StartPty start) (set_socket n (\<lambda>k. k\<lparr>readyState := SockOpen, startPtyDims := Some start\<rparr>) s);
          s2 = s1\<lparr>ptyHandshakeDone := False, startPtyWatchdog := Some n\<rparr>
      in case pendingResize s2 of
           None \<Rightarrow> s2
         | Some d \<Rightarrow>
             let s3 = s2\<lparr>pendingResize := None\<rparr>;
                 s4 = (if d \<noteq> start then send_msg n (Resize d) s3 else s3)
             in s4\<lparr>lastSent := d\<rparr>)"

text \<open>A full reconnect, asked of the window within the budget; the loops of this terminal stop.\<close>

definition escalate :: "string \<Rightarrow> bool \<Rightarrow> int \<Rightarrow> nat \<Rightarrow> pty_state \<Rightarrow> pty_state" where
  "escalate i hasReconnect now n s =
     (let s1 = s\<lparr>reconnectAttempts := MAX_RECONNECT_ATTEMPTS, autoReconnectAfterDrop := MAX_AUTO_RECONNECT_AFTER_DROP\<rparr>;
          s2 = report_status Disconnected s1;
          s3 = (if sshDeadEscalated s2 then s2
                else let s' = s2\<lparr>sshDeadEscalated := True\<rparr>
                     in if hasReconnect
                        then case claimSshDeadEscalation i now (escalations s') of
                               (ok, b) \<Rightarrow> s'\<lparr>escalations := b, reconnectRequests := reconnectRequests s' + (if ok then 1 else 0)\<rparr>
                        else s')
      in close_if_open n s3)"

definition watchdog_fires :: "string \<Rightarrow> bool \<Rightarrow> int \<Rightarrow> pty_state \<Rightarrow> pty_state" where
  "watchdog_fires i hasReconnect now s =
     (case startPtyWatchdog s of
        None \<Rightarrow> s
      | Some n \<Rightarrow>
          let s1 = s\<lparr>startPtyWatchdog := None\<rparr>
          in if ptyHandshakeDone s1 then s1 else escalate i hasReconnect now n s1)"

section \<open>Output\<close>

definition grantCredits :: "nat \<Rightarrow> nat \<Rightarrow> pty_state \<Rightarrow> pty_state" where
  "grantCredits n credits s = (if is_open s n then s\<lparr>sent := sent s @ replicate credits (n, Resume)\<rparr> else s)"

definition enqueueOutput :: "nat \<Rightarrow> string \<Rightarrow> pty_state \<Rightarrow> pty_state" where
  "enqueueOutput n txt s =
     (if txt = [] then grantCredits n 1 s
      else s\<lparr>writeBuffer := writeBuffer s @ txt, bufferedFrameCount := bufferedFrameCount s + 1,
             rafId := (case rafId s of None \<Rightarrow> Some n | Some m \<Rightarrow> Some m)\<rparr>)"

definition flushWriteBuffer :: "pty_state \<Rightarrow> pty_state" where
  "flushWriteBuffer s =
     (case rafId s of
        None \<Rightarrow> s
      | Some n \<Rightarrow>
          if writeBuffer s = [] then s\<lparr>rafId := None\<rparr>
          else s\<lparr>rafId := None, screen := screen s @ [writeBuffer s], writes := writes s @ [(n, bufferedFrameCount s)],
                 writeBuffer := [], bufferedFrameCount := 0\<rparr>)"

definition write_done :: "nat \<Rightarrow> pty_state \<Rightarrow> pty_state" where
  "write_done k s =
     (if length (writes s) \<le> k then s
      else case writes s ! k of (n, credits) \<Rightarrow> grantCredits n credits (s\<lparr>writes := remove_at k (writes s)\<rparr>))"

section \<open>Messages\<close>

definition handshake_done :: "pty_state \<Rightarrow> pty_state" where
  "handshake_done s = s\<lparr>ptyHandshakeDone := True, startPtyWatchdog := None\<rparr>"

definition on_success :: "pty_state \<Rightarrow> pty_state" where
  "on_success s =
     report_status Connected
       ((handshake_done s)\<lparr>startedAfterReconnect := hasEverConnected s \<or> isReconnectAfterDrop s, reconnectAttempts := 0,
          autoReconnectAfterDrop := 0, hasEverConnected := True, isReconnectAfterDrop := False\<rparr>)"

definition on_pty_started :: "nat \<Rightarrow> int \<Rightarrow> pty_state \<Rightarrow> pty_state" where
  "on_pty_started n gen s =
     (let s1 = grantCredits n INITIAL_WINDOW ((handshake_done s)\<lparr>ptyGeneration := Some gen\<rparr>);
          resync = (case startPtyDims (sockets s1 ! n) of Some d \<Rightarrow> dims s1 \<noteq> d \<and> dims s1 \<noteq> lastSent s1 | None \<Rightarrow> False);
          s2 = (if resync \<and> is_open s1 n then (send_msg n (Resize (dims s1)) s1)\<lparr>lastSent := dims s1\<rparr> else s1)
      in set_socket n (\<lambda>k. k\<lparr>startPtyDims := None\<rparr>) s2)"

definition lost_words :: "string list" where
  "lost_words = [''session not found'', ''ssh'', ''connection'', ''disconnected'', ''closed'', ''lost'', ''pty'']"

definition on_error :: "string \<Rightarrow> bool \<Rightarrow> int \<Rightarrow> nat \<Rightarrow> string option \<Rightarrow> string \<Rightarrow> pty_state \<Rightarrow> pty_state" where
  "on_error i hasReconnect now n code msg s =
     (if code = Some ''ssh_session_dead'' then escalate i hasReconnect now n s
      else let e = js_lower msg;
               s1 = (if js_includes e ''not found'' \<or> js_includes e ''failed to open''
                     then s\<lparr>reconnectAttempts := MAX_RECONNECT_ATTEMPTS\<rparr> else s)
           in if \<exists>w \<in> set lost_words. js_includes e w then close_if_open n (report_status Disconnected s1) else s1)"

section \<open>The end of a socket\<close>

definition onclose :: "bool \<Rightarrow> pty_state \<Rightarrow> pty_state" where
  "onclose autoReconnect s =
     (if sshDeadEscalated s \<or> detachedRef s \<or> \<not> isRunning s then s
      else if \<not> autoReconnect then report_status Disconnected s
      else if hasEverConnected s then
        let dropAttempt = autoReconnectAfterDrop s
        in if MAX_AUTO_RECONNECT_AFTER_DROP \<le> dropAttempt then report_status Disconnected s
           else (report_status Connecting (s\<lparr>autoReconnectAfterDrop := dropAttempt + 1\<rparr>))
             \<lparr>isReconnectAfterDrop := True, hasEverConnected := False, reconnectAttempts := 0,
               waits := waits s @ [Backoff (min (2000 * 2 ^ dropAttempt) 30000)]\<rparr>
      else
        let attempts = reconnectAttempts s
        in if MAX_RECONNECT_ATTEMPTS \<le> attempts then report_status Disconnected s
           else (report_status Connecting (s\<lparr>reconnectAttempts := attempts + 1\<rparr>))
             \<lparr>waits := waits s @ [Backoff (min (1000 * 2 ^ attempts) 30000)]\<rparr>)"

section \<open>The size, detaching and unmounting\<close>

definition onResize :: "nat \<times> nat \<Rightarrow> pty_state \<Rightarrow> pty_state" where
  "onResize d s =
     (let s1 = s\<lparr>dims := d\<rparr> in
      if d = lastSent s1 then s1
      else case wsRef s1 of
        Some n \<Rightarrow> if is_open s1 n then send_msg n (Resize d) (s1\<lparr>lastSent := d, pendingResize := None\<rparr>)
                  else s1\<lparr>pendingResize := Some d\<rparr>
      | None \<Rightarrow> s1\<lparr>pendingResize := Some d\<rparr>)"

definition sendDetach :: "pty_state \<Rightarrow> pty_state" where
  "sendDetach s =
     (if detachedRef s then s
      else let s1 = s\<lparr>detachedRef := True\<rparr>
           in case wsRef s1 of
                Some n \<Rightarrow> if is_open s1 n then send_msg n (DetachSession (ptyGeneration s1)) s1 else s1
              | None \<Rightarrow> s1)"

text \<open>After the cleanup of an effect its sockets have no handlers any more, or handlers that do nothing.\<close>

definition cleanup :: "pty_state \<Rightarrow> pty_state" where
  "cleanup s =
     (let s1 = s\<lparr>isRunning := False, startPtyWatchdog := None, rafId := None, writeBuffer := [], bufferedFrameCount := 0\<rparr>;
          s2 = (case wsRef s1 of
                  None \<Rightarrow> s1
                | Some n \<Rightarrow>
                    let s' = (if is_open s1 n \<and> \<not> detachedRef s1 then send_msg n (CloseSession (ptyGeneration s1)) s1 else s1)
                    in if ready s' n = SockClosed then s' else set_socket n (\<lambda>k. k\<lparr>readyState := SockClosing\<rparr>) s')
      in s2\<lparr>ptyGeneration := None, wsRef := None, sockets := map (\<lambda>k. k\<lparr>handlers := False\<rparr>) (sockets s2)\<rparr>)"

text \<open>The effect of the terminal, with its local variables as at its start; the references keep their values.\<close>

definition start_effect :: "nat \<times> nat \<Rightarrow> pty_state \<Rightarrow> pty_state" where
  "start_effect d s =
     connectWebSocket (s\<lparr>isRunning := True, waits := [], dims := d, lastSent := d, pendingResize := None, hasEverConnected := False,
       isReconnectAfterDrop := False, startedAfterReconnect := False, writeBuffer := [], bufferedFrameCount := 0, rafId := None,
       startPtyWatchdog := None, ptyHandshakeDone := False\<rparr>)"

definition manual_reconnect :: "nat \<times> nat \<Rightarrow> pty_state \<Rightarrow> pty_state" where
  "manual_reconnect d s =
     start_effect d (cleanup (s\<lparr>reconnectAttempts := 0, statusRef := Connecting, statusReports := statusReports s @ [Connecting]\<rparr>))"

section \<open>Events\<close>

datatype pty_event =
    WaitDone nat
  | SocketOpens nat
  | OutputFrame nat bytes string
  | OutputMessage nat string
  | Succeeds nat
  | PtyStarted nat int
  | Fails nat "string option" string int
  | SocketErrors nat
  | SocketCloses nat bool
  | WatchdogFires int
  | Draws
  | WriteDone nat
  | TermResizes "nat \<times> nat"
  | Detaches
  | Unmounts
  | Rebuilds "nat \<times> nat"
  | ReconnectsByHand "nat \<times> nat"

text \<open>\<open>onmessage\<close> looks at the messages of the current socket only.\<close>

definition hears :: "pty_state \<Rightarrow> nat \<Rightarrow> bool" where
  "hears s n \<longleftrightarrow> is_open s n \<and> handlers (sockets s ! n) \<and> isRunning s \<and> wsRef s = Some n"

definition has_handlers :: "pty_state \<Rightarrow> nat \<Rightarrow> bool" where
  "has_handlers s n \<longleftrightarrow> n < length (sockets s) \<and> handlers (sockets s ! n)"

fun pty_step :: "string \<Rightarrow> (bytes \<Rightarrow> string) \<Rightarrow> bool \<Rightarrow> pty_state \<Rightarrow> pty_event \<Rightarrow> pty_state" where
  "pty_step i text_of rec s (WaitDone k) = wait_done k s"
| "pty_step i text_of rec s (SocketOpens n) =
     (if has_handlers s n \<and> ready s n = SockConnecting then onopen n s else s)"
| "pty_step i text_of rec s (OutputFrame n data txt) =
     (if hears s n \<and> output_payload text_of i data \<noteq> None then enqueueOutput n txt s else s)"
| "pty_step i text_of rec s (OutputMessage n txt) = (if hears s n then enqueueOutput n txt s else s)"
| "pty_step i text_of rec s (Succeeds n) = (if hears s n then on_success s else s)"
| "pty_step i text_of rec s (PtyStarted n gen) = (if hears s n then on_pty_started n gen s else s)"
| "pty_step i text_of rec s (Fails n code msg now) = (if hears s n then on_error i rec now n code msg s else s)"
| "pty_step i text_of rec s (SocketErrors n) = (if has_handlers s n then report_status Disconnected s else s)"
| "pty_step i text_of rec s (SocketCloses n auto) =
     (if has_handlers s n \<and> ready s n \<noteq> SockClosed
      then onclose auto (set_socket n (\<lambda>k. k\<lparr>readyState := SockClosed\<rparr>) s) else s)"
| "pty_step i text_of rec s (WatchdogFires now) = watchdog_fires i rec now s"
| "pty_step i text_of rec s Draws = flushWriteBuffer s"
| "pty_step i text_of rec s (WriteDone k) = write_done k s"
| "pty_step i text_of rec s (TermResizes d) = (if isRunning s \<and> d \<noteq> dims s then onResize d s else s)"
| "pty_step i text_of rec s Detaches = sendDetach s"
| "pty_step i text_of rec s Unmounts = (if isRunning s then cleanup s else s)"
| "pty_step i text_of rec s (Rebuilds d) = (if isRunning s then start_effect d (cleanup s) else s)"
| "pty_step i text_of rec s (ReconnectsByHand d) =
     (if rec then s\<lparr>reconnectRequests := reconnectRequests s + 1\<rparr> else if isRunning s then manual_reconnect d s else s)"

text \<open>A terminal that has just been mounted; \<open>b\<close> is the budget of the module.\<close>

definition mounted :: "nat \<times> nat \<Rightarrow> escalations \<Rightarrow> pty_state" where
  "mounted d b = start_effect d \<lparr>isRunning = True, sockets = [], wsRef = None, waits = [], dims = d, lastSent = d,
     pendingResize = None, hasEverConnected = False, isReconnectAfterDrop = False, startedAfterReconnect = False,
     writeBuffer = [], bufferedFrameCount = 0, rafId = None, writes = [], startPtyWatchdog = None, ptyHandshakeDone = False,
     reconnectAttempts = 0, autoReconnectAfterDrop = 0, statusRef = Connecting, ptyGeneration = None,
     sshDeadEscalated = False, detachedRef = False, escalations = b, sent = [], screen = [], statusReports = [],
     reconnectRequests = 0\<rparr>"

end
