(* ===== verification/PtySessionProps.thy ===== *)
theory PtySessionProps
  imports PtySession
begin

section \<open>One connection at a time\<close>

named_theorems pty_defs

lemmas [pty_defs] = send_msg_def set_socket_def report_status_def close_if_open_def connectWebSocket_def handshake_done_def
  grantCredits_def enqueueOutput_def flushWriteBuffer_def write_done_def

definition alive :: "pty_state \<Rightarrow> nat list" where
  "alive s = filter (\<lambda>n. handlers (sockets s ! n) \<and> readyState (sockets s ! n) \<noteq> SockClosed) [0..<length (sockets s)]"

text \<open>What is on its way to a socket and the sockets that are not closed are one at most, the current one.\<close>

definition single :: "pty_state \<Rightarrow> bool" where
  "single s \<longleftrightarrow> length (waits s) + length (alive s) \<le> 1 \<and> (\<forall>n \<in> set (alive s). wsRef s = Some n) \<and>
     (hasEverConnected s \<and> \<not> sshDeadEscalated s \<longrightarrow> autoReconnectAfterDrop s = 0) \<and> reconnectAttempts s \<le> MAX_RECONNECT_ATTEMPTS"

lemma alive_set: "n \<in> set (alive s) \<longleftrightarrow> n < length (sockets s) \<and> handlers (sockets s ! n) \<and> readyState (sockets s ! n) \<noteq> SockClosed"
  by (auto simp: alive_def)

lemma alive_distinct [simp]: "distinct (alive s)"
  by (simp add: alive_def)

lemma alive_length: "length (alive s) = card (set (alive s))"
  by (simp add: distinct_card)

lemma alive_cong: "sockets s' = sockets s \<Longrightarrow> alive s' = alive s"
  by (simp add: alive_def)

text \<open>Steps that change no socket except by ending it.\<close>

lemma alive_shrinks:
  assumes "set (alive s') \<subseteq> set (alive s)" shows "length (alive s') \<le> length (alive s)"
  unfolding alive_length using assms by (intro card_mono) auto

lemma single_keep:
  assumes "single s" "length (waits s') \<le> length (waits s)" "set (alive s') \<subseteq> set (alive s)"
    "wsRef s' = wsRef s" "hasEverConnected s' \<and> \<not> sshDeadEscalated s' \<longrightarrow> autoReconnectAfterDrop s' = 0"
    "reconnectAttempts s' \<le> MAX_RECONNECT_ATTEMPTS"
  shows "single s'"
  using assms alive_shrinks [OF assms(3)] unfolding single_def by auto

lemma single_cong:
  assumes "single s" "waits s' = waits s" "sockets s' = sockets s" "wsRef s' = wsRef s" "hasEverConnected s' = hasEverConnected s"
    "sshDeadEscalated s' = sshDeadEscalated s" "autoReconnectAfterDrop s' = autoReconnectAfterDrop s"
    "reconnectAttempts s' = reconnectAttempts s"
  shows "single s'"
  using assms alive_cong [OF assms(3)] unfolding single_def by simp

lemma report_frame [simp]:
  "waits (report_status st s) = waits s" "sockets (report_status st s) = sockets s" "wsRef (report_status st s) = wsRef s"
  "hasEverConnected (report_status st s) = hasEverConnected s" "sshDeadEscalated (report_status st s) = sshDeadEscalated s"
  "autoReconnectAfterDrop (report_status st s) = autoReconnectAfterDrop s" "reconnectAttempts (report_status st s) = reconnectAttempts s"
  "isRunning (report_status st s) = isRunning s" "detachedRef (report_status st s) = detachedRef s" "statusRef (report_status st s) = st"
  "sent (report_status st s) = sent s" "rafId (report_status st s) = rafId s" "writes (report_status st s) = writes s"
  "bufferedFrameCount (report_status st s) = bufferedFrameCount s" "writeBuffer (report_status st s) = writeBuffer s"
  "dims (report_status st s) = dims s" "lastSent (report_status st s) = lastSent s" "pendingResize (report_status st s) = pendingResize s"
  "startPtyWatchdog (report_status st s) = startPtyWatchdog s" "ptyHandshakeDone (report_status st s) = ptyHandshakeDone s"
  by (simp_all add: report_status_def)

lemma single_report [simp]: "single (report_status st s) = single s"
  by (auto intro: single_cong)

lemma alive_set_socket:
  "\<not> (handlers (f (sockets s ! n)) \<and> \<not> handlers (sockets s ! n)) \<Longrightarrow>
   \<not> (readyState (sockets s ! n) = SockClosed \<and> readyState (f (sockets s ! n)) \<noteq> SockClosed) \<Longrightarrow>
   set (alive (set_socket n f s)) \<subseteq> set (alive s)"
proof
  fix m assume a: "\<not> (handlers (f (sockets s ! n)) \<and> \<not> handlers (sockets s ! n))"
    "\<not> (readyState (sockets s ! n) = SockClosed \<and> readyState (f (sockets s ! n)) \<noteq> SockClosed)"
    and m: "m \<in> set (alive (set_socket n f s))"
  then show "m \<in> set (alive s)" by (cases "m = n") (auto simp: alive_set set_socket_def)
qed

lemma single_set_socket:
  "single s \<Longrightarrow> \<not> (handlers (f (sockets s ! n)) \<and> \<not> handlers (sockets s ! n)) \<Longrightarrow>
   \<not> (readyState (sockets s ! n) = SockClosed \<and> readyState (f (sockets s ! n)) \<noteq> SockClosed) \<Longrightarrow> single (set_socket n f s)"
  by (rule single_keep [of s]) (use alive_set_socket [of f s n] in \<open>auto simp: single_def set_socket_def\<close>)

lemma single_close [simp]: "single s \<Longrightarrow> single (close_if_open n s)"
  by (simp add: close_if_open_def is_open_def single_set_socket)

lemma length_remove_at: "k < length xs \<Longrightarrow> length (remove_at k xs) = length xs - 1"
  by (simp add: remove_at_def)

lemma waits_alone: "single s \<Longrightarrow> k < length (waits s) \<Longrightarrow> alive s = [] \<and> length (waits s) = 1"
  unfolding single_def by (cases "alive s"; cases "waits s") auto

lemma alive_append: "alive s = [] \<Longrightarrow>
   alive (s\<lparr>sockets := sockets s @ [\<lparr>readyState = SockConnecting, startPtyDims = None, handlers = True\<rparr>], wsRef := r, waits := w\<rparr>) = [length (sockets s)]"
  by (auto simp: alive_def filter_empty_conv nth_append)

lemma single_wait: assumes s: "single s" shows "single (wait_done k s)"
proof (cases "k < length (waits s)")
  case True
  note a = waits_alone [OF s True]
  have w: "remove_at k (waits s) = []" using a True by (simp add: remove_at_def)
  show ?thesis
  proof (cases "isRunning s")
    case False
    then show ?thesis using s True a w by (auto simp: wait_done_def single_def alive_def)
  next
    case run: True
    show ?thesis
    proof (cases "waits s ! k")
      case (Backoff d)
      then show ?thesis using s True a w run by (auto simp: wait_done_def Let_def connectWebSocket_def single_def alive_def)
    next
      case SizeWait
      then show ?thesis using s True a w run
        by (auto simp: wait_done_def Let_def single_def alive_def)
    next
      case EndpointWait
      have "alive (wait_done k s) = [length (sockets s)]"
        using True run EndpointWait w a by (auto simp: wait_done_def Let_def alive_def filter_empty_conv nth_append)
      then show ?thesis using s True a w run EndpointWait
        by (simp add: wait_done_def Let_def single_def)
    qed
  qed
qed (simp add: s wait_done_def)

lemma single_cong_simps [simp]:
  "single (send_msg n m s) = single s" "single (grantCredits n c s) = single s" "single (enqueueOutput n txt s) = single s"
  "single (flushWriteBuffer s) = single s" "single (write_done k s) = single s" "single (handshake_done s) = single s"
  "single (s\<lparr>lastSent := d\<rparr>) = single s" "single (s\<lparr>pendingResize := pr\<rparr>) = single s" "single (s\<lparr>ptyGeneration := g\<rparr>) = single s"
  "single (s\<lparr>startPtyWatchdog := w\<rparr>) = single s" "single (s\<lparr>ptyHandshakeDone := h\<rparr>) = single s" "single (s\<lparr>dims := d\<rparr>) = single s"
  "single (s\<lparr>detachedRef := b\<rparr>) = single s" "single (s\<lparr>reconnectRequests := r\<rparr>) = single s" "single (s\<lparr>escalations := es\<rparr>) = single s"
  by (auto simp: pty_defs single_def alive_def split: option.split prod.split)

lemma single_onopen: "single s \<Longrightarrow> ready s n = SockConnecting \<Longrightarrow> single (onopen n s)"
proof -
  assume s: "single s" and r: "ready s n = SockConnecting"
  have k: "single (set_socket n (\<lambda>k. k\<lparr>readyState := SockOpen, startPtyDims := d\<rparr>) s)" for d
  proof (cases "n < length (sockets s)")
    case True
    with r have "readyState (sockets s ! n) = SockConnecting" by (simp add: ready_def)
    then show ?thesis using s by (intro single_set_socket) simp_all
  next
    case False
    then have "set_socket n (\<lambda>k. k\<lparr>readyState := SockOpen, startPtyDims := d\<rparr>) s = s" by (simp add: set_socket_def list_update_beyond)
    then show ?thesis using s by simp
  qed
  show ?thesis using k by (simp add: onopen_def Let_def split: option.split)
qed

lemma single_escalate: "single s \<Longrightarrow> single (escalate i hr now n s)"
proof -
  assume s: "single s"
  let ?s2 = "report_status Disconnected (s\<lparr>reconnectAttempts := MAX_RECONNECT_ATTEMPTS, autoReconnectAfterDrop := MAX_AUTO_RECONNECT_AFTER_DROP\<rparr>)"
  have "single (?s2\<lparr>sshDeadEscalated := True\<rparr>)" "sshDeadEscalated s \<Longrightarrow> single ?s2"
    using s by (auto simp: single_def alive_def)
  then show ?thesis by (auto simp: escalate_def Let_def split: prod.split intro!: single_close)
qed

lemma single_on_success: "single s \<Longrightarrow> single (on_success s)"
  by (auto simp: on_success_def single_def alive_def handshake_done_def)

lemma single_on_pty_started: "single s \<Longrightarrow> single (on_pty_started n g s)"
  by (simp add: on_pty_started_def Let_def single_set_socket)

lemma single_on_error: "single s \<Longrightarrow> single (on_error i hr now n code msg s)"
proof -
  assume s: "single s"
  then have "single (s\<lparr>reconnectAttempts := MAX_RECONNECT_ATTEMPTS\<rparr>)" by (auto simp: single_def alive_def)
  then show ?thesis using s by (simp add: on_error_def Let_def single_escalate)
qed

lemma alive_closed:
  assumes "single s" "n \<in> set (alive s)"
  shows "alive (set_socket n (\<lambda>k. k\<lparr>readyState := SockClosed\<rparr>) s) = []" "waits s = []"
proof -
  have one: "alive s = [n]" "waits s = []" using assms unfolding single_def by (cases "alive s"; cases "waits s"; auto)+
  then show "waits s = []" by simp
  have "set (alive (set_socket n (\<lambda>k. k\<lparr>readyState := SockClosed\<rparr>) s)) \<subseteq> set (alive s)" by (rule alive_set_socket) simp_all
  moreover have "n \<notin> set (alive (set_socket n (\<lambda>k. k\<lparr>readyState := SockClosed\<rparr>) s))" by (auto simp: alive_set set_socket_def)
  ultimately show "alive (set_socket n (\<lambda>k. k\<lparr>readyState := SockClosed\<rparr>) s) = []" using one
    by (cases "alive (set_socket n (\<lambda>k. k\<lparr>readyState := SockClosed\<rparr>) s)") auto
qed

lemma single_closes:
  assumes s: "single s" and n: "has_handlers s n" "ready s n \<noteq> SockClosed"
  shows "single (onclose auto (set_socket n (\<lambda>k. k\<lparr>readyState := SockClosed\<rparr>) s))"
proof -
  let ?s = "set_socket n (\<lambda>k. k\<lparr>readyState := SockClosed\<rparr>) s"
  have "n \<in> set (alive s)" using n by (auto simp: alive_set has_handlers_def ready_def split: if_splits)
  note c = alive_closed [OF s this]
  have s1: "single ?s" using s by (intro single_set_socket) simp_all
  have w: "waits ?s = []" using c(2) by (simp add: set_socket_def)
  have a: "alive ?s = []" using c(1) .
  have a': "alive s' = []" if "sockets s' = sockets ?s" for s' using a alive_cong [OF that] by simp
  have attempts: "reconnectAttempts ?s \<le> MAX_RECONNECT_ATTEMPTS" using s1 by (simp add: single_def)
  show ?thesis
    using s1 w a attempts a'
    by (auto simp: onclose_def Let_def single_def MAX_AUTO_RECONNECT_AFTER_DROP_def)
qed

lemma single_cleanup: "single s \<Longrightarrow> single (cleanup s) \<and> alive (cleanup s) = [] \<and> (length (waits (cleanup s)) = length (waits s))"
proof -
  assume s: "single s"
  have "alive (cleanup s) = []" by (auto simp: cleanup_def Let_def alive_def filter_empty_conv)
  moreover have "waits (cleanup s) = waits s" "reconnectAttempts (cleanup s) = reconnectAttempts s"
    "hasEverConnected (cleanup s) = hasEverConnected s" "sshDeadEscalated (cleanup s) = sshDeadEscalated s"
    "autoReconnectAfterDrop (cleanup s) = autoReconnectAfterDrop s"
    by (simp_all add: cleanup_def Let_def send_msg_def set_socket_def split: option.split)
  ultimately show ?thesis using s by (auto simp: single_def)
qed

lemma single_start_effect: "alive s = [] \<Longrightarrow> reconnectAttempts s \<le> MAX_RECONNECT_ATTEMPTS \<Longrightarrow> single (start_effect d s)"
  by (auto simp: start_effect_def connectWebSocket_def single_def alive_def)

lemma single_step: "single s \<Longrightarrow> single (pty_step i text_of hr s e)"
proof (cases e)
  case (WaitDone k)
  then show "single s \<Longrightarrow> ?thesis" by (simp add: single_wait)
next
  case (SocketOpens n)
  then show "single s \<Longrightarrow> ?thesis" by (simp add: single_onopen)
next
  case (SocketCloses n auto)
  then show "single s \<Longrightarrow> ?thesis" by (simp add: single_closes)
next
  case Unmounts
  then show "single s \<Longrightarrow> ?thesis" by (simp add: single_cleanup)
next
  case (Rebuilds d)
  moreover have "reconnectAttempts (cleanup s) = reconnectAttempts s"
    by (simp add: cleanup_def Let_def send_msg_def set_socket_def split: option.split)
  moreover assume s: "single s"
  then have "reconnectAttempts s \<le> MAX_RECONNECT_ATTEMPTS" by (simp add: single_def)
  ultimately have "single (start_effect d (cleanup s))" using single_cleanup [OF s] by (intro single_start_effect) simp_all
  then show ?thesis using s Rebuilds by simp
next
  case (ReconnectsByHand d)
  let ?s = "s\<lparr>reconnectAttempts := 0, statusRef := Connecting, statusReports := statusReports s @ [Connecting]\<rparr>"
  assume s: "single s"
  then have "single ?s" by (auto simp: single_def alive_def)
  moreover have "reconnectAttempts (cleanup ?s) = 0"
    by (simp add: cleanup_def Let_def send_msg_def set_socket_def split: option.split)
  ultimately have "single (manual_reconnect d s)"
    using single_cleanup [of ?s] unfolding manual_reconnect_def by (intro single_start_effect) simp_all
  then show ?thesis using s ReconnectsByHand by simp
next
  case (TermResizes d)
  then show "single s \<Longrightarrow> ?thesis" by (simp add: onResize_def Let_def split: option.split)
next
  case Detaches
  then show "single s \<Longrightarrow> ?thesis" by (simp add: sendDetach_def Let_def split: option.split)
qed (simp_all add: single_on_success single_on_pty_started single_on_error watchdog_fires_def Let_def single_escalate split: option.split)

lemma mounted_single: "single (mounted d b)"
  by (simp add: mounted_def start_effect_def connectWebSocket_def single_def alive_def)

interpretation pty: action_machine "pty_step i text_of hr" single "\<lambda>_ _. True"
  by unfold_locales (rule single_step)

lemma any_pty_run: "ok_run step (\<lambda>_ _. True) s es"
  by (induction es arbitrary: s) auto


text \<open>
  (C20) The limit on reconnects after a drop is never reached: a session that was established and whose socket closes is
  always tried again after two seconds, however often that has happened, and the message that the attempts are exhausted
  never appears.
\<close>

theorem drops_are_always_retried:
  assumes s: "s = run_actions (pty_step i text_of hr) (mounted d b) es"
    and n: "has_handlers s n" "ready s n \<noteq> SockClosed" and est: "hasEverConnected s" "isRunning s" "\<not> sshDeadEscalated s" "\<not> detachedRef s"
  shows "waits (pty_step i text_of hr s (SocketCloses n True)) = [Backoff 2000] \<and>
    statusRef (pty_step i text_of hr s (SocketCloses n True)) = Connecting"
proof -
  have s: "single s" unfolding s by (rule pty.run_inv [OF mounted_single any_pty_run])
  have "n \<in> set (alive s)" using n by (auto simp: alive_set has_handlers_def ready_def split: if_splits)
  note w = alive_closed(2) [OF s this]
  have "autoReconnectAfterDrop s = 0" using s est by (simp add: single_def)
  then show ?thesis using n est w
    by (simp add: onclose_def Let_def set_socket_def MAX_AUTO_RECONNECT_AFTER_DROP_def)
qed

section \<open>The size of the session\<close>

fun size_in :: "ws_message \<Rightarrow> (nat \<times> nat) option" where
  "size_in (StartPty d) = Some d"
| "size_in (Resize d) = Some d"
| "size_in _ = None"

text \<open>The size the session has been told last over a socket.\<close>

definition telling :: "nat \<Rightarrow> nat \<times> ws_message \<Rightarrow> (nat \<times> nat) option \<Rightarrow> (nat \<times> nat) option" where
  "telling n p known = (if fst p = n then (case size_in (snd p) of Some d \<Rightarrow> Some d | None \<Rightarrow> known) else known)"

definition told_size :: "pty_state \<Rightarrow> nat \<Rightarrow> (nat \<times> nat) option" where
  "told_size s n = fold (telling n) (sent s) None"

lemma told_append: "sent s' = sent s @ ms \<Longrightarrow> told_size s' n = fold (telling n) ms (told_size s n)"
  by (simp add: told_size_def)

lemma told_same: "sent s' = sent s \<Longrightarrow> told_size s' n = told_size s n"
  by (simp add: told_size_def)

lemma told_credits: "sent s' = sent s @ replicate c (m, Resume) \<Longrightarrow> told_size s' n = told_size s n"
proof -
  have "telling n (m, Resume) = id" by (rule ext) (simp add: telling_def)
  then have "fold (telling n) (replicate c (m, Resume)) x = x" for x by (induction c) simp_all
  then show "sent s' = sent s @ replicate c (m, Resume) \<Longrightarrow> told_size s' n = told_size s n" by (simp add: told_append)
qed

definition up :: "pty_state \<Rightarrow> bool" where
  "up s \<longleftrightarrow> (\<exists>n. wsRef s = Some n \<and> is_open s n)"

text \<open>
  While the current socket is open the session has the size of the terminal. While it is not, the size to be sent is kept,
  or was, before the terminal went back to the size last sent.
\<close>

definition in_sync :: "pty_state \<Rightarrow> bool" where
  "in_sync s \<longleftrightarrow> single s \<and> (\<forall>n. wsRef s = Some n \<longrightarrow> has_handlers s n) \<and>
     (if up s then lastSent s = dims s \<and> pendingResize s = None \<and> (\<forall>n. wsRef s = Some n \<longrightarrow> told_size s n = Some (dims s))
      else dims s = lastSent s \<or> pendingResize s = Some (dims s))"

lemma in_sync_keep:
  assumes "in_sync s" "single s'" "wsRef s' = wsRef s" "dims s' = dims s" "lastSent s' = lastSent s" "pendingResize s' = pendingResize s"
    "\<And>n. has_handlers s n \<Longrightarrow> has_handlers s' n" "\<And>n. is_open s' n \<Longrightarrow> is_open s n" "\<And>n. told_size s' n = told_size s n"
  shows "in_sync s'"
proof (cases "up s'")
  case True
  then have "up s" using assms(3,8) by (auto simp: up_def)
  with True show ?thesis using assms by (simp add: in_sync_def)
next
  case False
  then show ?thesis using assms by (cases "up s") (simp_all add: in_sync_def)
qed

lemma open_cong: "sockets s' = sockets s \<Longrightarrow> is_open s' n = is_open s n" "sockets s' = sockets s \<Longrightarrow> has_handlers s' n = has_handlers s n"
  by (simp_all add: is_open_def has_handlers_def)

lemma in_sync_same:
  assumes "in_sync s" "waits s' = waits s" "sockets s' = sockets s" "wsRef s' = wsRef s" "dims s' = dims s" "lastSent s' = lastSent s"
    "pendingResize s' = pendingResize s" "sent s' = sent s" "hasEverConnected s' = hasEverConnected s"
    "sshDeadEscalated s' = sshDeadEscalated s" "autoReconnectAfterDrop s' = autoReconnectAfterDrop s" "reconnectAttempts s' = reconnectAttempts s"
  shows "in_sync s'"
proof (rule in_sync_keep [OF assms(1)])
  show "single s'" using assms(1) by (intro single_cong [OF _ assms(2,3,4,9,10,11,12)]) (simp add: in_sync_def)
qed (use assms open_cong [OF assms(3)] told_same [OF assms(8)] in simp_all)

lemma open_set_socket:
  "is_open (set_socket m f s) n \<longleftrightarrow> n < length (sockets s) \<and> readyState (if n = m then f (sockets s ! n) else sockets s ! n) = SockOpen"
  by (auto simp: is_open_def set_socket_def nth_list_update)

lemma handlers_set_socket:
  "has_handlers (set_socket m f s) n \<longleftrightarrow> n < length (sockets s) \<and> handlers (if n = m then f (sockets s ! n) else sockets s ! n)"
  by (auto simp: has_handlers_def set_socket_def nth_list_update)

lemma set_socket_frame [simp]:
  "wsRef (set_socket m f s) = wsRef s" "dims (set_socket m f s) = dims s" "lastSent (set_socket m f s) = lastSent s"
  "pendingResize (set_socket m f s) = pendingResize s" "sent (set_socket m f s) = sent s" "waits (set_socket m f s) = waits s"
  "rafId (set_socket m f s) = rafId s" "writes (set_socket m f s) = writes s" "bufferedFrameCount (set_socket m f s) = bufferedFrameCount s"
  "writeBuffer (set_socket m f s) = writeBuffer s" "isRunning (set_socket m f s) = isRunning s"
  "length (sockets (set_socket m f s)) = length (sockets s)" "hasEverConnected (set_socket m f s) = hasEverConnected s"
  "sshDeadEscalated (set_socket m f s) = sshDeadEscalated s" "detachedRef (set_socket m f s) = detachedRef s"
  "reconnectAttempts (set_socket m f s) = reconnectAttempts s" "autoReconnectAfterDrop (set_socket m f s) = autoReconnectAfterDrop s"
  by (simp_all add: set_socket_def)

lemma frames [simp]:
  "is_open (report_status st s) n = is_open s n" "has_handlers (report_status st s) n = has_handlers s n"
  by (simp_all add: is_open_def has_handlers_def)

lemma in_sync_single: "in_sync s \<Longrightarrow> single s"
  by (simp add: in_sync_def)

lemma in_sync_report: "in_sync s \<Longrightarrow> in_sync (report_status st s)"
  by (erule in_sync_same) simp_all

lemma in_sync_set_socket:
  assumes "in_sync s" "single (set_socket n f s)" "handlers (sockets s ! n) \<Longrightarrow> handlers (f (sockets s ! n))"
    "readyState (f (sockets s ! n)) = SockOpen \<Longrightarrow> readyState (sockets s ! n) = SockOpen"
  shows "in_sync (set_socket n f s)"
proof (rule in_sync_keep [OF assms(1,2)])
  show "has_handlers s m \<Longrightarrow> has_handlers (set_socket n f s) m" for m
    using assms(3) unfolding handlers_set_socket by (auto simp: has_handlers_def)
  show "is_open (set_socket n f s) m \<Longrightarrow> is_open s m" for m
    using assms(4) unfolding open_set_socket by (cases "m = n") (auto simp: is_open_def)
qed (simp_all add: told_size_def)

lemma in_sync_close: "in_sync s \<Longrightarrow> in_sync (close_if_open n s)"
  using single_close [of s n] by (auto simp: close_if_open_def in_sync_single intro!: in_sync_set_socket split: if_splits)

lemma grant_frame [simp]:
  "sockets (grantCredits n c s) = sockets s" "wsRef (grantCredits n c s) = wsRef s" "dims (grantCredits n c s) = dims s"
  "lastSent (grantCredits n c s) = lastSent s" "pendingResize (grantCredits n c s) = pendingResize s"
  "is_open (grantCredits n c s) m = is_open s m" "has_handlers (grantCredits n c s) m = has_handlers s m"
  "rafId (grantCredits n c s) = rafId s" "writes (grantCredits n c s) = writes s" "isRunning (grantCredits n c s) = isRunning s"
  "bufferedFrameCount (grantCredits n c s) = bufferedFrameCount s" "writeBuffer (grantCredits n c s) = writeBuffer s"
  by (simp_all add: grantCredits_def is_open_def has_handlers_def)

lemma told_grant: "told_size (grantCredits n c s) m = told_size s m"
  by (cases "is_open s n") (auto simp: grantCredits_def intro: told_credits)

lemma in_sync_grant: assumes "in_sync s" shows "in_sync (grantCredits n c s)"
  by (rule in_sync_keep [OF assms]) (use in_sync_single [OF assms] in \<open>simp_all add: told_grant\<close>)

lemma in_sync_enqueue: "in_sync s \<Longrightarrow> in_sync (enqueueOutput n txt s)"
  by (simp add: enqueueOutput_def in_sync_grant) (auto elim!: in_sync_same)

lemma in_sync_flush: "in_sync s \<Longrightarrow> in_sync (flushWriteBuffer s)"
  by (erule in_sync_same) (simp_all add: flushWriteBuffer_def split: option.split)

lemma in_sync_write_done: "in_sync s \<Longrightarrow> in_sync (write_done k s)"
proof -
  assume "in_sync s"
  then have "in_sync (s\<lparr>writes := w\<rparr>)" for w by (auto elim!: in_sync_same)
  then show ?thesis using \<open>in_sync s\<close> by (simp add: write_done_def in_sync_grant split: prod.split)
qed

text \<open>The counters and flags of the retries.\<close>

lemma in_sync_flags:
  assumes "in_sync s" "single s'" "sockets s' = sockets s" "wsRef s' = wsRef s" "dims s' = dims s" "lastSent s' = lastSent s"
    "pendingResize s' = pendingResize s" "sent s' = sent s"
  shows "in_sync s'"
  by (rule in_sync_keep [OF assms(1,2)]) (use assms open_cong [OF assms(3)] told_same [OF assms(8)] in simp_all)

lemma in_sync_escalate: assumes s: "in_sync s" shows "in_sync (escalate i hr now n s)"
proof -
  let ?s2 = "report_status Disconnected (s\<lparr>reconnectAttempts := MAX_RECONNECT_ATTEMPTS, autoReconnectAfterDrop := MAX_AUTO_RECONNECT_AFTER_DROP\<rparr>)"
  have "in_sync (?s2\<lparr>sshDeadEscalated := True\<rparr>)" "sshDeadEscalated s \<Longrightarrow> in_sync ?s2"
    by (rule in_sync_flags [OF s]; use in_sync_single [OF s] in \<open>auto simp: single_def alive_def\<close>)+
  moreover have "in_sync r \<Longrightarrow> in_sync (r\<lparr>escalations := es, reconnectRequests := q\<rparr>)" "in_sync r \<Longrightarrow> in_sync (r\<lparr>escalations := es\<rparr>)" for r es q
    by (auto elim!: in_sync_same)
  ultimately show ?thesis by (auto simp: escalate_def Let_def split: prod.split intro!: in_sync_close)
qed

lemma in_sync_success: assumes s: "in_sync s" shows "in_sync (on_success s)"
  by (rule in_sync_flags [OF s single_on_success [OF in_sync_single [OF s]]]) (simp_all add: on_success_def handshake_done_def)

lemma in_sync_down:
  "in_sync s \<Longrightarrow> \<not> up s' \<Longrightarrow> single s' \<Longrightarrow> (\<forall>n. wsRef s' = Some n \<longrightarrow> has_handlers s' n) \<Longrightarrow> dims s' = dims s \<Longrightarrow>
   lastSent s' = lastSent s \<Longrightarrow> pendingResize s' = pendingResize s \<Longrightarrow> in_sync s'"
  by (cases "up s") (simp_all add: in_sync_def)

lemma waiting_is_down: "single s \<Longrightarrow> in_sync s \<Longrightarrow> waits s \<noteq> [] \<Longrightarrow> \<not> up s"
proof
  assume s: "single s" "in_sync s" "waits s \<noteq> []" and "up s"
  then obtain n where n: "wsRef s = Some n" "is_open s n" by (auto simp: up_def)
  then have "has_handlers s n" using s(2) by (simp add: in_sync_def)
  with n have "n \<in> set (alive s)" by (auto simp: alive_set has_handlers_def is_open_def)
  moreover have "alive s = []" using waits_alone [OF s(1), of 0] s(3) by simp
  ultimately show False by simp
qed

lemma in_sync_wait: assumes s: "in_sync s" shows "in_sync (wait_done k s)"
proof (cases "k < length (waits s)")
  case True
  have "waits s \<noteq> []" using True by auto
  then have one: "single s" "\<not> up s" using in_sync_single [OF s] waiting_is_down [OF in_sync_single [OF s] s] by simp_all
  have w: "single (wait_done k s)" by (rule single_wait [OF one(1)])
  have fields: "dims (wait_done k s) = dims s" "lastSent (wait_done k s) = lastSent s" "pendingResize (wait_done k s) = pendingResize s"
    using True by (auto simp: wait_done_def Let_def connectWebSocket_def split: conn_wait.split)
  show ?thesis
  proof (cases "isRunning s \<and> waits s ! k = EndpointWait")
    case End: True
    have "wsRef (wait_done k s) = Some (length (sockets s))" "sockets (wait_done k s) =
        sockets s @ [\<lparr>readyState = SockConnecting, startPtyDims = None, handlers = True\<rparr>]"
      using End True by (simp_all add: wait_done_def Let_def)
    then show ?thesis by (intro in_sync_down [OF s _ w _ fields]) (auto simp: up_def is_open_def has_handlers_def)
  next
    case False
    then have "wsRef (wait_done k s) = wsRef s" "sockets (wait_done k s) = sockets s"
      using True by (auto simp: wait_done_def Let_def connectWebSocket_def split: conn_wait.split)
    then show ?thesis using one(2) s by (intro in_sync_down [OF s _ w _ fields]) (auto simp: up_def is_open_def has_handlers_def in_sync_def)
  qed
qed (simp add: s wait_done_def)

lemma told_open: "told_size (send_msg n m s) n = (case size_in m of Some d \<Rightarrow> Some d | None \<Rightarrow> told_size s n)"
  "k \<noteq> n \<Longrightarrow> told_size (send_msg n m s) k = told_size s k"
  by (simp_all add: told_size_def send_msg_def telling_def split: option.split)

lemma alive_current: "single s \<Longrightarrow> has_handlers s n \<Longrightarrow> ready s n \<noteq> SockClosed \<Longrightarrow> wsRef s = Some n"
  by (auto simp: single_def alive_set has_handlers_def ready_def split: if_splits)

lemma in_sync_onopen:
  assumes s: "in_sync s" and n: "has_handlers s n" "ready s n = SockConnecting" and p: "pendingResize s = None \<or> pendingResize s = Some (dims s)"
  shows "in_sync (onopen n s)"
proof -
  have one: "single s" by (rule in_sync_single [OF s])
  have ref: "wsRef s = Some n" using alive_current [OF one n(1)] n(2) by simp
  have down: "\<not> up s" using n ref by (auto simp: up_def is_open_def ready_def split: if_splits)
  let ?s1 = "send_msg n (StartPty (dims s)) (set_socket n (\<lambda>k. k\<lparr>readyState := SockOpen, startPtyDims := Some (dims s)\<rparr>) s)"
  have o: "onopen n s = (case pendingResize s of
      None \<Rightarrow> ?s1\<lparr>ptyHandshakeDone := False, startPtyWatchdog := Some n\<rparr>
    | Some d \<Rightarrow> ?s1\<lparr>ptyHandshakeDone := False, startPtyWatchdog := Some n, pendingResize := None, lastSent := d\<rparr>)"
    using p by (auto simp: onopen_def Let_def send_msg_def split: option.split)
  have told: "told_size ?s1 n = Some (dims s)" by (simp add: told_open)
  have f: "dims ?s1 = dims s" "lastSent ?s1 = lastSent s" "wsRef ?s1 = Some n" "pendingResize ?s1 = pendingResize s"
    "sockets ?s1 = (sockets s)[n := (sockets s ! n)\<lparr>readyState := SockOpen, startPtyDims := Some (dims s)\<rparr>]"
    by (simp_all add: send_msg_def set_socket_def ref)
  have h: "n < length (sockets s)" "handlers (sockets s ! n)" using n(1) by (simp_all add: has_handlers_def)
  have sync: "dims (onopen n s) = dims s" "lastSent (onopen n s) = dims s" "wsRef (onopen n s) = Some n" "pendingResize (onopen n s) = None"
    "sockets (onopen n s) = sockets ?s1" "sent (onopen n s) = sent ?s1"
    using f p down s unfolding o by (auto simp: in_sync_def split: option.split)
  have "has_handlers (onopen n s) n" "is_open (onopen n s) n"
    using h unfolding has_handlers_def is_open_def sync(5) f(5) by simp_all
  then show ?thesis using single_onopen [OF one n(2)] told told_same [OF sync(6)] sync
    by (simp add: in_sync_def up_def)
qed

lemma in_sync_pty_started: assumes s: "in_sync s" and n: "hears s n" shows "in_sync (on_pty_started n g s)"
proof -
  have u: "up s" "wsRef s = Some n" using n by (auto simp: up_def hears_def)
  let ?s1 = "grantCredits n INITIAL_WINDOW ((handshake_done s)\<lparr>ptyGeneration := Some g\<rparr>)"
  have s1: "in_sync ?s1" using s by (intro in_sync_grant) (auto simp: handshake_done_def elim!: in_sync_same)
  have "lastSent s = dims s" using s u(1) by (simp add: in_sync_def)
  then have "dims ?s1 = lastSent ?s1" by (simp add: handshake_done_def)
  then have "on_pty_started n g s = set_socket n (\<lambda>k. k\<lparr>startPtyDims := None\<rparr>) ?s1"
    by (simp add: on_pty_started_def Let_def split: option.split)
  moreover have "in_sync (set_socket n (\<lambda>k. k\<lparr>startPtyDims := None\<rparr>) ?s1)"
    by (rule in_sync_set_socket [OF s1]) (use in_sync_single [OF s1] in \<open>auto intro!: single_set_socket\<close>)
  ultimately show ?thesis by simp
qed

lemma in_sync_error: assumes s: "in_sync s" shows "in_sync (on_error i hr now n code msg s)"
proof -
  have "in_sync (s\<lparr>reconnectAttempts := MAX_RECONNECT_ATTEMPTS\<rparr>)"
    by (rule in_sync_flags [OF s]; use in_sync_single [OF s] in \<open>auto simp: single_def alive_def\<close>)
  then show ?thesis using s by (simp add: on_error_def Let_def in_sync_escalate in_sync_close in_sync_report)
qed

lemma in_sync_closes:
  assumes s: "in_sync s" and n: "has_handlers s n" "ready s n \<noteq> SockClosed"
  shows "in_sync (onclose auto (set_socket n (\<lambda>k. k\<lparr>readyState := SockClosed\<rparr>) s))"
proof -
  let ?s = "set_socket n (\<lambda>k. k\<lparr>readyState := SockClosed\<rparr>) s"
  note one = in_sync_single [OF s]
  have ref: "wsRef s = Some n" by (rule alive_current [OF one n])
  have f: "dims (onclose auto ?s) = dims s" "lastSent (onclose auto ?s) = lastSent s" "pendingResize (onclose auto ?s) = pendingResize s"
    "wsRef (onclose auto ?s) = Some n" "sockets (onclose auto ?s) = sockets ?s"
    by (simp_all add: onclose_def Let_def ref)
  have "\<not> up (onclose auto ?s)" using f(4,5) by (auto simp: up_def is_open_def set_socket_def)
  moreover have "has_handlers (onclose auto ?s) n" using n(1) unfolding open_cong(2) [OF f(5)] handlers_set_socket by (simp add: has_handlers_def)
  ultimately show ?thesis using single_closes [OF one n] f by (intro in_sync_down [OF s]) auto
qed

lemma in_sync_resize: assumes s: "in_sync s" and d: "d \<noteq> dims s" shows "in_sync (onResize d s)"
proof -
  have one: "single (s\<lparr>dims := d\<rparr>)" "single (s\<lparr>dims := d, pendingResize := p\<rparr>)" "single (send_msg n m (s\<lparr>dims := d, lastSent := l, pendingResize := p\<rparr>))" for p n m l
    using in_sync_single [OF s] by simp_all
  have h: "wsRef s = Some n \<Longrightarrow> has_handlers s n" for n using s by (simp add: in_sync_def)
  show ?thesis
  proof (cases "up s")
    case True
    then obtain n where n: "wsRef s = Some n" "is_open s n" by (auto simp: up_def)
    have l: "lastSent s = dims s" using s True by (simp add: in_sync_def)
    let ?t = "send_msg n (Resize d) (s\<lparr>dims := d, lastSent := d, pendingResize := None\<rparr>)"
    have "onResize d s = ?t" using n l d by (simp add: onResize_def Let_def is_open_def)
    moreover have "wsRef ?t = Some n" "is_open ?t n" "has_handlers ?t n" "lastSent ?t = d" "dims ?t = d" "pendingResize ?t = None"
      using n h by (simp_all add: send_msg_def is_open_def has_handlers_def)
    moreover have "told_size ?t n = Some d" by (simp add: told_open)
    ultimately show ?thesis using one(3) by (simp add: in_sync_def up_def)
  next
    case False
    then have "\<not> (\<exists>n. wsRef s = Some n \<and> is_open s n)" by (simp add: up_def)
    then have "onResize d s = (if d = lastSent s then s\<lparr>dims := d\<rparr> else s\<lparr>dims := d, pendingResize := Some d\<rparr>)"
      by (auto simp: onResize_def Let_def is_open_def split: option.split)
    moreover have "\<not> up (s\<lparr>dims := d\<rparr>)" "\<not> up (s\<lparr>dims := d, pendingResize := Some d\<rparr>)" using False by (simp_all add: up_def is_open_def)
    ultimately show ?thesis using one h by (cases "d = lastSent s") (simp_all add: in_sync_def has_handlers_def)
  qed
qed

lemma in_sync_detach: assumes s: "in_sync s" shows "in_sync (sendDetach s)"
proof -
  have t: "told_size (send_msg n (DetachSession g) r) m = told_size r m" for n g r m by (simp add: told_size_def send_msg_def telling_def)
  have s1: "in_sync (s\<lparr>detachedRef := True\<rparr>)" using s by (auto elim!: in_sync_same)
  have "in_sync (send_msg n (DetachSession g) (s\<lparr>detachedRef := True\<rparr>))" for n g
    by (rule in_sync_keep [OF s1]) (use in_sync_single [OF s1] t in \<open>simp_all, simp_all add: send_msg_def is_open_def has_handlers_def\<close>)
  then show ?thesis using s s1 by (simp add: sendDetach_def Let_def split: option.split)
qed

lemma in_sync_cleanup: assumes s: "in_sync s" shows "in_sync (cleanup s)"
proof -
  have "dims (cleanup s) = dims s" "lastSent (cleanup s) = lastSent s" "pendingResize (cleanup s) = pendingResize s" "wsRef (cleanup s) = None"
    by (simp_all add: cleanup_def Let_def send_msg_def split: option.split)
  then show ?thesis using single_cleanup [OF in_sync_single [OF s]] by (intro in_sync_down [OF s]) (auto simp: up_def)
qed

lemma in_sync_start: "single (start_effect d s) \<Longrightarrow> wsRef s = None \<Longrightarrow> in_sync (start_effect d s)"
  by (simp add: in_sync_def up_def) (simp add: start_effect_def connectWebSocket_def)

text \<open>The only step that can lose the size: an opening socket while an outdated size waits to be sent.\<close>

fun size_event :: "pty_state \<Rightarrow> pty_event \<Rightarrow> bool" where
  "size_event s (SocketOpens n) = (pendingResize s = None \<or> pendingResize s = Some (dims s))"
| "size_event s e = True"

lemma in_sync_step: "in_sync s \<Longrightarrow> size_event s e \<Longrightarrow> in_sync (pty_step i text_of hr s e)"
proof (cases e)
  case (WaitDone k)
  then show "in_sync s \<Longrightarrow> ?thesis" by (simp add: in_sync_wait)
next
  case (SocketOpens n)
  then show "in_sync s \<Longrightarrow> size_event s e \<Longrightarrow> ?thesis" by (simp add: in_sync_onopen)
next
  case (SocketCloses n auto)
  then show "in_sync s \<Longrightarrow> ?thesis" by (simp add: in_sync_closes)
next
  case (PtyStarted n g)
  then show "in_sync s \<Longrightarrow> ?thesis" by (simp add: in_sync_pty_started)
next
  case (TermResizes d)
  then show "in_sync s \<Longrightarrow> ?thesis" by (simp add: in_sync_resize)
next
  case (WatchdogFires now)
  assume s: "in_sync s"
  then have "in_sync (s\<lparr>startPtyWatchdog := None\<rparr>)" by (auto elim!: in_sync_same)
  then show ?thesis using s WatchdogFires by (simp add: watchdog_fires_def Let_def in_sync_escalate split: option.split)
next
  case (Rebuilds d)
  assume s: "in_sync s"
  have "wsRef (cleanup s) = None" by (simp add: cleanup_def Let_def)
  moreover have "isRunning s \<Longrightarrow> single (start_effect d (cleanup s))" using single_step [OF in_sync_single [OF s], of i text_of hr "Rebuilds d"] by simp
  ultimately show ?thesis using s Rebuilds by (simp add: in_sync_start)
next
  case (ReconnectsByHand d)
  assume s: "in_sync s"
  have "wsRef (cleanup r) = None" for r by (simp add: cleanup_def Let_def)
  moreover have "isRunning s \<Longrightarrow> \<not> hr \<Longrightarrow> single (manual_reconnect d s)"
    using single_step [OF in_sync_single [OF s], of i text_of hr "ReconnectsByHand d"] by simp
  ultimately have "isRunning s \<Longrightarrow> \<not> hr \<Longrightarrow> in_sync (manual_reconnect d s)" by (simp add: manual_reconnect_def in_sync_start)
  moreover have "in_sync (s\<lparr>reconnectRequests := reconnectRequests s + 1\<rparr>)" using s by (auto elim!: in_sync_same)
  ultimately show ?thesis using s ReconnectsByHand by simp
qed (simp_all add: in_sync_enqueue in_sync_success in_sync_error in_sync_report in_sync_flush in_sync_write_done in_sync_detach in_sync_cleanup)

interpretation sizes: action_machine "pty_step i text_of hr" in_sync size_event
  by unfold_locales (rule in_sync_step)

lemma mounted_in_sync: "in_sync (mounted d b)"
  using mounted_single [of d b] unfolding mounted_def by (rule in_sync_start) simp

text \<open>
  (C7) The session has the size of its terminal: in every state with an open socket the size sent last over it is the one of
  the terminal, provided no socket opened while an outdated size was waiting to be sent.
\<close>

theorem session_has_terminal_size:
  assumes "ok_run (pty_step i text_of hr) size_event (mounted d b) es" and "s = run_actions (pty_step i text_of hr) (mounted d b) es"
    and "wsRef s = Some n" "is_open s n"
  shows "told_size s n = Some (dims s)"
proof -
  have "in_sync s" unfolding assms(2) by (rule sizes.run_inv [OF mounted_in_sync assms(1)])
  moreover have "up s" using assms(3,4) by (auto simp: up_def)
  ultimately show ?thesis using assms(3) by (simp add: in_sync_def)
qed

text \<open>
  A size the terminal leaves and takes up again while its socket is still connecting is sent all the same: the session is told
  the size in between, and the check after the start does not notice.
\<close>

theorem resize_back_tells_wrong_size:
  assumes n: "wsRef s = Some n" "has_handlers s n" "ready s n = SockConnecting" and r: "isRunning s"
    and d: "dims s = lastSent s" "d \<noteq> dims s"
  shows "(\<lambda>s'. dims s' = dims s \<and> told_size s' n = Some d)
    (run_actions (pty_step i text_of hr) s [TermResizes d, TermResizes (dims s), SocketOpens n, PtyStarted n g])"
proof -
  have k: "n < length (sockets s)" "handlers (sockets s ! n)" "readyState (sockets s ! n) = SockConnecting"
    using n by (simp_all add: has_handlers_def ready_def split: if_splits)
  define s2 where "s2 = s\<lparr>pendingResize := Some d\<rparr>"
  have two: "run_actions (pty_step i text_of hr) s [TermResizes d, TermResizes (dims s)] = s2"
    using n k r d by (simp add: s2_def onResize_def Let_def is_open_def)
  define s3 where "s3 = onopen n s2"
  have three: "pty_step i text_of hr s2 (SocketOpens n) = s3" using k by (simp add: s2_def s3_def has_handlers_def ready_def)
  have t: "told_size s3 n = Some d"
    using d by (simp add: s3_def s2_def onopen_def Let_def told_size_def send_msg_def set_socket_def telling_def)
  have f: "dims s3 = dims s" "wsRef s3 = Some n" "isRunning s3" "length (sockets s3) = length (sockets s)" "startPtyDims (sockets s3 ! n) = Some (dims s)"
    "handlers (sockets s3 ! n)" "readyState (sockets s3 ! n) = SockOpen"
    using n r k by (simp_all add: s3_def s2_def onopen_def Let_def send_msg_def set_socket_def)
  let ?g = "grantCredits n INITIAL_WINDOW ((handshake_done s3)\<lparr>ptyGeneration := Some g\<rparr>)"
  have "hears s3 n" using f k by (simp add: hears_def is_open_def)
  moreover have "on_pty_started n g s3 = set_socket n (\<lambda>k. k\<lparr>startPtyDims := None\<rparr>) ?g"
    using f(1,5) by (simp add: on_pty_started_def Let_def handshake_done_def)
  moreover have "told_size ?g n = told_size s3 n"
    by (simp add: told_grant) (simp add: told_size_def handshake_done_def)
  ultimately have "dims (pty_step i text_of hr s3 (PtyStarted n g)) = dims s \<and> told_size (pty_step i text_of hr s3 (PtyStarted n g)) n = Some d"
    using f t by (simp add: told_size_def [of "set_socket _ _ _"]) (simp add: told_size_def handshake_done_def)
  moreover have "run_actions (pty_step i text_of hr) s [TermResizes d, TermResizes (dims s), SocketOpens n, PtyStarted n g] =
      pty_step i text_of hr (pty_step i text_of hr s2 (SocketOpens n)) (PtyStarted n g)"
    using two by (simp del: pty_step.simps)
  ultimately show ?thesis by (simp only: three)
qed

section \<open>Credits\<close>

text \<open>
  The bridge sends one frame of output for each credit. What a socket is owed: the frames in the buffer, if its flush is
  scheduled, and those being written.
\<close>

definition owed :: "pty_state \<Rightarrow> nat \<Rightarrow> nat" where
  "owed s n = (if rafId s = Some n then bufferedFrameCount s else 0) + sum_list (map snd (filter (\<lambda>p. fst p = n) (writes s)))"

abbreviation resumes :: "pty_state \<Rightarrow> nat \<Rightarrow> nat" where
  "resumes s n \<equiv> count_list (sent s) (n, Resume)"

fun due :: "string \<Rightarrow> (bytes \<Rightarrow> string) \<Rightarrow> pty_state \<Rightarrow> pty_event \<Rightarrow> nat \<Rightarrow> nat" where
  "due i text_of s (OutputFrame k data txt) n = (if k = n \<and> hears s k \<and> output_payload text_of i data \<noteq> None then 1 else 0)"
| "due i text_of s (OutputMessage k txt) n = (if k = n \<and> hears s k then 1 else 0)"
| "due i text_of s (PtyStarted k g) n = (if k = n \<and> hears s k then 2 else 0)"
| "due i text_of s e n = 0"

text \<open>Output arrives while no flush of another socket is scheduled.\<close>

fun drawn_event :: "pty_state \<Rightarrow> pty_event \<Rightarrow> bool" where
  "drawn_event s (OutputFrame k data txt) = (rafId s = None \<or> rafId s = Some k)"
| "drawn_event s (OutputMessage k txt) = (rafId s = None \<or> rafId s = Some k)"
| "drawn_event s e = True"

definition gone :: "pty_state \<Rightarrow> nat \<Rightarrow> bool" where
  "gone s n \<longleftrightarrow> n < length (sockets s) \<and> readyState (sockets s ! n) \<in> {SockClosing, SockClosed}"

definition began :: "pty_state \<Rightarrow> nat \<Rightarrow> bool" where
  "began s n \<longleftrightarrow> n < length (sockets s) \<and> readyState (sockets s ! n) \<noteq> SockConnecting"

definition credit_ok :: "pty_state \<Rightarrow> bool" where
  "credit_ok s \<longleftrightarrow> single s \<and> (case rafId s of None \<Rightarrow> bufferedFrameCount s = 0 | Some m \<Rightarrow> writeBuffer s \<noteq> [] \<and> began s m) \<and>
     (\<forall>p \<in> set (writes s). began s (fst p)) \<and> (\<forall>n < length (sockets s). \<not> handlers (sockets s ! n) \<longrightarrow> gone s n)"

text \<open>What most steps do to the sockets: they grow older.\<close>

definition older :: "pty_state \<Rightarrow> pty_state \<Rightarrow> bool" where
  "older s s' \<longleftrightarrow> length (sockets s) \<le> length (sockets s') \<and>
     (\<forall>n < length (sockets s). (gone s n \<longrightarrow> gone s' n) \<and> (began s n \<longrightarrow> began s' n) \<and> (handlers (sockets s' ! n) = handlers (sockets s ! n))) \<and>
     (\<forall>n < length (sockets s'). length (sockets s) \<le> n \<longrightarrow> handlers (sockets s' ! n))"

lemma older_same: "sockets s' = sockets s \<Longrightarrow> older s s'"
  by (simp add: older_def gone_def began_def)

lemma older_set_socket:
  assumes "handlers (f (sockets s ! n)) = handlers (sockets s ! n)"
    "readyState (f (sockets s ! n)) = readyState (sockets s ! n) \<or> readyState (f (sockets s ! n)) \<in> {SockClosing, SockClosed} \<or>
      readyState (sockets s ! n) = SockConnecting \<and> readyState (f (sockets s ! n)) = SockOpen"
  shows "older s (set_socket n f s)"
proof -
  have "(gone s m \<longrightarrow> gone (set_socket n f s) m) \<and> (began s m \<longrightarrow> began (set_socket n f s) m) \<and>
      handlers (sockets (set_socket n f s) ! m) = handlers (sockets s ! m)" if "m < length (sockets s)" for m
    using that assms by (cases "m = n") (auto simp: gone_def began_def set_socket_def)
  then show ?thesis by (simp add: older_def)
qed

lemma older_trans: "older s t \<Longrightarrow> older t u \<Longrightarrow> older s u"
  unfolding older_def by (meson le_trans less_le_trans not_le)


lemma credit_ok_step:
  assumes c: "credit_ok s" and o: "older s s'" and "single s'"
    and raf: "rafId s' = rafId s \<and> bufferedFrameCount s' = bufferedFrameCount s \<and> writeBuffer s' = writeBuffer s \<or>
      rafId s' = None \<and> bufferedFrameCount s' = 0"
    and w: "set (writes s') \<subseteq> set (writes s)"
  shows "credit_ok s'"
proof -
  have b: "began s' m" if "began s m" for m using o that by (auto simp: older_def began_def)
  have "gone s' m" if "m < length (sockets s')" "\<not> handlers (sockets s' ! m)" for m
  proof -
    have m: "m < length (sockets s)" using o that by (auto simp: older_def not_le [symmetric])
    then have "\<not> handlers (sockets s ! m)" using o that by (auto simp: older_def)
    then show ?thesis using c o m by (auto simp: credit_ok_def older_def)
  qed
  then show ?thesis using assms b by (auto simp: credit_ok_def split: option.splits)
qed

lemma older_close [simp]: "older s (close_if_open n s)"
proof (cases "is_open s n")
  case True
  then show ?thesis unfolding close_if_open_def if_P [OF True] by (intro older_set_socket) simp_all
qed (simp add: close_if_open_def older_same)

lemma older_basic [simp]:
  "older s (report_status st s)" "older s (send_msg n m s)" "older s (grantCredits n c s)"
  "older s (flushWriteBuffer s)" "older s (enqueueOutput n txt s)" "older s (on_success s)"
  "older s (onclose auto s)" "older s (onResize d s)" "older s (sendDetach s)"
  by (auto intro!: older_same simp: report_status_def send_msg_def grantCredits_def
    flushWriteBuffer_def enqueueOutput_def on_success_def handshake_done_def onclose_def Let_def onResize_def
    sendDetach_def split: option.split)

lemma older_escalate: "older s (escalate i hr now n s)"
proof -
  obtain t where t: "escalate i hr now n s = close_if_open n t" "sockets t = sockets s"
    by (auto simp: escalate_def Let_def split: prod.split)
  show ?thesis unfolding t(1) by (rule older_trans [OF older_same [OF t(2)]]) simp
qed

lemma older_on_pty_started: "older s (on_pty_started n g s)"
proof -
  obtain t where t: "on_pty_started n g s = set_socket n (\<lambda>k. k\<lparr>startPtyDims := None\<rparr>) t" "sockets t = sockets s"
    by (simp add: on_pty_started_def Let_def send_msg_def handshake_done_def)
  show ?thesis unfolding t(1) by (rule older_trans [OF older_same [OF t(2)]]) (rule older_set_socket; simp)
qed

lemma older_onopen: "ready s n = SockConnecting \<Longrightarrow> n < length (sockets s) \<Longrightarrow> older s (onopen n s)"
proof -
  assume n: "ready s n = SockConnecting" "n < length (sockets s)"
  let ?k = "set_socket n (\<lambda>k. k\<lparr>readyState := SockOpen, startPtyDims := Some (dims s)\<rparr>) s"
  have "sockets (onopen n s) = sockets ?k" by (simp add: onopen_def Let_def send_msg_def split: option.split)
  then show ?thesis by (intro older_trans [OF older_set_socket older_same]) (use n in \<open>simp_all add: ready_def\<close>)
qed

lemma older_on_error: "older s (on_error i hr now n code msg s)"
proof -
  have "older t (close_if_open n (report_status Disconnected t))" for t by (rule older_trans [of _ "report_status Disconnected t"]) simp_all
  then have "older s (close_if_open n (report_status Disconnected (s\<lparr>reconnectAttempts := k\<rparr>)))" for k
    using older_trans [OF older_same [of "s\<lparr>reconnectAttempts := k\<rparr>" s]] by simp
  then show ?thesis using \<open>\<And>t. older t (close_if_open n (report_status Disconnected t))\<close>
    by (simp add: on_error_def Let_def older_escalate older_same)
qed

lemma older_wait: "older s (wait_done k s)"
  by (auto simp: wait_done_def Let_def connectWebSocket_def older_def gone_def began_def nth_append split: conn_wait.split)


lemma older_cleanup:
  assumes "n < length (sockets s)" "single s" "\<not> handlers (sockets s ! n) \<longrightarrow> gone s n"
  shows "gone (cleanup s) n"
proof -
  let ?s1 = "s\<lparr>isRunning := False, startPtyWatchdog := None, rafId := None, writeBuffer := [], bufferedFrameCount := 0\<rparr>"
  have k: "sockets (cleanup s) = map (\<lambda>k. k\<lparr>handlers := False\<rparr>)
     (case wsRef s of None \<Rightarrow> sockets s
      | Some m \<Rightarrow> if ready s m = SockClosed then sockets s else (sockets s)[m := (sockets s ! m)\<lparr>readyState := SockClosing\<rparr>])"
    by (auto simp: cleanup_def Let_def send_msg_def set_socket_def ready_def split: option.split)
  show ?thesis
  proof (cases "gone s n")
    case True
    then show ?thesis using assms(1) unfolding gone_def k
      by (cases "wsRef s"; cases "wsRef s = Some n") (auto simp: nth_list_update)
  next
    case False
    then have "n \<in> set (alive s)" using assms by (auto simp: alive_set gone_def)
    then have "wsRef s = Some n" using assms(2) by (simp add: single_def)
    then show ?thesis using assms(1) False unfolding gone_def k by (simp add: ready_def)
  qed
qed

lemma cleanup_frame: "writes (cleanup s) = writes s" "rafId (cleanup s) = None" "bufferedFrameCount (cleanup s) = 0"
  "length (sockets (cleanup s)) = length (sockets s)" "resumes (cleanup s) n = resumes s n"
  by (simp_all add: cleanup_def Let_def send_msg_def split: option.split)

lemma credit_ok_cleanup: assumes c: "credit_ok s" shows "credit_ok (cleanup s)" "n < length (sockets s) \<Longrightarrow> gone (cleanup s) n"
proof -
  have g: "n < length (sockets s) \<Longrightarrow> gone (cleanup s) n" for n using older_cleanup [of n s] c by (simp add: credit_ok_def)
  then show "n < length (sockets s) \<Longrightarrow> gone (cleanup s) n" .
  have "began s n \<Longrightarrow> began (cleanup s) n" for n using g [of n] by (auto simp: began_def gone_def)
  then show "credit_ok (cleanup s)" using c g single_cleanup [of s] by (auto simp: credit_ok_def cleanup_frame)
qed

lemma credit_ok_start: assumes "credit_ok (cleanup s)" shows "credit_ok (start_effect d (cleanup s))"
proof -
  have "single (start_effect d (cleanup s))"
    using assms single_cleanup [of s] by (intro single_start_effect) (auto simp: credit_ok_def single_def cleanup_def Let_def alive_def filter_empty_conv)
  then show ?thesis using assms by (auto simp: credit_ok_def start_effect_def connectWebSocket_def began_def gone_def)
qed

lemma owed_unbegun: "credit_ok s \<Longrightarrow> \<not> began s n \<Longrightarrow> owed s n = 0"
proof -
  assume c: "credit_ok s" and n: "\<not> began s n"
  have "filter (\<lambda>p. fst p = n) (writes s) = []" using c n by (auto simp: credit_ok_def filter_empty_conv)
  moreover have "rafId s \<noteq> Some n" using c n by (auto simp: credit_ok_def)
  ultimately show ?thesis by (simp add: owed_def)
qed

definition balanced :: "string \<Rightarrow> (bytes \<Rightarrow> string) \<Rightarrow> pty_state \<Rightarrow> pty_event \<Rightarrow> pty_state \<Rightarrow> bool" where
  "balanced i text_of s e s' \<longleftrightarrow> credit_ok s' \<and> (\<forall>n. gone s n \<longrightarrow> gone s' n) \<and>
     (\<forall>n. \<not> gone s' n \<longrightarrow> resumes s' n + owed s' n = resumes s n + owed s n + due i text_of s e n)"

lemma balanced_same:
  assumes "credit_ok s" "older s s'" "single s'" "rafId s' = rafId s" "bufferedFrameCount s' = bufferedFrameCount s"
    "writeBuffer s' = writeBuffer s" "writes s' = writes s" "\<And>n. resumes s' n = resumes s n + due i text_of s e n"
  shows "balanced i text_of s e s'"
proof -
  have "credit_ok s'" by (rule credit_ok_step [OF assms(1,2,3)]) (use assms in simp_all)
  moreover have "gone s n \<longrightarrow> gone s' n" for n using assms(2) by (auto simp: older_def gone_def)
  moreover have "owed s' n = owed s n" for n using assms by (simp add: owed_def)
  ultimately show ?thesis using assms(8) by (simp add: balanced_def)
qed

text \<open>What a step leaves alone: the buffer, the writes and, for each socket, the credits given.\<close>

definition quiet :: "pty_state \<Rightarrow> pty_state \<Rightarrow> bool" where
  "quiet s s' \<longleftrightarrow> rafId s' = rafId s \<and> bufferedFrameCount s' = bufferedFrameCount s \<and> writeBuffer s' = writeBuffer s \<and>
     writes s' = writes s \<and> (\<forall>n. resumes s' n = resumes s n)"

lemma quiet_trans: "quiet s t \<Longrightarrow> quiet t u \<Longrightarrow> quiet s u"
  by (simp add: quiet_def)

lemma quiet_basic [simp]:
  "quiet s (report_status st s)" "quiet s (close_if_open n s)" "quiet s (set_socket n f s)" "quiet s (connectWebSocket s)"
  "quiet s (on_success s)" "quiet s (onclose auto s)" "quiet s (wait_done k s)"
  by (auto simp: quiet_def close_if_open_def connectWebSocket_def on_success_def handshake_done_def onclose_def wait_done_def
    Let_def split: conn_wait.split)

lemma quiet_send [simp]: "m \<noteq> Resume \<Longrightarrow> quiet s (send_msg n m s)"
  by (simp add: quiet_def send_msg_def)

lemma quiet_resize [simp]: "quiet s (onResize d s)"
  by (auto simp: quiet_def onResize_def Let_def send_msg_def split: option.split)

lemma quiet_detach [simp]: "quiet s (sendDetach s)"
  by (auto simp: quiet_def sendDetach_def Let_def send_msg_def split: option.split)

lemma quiet_onopen [simp]: "quiet s (onopen n s)"
  by (auto simp: quiet_def onopen_def Let_def send_msg_def split: option.split)

lemma quiet_escalate [simp]: "quiet s (escalate i hr now n s)"
proof -
  obtain t where t: "escalate i hr now n s = close_if_open n t" "quiet s t"
    by (auto simp: escalate_def Let_def quiet_def split: prod.split)
  show ?thesis unfolding t(1) by (rule quiet_trans [OF t(2)]) simp
qed

lemma quiet_watchdog [simp]: "quiet s (watchdog_fires i hr now s)"
proof (cases "startPtyWatchdog s")
  case (Some n)
  have "quiet s (s\<lparr>startPtyWatchdog := None\<rparr>)" by (simp add: quiet_def)
  from quiet_trans [OF this quiet_escalate] this show ?thesis using Some by (simp add: watchdog_fires_def Let_def)
qed (simp add: watchdog_fires_def quiet_def)

lemma quiet_error [simp]: "quiet s (on_error i hr now n code msg s)"
proof -
  have q: "quiet t (close_if_open n (report_status Disconnected t))" for t by (rule quiet_trans [of _ "report_status Disconnected t"]) simp_all
  have r: "quiet s (s\<lparr>reconnectAttempts := k\<rparr>)" "quiet s s" for k by (simp_all add: quiet_def)
  show ?thesis using q r quiet_trans [OF r(1) q] by (simp add: on_error_def Let_def)
qed

lemma older_watchdog: "older s (watchdog_fires i hr now s)"
proof (cases "startPtyWatchdog s")
  case (Some n)
  have "older s (s\<lparr>startPtyWatchdog := None\<rparr>)" by (simp add: older_same)
  from older_trans [OF this older_escalate] this show ?thesis using Some by (simp add: watchdog_fires_def Let_def)
qed (simp add: watchdog_fires_def older_same)

lemma older_closes: "older s (onclose auto (set_socket n (\<lambda>k. k\<lparr>readyState := SockClosed\<rparr>) s))"
  by (rule older_trans [OF older_set_socket older_basic(7)]) simp_all

lemma quiet_closes: "quiet s (onclose auto (set_socket n (\<lambda>k. k\<lparr>readyState := SockClosed\<rparr>) s))"
  by (rule quiet_trans [OF quiet_basic(3) quiet_basic(6)])

lemma balanced_quiet:
  assumes "credit_ok s" "older s (pty_step i text_of hr s e)" "quiet s (pty_step i text_of hr s e)" "\<And>n. due i text_of s e n = 0"
  shows "balanced i text_of s e (pty_step i text_of hr s e)"
  using assms by (intro balanced_same single_step) (auto simp: quiet_def credit_ok_def)

lemma balanced_refl: "credit_ok s \<Longrightarrow> (\<And>n. due i text_of s e n = 0) \<Longrightarrow> balanced i text_of s e s"
  by (simp add: balanced_def owed_def)

lemma balanced_pty_started:
  assumes c: "credit_ok s" and h: "hears s n"
  shows "balanced i text_of s (PtyStarted n g) (on_pty_started n g s)"
proof (rule balanced_same [OF c older_on_pty_started])
  show "single (on_pty_started n g s)" using c by (simp add: credit_ok_def single_on_pty_started)
  have o: "is_open s n" using h by (simp add: hears_def)
  then have o': "is_open (handshake_done s\<lparr>ptyGeneration := Some g\<rparr>) n" by (simp add: is_open_def handshake_done_def)
  show "resumes (on_pty_started n g s) m = resumes s m + due i text_of s (PtyStarted n g) m" for m
    using h o' by (auto simp: on_pty_started_def Let_def grantCredits_def send_msg_def handshake_done_def INITIAL_WINDOW_def numeral_2_eq_2)
qed (simp_all add: on_pty_started_def Let_def send_msg_def handshake_done_def)

lemma balanced_enqueue:
  assumes c: "credit_ok s" and h: "hears s n" and r: "rafId s = None \<or> rafId s = Some n"
    and d: "\<And>m. due i text_of s e m = (if m = n then 1 else 0)"
  shows "balanced i text_of s e (enqueueOutput n txt s)"
proof (cases "txt = []")
  case True
  have o: "is_open s n" using h by (simp add: hears_def)
  show ?thesis
    using c d o unfolding True enqueueOutput_def
    by (intro balanced_same) (simp_all add: credit_ok_def, simp add: grantCredits_def)
next
  case False
  have s: "single (enqueueOutput n txt s)" using c by (simp add: credit_ok_def)
  have n: "began s n" using h by (simp add: hears_def is_open_def began_def)
  have "credit_ok (enqueueOutput n txt s)"
    using c s n r False by (auto simp: credit_ok_def enqueueOutput_def began_def gone_def split: option.splits)
  moreover have "owed (enqueueOutput n txt s) m = owed s m + due i text_of s e m" for m
    using c r False d by (auto simp: owed_def enqueueOutput_def credit_ok_def)
  ultimately show ?thesis using False by (auto simp: balanced_def enqueueOutput_def gone_def)
qed

lemma balanced_flush:
  assumes c: "credit_ok s" shows "balanced i text_of s Draws (flushWriteBuffer s)"
proof (cases "rafId s")
  case (Some m)
  have s: "single (flushWriteBuffer s)" using c by (simp add: credit_ok_def)
  have b: "writeBuffer s \<noteq> []" "began s m" using c Some by (auto simp: credit_ok_def)
  have "credit_ok (flushWriteBuffer s)"
    using c s b Some by (auto simp: credit_ok_def flushWriteBuffer_def began_def gone_def)
  moreover have "owed (flushWriteBuffer s) n = owed s n" for n using b Some by (auto simp: owed_def flushWriteBuffer_def)
  ultimately show ?thesis using b Some by (auto simp: balanced_def flushWriteBuffer_def gone_def)
qed (use c in \<open>simp add: flushWriteBuffer_def balanced_refl\<close>)

lemma count_replicate [simp]: "count_list (replicate c x) y = (if x = y then c else 0)"
  by (induction c) auto

lemma sum_remove_at:
  "k < length xs \<Longrightarrow> sum_list (map snd (filter (\<lambda>p. fst p = n) xs)) =
    sum_list (map snd (filter (\<lambda>p. fst p = n) (remove_at k xs))) + (if fst (xs ! k) = n then snd (xs ! k) else (0::nat))"
  by (subst id_take_nth_drop [of k xs]) (auto simp: remove_at_def)

lemma set_remove_at: "set (remove_at k xs) \<subseteq> set xs"
  by (auto simp: remove_at_def dest: in_set_takeD in_set_dropD)

lemma balanced_write_done:
  assumes c: "credit_ok s" shows "balanced i text_of s (WriteDone k) (write_done k s)"
proof (cases "k < length (writes s)")
  case True
  obtain n c' where w: "writes s ! k = (n, c')" by (cases "writes s ! k")
  let ?s = "s\<lparr>writes := remove_at k (writes s)\<rparr>"
  have e: "write_done k s = grantCredits n c' ?s" using True w by (simp add: write_done_def)
  have "(n, c') \<in> set (writes s)" using True w by (metis nth_mem)
  then have b: "began s n" using c by (auto simp: credit_ok_def)
  have s: "single (write_done k s)" using c by (simp add: credit_ok_def)
  have "credit_ok (write_done k s)"
    using c s by (auto simp: e credit_ok_def grantCredits_def began_def gone_def dest: subsetD [OF set_remove_at] split: option.splits)
  moreover have "gone (write_done k s) m = gone s m" for m by (simp add: e grantCredits_def gone_def)
  moreover have "resumes (write_done k s) m + owed (write_done k s) m = resumes s m + owed s m" if g: "\<not> gone s m" for m
  proof -
    have "n = m \<Longrightarrow> is_open s m" using b g by (cases "readyState (sockets s ! m)") (auto simp: began_def gone_def is_open_def)
    then have "n = m \<Longrightarrow> is_open ?s m" by (simp add: is_open_def)
    then show ?thesis using sum_remove_at [OF True, of m] by (auto simp: e w owed_def grantCredits_def)
  qed
  ultimately show ?thesis by (simp add: balanced_def)
qed (use c in \<open>simp add: write_done_def balanced_refl\<close>)


lemma balanced_cleanup: "credit_ok s \<Longrightarrow> (\<And>n. due i text_of s e n = 0) \<Longrightarrow> balanced i text_of s e (cleanup s)"
proof -
  assume c: "credit_ok s" and d: "\<And>n. due i text_of s e n = 0"
  note g = credit_ok_cleanup [OF c]
  have "resumes (cleanup s) n + owed (cleanup s) n = resumes s n + owed s n" if n: "\<not> gone (cleanup s) n" for n
  proof -
    have "\<not> n < length (sockets s)" using g(2) n by blast
    then have "\<not> began s n" "\<not> began (cleanup s) n" by (simp_all add: began_def cleanup_frame)
    then show ?thesis using owed_unbegun [OF c] owed_unbegun [OF g(1)] by (simp add: cleanup_frame)
  qed
  moreover have "gone s n \<Longrightarrow> gone (cleanup s) n" for n using g(2) by (simp add: gone_def)
  ultimately show ?thesis using g(1) d by (simp add: balanced_def)
qed

lemma balanced_restart: "credit_ok s \<Longrightarrow> (\<And>n. due i text_of s e n = 0) \<Longrightarrow> balanced i text_of s e (start_effect d (cleanup s))"
proof -
  assume c: "credit_ok s" and d: "\<And>n. due i text_of s e n = 0"
  have "gone (start_effect d t) n = gone t n" "resumes (start_effect d t) n = resumes t n" for t n
    by (simp_all add: start_effect_def connectWebSocket_def gone_def)
  moreover have "owed (start_effect d (cleanup s)) n = owed (cleanup s) n" for n
    by (simp add: owed_def start_effect_def connectWebSocket_def cleanup_frame)
  ultimately show ?thesis
    using balanced_cleanup [OF c d] credit_ok_start [OF credit_ok_cleanup(1) [OF c]] by (simp add: balanced_def)
qed

lemma balanced_by_hand:
  "credit_ok s \<Longrightarrow> balanced i text_of s (ReconnectsByHand d) (manual_reconnect d s)"
proof -
  assume c: "credit_ok s"
  let ?s = "s\<lparr>reconnectAttempts := 0, statusRef := Connecting, statusReports := statusReports s @ [Connecting]\<rparr>"
  have "single s" using c by (simp add: credit_ok_def)
  then have "single ?s" by (auto simp: single_def alive_def)
  then have "credit_ok ?s" using c by (auto simp: credit_ok_def began_def gone_def split: option.splits)
  note b = balanced_restart [OF this, of i text_of "ReconnectsByHand d" d]
  have "gone ?s n = gone s n" "owed ?s n = owed s n" for n by (simp_all add: gone_def owed_def)
  then show ?thesis using b by (simp add: balanced_def manual_reconnect_def)
qed

lemma balanced_step:
  assumes c: "credit_ok s" and d: "drawn_event s e"
  shows "balanced i text_of s e (pty_step i text_of hr s e)"
proof (cases e)
  case (WaitDone k)
  show ?thesis by (rule balanced_quiet [OF c]) (simp_all add: WaitDone older_wait)
next
  case (SocketOpens n)
  show ?thesis by (rule balanced_quiet [OF c])
      (simp_all add: SocketOpens older_onopen older_same has_handlers_def, simp add: quiet_def)
next
  case (OutputFrame n data tx)
  then show ?thesis using c d by (auto intro!: balanced_enqueue balanced_refl)
next
  case (OutputMessage n tx)
  then show ?thesis using c d by (auto intro!: balanced_enqueue balanced_refl)
next
  case (Succeeds n)
  show ?thesis by (rule balanced_quiet [OF c]) (simp_all add: Succeeds older_same, simp add: quiet_def)
next
  case (PtyStarted n g)
  then show ?thesis using c by (auto intro!: balanced_pty_started balanced_refl)
next
  case (Fails n code msg now)
  show ?thesis by (rule balanced_quiet [OF c]) (simp_all add: Fails older_on_error older_same, simp add: quiet_def)
next
  case (SocketErrors n)
  show ?thesis by (rule balanced_quiet [OF c]) (simp_all add: SocketErrors older_same, simp add: quiet_def)
next
  case (SocketCloses n auto)
  show ?thesis by (rule balanced_quiet [OF c]) (simp_all add: SocketCloses older_same older_closes quiet_closes, simp add: quiet_def)
next
  case (WatchdogFires now)
  show ?thesis by (rule balanced_quiet [OF c]) (simp_all add: WatchdogFires older_watchdog)
next
  case (TermResizes d)
  show ?thesis by (rule balanced_quiet [OF c]) (simp_all add: TermResizes older_same, simp add: quiet_def)
next
  case Detaches
  show ?thesis by (rule balanced_quiet [OF c]) (simp_all add: Detaches)
next
  case Unmounts
  then show ?thesis using c by (auto intro!: balanced_cleanup balanced_refl)
next
  case (Rebuilds d)
  then show ?thesis using c by (auto intro!: balanced_restart balanced_refl)
next
  case (ReconnectsByHand d)
  have "older s (s\<lparr>reconnectRequests := reconnectRequests s + 1\<rparr>)" by (simp add: older_same)
  moreover have "single (s\<lparr>reconnectRequests := reconnectRequests s + 1\<rparr>)" using c by (simp add: credit_ok_def)
  ultimately have "balanced i text_of s e (s\<lparr>reconnectRequests := reconnectRequests s + 1\<rparr>)"
    by (intro balanced_same [OF c]) (simp_all add: ReconnectsByHand)
  then show ?thesis using c ReconnectsByHand by (auto intro!: balanced_by_hand balanced_refl)
qed (use c in \<open>auto intro!: balanced_flush balanced_write_done\<close>)

fun dues :: "string \<Rightarrow> (bytes \<Rightarrow> string) \<Rightarrow> bool \<Rightarrow> pty_state \<Rightarrow> pty_event list \<Rightarrow> nat \<Rightarrow> nat" where
  "dues i text_of hr s [] n = 0"
| "dues i text_of hr s (e # es) n = due i text_of s e n + dues i text_of hr (pty_step i text_of hr s e) es n"

lemma credits_run:
  "credit_ok s \<Longrightarrow> ok_run (pty_step i text_of hr) drawn_event s es \<Longrightarrow> \<not> gone (run_actions (pty_step i text_of hr) s es) n \<Longrightarrow>
   resumes (run_actions (pty_step i text_of hr) s es) n + owed (run_actions (pty_step i text_of hr) s es) n =
     resumes s n + owed s n + dues i text_of hr s es n"
proof (induction es arbitrary: s)
  case (Cons e es)
  let ?t = "pty_step i text_of hr s e"
  have b: "balanced i text_of s e ?t" using Cons.prems balanced_step by simp
  have still: "credit_ok t \<Longrightarrow> ok_run (pty_step i text_of hr) drawn_event t fs \<Longrightarrow> gone t n \<Longrightarrow>
      gone (run_actions (pty_step i text_of hr) t fs) n" for t fs
    using balanced_step by (induction fs arbitrary: t) (auto simp: balanced_def simp del: pty_step.simps)
  have "\<not> gone ?t n" using still [of ?t es] Cons.prems b by (auto simp: balanced_def simp del: pty_step.simps)
  then show ?case using Cons b by (simp add: balanced_def del: pty_step.simps)
qed simp

lemma mounted_credit_ok: "credit_ok (mounted d b)"
  using mounted_single [of d b] by (simp add: credit_ok_def) (simp add: mounted_def start_effect_def connectWebSocket_def)

text \<open>
  (C6) No credit is lost or made up: while no frame arrives between the flush of an old socket and the next drawing, a
  socket that has not ended has been given two credits for each start of the session and one for each frame of output,
  less the frames that wait to be drawn or written.
\<close>

theorem credits_are_returned:
  assumes "ok_run (pty_step i text_of hr) drawn_event (mounted d b) es"
    and "s = run_actions (pty_step i text_of hr) (mounted d b) es" and "is_open s n"
  shows "resumes s n + owed s n = dues i text_of hr (mounted d b) es n"
proof -
  have "\<not> gone s n" using assms(3) by (simp add: is_open_def gone_def)
  then have "resumes s n + owed s n = resumes (mounted d b) n + owed (mounted d b) n + dues i text_of hr (mounted d b) es n"
    using credits_run [OF mounted_credit_ok assms(1)] assms(2) by simp
  then show ?thesis by (simp add: owed_def mounted_def start_effect_def connectWebSocket_def)
qed

text \<open>
  When an old socket has ended while its flush was still scheduled, as it stays in a window that is not drawn, the output
  of the next socket is written by that flush: its credits go to the old socket, and the new one never sees them.
\<close>

theorem paused_drawing_stalls_output:
  assumes m: "rafId s = Some m" "\<not> is_open s m" and n: "hears s n" and txts: "\<forall>t \<in> set txts. t \<noteq> []" "txts \<noteq> []" and w: "writes s = []"
    and s': "s' = run_actions (pty_step i text_of hr) s (map (OutputMessage n) txts @ [Draws, WriteDone 0])"
  shows "screen s' = screen s @ [writeBuffer s @ concat txts] \<and> writes s' = [] \<and> rafId s' = None \<and> resumes s' n = resumes s n"
proof -
  have "run_actions (pty_step i text_of hr) s (map (OutputMessage n) ts) =
      s\<lparr>writeBuffer := writeBuffer s @ concat ts, bufferedFrameCount := bufferedFrameCount s + length ts\<rparr>"
    if "rafId s = Some m" "hears s n" "\<forall>t \<in> set ts. t \<noteq> []" for ts s
    using that
  proof (induction ts arbitrary: s)
    case (Cons t ts)
    have "enqueueOutput n t s = s\<lparr>writeBuffer := writeBuffer s @ t, bufferedFrameCount := bufferedFrameCount s + 1\<rparr>"
      using Cons.prems by (simp add: enqueueOutput_def)
    then show ?case using Cons by (simp add: hears_def is_open_def)
  qed simp
  note r = this [OF m(1) n txts(1)]
  have ne: "writeBuffer s @ concat txts \<noteq> []" using txts by (cases txts) auto
  have "run_actions (pty_step i text_of hr) t [Draws, WriteDone 0] =
      t\<lparr>rafId := None, screen := screen t @ [writeBuffer t], writeBuffer := [], bufferedFrameCount := 0, writes := []\<rparr>"
    if "rafId t = Some m" "writeBuffer t \<noteq> []" "writes t = []" "\<not> is_open t m" for t
  proof -
    have "\<not> is_open (t\<lparr>rafId := None, screen := screen t @ [writeBuffer t], writeBuffer := [], bufferedFrameCount := 0, writes := []\<rparr>) m"
      using that(4) by (simp add: is_open_def)
    then show ?thesis using that by (simp add: flushWriteBuffer_def write_done_def remove_at_def grantCredits_def)
  qed
  note this [of "s\<lparr>writeBuffer := writeBuffer s @ concat txts, bufferedFrameCount := bufferedFrameCount s + length txts\<rparr>"]
  moreover have "\<not> is_open (s\<lparr>writeBuffer := writeBuffer s @ concat txts, bufferedFrameCount := bufferedFrameCount s + length txts\<rparr>) m"
    using m(2) by (simp add: is_open_def)
  ultimately show ?thesis using s' r m ne w by (simp del: pty_step.simps)
qed

section \<open>Retries\<close>

fun unanswered :: "bool \<Rightarrow> pty_event \<Rightarrow> bool" where
  "unanswered hr (Succeeds n) = False"
| "unanswered hr (Rebuilds d) = False"
| "unanswered hr (ReconnectsByHand d) = hr"
| "unanswered hr e = True"

definition trying :: "pty_state \<Rightarrow> bool" where
  "trying s \<longleftrightarrow> single s \<and> \<not> hasEverConnected s \<and> length (sockets s) + length (waits s) \<le> 1 + reconnectAttempts s"

lemma trying_keep:
  assumes "trying s" "single s'" "hasEverConnected s' = hasEverConnected s" "length (sockets s') = length (sockets s)"
    "waits s' = waits s" "reconnectAttempts s \<le> reconnectAttempts s'"
  shows "trying s'"
  using assms by (simp add: trying_def)

lemma grant_retry_frame [simp]:
  "hasEverConnected (grantCredits n c s) = hasEverConnected s" "waits (grantCredits n c s) = waits s"
  "reconnectAttempts (grantCredits n c s) = reconnectAttempts s"
  by (simp_all add: grantCredits_def)

lemma trying_wait: "trying s \<Longrightarrow> trying (wait_done k s)"
  using single_wait [of s k]
  by (auto simp: trying_def wait_done_def Let_def connectWebSocket_def length_remove_at split: conn_wait.split)

lemma trying_escalate: assumes t: "trying s" shows "trying (escalate i hr now n s)"
proof -
  have s: "single s" using t by (simp add: trying_def)
  show ?thesis
    by (rule trying_keep [OF t single_escalate [OF s]])
      (use s in \<open>auto simp: escalate_def Let_def close_if_open_def single_def split: prod.split\<close>)
qed

lemma trying_closes:
  assumes t: "trying s" and n: "has_handlers s n" "ready s n \<noteq> SockClosed"
  shows "trying (onclose auto (set_socket n (\<lambda>k. k\<lparr>readyState := SockClosed\<rparr>) s))"
  using t single_closes [OF _ n, of auto] by (auto simp: trying_def onclose_def Let_def)

lemma trying_step:
  assumes t: "trying s" and e: "unanswered hr e"
  shows "trying (pty_step i text_of hr s e)"
proof -
  have s: "single s" using t by (simp add: trying_def)
  have same: "trying (pty_step i text_of hr s e)"
    if "hasEverConnected (pty_step i text_of hr s e) = hasEverConnected s" "length (sockets (pty_step i text_of hr s e)) = length (sockets s)"
      "waits (pty_step i text_of hr s e) = waits s" "reconnectAttempts s \<le> reconnectAttempts (pty_step i text_of hr s e)"
    using trying_keep [OF t single_step [OF s]] that by simp
  have five: "reconnectAttempts s \<le> MAX_RECONNECT_ATTEMPTS" using s by (simp add: single_def)
  show ?thesis
  proof (cases e)
    case (WaitDone k)
    then show ?thesis using t by (simp add: trying_wait)
  next
    case (SocketCloses n auto)
    then show ?thesis using t by (simp add: trying_closes)
  next
    case (WatchdogFires now)
    have "trying (s\<lparr>startPtyWatchdog := None\<rparr>)" using t by (simp add: trying_def)
    then show ?thesis using t WatchdogFires by (simp add: watchdog_fires_def Let_def trying_escalate split: option.split)
  next
    case (Fails n code msg now)
    show ?thesis
    proof (cases "code = Some ''ssh_session_dead''")
      case False
      show ?thesis by (rule same) (use five False in \<open>simp_all add: Fails on_error_def Let_def close_if_open_def\<close>)
    qed (use t in \<open>simp add: Fails on_error_def trying_escalate\<close>)
  next
    case (SocketOpens n)
    show ?thesis by (rule same) (simp_all add: SocketOpens onopen_def Let_def send_msg_def split: option.split)
  next
    case (OutputFrame n data tx)
    show ?thesis by (rule same) (simp_all add: OutputFrame enqueueOutput_def grantCredits_def)
  next
    case (OutputMessage n tx)
    show ?thesis by (rule same) (simp_all add: OutputMessage enqueueOutput_def grantCredits_def)
  next
    case (PtyStarted n g)
    show ?thesis by (rule same) (simp_all add: PtyStarted on_pty_started_def Let_def send_msg_def handshake_done_def)
  next
    case (SocketErrors n)
    show ?thesis by (rule same) (simp_all add: SocketErrors)
  next
    case Draws
    show ?thesis by (rule same) (simp_all add: Draws flushWriteBuffer_def split: option.split)
  next
    case (WriteDone k)
    show ?thesis by (rule same) (simp_all add: WriteDone write_done_def split: prod.split)
  next
    case (TermResizes d)
    show ?thesis by (rule same) (simp_all add: TermResizes onResize_def Let_def send_msg_def split: option.split)
  next
    case Detaches
    show ?thesis by (rule same) (simp_all add: Detaches sendDetach_def Let_def send_msg_def split: option.split)
  next
    case Unmounts
    show ?thesis by (rule same) (simp_all add: Unmounts cleanup_def Let_def send_msg_def split: option.split)
  next
    case (ReconnectsByHand d)
    have "trying (s\<lparr>reconnectRequests := reconnectRequests s + 1\<rparr>)" using t by (simp add: trying_def)
    then show ?thesis using e ReconnectsByHand by simp
  qed (use e in simp_all)
qed

interpretation retries: action_machine "pty_step i text_of hr" trying "\<lambda>_. unanswered hr"
  by unfold_locales (rule trying_step)

text \<open>
  (C21) A session that never confirms its start is tried six times at most: without a success, a rebuilt terminal or a
  reconnect by hand, no more than six sockets are ever created.
\<close>

theorem unanswered_retries_are_bounded:
  assumes "\<forall>e \<in> set es. unanswered hr e"
  shows "length (sockets (run_actions (pty_step i text_of hr) (mounted d b) es)) \<le> 6"
proof -
  have m: "trying (mounted d b)"
    using mounted_single [of d b] by (simp add: trying_def) (simp add: mounted_def start_effect_def connectWebSocket_def)
  have "ok_run (pty_step i text_of hr) (\<lambda>_. unanswered hr) (mounted d b) es"
  proof -
    have "ok_run (pty_step i text_of hr) (\<lambda>_. unanswered hr) t es" for t
      using assms by (induction es arbitrary: t) (auto simp del: pty_step.simps)
    then show ?thesis .
  qed
  note r = retries.run_inv [OF m this]
  then have "reconnectAttempts (run_actions (pty_step i text_of hr) (mounted d b) es) \<le> 5"
    by (simp add: trying_def single_def MAX_RECONNECT_ATTEMPTS_def)
  with r show ?thesis by (simp add: trying_def)
qed

text \<open>
  The watchdog of a socket that has closed is still set: when it fires while the next retry waits, the terminal asks for a
  full reconnect and then opens the socket of the retry all the same.
\<close>

theorem watchdog_outlives_its_socket:
  assumes n: "has_handlers s n" "ready s n = SockOpen" "startPtyWatchdog s = Some n" "\<not> ptyHandshakeDone s" "waits s = []"
    and r: "isRunning s" "\<not> hasEverConnected s" "\<not> sshDeadEscalated s" "\<not> detachedRef s" "reconnectAttempts s < 5"
    and s': "s' = run_actions (pty_step i text_of hr) s [SocketCloses n True, WatchdogFires now, WaitDone 0, WaitDone 0, WaitDone 0]"
  shows "sshDeadEscalated s' \<and> wsRef s' = Some (length (sockets s)) \<and> ready s' (length (sockets s)) = SockConnecting"
proof -
  let ?c = "set_socket n (\<lambda>k. k\<lparr>readyState := SockClosed\<rparr>) s"
  define s1 where "s1 = onclose True ?c"
  have k: "n < length (sockets s)" using n by (simp add: has_handlers_def)
  have one: "pty_step i text_of hr s (SocketCloses n True) = s1" using n by (simp add: s1_def)
  have w: "length (waits s1) = 1" "\<exists>d. waits s1 = [Backoff d]" "isRunning s1" "startPtyWatchdog s1 = Some n" "\<not> ptyHandshakeDone s1"
    "\<not> sshDeadEscalated s1" "sockets s1 = sockets ?c"
    using n r by (simp_all add: s1_def onclose_def Let_def MAX_RECONNECT_ATTEMPTS_def) (simp_all add: set_socket_def)
  define s2 where "s2 = escalate i hr now n (s1\<lparr>startPtyWatchdog := None\<rparr>)"
  have two: "pty_step i text_of hr s1 (WatchdogFires now) = s2" using w by (simp add: watchdog_fires_def s2_def)
  have closed: "\<not> is_open t n" if "sockets t = sockets ?c" for t using that k by (simp add: is_open_def set_socket_def)
  have v: "waits s2 = waits s1" "isRunning s2" "sshDeadEscalated s2" "length (sockets s2) = length (sockets s)"
    using w by (auto simp: s2_def escalate_def Let_def close_if_open_def split: prod.split)
  obtain d where d: "waits s1 = [Backoff d]" using w(2) by blast
  have "run_actions (pty_step i text_of hr) s2 [WaitDone 0, WaitDone 0, WaitDone 0] =
      (report_status Connecting (s2\<lparr>waits := []\<rparr>))\<lparr>sockets := sockets s2 @ [\<lparr>readyState = SockConnecting, startPtyDims = None, handlers = True\<rparr>],
        wsRef := Some (length (sockets s2)), waits := []\<rparr>"
    using v d by (simp add: wait_done_def remove_at_def connectWebSocket_def report_status_def)
  then have "s' = (report_status Connecting (s2\<lparr>waits := []\<rparr>))\<lparr>sockets := sockets s2 @ [\<lparr>readyState = SockConnecting, startPtyDims = None, handlers = True\<rparr>],
        wsRef := Some (length (sockets s2)), waits := []\<rparr>"
    using s' one two by (simp del: pty_step.simps)
  then show ?thesis using v by (simp add: ready_def nth_append)
qed

definition session_opened :: "pty_event list" where
  "session_opened = [WaitDone 0, WaitDone 0, SocketOpens 0, Succeeds 0, PtyStarted 0 1]"

abbreviation demo :: "pty_event list \<Rightarrow> pty_state" where
  "demo es \<equiv> run_actions (pty_step ''a'' (\<lambda>_. '''') False) (mounted (80, 24) []) es"

lemma credits_are_returned_witness:
  "resumes (demo (session_opened @ [OutputMessage 0 ''x'', Draws, WriteDone 0])) 0 = 3"
proof -
  have "resumes (demo (session_opened @ [OutputMessage 0 ''x'', Draws, WriteDone 0])) 0 + owed (demo (session_opened @ [OutputMessage 0 ''x'', Draws, WriteDone 0])) 0 =
      dues ''a'' (\<lambda>_. '''') False (mounted (80, 24) []) (session_opened @ [OutputMessage 0 ''x'', Draws, WriteDone 0]) 0"
    by (rule credits_are_returned [OF _ refl]) (code_simp+)
  moreover have "owed (demo (session_opened @ [OutputMessage 0 ''x'', Draws, WriteDone 0])) 0 = 0" by code_simp
  moreover have "dues ''a'' (\<lambda>_. '''') False (mounted (80, 24) []) (session_opened @ [OutputMessage 0 ''x'', Draws, WriteDone 0]) 0 = 3" by code_simp
  ultimately show ?thesis by simp
qed

lemma session_has_terminal_size_witness:
  "told_size (demo (session_opened @ [TermResizes (100, 30)])) 0 = Some (100, 30)"
proof -
  have "told_size (demo (session_opened @ [TermResizes (100, 30)])) 0 = Some (dims (demo (session_opened @ [TermResizes (100, 30)])))"
    by (rule session_has_terminal_size [OF _ refl]) (code_simp+)
  moreover have "dims (demo (session_opened @ [TermResizes (100, 30)])) = (100, 30)" by code_simp
  ultimately show ?thesis by simp
qed

lemma drops_are_always_retried_witness:
  "waits (pty_step ''a'' (\<lambda>_. '''') False (demo session_opened) (SocketCloses 0 True)) = [Backoff 2000]"
  by (rule drops_are_always_retried [OF refl, THEN conjunct1]) (code_simp+)


lemma unanswered_retries_are_bounded_witness:
  "length (sockets (demo [WaitDone 0, WaitDone 0, SocketOpens 0, SocketCloses 0 True])) \<le> 6"
  by (rule unanswered_retries_are_bounded) simp

definition redrawn :: pty_state where
  "redrawn = demo (session_opened @ [OutputMessage 0 ''a'', SocketCloses 0 True, WaitDone 0, WaitDone 0, WaitDone 0, SocketOpens 1, Succeeds 1,
     PtyStarted 1 2])"

lemma redrawn_facts:
  "rafId redrawn = Some 0" "\<not> is_open redrawn 0" "hears redrawn 1" "writes redrawn = []" "resumes redrawn 1 = 2"
  by (simp_all add: redrawn_def session_opened_def mounted_def start_effect_def wait_done_def remove_at_def onopen_def on_success_def
    on_pty_started_def onclose_def pty_defs hears_def is_open_def has_handlers_def ready_def INITIAL_WINDOW_def Let_def
    MAX_AUTO_RECONNECT_AFTER_DROP_def)

lemma paused_drawing_stalls_output_witness:
  "resumes (run_actions (pty_step ''a'' (\<lambda>_. '''') False) redrawn (map (OutputMessage 1) [''b'', ''c''] @ [Draws, WriteDone 0])) 1 = 2"
proof -
  have "\<forall>t \<in> set [''b'', ''c'']. t \<noteq> []" "[''b'', ''c''] \<noteq> []" by simp_all
  note paused_drawing_stalls_output [OF redrawn_facts(1,2,3) this redrawn_facts(4) refl, of "''a''" "\<lambda>_. ''''" False]
  then show ?thesis by (simp only: redrawn_facts(5))
qed

end
