(* ===== verification/Spec2Isabelle.thy ===== *)
theory Spec2Isabelle
  imports TabAbstract TransferInv SessionRestore SyncPlan PathProps AsyncRetry FolderRename LayoutRestart
    SocksProxies Snippets ConfigBundle ConnectionForm FileDrop EditorWindows
    ShortcutHookProps CorruptBackup AppReconnect AppTabs PtySessionProps
begin

text \<open>
  Verification of the frontend logic of r-shell, an SSH/SFTP/RDP client: a React application in
  TypeScript over a Rust backend reached through Tauri commands. The development models the modules of
  \<open>src/src/lib\<close> that carry the application's own logic, with the parts of the components that belong to
  them. Every definition is translated from the source and keeps its name where it can.

  \<^bold>\<open>Parts and theories.\<close>

  \<^item> \<open>Prelude\<close>, \<open>JsObject\<close>, \<open>Json\<close>: arrays, strings, sorting, dictionaries and JSON values as the source
    uses them, and the interfaces \<open>action_machine\<close> (a transition function with an invariant its admissible
    steps keep), \<open>preference\<close> (a comparison a sort may rely on) and \<open>js_record\<close> (a dictionary). Objects are
    association lists in insertion order; the order of \<open>Object.keys\<close> is modelled. \<open>Storage\<close>: an item of the
    local storage (absent, unreadable, or a JSON value) and the interface \<open>keyed_store\<close> of a stored list that
    is a map from ids to entries.
  \<^item> Terminal groups (\<open>terminal-group-reducer.ts\<close>, \<open>terminal-group-types.ts\<close>): \<open>GridLayout\<close> is the split
    tree of panes with their sizes, \<open>TabGroups\<close> the whole reducer over groups, tabs and the tab map.
    \<open>TabGroupsInv\<close> proves the consistency invariant of every action, \<open>TabGroupsProps\<close> its consequences
    for runs, \<open>TabAbstract\<close> the refinement of a map from tab ids to tabs.
  \<^item> Saved layout (\<open>terminal-group-serializer.ts\<close>, \<open>terminal-group-context.tsx\<close>, \<open>startup-restore.ts\<close>):
    \<open>LayoutStore\<close> models saving, validation, deduplication, migration and the start; \<open>LayoutRestart\<close>
    proves the round trip through a restart and the healing of damaged data. It rests on the invariant of
    \<open>TabGroups\<close>, since the provider saves what the reducer reaches.
  \<^item> Restoring sessions (\<open>restoration-manager.ts\<close>, \<open>restore-timing.ts\<close>, \<open>connect-guard.ts\<close>,
    \<open>session-health.ts\<close>, the restore loop of \<open>App.tsx\<close>): \<open>SessionRestore\<close>.
  \<^item> Transfer queue (\<open>transfer-queue-reducer.ts\<close>, \<open>transfer-queue-service.ts\<close>, \<open>transfer-progress.ts\<close>):
    \<open>TransferQueue\<close> is the reducer, \<open>TransferService\<close> the service around it as a step function over
    requests, answers of the backend and progress events; \<open>TransferInv\<close> holds its invariant, the
    settling of promises and the draining of the queue.
  \<^item> Directory synchronisation (\<open>sync-types.ts\<close>, \<open>sync-dialog.tsx\<close>): \<open>SyncCompare\<close> is the comparison,
    \<open>SyncPlan\<close> what its plans do when executed and in which order.
  \<^item> Paths (\<open>upload-paths.ts\<close>): \<open>Paths\<close>, \<open>PathProps\<close>. Retry (\<open>async-retry.ts\<close>): \<open>AsyncRetry\<close>.
  \<^item> Saved connections (\<open>connection-storage.ts\<close>, \<open>credential-crypto.ts\<close>, \<open>connection-manager.tsx\<close>):
    \<open>ConnectionStore\<close> and \<open>ConnectionOps\<close> are the records and operations, \<open>ConnectionProps\<close> the
    protection of unreadable stores and of secrets, \<open>SecretMigration\<close> the sealing of legacy secrets and keys at
    the start, \<open>FolderTree\<close> the tree of folders and moving, \<open>FolderRename\<close> renaming, \<open>CorruptBackup\<close> the
    backups of values that do not parse.
  \<^item> Connecting (\<open>ssh-connect-request.ts\<close>, \<open>ftp-connect-request.ts\<close>, \<open>protocol-config.ts\<close>, \<open>host-key.ts\<close>,
    \<open>ssh-connect.ts\<close>, \<open>connection-config.ts\<close>): \<open>ConnectRequest\<close> builds the requests and asks about changed host
    keys. \<open>ConnectionForm\<close> is the dialog (\<open>connection-dialog.tsx\<close>): the form, what it stores and sends, and its
    state machine over attempts, cancellations and their answers. The dialog writes through the fields of
    \<open>ConnectionStore\<close> and sends what \<open>ConnectRequest\<close> builds.
  \<^item> Profiles (\<open>connection-profiles.ts\<close>): \<open>Profiles\<close>. Snippets (\<open>snippet-storage.ts\<close>, \<open>quick-commands-panel.tsx\<close>):
    \<open>Snippets\<close>. Editor windows (\<open>editor-windows-store.ts\<close>): \<open>EditorWindows\<close>. All three provide a \<open>keyed_store\<close>.
    SOCKS proxies (\<open>socks-proxy-store.ts\<close>): \<open>SocksProxies\<close>.
  \<^item> Settings (\<open>terminal-config.ts\<close>, \<open>editor-config.ts\<close>, \<open>layout-config.ts\<close>, \<open>layout-context.tsx\<close>): \<open>Settings\<close>,
    with their properties in \<open>SettingsProps\<close>. \<open>ConfigBundle\<close> (\<open>config-export-import.ts\<close>) moves them, the
    connections, the profiles and the shortcuts from one installation to another.
  \<^item> Keyboard shortcuts (\<open>keyboard-shortcuts.ts\<close>, \<open>shortcut-registry.ts\<close>): \<open>Shortcuts\<close> is parsing,
    accelerators, key events, saved overrides and the conflict analysis, \<open>ShortcutProps\<close> their
    properties; \<open>ShortcutHook\<close> is the registration with the system as a state machine over focus
    events and answers of the plugin, \<open>ShortcutHookProps\<close> what the system holds after each.
  \<^item> File drop (\<open>use-webview-file-drop.ts\<close>): \<open>FileDrop\<close>, the zones of the mounted panels as a state machine over
    mounts, renders and drag events.
  \<^item> The window (\<open>App.tsx\<close>): \<open>AppWindow\<close> holds the handlers that open, connect, duplicate, reconnect, detach, reattach,
    save and close tabs, as a step function over clicks, timers and answers; it acts on the groups of \<open>TabGroups\<close>, the
    connections of \<open>ConnectionStore\<close>, the guard of \<open>SessionRestore\<close> and the list of \<open>EditorWindows\<close>. \<open>AppWindowInv\<close>
    proves what every event keeps, \<open>AppSessions\<close> that the sidebar leaves no session without a tab, \<open>AppReconnect\<close> what
    becomes of reconnects. \<open>AppTabs\<close> is the navigation between tabs and the list of tabs for the next launch, which
    \<open>SessionRestore\<close> reads over the layout that \<open>LayoutRestart\<close> shows to be restored.

  \<^item> The terminal session (\<open>pty-terminal.tsx\<close>, \<open>websocket_server.rs\<close>): \<open>PtyInput\<close> is the prefix key, the budget of full
    reconnects and the binary frames with their parsers on both ends of the bridge. \<open>PtySession\<close> is the connection of a
    mounted terminal as a step function: sockets, handshake, watchdog, retries, flow control, sizes, detaching and cleanup.
    \<open>PtySessionProps\<close> proves that there is one connection, that the retries are bounded, that the session has the size of
    the terminal and that the credits of the flow control balance, each with its exceptions.

  \<^bold>\<open>State and events.\<close> A module with mutable state is a record and a function from state and event to
  state. Asynchronous calls are split at their \<open>await\<close>: the call is put into the state, its answer is an
  event, so that every interleaving of answers is a list of events. \<open>run_actions\<close> runs such a list, \<open>ok_run\<close>
  says that each event is admissible where it happens (an answer only to a call in flight). Clocks and
  random ids are arguments.

  \<^bold>\<open>Errors.\<close> A thrown error is \<open>None\<close> or a constructor of the result; a failing write to the local
  storage is an argument of the write.

  \<^bold>\<open>Bounds and fuel.\<close> The walks over the tree of folders (\<open>collectValidPaths\<close>, \<open>buildFolderTree\<close>) take a fuel;
  any number above the length of every folder's path is enough, as \<open>FolderTree.tree_is_complete\<close> shows. The
  search for a free backup key is a \<open>partial_function\<close> whose termination is proved; the other loops are
  structural or have a measure. Numbers of the source are \<open>int\<close>, \<open>nat\<close> or exact rationals, the hash of
  editor windows is a word of 32 bits; rounding of doubles is not modelled, except that sizes of panes may be
  NaN. Characters are code units below 256.

  \<^bold>\<open>Not modelled.\<close> The Rust backend (but the frames of the bridge), the rendering of the React components, the terminal
  emulator, translations, styles, tests and scripts: they are calls into libraries, or another language.
  Sealing of credentials is done by the backend and is a parameter. Reading the focused element from the
  document is an argument of the focus events. Of the application shell the opening of windows and panels, the
  menus and the texts of messages are left out; the panels that list files, show logs and monitor the system are not
  modelled.
\<close>

end
